(* ===== verification/RC_Prelude.thy ===== *)
theory RC_Prelude
  imports "HOL-Library.Word"
begin

text \<open>
  Shared vocabulary of the development: the machine integers of the C and C++ sources as
  words of their width, the collections of rewrite rules that the component theories fill,
  and generic lemmas on words, lists and runs of state machines that several components use.
\<close>

unbundle bit_operations_syntax

section \<open>Machine integers\<close>

type_synonym u8 = "8 word"
type_synonym u16 = "16 word"
type_synonym u32 = "32 word"
type_synonym u64 = "64 word"
type_synonym i8 = "8 word"
type_synonym i32 = "32 word"

text \<open>
  Signed values share the word type; they are compared with the signed orders of
  HOL-Library.Word and read with \<open>sint\<close>. Instants and durations of \<open>std::chrono\<close> are
  integers (nanoseconds, or milliseconds where the code counts milliseconds); the clock
  values of the code stay far from the ends of their 64-bit range.
\<close>

type_synonym time_ns = int

section \<open>Collections\<close>

named_theorems gate_simps \<open>equations that evaluate the transmit gates\<close>
named_theorems safety_simps \<open>definitions of the predicates of the safety manager\<close>
named_theorems arbiter_simps \<open>definitions of the predicates of the arbiter\<close>

section \<open>Words\<close>

lemma word_sless_sint: "a <s b \<longleftrightarrow> sint a < sint b"
  by (simp add: word_sless_alt)

lemma word_sle_sint: "a \<le>s b \<longleftrightarrow> sint a \<le> sint b"
  by (simp add: word_sle_eq)

lemma sint_uminus_nonneg:
  fixes w :: "'a::len word"
  assumes "0 \<le> sint w"
  shows "sint (- w) = - sint w"
proof -
  have up: "sint w < 2 ^ (LENGTH('a) - 1)"
    using sint_lt [of w] by simp
  have "- (2 ^ (LENGTH('a) - 1)) \<le> - sint w" "- sint w < 2 ^ (LENGTH('a) - 1)"
    using up assms by auto
  then have "signed_take_bit (LENGTH('a) - 1) (- sint w) = - sint w"
    by (simp add: signed_take_bit_int_eq_self)
  moreover have "sint (- w) = signed_take_bit (LENGTH('a) - 1) (- sint w)"
    by (rule sint_word_ariths)
  ultimately show ?thesis by simp
qed

lemma word_and_or_not_split: "(w AND m) OR (w AND NOT m) = (w :: 'a::len word)"
  by (rule bit_word_eqI) (auto simp: bit_simps)

section \<open>Runs of a deterministic component\<close>

text \<open>
  A component of the control loop is a step function that consumes one input and returns an
  output and the next state; \<open>run_outputs\<close> feeds it a list of inputs, oldest first.
\<close>

fun run_outputs :: "('s \<Rightarrow> 'i \<Rightarrow> 'o \<times> 's) \<Rightarrow> 's \<Rightarrow> 'i list \<Rightarrow> 'o list" where
  "run_outputs f s [] = []"
| "run_outputs f s (i # is) = fst (f s i) # run_outputs f (snd (f s i)) is"

fun run_state :: "('s \<Rightarrow> 'i \<Rightarrow> 'o \<times> 's) \<Rightarrow> 's \<Rightarrow> 'i list \<Rightarrow> 's" where
  "run_state f s [] = s"
| "run_state f s (i # is) = run_state f (snd (f s i)) is"

lemma length_run_outputs [simp]: "length (run_outputs f s is) = length is"
  by (induction "is" arbitrary: s) auto

lemma run_state_append [simp]: "run_state f s (xs @ ys) = run_state f (run_state f s xs) ys"
  by (induction xs arbitrary: s) auto

lemma run_outputs_append:
  "run_outputs f s (xs @ ys) = run_outputs f s xs @ run_outputs f (run_state f s xs) ys"
  by (induction xs arbitrary: s) auto

lemma run_state_invariant:
  assumes "\<And>s i. P s \<Longrightarrow> P (snd (f s i))" and "P s"
  shows "P (run_state f s is)"
  using assms(2) by (induction "is" arbitrary: s) (auto intro: assms(1))

lemma run_outputs_all:
  assumes "\<And>s i. I s \<Longrightarrow> P (fst (f s i))" and "\<And>s i. I s \<Longrightarrow> I (snd (f s i))" and "I s"
  shows "list_all P (run_outputs f s is)"
  using assms(3) by (induction "is" arbitrary: s) (auto intro: assms(1,2))

text \<open>
  A stamp that every step keeps or raises, and that every output selected by \<open>sel\<close> raises to
  the output's own stamp: then the stamps of the selected outputs increase strictly and lie
  above the stamp at the start. Both the arbiter's and the safety manager's replay
  protection are instances.
\<close>

locale stamped_machine =
  fixes f :: "'s \<Rightarrow> 'i \<Rightarrow> 'o \<times> 's"
    and stamp :: "'s \<Rightarrow> nat"
    and sel :: "'o \<Rightarrow> bool"
    and out_stamp :: "'o \<Rightarrow> nat"
  assumes stamp_mono: "stamp s \<le> stamp (snd (f s i))"
    and sel_above: "sel (fst (f s i)) \<Longrightarrow> stamp s < out_stamp (fst (f s i))"
    and sel_recorded: "sel (fst (f s i)) \<Longrightarrow> out_stamp (fst (f s i)) \<le> stamp (snd (f s i))"
begin

lemma run_stamp_mono: "stamp s \<le> stamp (run_state f s is)"
proof (induction "is" arbitrary: s)
  case Nil
  show ?case by simp
next
  case (Cons i "is")
  have "stamp s \<le> stamp (snd (f s i))" by (rule stamp_mono)
  also have "\<dots> \<le> stamp (run_state f (snd (f s i)) is)" by (rule Cons.IH)
  finally show ?case by simp
qed

lemma selected_above_start:
  "out \<in> set (run_outputs f s is) \<Longrightarrow> sel out \<Longrightarrow> stamp s < out_stamp out"
proof (induction "is" arbitrary: s)
  case Nil
  then show ?case by simp
next
  case (Cons i "is")
  show ?case
  proof (cases "out = fst (f s i)")
    case True
    with Cons.prems sel_above show ?thesis by simp
  next
    case False
    with Cons.prems have "stamp (snd (f s i)) < out_stamp out"
      by (auto intro: Cons.IH)
    with stamp_mono [of s i] show ?thesis by simp
  qed
qed

lemma selected_strictly_increasing:
  "sorted_wrt (<) (map out_stamp (filter sel (run_outputs f s is)))"
proof (induction "is" arbitrary: s)
  case Nil
  show ?case by simp
next
  case (Cons i "is")
  have "out_stamp (fst (f s i)) < out_stamp out"
    if "sel (fst (f s i))" "out \<in> set (run_outputs f (snd (f s i)) is)" "sel out" for out
    using sel_recorded [OF that(1)] selected_above_start [OF that(2,3)] by simp
  with Cons.IH [of "snd (f s i)"] show ?case by auto
qed

end

end
