(* ===== verification/Domain_Command.thy ===== *)
theory Domain_Command
  imports RC_Prelude
begin

text \<open>
  Command samples and freshness: \<open>domain/time/monotonic_time.hpp\<close> and
  \<open>domain/command/command_sample.hpp\<close>. A producer (the SBUS receiver or the external
  planner) publishes one \<open>command_sample\<close> per cycle; the arbiter and the safety manager
  read it.
\<close>

section \<open>Freshness\<close>

definition is_fresh :: "time_ns \<Rightarrow> time_ns \<Rightarrow> time_ns \<Rightarrow> bool" where
  "is_fresh now timestamp timeout \<longleftrightarrow>
     timeout \<ge> 0 \<and> timestamp \<le> now \<and> now - timestamp \<le> timeout"

lemma is_fresh_bounds:
  "is_fresh now ts timeout \<longleftrightarrow> 0 \<le> timeout \<and> now \<in> {ts .. ts + timeout}"
  by (auto simp: is_fresh_def)

lemma is_fresh_self [simp]: "is_fresh t t timeout \<longleftrightarrow> 0 \<le> timeout"
  by (simp add: is_fresh_def)

lemma is_fresh_expires:
  assumes "is_fresh now ts timeout" "ts + timeout < later"
  shows "\<not> is_fresh later ts timeout"
  using assms by (simp add: is_fresh_def)

section \<open>Motion commands and samples\<close>

datatype source = Src_None | Src_Sbus | Src_External

record motion_command =
  left_rpm :: i32
  right_rpm :: i32
  stop_requested :: bool

definition zero_command :: motion_command where
  "zero_command = \<lparr>left_rpm = 0, right_rpm = 0, stop_requested = True\<rparr>"

definition is_zero :: "motion_command \<Rightarrow> bool" where
  "is_zero c \<longleftrightarrow> stop_requested c \<or> (left_rpm c = 0 \<and> right_rpm c = 0)"

lemma is_zero_zero_command [simp]: "is_zero zero_command"
  by (simp add: is_zero_def zero_command_def)

record command_sample =
  cs_source :: source
  cs_command :: motion_command
  cs_captured_at :: time_ns
  cs_session_generation :: u64
  cs_authorization_generation :: u64
  cs_sequence :: u64
  cs_valid :: bool
  cs_coherent :: bool
  cs_enabled :: bool
  cs_lost :: bool
  cs_failsafe :: bool

definition default_sample :: command_sample where
  "default_sample =
     \<lparr>cs_source = Src_None, cs_command = zero_command, cs_captured_at = 0,
      cs_session_generation = 0, cs_authorization_generation = 0, cs_sequence = 0,
      cs_valid = False, cs_coherent = False, cs_enabled = False, cs_lost = False,
      cs_failsafe = False\<rparr>"

definition structurally_valid :: "command_sample \<Rightarrow> source \<Rightarrow> bool" where
  "structurally_valid s expected \<longleftrightarrow>
     cs_source s = expected \<and> cs_valid s \<and> cs_coherent s \<and> cs_enabled s \<and>
     \<not> cs_lost s \<and> \<not> cs_failsafe s \<and> cs_session_generation s \<noteq> 0 \<and>
     cs_authorization_generation s \<noteq> 0 \<and> cs_sequence s \<noteq> 0"

lemma default_sample_invalid [simp]: "\<not> structurally_valid default_sample e"
  by (simp add: structurally_valid_def default_sample_def)

end
