(* ===== verification/Domain_Arbiter.thy ===== *)
theory Domain_Arbiter
  imports Domain_Command
begin

text \<open>
  The command arbiter, \<open>domain/control/control_arbiter.{hpp,cpp}\<close>: one \<open>arbiter\<close> record
  per \<open>ControlArbiter\<close> object, one definition per member function. \<open>arbiter_evaluate\<close>
  is the control-cycle entry point; it returns the selected command and the next state.
\<close>

section \<open>Data\<close>

datatype arbiter_reason =
    Reason_none | Input_incoherent | No_valid_source | Sbus_unavailable
  | External_unavailable | Zero_qualifying | Rearm_required | Rearm_replay | Sequence_replay

fun flag :: "arbiter_reason \<Rightarrow> u32" where
  "flag Reason_none = 0"
| "flag Input_incoherent = 1"
| "flag No_valid_source = push_bit 1 1"
| "flag Sbus_unavailable = push_bit 2 1"
| "flag External_unavailable = push_bit 3 1"
| "flag Zero_qualifying = push_bit 4 1"
| "flag Rearm_required = push_bit 5 1"
| "flag Rearm_replay = push_bit 6 1"
| "flag Sequence_replay = push_bit 7 1"

record arbiter_config =
  sbus_timeout :: time_ns
  external_timeout :: time_ns
  handover_zero_dwell :: time_ns
  max_abs_rpm :: i32

definition default_arbiter_config :: arbiter_config where
  "default_arbiter_config =
     \<lparr>sbus_timeout = 100000000, external_timeout = 100000000,
      handover_zero_dwell = 150000000, max_abs_rpm = 1000\<rparr>"

record arbiter_input =
  in_sbus :: command_sample
  in_external :: command_sample
  in_coherent :: bool

record selected_command =
  sel_source :: source
  sel_command :: motion_command
  sel_selected_at :: time_ns
  sel_session_generation :: u64
  sel_authorization_generation :: u64
  sel_handover_generation :: u64
  sel_reason_flags :: u32
  sel_valid :: bool

definition selected_inhibited :: "selected_command \<Rightarrow> bool" where
  "selected_inhibited s \<longleftrightarrow> \<not> sel_valid s \<or> sel_source s = Src_None \<or> is_zero (sel_command s)"

record producer_history =
  hist_session :: u64
  hist_sequence :: u64

record arbiter =
  arb_config :: arbiter_config
  arb_sbus_history :: producer_history
  arb_external_history :: producer_history
  arb_both_zero_since :: time_ns
  arb_last_external_auth :: u64
  arb_required_external_auth :: u64
  arb_handover_generation :: u64
  arb_both_zero_tracking :: bool
  arb_external_recovery_required :: bool
  arb_manual_was_authoritative :: bool

section \<open>Operations\<close>

definition arbiter_init :: "arbiter_config \<Rightarrow> arbiter" where
  "arbiter_init config =
     \<lparr>arb_config = (if max_abs_rpm config <s 0 then config\<lparr>max_abs_rpm := 0\<rparr> else config),
      arb_sbus_history = \<lparr>hist_session = 0, hist_sequence = 0\<rparr>,
      arb_external_history = \<lparr>hist_session = 0, hist_sequence = 0\<rparr>,
      arb_both_zero_since = 0, arb_last_external_auth = 0, arb_required_external_auth = 0,
      arb_handover_generation = 0, arb_both_zero_tracking = False,
      arb_external_recovery_required = True, arb_manual_was_authoritative = False\<rparr>"

definition sample_usable ::
  "command_sample \<Rightarrow> source \<Rightarrow> time_ns \<Rightarrow> time_ns \<Rightarrow> producer_history \<Rightarrow> u32
     \<Rightarrow> bool \<times> producer_history \<times> u32" where
  "sample_usable sample expected timeout now history reasons =
     (if \<not> structurally_valid sample expected \<or> \<not> is_fresh now (cs_captured_at sample) timeout
      then (False, history,
            reasons OR flag (if expected = Src_Sbus then Sbus_unavailable
                             else External_unavailable))
      else if cs_session_generation sample < hist_session history \<or>
              (hist_session history = cs_session_generation sample \<and>
               cs_sequence sample < hist_sequence history)
      then (False, history, reasons OR flag Sequence_replay)
      else (True,
            (if hist_session history < cs_session_generation sample
             then \<lparr>hist_session = cs_session_generation sample,
                   hist_sequence = cs_sequence sample\<rparr>
             else history\<lparr>hist_sequence := max (hist_sequence history) (cs_sequence sample)\<rparr>),
            reasons))"

definition update_zero_tracking ::
  "arbiter_input \<Rightarrow> bool \<Rightarrow> bool \<Rightarrow> time_ns \<Rightarrow> arbiter \<Rightarrow> arbiter" where
  "update_zero_tracking inp sbus_usable external_usable now a =
     (let both_zero = sbus_usable \<and> external_usable \<and>
                      is_zero (cs_command (in_sbus inp)) \<and> is_zero (cs_command (in_external inp))
      in if \<not> both_zero then a\<lparr>arb_both_zero_tracking := False\<rparr>
         else if \<not> arb_both_zero_tracking a
         then a\<lparr>arb_both_zero_tracking := True, arb_both_zero_since := now\<rparr>
         else a)"

definition arbiter_inhibited :: "arbiter \<Rightarrow> time_ns \<Rightarrow> u32 \<Rightarrow> selected_command" where
  "arbiter_inhibited a now reasons =
     \<lparr>sel_source = Src_None, sel_command = zero_command, sel_selected_at = now,
      sel_session_generation = 0, sel_authorization_generation = 0,
      sel_handover_generation = arb_handover_generation a, sel_reason_flags = reasons,
      sel_valid = False\<rparr>"

definition clamp_i32 :: "i32 \<Rightarrow> i32 \<Rightarrow> i32 \<Rightarrow> i32" where
  "clamp_i32 v lo hi = (if v <s lo then lo else if hi <s v then hi else v)"

definition bounded :: "arbiter \<Rightarrow> motion_command \<Rightarrow> motion_command" where
  "bounded a requested =
     (let limit = max_abs_rpm (arb_config a)
      in \<lparr>left_rpm = clamp_i32 (left_rpm requested) (- limit) limit,
          right_rpm = clamp_i32 (right_rpm requested) (- limit) limit,
          stop_requested = stop_requested requested\<rparr>)"

definition raise_required_auth :: "arbiter_input \<Rightarrow> arbiter \<Rightarrow> arbiter" where
  "raise_required_auth inp a =
     a\<lparr>arb_external_recovery_required := True,
       arb_required_external_auth :=
         max (arb_required_external_auth a) (cs_authorization_generation (in_external inp))\<rparr>"

definition selected_from ::
  "arbiter \<Rightarrow> source \<Rightarrow> command_sample \<Rightarrow> time_ns \<Rightarrow> u32 \<Rightarrow> selected_command" where
  "selected_from a src sample now reasons =
     \<lparr>sel_source = src, sel_command = bounded a (cs_command sample), sel_selected_at = now,
      sel_session_generation = cs_session_generation sample,
      sel_authorization_generation = cs_authorization_generation sample,
      sel_handover_generation = arb_handover_generation a, sel_reason_flags = reasons,
      sel_valid = True\<rparr>"

text \<open>
  The two calls of \<open>sample_usable\<close> (SBUS first) with the histories and reasons they thread,
  then the zero tracking: what \<open>evaluate\<close> computes before it chooses a source.
\<close>

definition arbiter_observe ::
  "arbiter \<Rightarrow> arbiter_input \<Rightarrow> time_ns \<Rightarrow> bool \<times> bool \<times> bool \<times> u32 \<times> arbiter" where
  "arbiter_observe a inp now =
     (let (sbus_usable, sh, r1) =
            sample_usable (in_sbus inp) Src_Sbus (sbus_timeout (arb_config a)) now
              (arb_sbus_history a) 0;
          (external_usable, eh, r2) =
            sample_usable (in_external inp) Src_External (external_timeout (arb_config a)) now
              (arb_external_history a) r1;
          zero_was_qualified =
            arb_both_zero_tracking a \<and>
            now - arb_both_zero_since a \<ge> handover_zero_dwell (arb_config a)
      in (sbus_usable, external_usable, zero_was_qualified, r2,
          update_zero_tracking inp sbus_usable external_usable now
            (a\<lparr>arb_sbus_history := sh, arb_external_history := eh\<rparr>)))"

definition arbiter_evaluate ::
  "arbiter \<Rightarrow> arbiter_input \<Rightarrow> time_ns \<Rightarrow> selected_command \<times> arbiter" where
  "arbiter_evaluate a inp now =
     (if \<not> in_coherent inp
      then let a1 = raise_required_auth inp a;
               a2 = a1\<lparr>arb_handover_generation := arb_handover_generation a1 + 1\<rparr>
           in (arbiter_inhibited a2 now (flag Input_incoherent), a2)
      else let (sbus_usable, external_usable, zero_was_qualified, reasons, a1) =
                 arbiter_observe a inp now
      in if sbus_usable \<and> \<not> is_zero (cs_command (in_sbus inp))
      then let a2 = (if arb_manual_was_authoritative a1 then a1
                     else a1\<lparr>arb_handover_generation := arb_handover_generation a1 + 1\<rparr>);
               a3 = raise_required_auth inp (a2\<lparr>arb_manual_was_authoritative := True\<rparr>)
           in (selected_from a3 Src_Sbus (in_sbus inp) now reasons, a3)
      else if \<not> sbus_usable \<or> \<not> external_usable
      then let a2 = raise_required_auth inp a1;
               a3 = (if arb_manual_was_authoritative a2
                     then a2\<lparr>arb_handover_generation := arb_handover_generation a2 + 1,
                             arb_manual_was_authoritative := False\<rparr>
                     else a2)
           in (arbiter_inhibited a3 now (reasons OR flag No_valid_source), a3)
      else if is_zero (cs_command (in_external inp))
      then (arbiter_inhibited a1 now (reasons OR flag Zero_qualifying), a1)
      else if arb_external_recovery_required a1 \<and> \<not> zero_was_qualified
      then (arbiter_inhibited a1 now (reasons OR flag Rearm_required), a1)
      else if cs_authorization_generation (in_external inp) \<le>
                max (arb_last_external_auth a1) (arb_required_external_auth a1)
      then (arbiter_inhibited a1 now (reasons OR flag Rearm_replay), a1)
      else let a2 = a1\<lparr>arb_last_external_auth := cs_authorization_generation (in_external inp),
                      arb_external_recovery_required := False,
                      arb_manual_was_authoritative := False\<rparr>
           in (selected_from a2 Src_External (in_external inp) now reasons, a2))"

definition arbiter_step ::
  "arbiter \<Rightarrow> arbiter_input \<times> time_ns \<Rightarrow> selected_command \<times> arbiter" where
  "arbiter_step a i = arbiter_evaluate a (fst i) (snd i)"

section \<open>What the arbiter computes\<close>

text \<open>
  The usability test without the history and reason plumbing, and the two sources' conditions
  for authority. The lemmas below show that \<open>arbiter_evaluate\<close> selects exactly by them.
\<close>

definition replayed :: "producer_history \<Rightarrow> command_sample \<Rightarrow> bool" where
  "replayed h s \<longleftrightarrow>
     cs_session_generation s < hist_session h \<or>
     (hist_session h = cs_session_generation s \<and> cs_sequence s < hist_sequence h)"

definition producer_usable ::
  "command_sample \<Rightarrow> source \<Rightarrow> time_ns \<Rightarrow> time_ns \<Rightarrow> producer_history \<Rightarrow> bool" where
  "producer_usable s expected timeout now h \<longleftrightarrow>
     structurally_valid s expected \<and> is_fresh now (cs_captured_at s) timeout \<and> \<not> replayed h s"

definition sbus_ok :: "arbiter \<Rightarrow> arbiter_input \<Rightarrow> time_ns \<Rightarrow> bool" where
  "sbus_ok a inp now =
     producer_usable (in_sbus inp) Src_Sbus (sbus_timeout (arb_config a)) now (arb_sbus_history a)"

definition external_ok :: "arbiter \<Rightarrow> arbiter_input \<Rightarrow> time_ns \<Rightarrow> bool" where
  "external_ok a inp now =
     producer_usable (in_external inp) Src_External (external_timeout (arb_config a)) now
       (arb_external_history a)"

definition dwell_qualified :: "arbiter \<Rightarrow> time_ns \<Rightarrow> bool" where
  "dwell_qualified a now \<longleftrightarrow>
     arb_both_zero_tracking a \<and> now - arb_both_zero_since a \<ge> handover_zero_dwell (arb_config a)"

definition auth_floor :: "arbiter \<Rightarrow> u64" where
  "auth_floor a = max (arb_last_external_auth a) (arb_required_external_auth a)"

definition manual_authority :: "arbiter \<Rightarrow> arbiter_input \<Rightarrow> time_ns \<Rightarrow> bool" where
  "manual_authority a inp now \<longleftrightarrow>
     in_coherent inp \<and> sbus_ok a inp now \<and> \<not> is_zero (cs_command (in_sbus inp))"

definition external_authority :: "arbiter \<Rightarrow> arbiter_input \<Rightarrow> time_ns \<Rightarrow> bool" where
  "external_authority a inp now \<longleftrightarrow>
     in_coherent inp \<and> sbus_ok a inp now \<and> external_ok a inp now \<and>
     is_zero (cs_command (in_sbus inp)) \<and> \<not> is_zero (cs_command (in_external inp)) \<and>
     (arb_external_recovery_required a \<longrightarrow> dwell_qualified a now) \<and>
     auth_floor a < cs_authorization_generation (in_external inp)"

lemmas [arbiter_simps] =
  sbus_ok_def external_ok_def dwell_qualified_def auth_floor_def
  manual_authority_def external_authority_def

lemma sample_usable_fst:
  "fst (sample_usable s e t now h r) = producer_usable s e t now h"
  by (auto simp: sample_usable_def producer_usable_def replayed_def)

text \<open>The state after the observation part differs in the histories and the zero tracking only.\<close>

definition observed :: "arbiter \<Rightarrow> arbiter_input \<Rightarrow> time_ns \<Rightarrow> arbiter" where
  "observed a inp now = snd (snd (snd (snd (arbiter_observe a inp now))))"

definition observed_reasons :: "arbiter \<Rightarrow> arbiter_input \<Rightarrow> time_ns \<Rightarrow> u32" where
  "observed_reasons a inp now = fst (snd (snd (snd (arbiter_observe a inp now))))"

lemma arbiter_observe_eq:
  "arbiter_observe a inp now =
     (sbus_ok a inp now, external_ok a inp now, dwell_qualified a now,
      observed_reasons a inp now, observed a inp now)"
  by (simp add: observed_def observed_reasons_def arbiter_observe_def sbus_ok_def external_ok_def
      dwell_qualified_def Let_def case_prod_beta sample_usable_fst)

lemma update_zero_tracking_frame [simp]:
  "arb_config (update_zero_tracking i u v now a) = arb_config a"
  "arb_last_external_auth (update_zero_tracking i u v now a) = arb_last_external_auth a"
  "arb_required_external_auth (update_zero_tracking i u v now a) = arb_required_external_auth a"
  "arb_handover_generation (update_zero_tracking i u v now a) = arb_handover_generation a"
  "arb_external_recovery_required (update_zero_tracking i u v now a) =
     arb_external_recovery_required a"
  "arb_manual_was_authoritative (update_zero_tracking i u v now a) =
     arb_manual_was_authoritative a"
  by (simp_all add: update_zero_tracking_def Let_def)

lemma observed_frame [simp]:
  "arb_config (observed a inp now) = arb_config a"
  "arb_last_external_auth (observed a inp now) = arb_last_external_auth a"
  "arb_required_external_auth (observed a inp now) = arb_required_external_auth a"
  "arb_handover_generation (observed a inp now) = arb_handover_generation a"
  "arb_external_recovery_required (observed a inp now) = arb_external_recovery_required a"
  "arb_manual_was_authoritative (observed a inp now) = arb_manual_was_authoritative a"
  by (simp_all add: observed_def arbiter_observe_def Let_def case_prod_beta)

lemma observed_zero_tracking:
  "arb_both_zero_tracking (observed a inp now) \<longleftrightarrow>
     sbus_ok a inp now \<and> external_ok a inp now \<and>
     is_zero (cs_command (in_sbus inp)) \<and> is_zero (cs_command (in_external inp))"
  "arb_both_zero_tracking (observed a inp now) \<Longrightarrow>
     arb_both_zero_since (observed a inp now) =
       (if arb_both_zero_tracking a then arb_both_zero_since a else now)"
  by (auto simp: observed_def arbiter_observe_def update_zero_tracking_def Let_def case_prod_beta
      sample_usable_fst sbus_ok_def external_ok_def split: if_splits)

lemma raise_required_auth_frame [simp]:
  "arb_config (raise_required_auth i a) = arb_config a"
  "arb_last_external_auth (raise_required_auth i a) = arb_last_external_auth a"
  "arb_required_external_auth (raise_required_auth i a) =
     max (arb_required_external_auth a) (cs_authorization_generation (in_external i))"
  "arb_handover_generation (raise_required_auth i a) = arb_handover_generation a"
  "arb_external_recovery_required (raise_required_auth i a)"
  "arb_manual_was_authoritative (raise_required_auth i a) = arb_manual_was_authoritative a"
  "arb_both_zero_tracking (raise_required_auth i a) = arb_both_zero_tracking a"
  "arb_both_zero_since (raise_required_auth i a) = arb_both_zero_since a"
  by (simp_all add: raise_required_auth_def)

lemma arbiter_evaluate_cases:
  obtains
    (incoherent) "\<not> in_coherent inp"
      "fst (arbiter_evaluate a inp now) =
         arbiter_inhibited (snd (arbiter_evaluate a inp now)) now (flag Input_incoherent)"
      "snd (arbiter_evaluate a inp now) =
         (raise_required_auth inp a)\<lparr>arb_handover_generation := arb_handover_generation a + 1\<rparr>"
  | (manual) "manual_authority a inp now"
      "\<exists>a' r. fst (arbiter_evaluate a inp now) = selected_from a' Src_Sbus (in_sbus inp) now r \<and>
         arb_config a' = arb_config a"
      "snd (arbiter_evaluate a inp now) =
         raise_required_auth inp ((observed a inp now)
           \<lparr>arb_handover_generation :=
               (if arb_manual_was_authoritative a then arb_handover_generation a
                else arb_handover_generation a + 1),
            arb_manual_was_authoritative := True\<rparr>)"
  | (lost) "in_coherent inp" "\<not> manual_authority a inp now"
      "\<not> sbus_ok a inp now \<or> \<not> external_ok a inp now"
      "\<exists>a' r. fst (arbiter_evaluate a inp now) = arbiter_inhibited a' now r"
      "snd (arbiter_evaluate a inp now) =
         raise_required_auth inp ((observed a inp now)
           \<lparr>arb_handover_generation :=
               (if arb_manual_was_authoritative a then arb_handover_generation a + 1
                else arb_handover_generation a),
            arb_manual_was_authoritative := False\<rparr>)"
  | (held) "in_coherent inp" "\<not> manual_authority a inp now" "\<not> external_authority a inp now"
      "sbus_ok a inp now" "external_ok a inp now"
      "\<exists>r. fst (arbiter_evaluate a inp now) = arbiter_inhibited (observed a inp now) now r"
      "snd (arbiter_evaluate a inp now) = observed a inp now"
  | (external) "external_authority a inp now"
      "\<exists>a' r. fst (arbiter_evaluate a inp now) =
         selected_from a' Src_External (in_external inp) now r \<and> arb_config a' = arb_config a"
      "snd (arbiter_evaluate a inp now) =
         (observed a inp now)
           \<lparr>arb_last_external_auth := cs_authorization_generation (in_external inp),
            arb_external_recovery_required := False, arb_manual_was_authoritative := False\<rparr>"
proof -
  note ev = arbiter_evaluate_def [of a inp now] arbiter_observe_eq [of a inp now]
  consider (i) "\<not> in_coherent inp"
    | (m) "manual_authority a inp now"
    | (l) "in_coherent inp" "\<not> manual_authority a inp now"
        "\<not> sbus_ok a inp now \<or> \<not> external_ok a inp now"
    | (h) "in_coherent inp" "\<not> manual_authority a inp now" "\<not> external_authority a inp now"
        "sbus_ok a inp now" "external_ok a inp now"
    | (e) "external_authority a inp now"
    by blast
  then show thesis
  proof cases
    case i
    then show thesis by (intro incoherent) (simp_all add: ev Let_def)
  next
    case m
    then show thesis
      by (intro manual)
        (auto simp: ev manual_authority_def Let_def raise_required_auth_def
          intro!: arbiter.equality)
  next
    case l
    then show thesis
      by (intro lost)
        (auto simp: ev manual_authority_def Let_def raise_required_auth_def
          intro!: arbiter.equality)
  next
    case h
    then have "is_zero (cs_command (in_sbus inp))" by (simp add: manual_authority_def)
    with h show thesis
      by (intro held)
        (auto simp: ev external_authority_def auth_floor_def Let_def not_less le_max_iff_disj)
  next
    case e
    then have "\<not> cs_authorization_generation (in_external inp) \<le>
        max (arb_last_external_auth a) (arb_required_external_auth a)"
      by (simp add: external_authority_def auth_floor_def not_le)
    with e show thesis
      by (intro external)
        (fastforce simp: ev external_authority_def Let_def simp del: max_less_iff_conj)+
  qed
qed

section \<open>Frames and bounds\<close>

lemma selected_from_simps [simp]:
  "sel_valid (selected_from a src s now r)"
  "sel_source (selected_from a src s now r) = src"
  "sel_command (selected_from a src s now r) = bounded a (cs_command s)"
  "sel_selected_at (selected_from a src s now r) = now"
  "sel_session_generation (selected_from a src s now r) = cs_session_generation s"
  "sel_authorization_generation (selected_from a src s now r) = cs_authorization_generation s"
  by (simp_all add: selected_from_def)

lemma arbiter_inhibited_simps [simp]:
  "\<not> sel_valid (arbiter_inhibited a now r)"
  "sel_source (arbiter_inhibited a now r) = Src_None"
  "sel_command (arbiter_inhibited a now r) = zero_command"
  "sel_selected_at (arbiter_inhibited a now r) = now"
  by (simp_all add: arbiter_inhibited_def)

lemma arbiter_evaluate_config [simp]:
  "arb_config (snd (arbiter_evaluate a inp now)) = arb_config a"
  by (cases rule: arbiter_evaluate_cases [of inp a now]) auto

lemma clamp_i32_bounds:
  assumes "sint lo \<le> sint hi"
  shows "sint lo \<le> sint (clamp_i32 v lo hi)" "sint (clamp_i32 v lo hi) \<le> sint hi"
  using assms by (auto simp: clamp_i32_def word_sless_sint)

lemma clamp_i32_id: "sint lo \<le> sint v \<Longrightarrow> sint v \<le> sint hi \<Longrightarrow> clamp_i32 v lo hi = v"
  by (auto simp: clamp_i32_def word_sless_sint)

definition limit_ok :: "arbiter \<Rightarrow> bool" where
  "limit_ok a \<longleftrightarrow> 0 \<le> sint (max_abs_rpm (arb_config a))"

definition within_limit :: "int \<Rightarrow> motion_command \<Rightarrow> bool" where
  "within_limit limit c \<longleftrightarrow> \<bar>sint (left_rpm c)\<bar> \<le> limit \<and> \<bar>sint (right_rpm c)\<bar> \<le> limit"

lemma within_limit_zero [simp]: "within_limit limit zero_command \<longleftrightarrow> 0 \<le> limit"
  by (simp add: within_limit_def zero_command_def)

lemma bounded_within_limit:
  assumes "limit_ok a"
  shows "within_limit (sint (max_abs_rpm (arb_config a))) (bounded a c)"
proof -
  let ?l = "max_abs_rpm (arb_config a)"
  have neg: "sint (- ?l) = - sint ?l"
    using assms by (simp add: limit_ok_def sint_uminus_nonneg)
  with assms have le: "sint (- ?l) \<le> sint ?l" by (simp add: limit_ok_def)
  show ?thesis
    using clamp_i32_bounds [OF le, of "left_rpm c"] clamp_i32_bounds [OF le, of "right_rpm c"]
    by (simp add: within_limit_def bounded_def Let_def neg abs_le_iff)
qed

lemma bounded_id:
  assumes "within_limit (sint (max_abs_rpm (arb_config a))) c"
  shows "bounded a c = c"
proof -
  let ?l = "max_abs_rpm (arb_config a)"
  have "0 \<le> sint ?l" using assms by (auto simp: within_limit_def)
  then have "sint (- ?l) = - sint ?l" by (rule sint_uminus_nonneg)
  with assms show ?thesis
    by (auto simp: within_limit_def bounded_def Let_def clamp_i32_id)
qed

lemma limit_ok_init [simp]: "limit_ok (arbiter_init config)"
  by (simp add: limit_ok_def arbiter_init_def word_sless_sint)

lemma limit_ok_step: "limit_ok a \<Longrightarrow> limit_ok (snd (arbiter_step a i))"
  by (simp add: limit_ok_def arbiter_step_def)

lemma arbiter_init_limit:
  "sint (max_abs_rpm (arb_config (arbiter_init config))) = max 0 (sint (max_abs_rpm config))"
  by (auto simp: arbiter_init_def word_sless_sint)

section \<open>Who holds authority\<close>

lemma manual_excludes_external: "manual_authority a inp now \<Longrightarrow> \<not> external_authority a inp now"
  by (simp add: manual_authority_def external_authority_def)

lemma external_usable:
  "external_authority a inp now \<Longrightarrow>
   in_coherent inp \<and> sbus_ok a inp now \<and> external_ok a inp now"
  by (simp add: external_authority_def)

lemma manual_coherent: "manual_authority a inp now \<Longrightarrow> in_coherent inp \<and> sbus_ok a inp now"
  by (simp add: manual_authority_def)

lemma manual_output:
  assumes "manual_authority a inp now"
  obtains a' r where
    "fst (arbiter_evaluate a inp now) = selected_from a' Src_Sbus (in_sbus inp) now r"
    "arb_config a' = arb_config a"
  using assms manual_excludes_external [OF assms] manual_coherent [OF assms]
  by (cases rule: arbiter_evaluate_cases [of inp a now]) (simp_all, blast)

lemma external_output:
  assumes "external_authority a inp now"
  obtains a' r where
    "fst (arbiter_evaluate a inp now) = selected_from a' Src_External (in_external inp) now r"
    "arb_config a' = arb_config a"
  using assms manual_excludes_external [of a inp now] external_usable [OF assms]
  by (cases rule: arbiter_evaluate_cases [of inp a now]) (simp_all, blast)

lemma no_authority_output:
  assumes "\<not> manual_authority a inp now" "\<not> external_authority a inp now"
  obtains a' r where "fst (arbiter_evaluate a inp now) = arbiter_inhibited a' now r"
  using assms by (cases rule: arbiter_evaluate_cases [of inp a now]) blast+

text \<open>
  C3: one control cycle selects exactly by the authority conditions. A usable SBUS sample that
  asks for motion wins and its bounded command is selected; otherwise the external command is
  selected only under the external conditions (both producers usable, SBUS at zero, a
  qualified zero dwell when recovery is required, and an authorization generation above
  every one consumed or revoked before); in every other cycle the selection is invalid,
  without a source and at zero.
\<close>

theorem arbiter_selects_by_authority:
  "let out = fst (arbiter_evaluate a inp now) in
     if manual_authority a inp now
     then sel_valid out \<and> sel_source out = Src_Sbus \<and>
          sel_command out = bounded a (cs_command (in_sbus inp)) \<and>
          sel_authorization_generation out = cs_authorization_generation (in_sbus inp)
     else if external_authority a inp now
     then sel_valid out \<and> sel_source out = Src_External \<and>
          sel_command out = bounded a (cs_command (in_external inp)) \<and>
          sel_authorization_generation out = cs_authorization_generation (in_external inp)
     else \<not> sel_valid out \<and> sel_source out = Src_None \<and> sel_command out = zero_command"
proof -
  consider (m) "manual_authority a inp now"
    | (e) "\<not> manual_authority a inp now" "external_authority a inp now"
    | (n) "\<not> manual_authority a inp now" "\<not> external_authority a inp now"
    by blast
  then show ?thesis
  proof cases
    case m
    show ?thesis
      by (rule manual_output [OF m]) (simp add: Let_def m bounded_def)
  next
    case e
    show ?thesis
      by (rule external_output [OF e(2)]) (simp add: Let_def e bounded_def)
  next
    case n
    show ?thesis
      by (rule no_authority_output [OF n]) (simp add: Let_def n)
  qed
qed

lemma external_selected_iff:
  "sel_valid (fst (arbiter_evaluate a inp now)) \<and>
   sel_source (fst (arbiter_evaluate a inp now)) = Src_External \<longleftrightarrow> external_authority a inp now"
  (is "?sel \<longleftrightarrow> _")
proof
  assume sel: ?sel
  show "external_authority a inp now"
  proof (rule ccontr)
    assume no: "\<not> external_authority a inp now"
    show False
    proof (cases "manual_authority a inp now")
      case True
      from manual_output [OF this] obtain a' r where
        "fst (arbiter_evaluate a inp now) = selected_from a' Src_Sbus (in_sbus inp) now r" by blast
      with sel show False by simp
    next
      case False
      from no_authority_output [OF False no] obtain a' r where
        "fst (arbiter_evaluate a inp now) = arbiter_inhibited a' now r" by blast
      with sel show False by simp
    qed
  qed
next
  assume "external_authority a inp now"
  then show ?sel by (rule external_output) simp
qed

lemma external_selected_auth:
  "external_authority a inp now \<Longrightarrow>
   sel_authorization_generation (fst (arbiter_evaluate a inp now)) =
     cs_authorization_generation (in_external inp)"
  by (erule external_output) simp

lemma selected_command_within_limit:
  assumes "limit_ok a"
  shows "within_limit (sint (max_abs_rpm (arb_config a))) (sel_command (fst (arbiter_evaluate a inp now)))"
proof -
  have nn: "0 \<le> sint (max_abs_rpm (arb_config a))" using assms by (simp add: limit_ok_def)
  have b: "within_limit (sint (max_abs_rpm (arb_config a))) (bounded a' c)"
    if "arb_config a' = arb_config a" for a' c
    using bounded_within_limit [OF assms, of c] that by (simp add: bounded_def)
  consider (m) "manual_authority a inp now" | (e) "external_authority a inp now"
    | (n) "\<not> manual_authority a inp now" "\<not> external_authority a inp now"
    by blast
  then show ?thesis
  proof cases
    case m
    show ?thesis by (rule manual_output [OF m]) (simp add: b)
  next
    case e
    show ?thesis by (rule external_output [OF e]) (simp add: b)
  next
    case n
    show ?thesis by (rule no_authority_output [OF n]) (simp add: nn)
  qed
qed

definition limit_kept :: "int \<Rightarrow> arbiter \<Rightarrow> bool" where
  "limit_kept limit a \<longleftrightarrow> limit_ok a \<and> sint (max_abs_rpm (arb_config a)) = limit"

lemma limit_kept_init [simp]: "limit_kept (max 0 (sint (max_abs_rpm config))) (arbiter_init config)"
  by (simp add: limit_kept_def arbiter_init_limit)

lemma limit_kept_step: "limit_kept limit a \<Longrightarrow> limit_kept limit (snd (arbiter_step a i))"
  by (simp add: limit_kept_def limit_ok_step) (simp add: arbiter_step_def)

lemma limit_kept_output:
  "limit_kept limit a \<Longrightarrow> within_limit limit (sel_command (fst (arbiter_evaluate a inp now)))"
  using selected_command_within_limit by (auto simp: limit_kept_def)

text \<open>
  Whatever the producers send, every command that leaves a constructed arbiter is within
  the configured wheel-speed limit (a negative configured limit counts as zero).
\<close>

theorem arbiter_outputs_within_limit:
  "list_all (\<lambda>out. within_limit (max 0 (sint (max_abs_rpm config))) (sel_command out))
     (run_outputs arbiter_step (arbiter_init config) inputs)"
proof (rule run_outputs_all [of "limit_kept (max 0 (sint (max_abs_rpm config)))"])
  fix a i
  assume k: "limit_kept (max 0 (sint (max_abs_rpm config))) a"
  show "limit_kept (max 0 (sint (max_abs_rpm config))) (snd (arbiter_step a i))"
    using k by (rule limit_kept_step)
  show "within_limit (max 0 (sint (max_abs_rpm config))) (sel_command (fst (arbiter_step a i)))"
    using k unfolding arbiter_step_def by (rule limit_kept_output)
qed simp

section \<open>Replay of external authorizations\<close>

definition external_selected :: "selected_command \<Rightarrow> bool" where
  "external_selected out \<longleftrightarrow> sel_valid out \<and> sel_source out = Src_External"

lemma auth_floor_step: "auth_floor a \<le> auth_floor (snd (arbiter_evaluate a inp now))"
proof (cases rule: arbiter_evaluate_cases [of inp a now])
  case external
  then have "auth_floor a < cs_authorization_generation (in_external inp)"
    by (simp add: external_authority_def)
  with external(3) show ?thesis by (simp add: auth_floor_def le_max_iff_disj less_imp_le)
qed (auto simp: auth_floor_def le_max_iff_disj)

lemma external_recorded:
  assumes "external_authority a inp now"
  shows "cs_authorization_generation (in_external inp) \<le> auth_floor (snd (arbiter_evaluate a inp now))"
  using assms manual_excludes_external [of a inp now] external_usable [OF assms]
  by (cases rule: arbiter_evaluate_cases [of inp a now]) (simp_all add: auth_floor_def)

interpretation arb: stamped_machine arbiter_step "\<lambda>a. unat (auth_floor a)" external_selected
  "\<lambda>out. unat (sel_authorization_generation out)"
proof
  fix a i
  show "unat (auth_floor a) \<le> unat (auth_floor (snd (arbiter_step a i)))"
    using auth_floor_step by (simp add: arbiter_step_def word_le_nat_alt [symmetric])
next
  fix a i
  assume "external_selected (fst (arbiter_step a i))"
  then have "external_authority a (fst i) (snd i)"
    using external_selected_iff by (simp add: external_selected_def arbiter_step_def)
  then show "unat (auth_floor a) < unat (sel_authorization_generation (fst (arbiter_step a i)))"
    by (simp add: arbiter_step_def external_selected_auth external_authority_def
        word_less_nat_alt [symmetric])
next
  fix a i
  assume "external_selected (fst (arbiter_step a i))"
  then have e: "external_authority a (fst i) (snd i)"
    using external_selected_iff by (simp add: external_selected_def arbiter_step_def)
  then have "cs_authorization_generation (in_external (fst i)) \<le> auth_floor (snd (arbiter_step a i))"
    unfolding arbiter_step_def by (rule external_recorded)
  with e show "unat (sel_authorization_generation (fst (arbiter_step a i)))
      \<le> unat (auth_floor (snd (arbiter_step a i)))"
    by (simp add: arbiter_step_def external_selected_auth word_le_nat_alt [symmetric])
qed

text \<open>
  C21: along any run of the control loop the authorization generations under which the
  external source is selected increase strictly, so no generation is ever used twice.
\<close>

theorem external_authorizations_never_reused:
  "sorted_wrt (<) (map sel_authorization_generation
     (filter external_selected (run_outputs arbiter_step (arbiter_init config) inputs)))"
  using arb.selected_strictly_increasing [of "arbiter_init config" inputs]
  by (simp add: sorted_wrt_map word_less_nat_alt [symmetric])

text \<open>
  A cycle revokes the external source when the inputs are incoherent, SBUS takes over or a
  producer is not usable.
\<close>

definition revoking_cycle :: "arbiter \<Rightarrow> arbiter_input \<Rightarrow> time_ns \<Rightarrow> bool" where
  "revoking_cycle a inp now \<longleftrightarrow>
     \<not> in_coherent inp \<or> manual_authority a inp now \<or> \<not> sbus_ok a inp now \<or> \<not> external_ok a inp now"

lemma revoking_cycle_effect:
  assumes "revoking_cycle a inp now"
  shows "cs_authorization_generation (in_external inp) \<le> auth_floor (snd (arbiter_evaluate a inp now))"
    and "arb_external_recovery_required (snd (arbiter_evaluate a inp now))"
proof -
  let ?a' = "snd (arbiter_evaluate a inp now)"
  have "cs_authorization_generation (in_external inp) \<le> auth_floor ?a' \<and>
      arb_external_recovery_required ?a'"
  proof (cases rule: arbiter_evaluate_cases [of inp a now])
    case held
    with assms show ?thesis by (simp add: revoking_cycle_def)
  next
    case external
    with assms show ?thesis
      using manual_excludes_external external_usable unfolding revoking_cycle_def by blast
  qed (simp_all add: auth_floor_def le_max_iff_disj)
  then show "cs_authorization_generation (in_external inp) \<le> auth_floor ?a'"
    and "arb_external_recovery_required ?a'"
    by simp_all
qed

text \<open>
  After a revoking cycle the external source is selected again only under an authorization
  generation newer than the one it presented in that cycle, however long the run continues.
\<close>

theorem revoked_authorization_stays_revoked:
  assumes "revoking_cycle a inp now"
    and "out \<in> set (run_outputs arbiter_step (snd (arbiter_evaluate a inp now)) inputs)"
    and "external_selected out"
  shows "cs_authorization_generation (in_external inp) < sel_authorization_generation out"
proof -
  have "cs_authorization_generation (in_external inp)
      \<le> auth_floor (snd (arbiter_evaluate a inp now))"
    using assms(1) by (rule revoking_cycle_effect)
  also have "\<dots> < sel_authorization_generation out"
    using arb.selected_above_start [OF assms(2,3)] by (simp add: word_less_nat_alt)
  finally show ?thesis .
qed

section \<open>The zero dwell before a handover\<close>

definition zero_cycle :: "arbiter \<Rightarrow> arbiter_input \<times> time_ns \<Rightarrow> bool" where
  "zero_cycle a i \<longleftrightarrow>
     in_coherent (fst i) \<and> sbus_ok a (fst i) (snd i) \<and> external_ok a (fst i) (snd i) \<and>
     is_zero (cs_command (in_sbus (fst i))) \<and> is_zero (cs_command (in_external (fst i)))"

lemma tracking_step:
  "arb_both_zero_tracking (snd (arbiter_step a i)) \<longleftrightarrow>
     (if in_coherent (fst i) then zero_cycle a i else arb_both_zero_tracking a)"
proof -
  have "in_coherent (fst i) \<Longrightarrow>
      arb_both_zero_tracking (snd (arbiter_step a i)) = arb_both_zero_tracking (observed a (fst i) (snd i))"
    unfolding arbiter_step_def
    by (cases rule: arbiter_evaluate_cases [of "fst i" a "snd i"]) auto
  moreover have "\<not> in_coherent (fst i) \<Longrightarrow>
      arb_both_zero_tracking (snd (arbiter_step a i)) = arb_both_zero_tracking a"
    by (simp add: arbiter_step_def arbiter_evaluate_def Let_def)
  ultimately show ?thesis by (simp add: observed_zero_tracking zero_cycle_def)
qed

lemma zero_since_step:
  assumes "arb_both_zero_tracking (snd (arbiter_step a i))"
  shows "arb_both_zero_since (snd (arbiter_step a i)) =
           (if arb_both_zero_tracking a then arb_both_zero_since a else snd i)"
proof (cases "in_coherent (fst i)")
  case True
  have eq: "arb_both_zero_tracking (snd (arbiter_step a i)) = arb_both_zero_tracking (observed a (fst i) (snd i))
      \<and> arb_both_zero_since (snd (arbiter_step a i)) = arb_both_zero_since (observed a (fst i) (snd i))"
    using True unfolding arbiter_step_def
    by (cases rule: arbiter_evaluate_cases [of "fst i" a "snd i"]) auto
  with assms show ?thesis by (simp add: observed_zero_tracking(2))
next
  case False
  then have "arb_both_zero_tracking a" using assms by (simp add: tracking_step)
  with False show ?thesis by (simp add: arbiter_step_def arbiter_evaluate_def Let_def)
qed

lemma recovery_kept:
  assumes "arb_external_recovery_required a" "\<not> external_selected (fst (arbiter_step a i))"
  shows "arb_external_recovery_required (snd (arbiter_step a i))"
proof -
  have "\<not> external_authority a (fst i) (snd i)"
    using assms(2) external_selected_iff by (simp add: external_selected_def arbiter_step_def)
  with assms(1) show ?thesis
    unfolding arbiter_step_def
    by (cases rule: arbiter_evaluate_cases [of "fst i" a "snd i"]) auto
qed

lemma recovery_kept_run:
  "arb_external_recovery_required a \<Longrightarrow> filter external_selected (run_outputs arbiter_step a is) = [] \<Longrightarrow>
   arb_external_recovery_required (run_state arbiter_step a is)"
  by (induction "is" arbitrary: a) (auto simp: recovery_kept split: if_splits)

lemma run_state_config [simp]: "arb_config (run_state arbiter_step a is) = arb_config a"
  by (induction "is" arbitrary: a) (auto simp: arbiter_step_def)

definition zero_since_cycle :: "arbiter \<Rightarrow> (arbiter_input \<times> time_ns) list \<Rightarrow> nat \<Rightarrow> bool" where
  "zero_since_cycle a cycles k \<longleftrightarrow>
     k < length cycles \<and> zero_cycle (run_state arbiter_step a (take k cycles)) (cycles ! k) \<and>
     (\<forall>m. k < m \<and> m < length cycles \<and> in_coherent (fst (cycles ! m)) \<longrightarrow>
        zero_cycle (run_state arbiter_step a (take m cycles)) (cycles ! m))"

lemma zero_since_cycle_snoc:
  assumes "zero_since_cycle a cycles k"
    and "in_coherent (fst i) \<Longrightarrow> zero_cycle (run_state arbiter_step a cycles) i"
  shows "zero_since_cycle a (cycles @ [i]) k"
  using assms by (auto simp: zero_since_cycle_def nth_append less_Suc_eq)

lemma tracking_window:
  assumes "\<not> arb_both_zero_tracking a"
    and "arb_both_zero_tracking (run_state arbiter_step a cycles)"
  shows "\<exists>k. zero_since_cycle a cycles k \<and>
           snd (cycles ! k) = arb_both_zero_since (run_state arbiter_step a cycles)"
  using assms(2)
proof (induction cycles rule: rev_induct)
  case Nil
  with assms(1) show ?case by simp
next
  case (snoc i cycles)
  let ?s = "run_state arbiter_step a cycles"
  have now: "arb_both_zero_tracking (snd (arbiter_step ?s i))" using snoc.prems by simp
  show ?case
  proof (cases "arb_both_zero_tracking ?s")
    case True
    from snoc.IH [OF True] obtain k where
      k: "zero_since_cycle a cycles k" "snd (cycles ! k) = arb_both_zero_since ?s" by blast
    have "zero_since_cycle a (cycles @ [i]) k"
      using k(1) now by (auto intro: zero_since_cycle_snoc simp: tracking_step)
    moreover have "k < length cycles" using k(1) by (simp add: zero_since_cycle_def)
    ultimately show ?thesis
      using k(2) zero_since_step [OF now] True by (auto simp: nth_append)
  next
    case False
    then have "zero_cycle ?s i" using now by (auto simp: tracking_step split: if_splits)
    then have "zero_since_cycle a (cycles @ [i]) (length cycles)"
      by (auto simp: zero_since_cycle_def)
    then show ?thesis
      using zero_since_step [OF now] False by (intro exI [of _ "length cycles"]) simp
  qed
qed

text \<open>
  C8: after a coherent cycle that revokes the external source, the next external selection is
  preceded by a cycle at least the dwell earlier in which both usable producers asked for
  zero, and every coherent cycle from then up to the selection asked for zero as well.
\<close>

theorem handover_needs_zero_dwell:
  assumes "in_coherent inp0" "revoking_cycle a inp0 now0"
    and "b = snd (arbiter_evaluate a inp0 now0)"
    and "filter external_selected (run_outputs arbiter_step b cycles) = []"
    and "external_selected (fst (arbiter_evaluate (run_state arbiter_step b cycles) inp now))"
  shows "\<exists>k. zero_since_cycle b cycles k \<and>
           snd (cycles ! k) + handover_zero_dwell (arb_config a) \<le> now"
proof -
  let ?s = "run_state arbiter_step b cycles"
  have "\<not> zero_cycle a (inp0, now0)"
    using assms(2) by (auto simp: revoking_cycle_def zero_cycle_def manual_authority_def)
  then have start: "\<not> arb_both_zero_tracking b"
    using assms(1) tracking_step [of a "(inp0, now0)"] by (simp add: assms(3) arbiter_step_def)
  have cfg: "arb_config b = arb_config a"
    unfolding assms(3) by (cases rule: arbiter_evaluate_cases [of inp0 a now0]) simp_all
  have "arb_external_recovery_required ?s"
    using revoking_cycle_effect(2) [OF assms(2)] assms(3,4) by (simp add: recovery_kept_run)
  moreover have "external_authority ?s inp now"
    using assms(5) external_selected_iff by (simp add: external_selected_def)
  ultimately have "dwell_qualified ?s now" by (simp add: external_authority_def)
  then have q: "arb_both_zero_tracking ?s"
    "arb_both_zero_since ?s + handover_zero_dwell (arb_config a) \<le> now"
    by (auto simp: dwell_qualified_def cfg)
  from tracking_window [OF start q(1)] q(2) show ?thesis by auto
qed

section \<open>A concrete handover\<close>

text \<open>
  Samples of both producers, and a run in which the external source is revoked by an
  incoherent cycle, waits out the zero dwell and is selected under a newer authorization.
\<close>

definition example_sample :: "source \<Rightarrow> i32 \<Rightarrow> time_ns \<Rightarrow> u64 \<Rightarrow> command_sample" where
  "example_sample src rpm at auth =
     default_sample\<lparr>cs_source := src,
       cs_command := \<lparr>left_rpm = rpm, right_rpm = rpm, stop_requested = False\<rparr>,
       cs_captured_at := at, cs_session_generation := 1, cs_authorization_generation := auth,
       cs_sequence := 1, cs_valid := True, cs_coherent := True, cs_enabled := True\<rparr>"

definition example_input :: "i32 \<Rightarrow> i32 \<Rightarrow> time_ns \<Rightarrow> u64 \<Rightarrow> arbiter_input" where
  "example_input sbus_rpm external_rpm at auth =
     \<lparr>in_sbus = example_sample Src_Sbus sbus_rpm at 1,
      in_external = example_sample Src_External external_rpm at auth, in_coherent = True\<rparr>"

definition example_incoherent :: arbiter_input where
  "example_incoherent = (example_input 0 0 0 3)\<lparr>in_coherent := False\<rparr>"

definition example_manual :: arbiter_input where
  "example_manual = example_input 50 0 0 3"

definition example_zero_cycles :: "(arbiter_input \<times> time_ns) list" where
  "example_zero_cycles =
     [(example_input 0 0 1000000 3, 1000000), (example_input 0 0 150000000 3, 150000000)]"

definition example_handover :: "arbiter_input \<times> time_ns" where
  "example_handover = (example_input 0 120 160000000 4, 160000000)"

lemma revoked_authorization_stays_revoked_witness:
  "cs_authorization_generation (in_external example_incoherent)
     < sel_authorization_generation
         (last (run_outputs arbiter_step
            (snd (arbiter_evaluate (arbiter_init default_arbiter_config) example_incoherent 0))
            (example_zero_cycles @ [example_handover])))"
proof (rule revoked_authorization_stays_revoked)
  show "revoking_cycle (arbiter_init default_arbiter_config) example_incoherent 0" by code_simp
next
  let ?os = "run_outputs arbiter_step
    (snd (arbiter_evaluate (arbiter_init default_arbiter_config) example_incoherent 0))
    (example_zero_cycles @ [example_handover])"
  have "?os \<noteq> []" by (simp add: run_outputs_append)
  then show "last ?os \<in> set ?os" by (rule last_in_set)
  show "external_selected (last ?os)" by code_simp
qed

lemma handover_needs_zero_dwell_witness:
  "\<exists>k. zero_since_cycle
          (snd (arbiter_evaluate (arbiter_init default_arbiter_config) example_manual 0))
          example_zero_cycles k \<and>
        snd (example_zero_cycles ! k) +
          handover_zero_dwell (arb_config (arbiter_init default_arbiter_config)) \<le> 160000000"
proof (rule handover_needs_zero_dwell [OF _ _ refl])
  let ?b = "snd (arbiter_evaluate (arbiter_init default_arbiter_config) example_manual 0)"
  show "in_coherent example_manual" by code_simp
  show "revoking_cycle (arbiter_init default_arbiter_config) example_manual 0" by code_simp
  show "filter external_selected (run_outputs arbiter_step ?b example_zero_cycles) = []"
    by code_simp
  show "external_selected (fst (arbiter_evaluate
    (run_state arbiter_step ?b example_zero_cycles) (fst example_handover) 160000000))"
    by code_simp
qed

text \<open>
  An incoherent cycle revokes the authorization but keeps the zero tracking, so the dwell
  that the external source has to wait out may lie before the incoherent cycle: a selection
  can follow an incoherent cycle at once.
\<close>

theorem incoherence_keeps_zero_tracking:
  "(\<exists>a now. arb_both_zero_tracking
       (snd (arbiter_evaluate a example_incoherent now)) = arb_both_zero_tracking a \<and>
     \<not> sel_valid (fst (arbiter_evaluate a example_incoherent now)) \<and>
     external_selected (fst (arbiter_evaluate (snd (arbiter_evaluate a example_incoherent now))
       (fst example_handover) (snd example_handover))))"
proof -
  let ?a = "run_state arbiter_step (arbiter_init default_arbiter_config) example_zero_cycles"
  have "arb_both_zero_tracking (snd (arbiter_evaluate ?a example_incoherent 155000000))
          = arb_both_zero_tracking ?a" by code_simp
  moreover have "\<not> sel_valid (fst (arbiter_evaluate ?a example_incoherent 155000000))" by code_simp
  moreover have "external_selected (fst (arbiter_evaluate
      (snd (arbiter_evaluate ?a example_incoherent 155000000))
      (fst example_handover) (snd example_handover)))" by code_simp
  ultimately show ?thesis by blast
qed

end
