(* ===== verification/Domain_Cia402.thy ===== *)
theory Domain_Cia402
  imports RC_Prelude
begin

text \<open>
  The CiA 402 drive vocabulary of \<open>domain/drive/cia402.{hpp,cpp}\<close>: decoding of the raw
  statusword of a dual axis drive, the eligibility test for velocity motion, and the tracker
  that verifies one commanded state transition against newer observations.
\<close>

section \<open>Statuswords\<close>

datatype cia402_state =
    Cia_unknown | Not_ready_to_switch_on | Switch_on_disabled | Ready_to_switch_on
  | Switched_on | Operation_enabled | Quick_stop_active | Fault_reaction_active | Cia_fault

record axis_status =
  ax_state :: cia402_state
  raw_statusword :: u16
  non_state_bits :: u16

record dual_axis_status =
  low_half :: axis_status
  high_half :: axis_status
  raw_status :: u32
  physical_axis_mapping_known :: bool

definition state_mask :: u16 where
  "state_mask = 0x006F"

definition state_of_masked :: "u16 \<Rightarrow> cia402_state" where
  "state_of_masked masked =
     (if masked = 0x0000 then Not_ready_to_switch_on
      else if masked = 0x0040 then Switch_on_disabled
      else if masked = 0x0021 then Ready_to_switch_on
      else if masked = 0x0023 then Switched_on
      else if masked = 0x0027 then Operation_enabled
      else if masked = 0x0007 then Quick_stop_active
      else if masked = 0x000F then Fault_reaction_active
      else if masked = 0x0008 then Cia_fault
      else Cia_unknown)"

definition decode_statusword :: "u16 \<Rightarrow> axis_status" where
  "decode_statusword raw =
     \<lparr>ax_state = state_of_masked (raw AND state_mask),
      raw_statusword = raw, non_state_bits = raw AND NOT state_mask\<rparr>"

definition decode_dual_axis_status :: "u32 \<Rightarrow> dual_axis_status" where
  "decode_dual_axis_status raw =
     \<lparr>low_half = decode_statusword (ucast raw),
      high_half = decode_statusword (ucast (drop_bit 16 raw)),
      raw_status = raw, physical_axis_mapping_known = False\<rparr>"

definition velocity_motion_eligible :: "dual_axis_status \<Rightarrow> i8 \<Rightarrow> i8 \<Rightarrow> bool" where
  "velocity_motion_eligible status actual_mode requested_mode \<longleftrightarrow>
     ax_state (low_half status) = Operation_enabled \<and>
     ax_state (high_half status) = Operation_enabled \<and> actual_mode = requested_mode"

text \<open>The controlled bits of each state: a partial inverse of the decoder.\<close>

fun bits_of_state :: "cia402_state \<Rightarrow> u16 option" where
  "bits_of_state Cia_unknown = None"
| "bits_of_state Not_ready_to_switch_on = Some 0x0000"
| "bits_of_state Switch_on_disabled = Some 0x0040"
| "bits_of_state Ready_to_switch_on = Some 0x0021"
| "bits_of_state Switched_on = Some 0x0023"
| "bits_of_state Operation_enabled = Some 0x0027"
| "bits_of_state Quick_stop_active = Some 0x0007"
| "bits_of_state Fault_reaction_active = Some 0x000F"
| "bits_of_state Cia_fault = Some 0x0008"

lemma state_of_masked_iff:
  "state_of_masked m = st \<longleftrightarrow>
     (case bits_of_state st of Some b \<Rightarrow> m = b | None \<Rightarrow> \<forall>s. bits_of_state s \<noteq> Some m)"
proof (cases st)
  case Cia_unknown
  have "(\<forall>s. bits_of_state s \<noteq> Some m) \<longleftrightarrow>
      m \<notin> {0x0000, 0x0040, 0x0021, 0x0023, 0x0027, 0x0007, 0x000F, 0x0008}"
    (is "?l \<longleftrightarrow> ?r")
  proof
    assume ?l
    from this [THEN spec, of Not_ready_to_switch_on] this [THEN spec, of Switch_on_disabled]
      this [THEN spec, of Ready_to_switch_on] this [THEN spec, of Switched_on]
      this [THEN spec, of Operation_enabled] this [THEN spec, of Quick_stop_active]
      this [THEN spec, of Fault_reaction_active] this [THEN spec, of Cia_fault]
    show ?r by auto
  next
    assume r: ?r
    show ?l
    proof
      fix s
      from r show "bits_of_state s \<noteq> Some m" by (cases s) auto
    qed
  qed
  with Cia_unknown show ?thesis by (simp add: state_of_masked_def)
qed (auto simp: state_of_masked_def)

lemma non_state_bits_masked [simp]: "(raw AND NOT state_mask) AND state_mask = 0"
  by (simp add: and.assoc)

lemma decode_halves_raw:
  "push_bit 16 (ucast (ucast (drop_bit 16 raw) :: u16)) OR ucast (ucast raw :: u16) = (raw :: u32)"
  by (rule bit_word_eqI) (auto simp: bit_simps)

definition half_faithful :: "axis_status \<Rightarrow> u16 \<Rightarrow> bool" where
  "half_faithful ax raw \<longleftrightarrow>
     raw_statusword ax = raw \<and> non_state_bits ax AND state_mask = 0 \<and>
     (case bits_of_state (ax_state ax) of
        Some b \<Rightarrow> raw = (b OR non_state_bits ax)
      | None \<Rightarrow> \<forall>s. bits_of_state s \<noteq> Some (raw AND state_mask))"

lemma half_faithful_decode: "half_faithful (decode_statusword w) w"
  using state_of_masked_iff [of "w AND state_mask" "ax_state (decode_statusword w)"]
    word_and_or_not_split [of w state_mask]
  by (auto simp: half_faithful_def decode_statusword_def split: option.splits)

text \<open>
  Decoding a dual axis status loses nothing and invents nothing: both raw halves put
  together give the raw value back, each half is decoded into the state whose controlled bits
  it carries (unknown exactly when it carries those of none), and state bits and retained bits
  partition the half.
\<close>

theorem dual_axis_decoding_faithful:
  "push_bit 16 (ucast (raw_statusword (high_half (decode_dual_axis_status raw)))) OR
     ucast (raw_statusword (low_half (decode_dual_axis_status raw))) = raw \<and>
   half_faithful (low_half (decode_dual_axis_status raw)) (ucast raw) \<and>
   half_faithful (high_half (decode_dual_axis_status raw)) (ucast (drop_bit 16 raw)) \<and>
   raw_status (decode_dual_axis_status raw) = raw"
proof -
  have "raw_statusword (decode_statusword w) = w" for w by (simp add: decode_statusword_def)
  then show ?thesis by (simp add: decode_dual_axis_status_def half_faithful_decode decode_halves_raw)
qed

lemma halves_and:
  fixes h l hm lm :: u16
  shows "(push_bit 16 (ucast h) OR ucast l :: u32) AND (push_bit 16 (ucast hm) OR ucast lm) =
     push_bit 16 (ucast (h AND hm)) OR ucast (l AND lm)"
  by (rule bit_word_eqI) (auto simp: bit_simps dest: bit_imp_le_length)

text \<open>
  Velocity motion is eligible exactly when both raw halves carry the operation enabled
  bits under the state mask and the observed mode is the requested one.
\<close>

theorem velocity_motion_eligible_raw:
  "velocity_motion_eligible (decode_dual_axis_status raw) actual requested \<longleftrightarrow>
     raw AND 0x006F006F = 0x00270027 \<and> actual = requested"
proof -
  have split: "raw AND 0x006F006F = 0x00270027 \<longleftrightarrow>
      (ucast raw :: u16) AND 0x6F = 0x27 \<and> (ucast (drop_bit 16 raw) :: u16) AND 0x6F = 0x27"
    (is "?l \<longleftrightarrow> ?r")
  proof
    assume l: ?l
    have "(ucast (raw AND 0x006F006F) :: u16) = ucast (0x00270027 :: u32)"
      "(ucast (drop_bit 16 (raw AND 0x006F006F)) :: u16) = ucast (drop_bit 16 (0x00270027 :: u32))"
      by (simp_all only: l)
    moreover have "(7274607 :: u16) = 111" by simp
    ultimately show ?r by (simp add: unsigned_and_eq)
  next
    assume r: ?r
    have "raw AND 0x006F006F =
        (push_bit 16 (ucast (ucast (drop_bit 16 raw) :: u16)) OR ucast (ucast raw :: u16))
        AND (push_bit 16 (ucast (0x6F :: u16)) OR ucast (0x6F :: u16))"
      by (simp add: decode_halves_raw)
    also have "\<dots> = push_bit 16 (ucast ((ucast (drop_bit 16 raw) :: u16) AND 0x6F)) OR
        ucast ((ucast raw :: u16) AND 0x6F)"
      by (rule halves_and)
    finally show ?l using r by simp
  qed
  show ?thesis
    by (simp add: velocity_motion_eligible_def decode_dual_axis_status_def decode_statusword_def
        state_of_masked_iff state_mask_def split)
qed

section \<open>Verifying one commanded transition\<close>

datatype transition_result =
  Tr_idle | Tr_pending | Tr_reached | Tr_timed_out | Tr_observation_replayed

record tracker =
  tr_expected :: cia402_state
  tr_command_generation :: u64
  tr_deadline :: time_ns
  tr_pending :: bool

definition tracker_init :: tracker where
  "tracker_init = \<lparr>tr_expected = Cia_unknown, tr_command_generation = 0, tr_deadline = 0,
     tr_pending = False\<rparr>"

definition tracker_start :: "cia402_state \<Rightarrow> u64 \<Rightarrow> time_ns \<Rightarrow> time_ns \<Rightarrow> tracker \<Rightarrow> tracker" where
  "tracker_start expected generation now timeout t =
     t\<lparr>tr_expected := expected, tr_command_generation := generation,
       tr_deadline := now + (if timeout < 0 then 0 else timeout), tr_pending := True\<rparr>"

type_synonym observation_event = "cia402_state \<times> u64 \<times> time_ns"

definition tracker_evaluate ::
  "tracker \<Rightarrow> observation_event \<Rightarrow> transition_result \<times> tracker" where
  "tracker_evaluate t obs =
     (let (actual, generation, now) = obs in
      if \<not> tr_pending t then (Tr_idle, t)
      else if now \<ge> tr_deadline t then (Tr_timed_out, t\<lparr>tr_pending := False\<rparr>)
      else if generation \<le> tr_command_generation t then (Tr_observation_replayed, t)
      else if actual = tr_expected t then (Tr_reached, t\<lparr>tr_pending := False\<rparr>)
      else (Tr_pending, t))"

definition decisive :: "tracker \<Rightarrow> observation_event \<Rightarrow> bool" where
  "decisive t obs \<longleftrightarrow>
     (let (actual, generation, now) = obs in
      tr_deadline t \<le> now \<or> (tr_command_generation t < generation \<and> actual = tr_expected t))"

lemma tracker_evaluate_decisive:
  assumes "tr_pending t" "decisive t obs"
  shows "tracker_evaluate t obs =
    (if tr_deadline t \<le> snd (snd obs) then Tr_timed_out else Tr_reached, t\<lparr>tr_pending := False\<rparr>)"
  using assms by (cases obs) (auto simp: tracker_evaluate_def decisive_def)

lemma tracker_evaluate_indecisive:
  assumes "tr_pending t" "\<not> decisive t obs"
  shows "fst (tracker_evaluate t obs) \<in> {Tr_pending, Tr_observation_replayed}"
    and "snd (tracker_evaluate t obs) = t"
  using assms by (cases obs; auto simp: tracker_evaluate_def decisive_def)+

lemma tracker_idle [simp]: "\<not> tr_pending t \<Longrightarrow> tracker_evaluate t obs = (Tr_idle, t)"
  by (cases obs) (simp add: tracker_evaluate_def)

lemma tracker_idle_run:
  "\<not> tr_pending t \<Longrightarrow> run_outputs tracker_evaluate t obs = replicate (length obs) Tr_idle"
  by (induction obs) simp_all

text \<open>
  The verdict on a list of observations: everything before the first decisive one is pending
  or replayed, that one decides by the deadline, and nothing is reported after it.
\<close>

definition tracker_verdicts :: "tracker \<Rightarrow> observation_event list \<Rightarrow> transition_result list \<Rightarrow> bool" where
  "tracker_verdicts t obs outs \<longleftrightarrow>
     (let before = takeWhile (\<lambda>x. \<not> decisive t x) obs;
          rest = dropWhile (\<lambda>x. \<not> decisive t x) obs in
      (\<exists>early. length early = length before \<and>
         set early \<subseteq> {Tr_pending, Tr_observation_replayed} \<and>
         outs = early @ (case rest of [] \<Rightarrow> []
           | (x # later) \<Rightarrow>
               (if tr_deadline t \<le> snd (snd x) then Tr_timed_out else Tr_reached)
               # replicate (length later) Tr_idle)))"

lemma tracker_verdicts_run:
  "tr_pending t \<Longrightarrow> tracker_verdicts t obs (run_outputs tracker_evaluate t obs)"
proof (induction obs)
  case Nil
  show ?case by (simp add: tracker_verdicts_def)
next
  case (Cons x obs)
  show ?case
  proof (cases "decisive t x")
    case True
    then show ?thesis
      by (simp add: tracker_verdicts_def tracker_evaluate_decisive [OF Cons.prems] tracker_idle_run)
  next
    case False
    from Cons.IH [OF Cons.prems] obtain early where
      e: "length early = length (takeWhile (\<lambda>x. \<not> decisive t x) obs)"
        "set early \<subseteq> {Tr_pending, Tr_observation_replayed}"
        "run_outputs tracker_evaluate t obs = early @ (case dropWhile (\<lambda>x. \<not> decisive t x) obs of
           [] \<Rightarrow> [] | (x # later) \<Rightarrow>
               (if tr_deadline t \<le> snd (snd x) then Tr_timed_out else Tr_reached)
               # replicate (length later) Tr_idle)"
      by (auto simp: tracker_verdicts_def Let_def)
    let ?r = "fst (tracker_evaluate t x)"
    show ?thesis
      using tracker_evaluate_indecisive [OF Cons.prems False] e False
      unfolding tracker_verdicts_def Let_def
      by (intro exI [of _ "?r # early"]) simp
  qed
qed

text \<open>
  After a start the tracker reports exactly one final verdict, at the first observation
  that is past the deadline or shows the expected state in a generation newer than the
  command's; it is a time-out when the deadline has passed, whatever state is observed.
\<close>

theorem tracker_reports_first_decisive:
  "tracker_verdicts (tracker_start expected g now timeout t) obs
     (run_outputs tracker_evaluate (tracker_start expected g now timeout t) obs)"
  by (rule tracker_verdicts_run) (simp add: tracker_start_def)

end
