(* ===== verification/Domain_Safety.thy ===== *)
theory Domain_Safety
  imports Domain_Arbiter Domain_Cia402
begin

text \<open>
  The safety manager, \<open>domain/safety/safety_manager.{hpp,cpp}\<close>: it consumes the arbiter's
  selected command and the drive and communication observation of one control cycle and
  returns the drive action. \<open>safety_evaluate\<close> is \<open>SafetyManager::evaluate\<close>.
\<close>

section \<open>Data\<close>

datatype safety_state =
    Startup_inhibit | Zero_hold | Normal | Remote_lost | External_command_lost
  | Canopen_unavailable | Drive_fault | Emergency_stop | Safety_shutdown

datatype drive_action =
    Act_inhibit | Act_hold_disabled | Act_shutdown | Act_switch_on | Act_enable_operation
  | Act_approved_target | Act_quick_stop | Act_disable_voltage | Act_fault_reset

record safety_input =
  si_selected :: selected_command
  si_low_half_state :: cia402_state
  si_high_half_state :: cia402_state
  si_system_authorization :: u64
  si_fault_reset_generation :: u64
  si_coherent :: bool
  si_can_started :: bool
  si_can_bus_off :: bool
  si_nmt_operational :: bool
  si_heartbeat_fresh :: bool
  si_status_fresh :: bool
  si_required_tpdo_fresh :: bool
  si_mode_valid :: bool
  si_drive_fault_active :: bool
  si_fault_cause_absent :: bool
  si_emergency_stop_known :: bool
  si_emergency_stop_active :: bool
  si_shutdown_requested :: bool
  si_fault_reset_requested :: bool

record safety_decision =
  sd_state :: safety_state
  sd_action :: drive_action
  sd_approved_command :: motion_command
  sd_authorization_generation :: u64
  sd_decision_generation :: u64
  sd_motion_approved :: bool
  sd_fault_reset_eligible :: bool

record safety_manager =
  sm_last_authorization :: u64
  sm_last_fault_reset :: u64
  sm_decision_generation :: u64
  sm_rearm_required :: bool

definition safety_init :: safety_manager where
  "safety_init = \<lparr>sm_last_authorization = 0, sm_last_fault_reset = 0,
     sm_decision_generation = 0, sm_rearm_required = True\<rparr>"

section \<open>Operations\<close>

definition safety_inhibited :: "safety_state \<Rightarrow> drive_action \<Rightarrow> u64 \<Rightarrow> safety_decision" where
  "safety_inhibited state action generation =
     \<lparr>sd_state = state, sd_action = action, sd_approved_command = zero_command,
      sd_authorization_generation = 0, sd_decision_generation = generation,
      sd_motion_approved = False, sd_fault_reset_eligible = False\<rparr>"

definition communication_ready :: "safety_input \<Rightarrow> bool" where
  "communication_ready i \<longleftrightarrow>
     si_coherent i \<and> si_can_started i \<and> \<not> si_can_bus_off i \<and> si_nmt_operational i \<and>
     si_heartbeat_fresh i \<and> si_status_fresh i \<and> si_required_tpdo_fresh i \<and> si_mode_valid i"

definition both_axes :: "safety_input \<Rightarrow> cia402_state \<Rightarrow> bool" where
  "both_axes i st \<longleftrightarrow> si_low_half_state i = st \<and> si_high_half_state i = st"

definition fresh_reset :: "safety_manager \<Rightarrow> safety_input \<Rightarrow> bool" where
  "fresh_reset m i \<longleftrightarrow>
     si_fault_reset_requested i \<and> si_fault_cause_absent i \<and>
     is_zero (sel_command (si_selected i)) \<and> sel_valid (si_selected i) \<and>
     sm_last_fault_reset m < si_fault_reset_generation i \<and> both_axes i Cia_fault"

definition fault_reset_decision :: "safety_input \<Rightarrow> u64 \<Rightarrow> safety_decision" where
  "fault_reset_decision i generation =
     \<lparr>sd_state = Drive_fault, sd_action = Act_fault_reset, sd_approved_command = zero_command,
      sd_authorization_generation = si_system_authorization i,
      sd_decision_generation = generation, sd_motion_approved = False,
      sd_fault_reset_eligible = True\<rparr>"

definition normal_decision :: "safety_input \<Rightarrow> u64 \<Rightarrow> safety_decision" where
  "normal_decision i generation =
     (let c = sel_command (si_selected i) in
      \<lparr>sd_state = Normal,
       sd_action = (if is_zero c then Act_enable_operation else Act_approved_target),
       sd_approved_command = c, sd_authorization_generation = si_system_authorization i,
       sd_decision_generation = generation, sd_motion_approved = (\<not> is_zero c),
       sd_fault_reset_eligible = False\<rparr>)"

definition safety_evaluate ::
  "safety_manager \<Rightarrow> safety_input \<Rightarrow> safety_decision \<times> safety_manager" where
  "safety_evaluate m0 i =
     (let m = m0\<lparr>sm_decision_generation := sm_decision_generation m0 + 1\<rparr>;
          g = sm_decision_generation m;
          tripped = m\<lparr>sm_rearm_required := True\<rparr>
      in if si_shutdown_requested i
      then (safety_inhibited Safety_shutdown Act_disable_voltage g, tripped)
      else if \<not> si_coherent i
      then (safety_inhibited Startup_inhibit Act_hold_disabled g, tripped)
      else if \<not> si_emergency_stop_known i \<or> si_emergency_stop_active i
      then (safety_inhibited Emergency_stop Act_disable_voltage g, tripped)
      else if \<not> communication_ready i
      then (safety_inhibited Canopen_unavailable
              (if si_can_started i \<and> \<not> si_can_bus_off i then Act_quick_stop
               else Act_hold_disabled) g, tripped)
      else if si_drive_fault_active i \<or> both_axes i Cia_fault
      then (if fresh_reset tripped i
            then (fault_reset_decision i g,
                  tripped\<lparr>sm_last_fault_reset := si_fault_reset_generation i\<rparr>)
            else (safety_inhibited Drive_fault Act_quick_stop g, tripped))
      else if \<not> sel_valid (si_selected i) \<or> sel_source (si_selected i) = Src_None
      then (safety_inhibited Zero_hold Act_quick_stop g, tripped)
      else let fresh_authorization = sm_last_authorization m < si_system_authorization i
      in if sm_rearm_required m \<and> \<not> fresh_authorization
      then (safety_inhibited Zero_hold Act_quick_stop g, m)
      else if both_axes i Switch_on_disabled
      then (safety_inhibited Zero_hold Act_shutdown g, m)
      else if both_axes i Ready_to_switch_on
      then (safety_inhibited Zero_hold Act_switch_on g, m)
      else if both_axes i Switched_on
      then (safety_inhibited Zero_hold Act_enable_operation g, m)
      else if \<not> both_axes i Operation_enabled
      then (safety_inhibited Zero_hold Act_quick_stop g, tripped)
      else (normal_decision i g,
            (if fresh_authorization
             then m\<lparr>sm_last_authorization := si_system_authorization i\<rparr> else m)
              \<lparr>sm_rearm_required := False\<rparr>))"

section \<open>What the safety manager decides\<close>

definition interlocks_clear :: "safety_input \<Rightarrow> bool" where
  "interlocks_clear i \<longleftrightarrow>
     \<not> si_shutdown_requested i \<and> communication_ready i \<and>
     si_emergency_stop_known i \<and> \<not> si_emergency_stop_active i"

definition drive_healthy :: "safety_input \<Rightarrow> bool" where
  "drive_healthy i \<longleftrightarrow> \<not> si_drive_fault_active i \<and> \<not> both_axes i Cia_fault"

definition command_selected :: "safety_input \<Rightarrow> bool" where
  "command_selected i \<longleftrightarrow> sel_valid (si_selected i) \<and> sel_source (si_selected i) \<noteq> Src_None"

definition authorized :: "safety_manager \<Rightarrow> safety_input \<Rightarrow> bool" where
  "authorized m i \<longleftrightarrow>
     sm_rearm_required m \<longrightarrow> sm_last_authorization m < si_system_authorization i"

definition runs_normally :: "safety_manager \<Rightarrow> safety_input \<Rightarrow> bool" where
  "runs_normally m i \<longleftrightarrow>
     interlocks_clear i \<and> drive_healthy i \<and> command_selected i \<and> authorized m i \<and>
     both_axes i Operation_enabled"

definition resets_fault :: "safety_manager \<Rightarrow> safety_input \<Rightarrow> bool" where
  "resets_fault m i \<longleftrightarrow> interlocks_clear i \<and> fresh_reset m i"

lemmas [safety_simps] =
  interlocks_clear_def drive_healthy_def command_selected_def authorized_def
  runs_normally_def resets_fault_def communication_ready_def

lemma both_axes_distinct: "both_axes i s \<Longrightarrow> s \<noteq> s' \<Longrightarrow> \<not> both_axes i s'"
  by (auto simp: both_axes_def)

lemma fresh_reset_bookkeeping [simp]:
  "fresh_reset (m\<lparr>sm_rearm_required := b\<rparr>) i = fresh_reset m i"
  "fresh_reset (m\<lparr>sm_decision_generation := g\<rparr>) i = fresh_reset m i"
  by (simp_all add: fresh_reset_def)

lemma fresh_reset_fault: "fresh_reset m i \<Longrightarrow> both_axes i Cia_fault"
  by (simp add: fresh_reset_def)

lemma safety_evaluate_normal:
  assumes "runs_normally m i"
  shows "safety_evaluate m i =
    (normal_decision i (sm_decision_generation m + 1),
     \<lparr>sm_last_authorization = max (sm_last_authorization m) (si_system_authorization i),
      sm_last_fault_reset = sm_last_fault_reset m,
      sm_decision_generation = sm_decision_generation m + 1, sm_rearm_required = False\<rparr>)"
proof -
  have ax: "both_axes i Operation_enabled" using assms by (simp add: runs_normally_def)
  have "\<not> both_axes i Switch_on_disabled" "\<not> both_axes i Ready_to_switch_on"
    "\<not> both_axes i Switched_on"
    using ax by (auto simp: both_axes_def)
  moreover have "max (sm_last_authorization m) (si_system_authorization i) =
      (if sm_last_authorization m < si_system_authorization i then si_system_authorization i
       else sm_last_authorization m)"
    by (auto simp: max_def)
  ultimately show ?thesis
    using assms
    by (cases "sm_last_authorization m < si_system_authorization i"; cases m)
      (simp_all add: safety_evaluate_def Let_def safety_simps)
qed

lemma safety_evaluate_reset:
  assumes "resets_fault m i"
  shows "safety_evaluate m i =
    (fault_reset_decision i (sm_decision_generation m + 1),
     m\<lparr>sm_decision_generation := sm_decision_generation m + 1, sm_rearm_required := True,
       sm_last_fault_reset := si_fault_reset_generation i\<rparr>)"
proof -
  have "both_axes i Cia_fault" "fresh_reset m i"
    using assms fresh_reset_fault by (auto simp: resets_fault_def)
  with assms show ?thesis
    by (simp add: safety_evaluate_def Let_def safety_simps)
qed

text \<open>Every other cycle returns an inhibited decision and touches the rearm flag at most.\<close>

definition inhibiting :: "safety_manager \<Rightarrow> safety_decision \<times> safety_manager \<Rightarrow> bool" where
  "inhibiting m p \<longleftrightarrow>
     (\<exists>st act r. p = (safety_inhibited st act (sm_decision_generation m + 1),
          m\<lparr>sm_decision_generation := sm_decision_generation m + 1, sm_rearm_required := r\<rparr>) \<and>
        st \<noteq> Normal \<and> act \<noteq> Act_approved_target \<and> act \<noteq> Act_fault_reset \<and>
        (sm_rearm_required m \<longrightarrow> r))"

lemma inhibiting_tripped [simp]:
  "st \<noteq> Normal \<Longrightarrow> act \<noteq> Act_approved_target \<Longrightarrow> act \<noteq> Act_fault_reset \<Longrightarrow>
   inhibiting m (safety_inhibited st act (sm_decision_generation m + 1),
     m\<lparr>sm_decision_generation := sm_decision_generation m + 1, sm_rearm_required := True\<rparr>)"
  unfolding inhibiting_def by blast

lemma inhibiting_held [simp]:
  assumes "st \<noteq> Normal" "act \<noteq> Act_approved_target" "act \<noteq> Act_fault_reset"
  shows "inhibiting m (safety_inhibited st act (sm_decision_generation m + 1),
     m\<lparr>sm_decision_generation := sm_decision_generation m + 1\<rparr>)"
  unfolding inhibiting_def
  by (rule exI [of _ st], rule exI [of _ act], rule exI [of _ "sm_rearm_required m"])
    (simp add: assms)

lemma safety_evaluate_inhibiting:
  assumes "\<not> runs_normally m i" "\<not> resets_fault m i"
  shows "inhibiting m (safety_evaluate m i)"
proof (cases "interlocks_clear i")
  case False
  then show ?thesis
    by (cases "si_shutdown_requested i"; cases "si_coherent i"; cases "si_emergency_stop_known i";
        cases "si_emergency_stop_active i"; cases "communication_ready i")
      (simp_all add: safety_evaluate_def Let_def interlocks_clear_def)
next
  case clear: True
  then have reached: "\<not> si_shutdown_requested i" "si_coherent i" "si_emergency_stop_known i"
    "\<not> si_emergency_stop_active i" "communication_ready i"
    by (simp_all add: interlocks_clear_def communication_ready_def)
  show ?thesis
  proof (cases "drive_healthy i")
    case False
    with assms(2) clear reached show ?thesis
      by (auto simp: safety_evaluate_def Let_def resets_fault_def drive_healthy_def)
  next
    case healthy: True
    then have h: "\<not> si_drive_fault_active i" "\<not> both_axes i Cia_fault"
      by (simp_all add: drive_healthy_def)
    show ?thesis
    proof (cases "command_selected i \<and> authorized m i")
      case False
      then show ?thesis
        using reached h
        by (auto simp: safety_evaluate_def Let_def command_selected_def authorized_def)
    next
      case True
      with assms(1) clear healthy have "\<not> both_axes i Operation_enabled"
        by (simp add: runs_normally_def)
      with True reached h show ?thesis
        by (auto simp: safety_evaluate_def Let_def command_selected_def authorized_def)
    qed
  qed
qed

lemma safety_evaluate_cases:
  obtains
    (normal) "runs_normally m i"
      "fst (safety_evaluate m i) = normal_decision i (sm_decision_generation m + 1)"
      "snd (safety_evaluate m i) =
         \<lparr>sm_last_authorization = max (sm_last_authorization m) (si_system_authorization i),
          sm_last_fault_reset = sm_last_fault_reset m,
          sm_decision_generation = sm_decision_generation m + 1, sm_rearm_required = False\<rparr>"
  | (reset) "\<not> runs_normally m i" "resets_fault m i"
      "fst (safety_evaluate m i) = fault_reset_decision i (sm_decision_generation m + 1)"
      "snd (safety_evaluate m i) =
         m\<lparr>sm_decision_generation := sm_decision_generation m + 1, sm_rearm_required := True,
           sm_last_fault_reset := si_fault_reset_generation i\<rparr>"
  | (inhibited) st act r where "\<not> runs_normally m i" "\<not> resets_fault m i"
      "fst (safety_evaluate m i) = safety_inhibited st act (sm_decision_generation m + 1)"
      "st \<noteq> Normal" "act \<noteq> Act_approved_target" "act \<noteq> Act_fault_reset"
      "snd (safety_evaluate m i) =
         m\<lparr>sm_decision_generation := sm_decision_generation m + 1, sm_rearm_required := r\<rparr>"
      "sm_rearm_required m \<Longrightarrow> r"
proof -
  consider (n) "runs_normally m i" | (r) "\<not> runs_normally m i" "resets_fault m i"
    | (h) "\<not> runs_normally m i" "\<not> resets_fault m i" by blast
  then show thesis
  proof cases
    case n
    then show thesis by (intro normal) (simp_all add: safety_evaluate_normal)
  next
    case r
    then show thesis by (intro reset) (simp_all add: safety_evaluate_reset)
  next
    case h
    from safety_evaluate_inhibiting [OF h] obtain st act q where
      "safety_evaluate m i = (safety_inhibited st act (sm_decision_generation m + 1),
          m\<lparr>sm_decision_generation := sm_decision_generation m + 1, sm_rearm_required := q\<rparr>)"
      "st \<noteq> Normal" "act \<noteq> Act_approved_target" "act \<noteq> Act_fault_reset"
      "sm_rearm_required m \<longrightarrow> q"
      unfolding inhibiting_def by blast
    with h show thesis by (intro inhibited [of st act q]) simp_all
  qed
qed

section \<open>Approval of motion\<close>

text \<open>
  C1: motion is approved exactly when no shutdown or emergency stop is requested, the
  emergency stop state is known, every communication and feedback prerequisite holds, neither
  a drive fault nor the fault state is reported, a valid command of a real source asks for
  motion, both axes are operation enabled, and after a trip the system authorization is newer
  than the last one used.
\<close>

theorem motion_approved_iff:
  "sd_motion_approved (fst (safety_evaluate m i)) \<longleftrightarrow>
     \<not> si_shutdown_requested i \<and> si_coherent i \<and>
     si_emergency_stop_known i \<and> \<not> si_emergency_stop_active i \<and>
     si_can_started i \<and> \<not> si_can_bus_off i \<and> si_nmt_operational i \<and>
     si_heartbeat_fresh i \<and> si_status_fresh i \<and> si_required_tpdo_fresh i \<and> si_mode_valid i \<and>
     \<not> si_drive_fault_active i \<and>
     sel_valid (si_selected i) \<and> sel_source (si_selected i) \<noteq> Src_None \<and>
     \<not> is_zero (sel_command (si_selected i)) \<and>
     si_low_half_state i = Operation_enabled \<and> si_high_half_state i = Operation_enabled \<and>
     (if sm_rearm_required m then sm_last_authorization m < si_system_authorization i else True)"
  (is "?l \<longleftrightarrow> ?r")
proof -
  have "?r \<longleftrightarrow> runs_normally m i \<and> \<not> is_zero (sel_command (si_selected i))"
    by (auto simp: safety_simps both_axes_def)
  moreover have "?l \<longleftrightarrow> runs_normally m i \<and> \<not> is_zero (sel_command (si_selected i))"
    by (cases rule: safety_evaluate_cases [of m i])
      (simp_all add: normal_decision_def fault_reset_decision_def safety_inhibited_def Let_def)
  ultimately show ?thesis by blast
qed

text \<open>The decision of one cycle is fail closed: without approval it carries the zero command.\<close>

definition fail_closed :: "safety_input \<Rightarrow> safety_decision \<Rightarrow> bool" where
  "fail_closed i d \<longleftrightarrow>
     (if sd_motion_approved d
      then sd_state d = Normal \<and> sd_action d = Act_approved_target \<and>
           sd_approved_command d = sel_command (si_selected i)
      else is_zero (sd_approved_command d) \<and> sd_action d \<noteq> Act_approved_target) \<and>
     (sd_action d = Act_fault_reset \<longleftrightarrow> sd_fault_reset_eligible d) \<and>
     (sd_fault_reset_eligible d \<longrightarrow>
        both_axes i Cia_fault \<and> is_zero (sel_command (si_selected i)) \<and>
        si_fault_reset_requested i \<and> si_fault_cause_absent i)"

text \<open>
  C24: every decision is fail closed, whatever the state of the manager: the approved target
  is the selected command or zero, the target action is issued with an approval only, and a
  fault reset is issued only on request, for a zero command, with both axes in the fault state
  and the cause gone.
\<close>

theorem decisions_fail_closed: "fail_closed i (fst (safety_evaluate m i))"
proof (cases rule: safety_evaluate_cases [of m i])
  case normal
  then show ?thesis by (simp add: fail_closed_def normal_decision_def Let_def)
next
  case reset
  then show ?thesis
    by (simp add: fail_closed_def fault_reset_decision_def resets_fault_def fresh_reset_def)
next
  case inhibited
  then show ?thesis by (simp add: fail_closed_def safety_inhibited_def)
qed

section \<open>Replay of system authorizations and fault resets\<close>

text \<open>
  A run records, with each decision, whether the manager had to be rearmed when it was made
  and the fault reset generation presented.
\<close>

record safety_log =
  log_rearming :: bool
  log_decision :: safety_decision
  log_reset_generation :: u64

definition safety_step ::
  "safety_manager \<Rightarrow> safety_input \<Rightarrow> safety_log \<times> safety_manager" where
  "safety_step m i =
     (\<lparr>log_rearming = sm_rearm_required m, log_decision = fst (safety_evaluate m i),
       log_reset_generation = si_fault_reset_generation i\<rparr>, snd (safety_evaluate m i))"

definition rearmed :: "safety_log \<Rightarrow> bool" where
  "rearmed l \<longleftrightarrow> log_rearming l \<and> sd_state (log_decision l) = Normal"

definition fault_reset_issued :: "safety_log \<Rightarrow> bool" where
  "fault_reset_issued l \<longleftrightarrow> sd_action (log_decision l) = Act_fault_reset"

lemma normal_iff: "sd_state (fst (safety_evaluate m i)) = Normal \<longleftrightarrow> runs_normally m i"
  by (cases rule: safety_evaluate_cases [of m i])
    (simp_all add: normal_decision_def fault_reset_decision_def safety_inhibited_def Let_def)

lemma reset_iff:
  "sd_action (fst (safety_evaluate m i)) = Act_fault_reset \<longleftrightarrow> resets_fault m i \<and> \<not> runs_normally m i"
  by (cases rule: safety_evaluate_cases [of m i])
    (simp_all add: normal_decision_def fault_reset_decision_def safety_inhibited_def Let_def)

lemma last_authorization_step:
  "sm_last_authorization (snd (safety_evaluate m i)) =
     (if runs_normally m i then max (sm_last_authorization m) (si_system_authorization i)
      else sm_last_authorization m)"
  by (cases rule: safety_evaluate_cases [of m i]) simp_all

lemma last_fault_reset_step:
  "sm_last_fault_reset (snd (safety_evaluate m i)) =
     (if resets_fault m i \<and> \<not> runs_normally m i then si_fault_reset_generation i
      else sm_last_fault_reset m)"
  by (cases rule: safety_evaluate_cases [of m i]) simp_all

lemma normal_authorization:
  "runs_normally m i \<Longrightarrow>
   sd_authorization_generation (fst (safety_evaluate m i)) = si_system_authorization i"
  by (simp add: safety_evaluate_normal normal_decision_def Let_def)

interpretation rearming: stamped_machine safety_step "\<lambda>m. unat (sm_last_authorization m)" rearmed
  "\<lambda>l. unat (sd_authorization_generation (log_decision l))"
proof
  fix m i
  show "unat (sm_last_authorization m) \<le> unat (sm_last_authorization (snd (safety_step m i)))"
    by (simp add: safety_step_def last_authorization_step word_le_nat_alt [symmetric])
next
  fix m i
  assume "rearmed (fst (safety_step m i))"
  then have r: "sm_rearm_required m" "runs_normally m i"
    by (simp_all add: rearmed_def safety_step_def normal_iff)
  then show "unat (sm_last_authorization m)
      < unat (sd_authorization_generation (log_decision (fst (safety_step m i))))"
    by (simp add: safety_step_def normal_authorization runs_normally_def authorized_def
        word_less_nat_alt [symmetric])
next
  fix m i
  assume "rearmed (fst (safety_step m i))"
  then have "runs_normally m i" by (simp add: rearmed_def safety_step_def normal_iff)
  then show "unat (sd_authorization_generation (log_decision (fst (safety_step m i))))
      \<le> unat (sm_last_authorization (snd (safety_step m i)))"
    by (simp add: safety_step_def normal_authorization last_authorization_step
        word_le_nat_alt [symmetric])
qed

interpretation resets: stamped_machine safety_step "\<lambda>m. unat (sm_last_fault_reset m)"
  fault_reset_issued "\<lambda>l. unat (log_reset_generation l)"
proof
  fix m i
  show "unat (sm_last_fault_reset m) \<le> unat (sm_last_fault_reset (snd (safety_step m i)))"
    by (auto simp: safety_step_def last_fault_reset_step resets_fault_def fresh_reset_def
        word_le_nat_alt [symmetric])
next
  fix m i
  assume "fault_reset_issued (fst (safety_step m i))"
  then show "unat (sm_last_fault_reset m) < unat (log_reset_generation (fst (safety_step m i)))"
    by (simp add: fault_reset_issued_def safety_step_def reset_iff resets_fault_def
        fresh_reset_def word_less_nat_alt [symmetric])
next
  fix m i
  assume "fault_reset_issued (fst (safety_step m i))"
  then show "unat (log_reset_generation (fst (safety_step m i)))
      \<le> unat (sm_last_fault_reset (snd (safety_step m i)))"
    by (simp add: fault_reset_issued_def safety_step_def reset_iff last_fault_reset_step)
qed

text \<open>
  C19: along any run, every return to normal operation after a trip uses a system
  authorization newer than those of all earlier returns, and every fault reset a reset
  generation newer than those of all earlier resets.
\<close>

theorem rearming_and_resets_never_replayed:
  "sorted_wrt (<) (map (\<lambda>l. sd_authorization_generation (log_decision l))
     (filter rearmed (run_outputs safety_step m inputs))) \<and>
   sorted_wrt (<) (map log_reset_generation
     (filter fault_reset_issued (run_outputs safety_step m inputs)))"
  using rearming.selected_strictly_increasing [of m inputs]
    resets.selected_strictly_increasing [of m inputs]
  by (simp add: sorted_wrt_map word_less_nat_alt [symmetric])

section \<open>Trips\<close>

definition trips :: "safety_input \<Rightarrow> bool" where
  "trips i \<longleftrightarrow> \<not> interlocks_clear i \<or> \<not> drive_healthy i \<or> \<not> command_selected i"

lemma trips_requires_rearm:
  "trips i \<Longrightarrow> sm_rearm_required (snd (safety_evaluate m i))"
  by (auto simp: trips_def safety_evaluate_def Let_def interlocks_clear_def drive_healthy_def
      command_selected_def)

lemma rearm_kept:
  "sm_rearm_required m \<Longrightarrow> \<not> runs_normally m i \<Longrightarrow> sm_rearm_required (snd (safety_evaluate m i))"
  by (cases rule: safety_evaluate_cases [of m i]) auto

definition ran_normally :: "safety_log \<Rightarrow> bool" where
  "ran_normally l \<longleftrightarrow> sd_state (log_decision l) = Normal"

lemma rearm_kept_run:
  assumes "sm_rearm_required m" "filter ran_normally (run_outputs safety_step m is) = []"
  shows "sm_rearm_required (run_state safety_step m is) \<and>
    sm_last_authorization (run_state safety_step m is) = sm_last_authorization m"
  using assms
proof (induction "is" arbitrary: m)
  case Nil
  then show ?case by simp
next
  case (Cons i "is")
  then have n: "\<not> runs_normally m i"
    by (auto simp: ran_normally_def safety_step_def normal_iff split: if_splits)
  with Cons.prems have "sm_rearm_required (snd (safety_step m i))"
    by (simp add: safety_step_def rearm_kept)
  with Cons n show ?case
    by (auto simp: safety_step_def last_authorization_step split: if_splits)
qed

text \<open>
  C20: after a cycle with an interlock open, a drive fault or no selected command, the drives
  return to normal operation only under a system authorization newer than the last one that
  was used before the trip, whatever happens in between.
\<close>

theorem trip_needs_fresh_authorization:
  assumes "trips i"
    and "filter ran_normally (run_outputs safety_step (snd (safety_evaluate m i)) inputs) = []"
    and "sd_state (fst (safety_evaluate
           (run_state safety_step (snd (safety_evaluate m i)) inputs) j)) = Normal"
  shows "sm_last_authorization m < si_system_authorization j"
proof -
  have "\<not> runs_normally m i" using assms(1) by (auto simp: trips_def runs_normally_def)
  then have "sm_last_authorization (snd (safety_evaluate m i)) = sm_last_authorization m"
    by (simp add: last_authorization_step)
  moreover note rearm_kept_run [OF trips_requires_rearm [OF assms(1)] assms(2)]
  ultimately show ?thesis
    using assms(3) by (simp add: normal_iff runs_normally_def authorized_def)
qed

section \<open>Bringing the drives up\<close>

definition with_axes :: "safety_input \<Rightarrow> cia402_state \<Rightarrow> safety_input" where
  "with_axes i st = i\<lparr>si_low_half_state := st, si_high_half_state := st\<rparr>"

definition bring_up :: "safety_input \<Rightarrow> safety_input list" where
  "bring_up i = map (with_axes i)
     [Switch_on_disabled, Ready_to_switch_on, Switched_on, Operation_enabled]"

definition drive_ready_input :: "safety_input \<Rightarrow> bool" where
  "drive_ready_input i \<longleftrightarrow>
     interlocks_clear i \<and> \<not> si_drive_fault_active i \<and> command_selected i"

lemma both_axes_with_axes [simp]: "both_axes (with_axes i s) s' \<longleftrightarrow> s = s'"
  by (auto simp: both_axes_def with_axes_def)

lemma drive_ready_with_axes [simp]:
  "drive_ready_input (with_axes i s) = drive_ready_input i"
  "si_system_authorization (with_axes i s) = si_system_authorization i"
  "si_selected (with_axes i s) = si_selected i"
  by (simp_all add: drive_ready_input_def with_axes_def interlocks_clear_def
      communication_ready_def command_selected_def)

lemma bring_up_step:
  assumes "drive_ready_input i" "authorized m i"
  shows "both_axes i Switch_on_disabled \<Longrightarrow> safety_evaluate m i =
           (safety_inhibited Zero_hold Act_shutdown (sm_decision_generation m + 1),
            m\<lparr>sm_decision_generation := sm_decision_generation m + 1\<rparr>)"
    and "both_axes i Ready_to_switch_on \<Longrightarrow> safety_evaluate m i =
           (safety_inhibited Zero_hold Act_switch_on (sm_decision_generation m + 1),
            m\<lparr>sm_decision_generation := sm_decision_generation m + 1\<rparr>)"
    and "both_axes i Switched_on \<Longrightarrow> safety_evaluate m i =
           (safety_inhibited Zero_hold Act_enable_operation (sm_decision_generation m + 1),
            m\<lparr>sm_decision_generation := sm_decision_generation m + 1\<rparr>)"
  using assms
  by (auto simp: safety_evaluate_def Let_def drive_ready_input_def interlocks_clear_def
      communication_ready_def command_selected_def authorized_def both_axes_def)

lemma authorized_bookkeeping [simp]:
  "authorized (m\<lparr>sm_decision_generation := g\<rparr>) i = authorized m i"
  "authorized m (with_axes i s) = authorized m i"
  by (simp_all add: authorized_def)

lemma runs_normally_with_axes:
  "drive_ready_input i \<Longrightarrow> authorized m i \<Longrightarrow> runs_normally m (with_axes i Operation_enabled)"
  using drive_ready_with_axes(1) [of i Operation_enabled]
  by (simp add: runs_normally_def drive_ready_input_def drive_healthy_def)

lemma bring_up_actions:
  assumes "drive_ready_input i" "authorized m i"
  shows "map (\<lambda>l. sd_action (log_decision l)) (run_outputs safety_step m (bring_up i)) =
    [Act_shutdown, Act_switch_on, Act_enable_operation,
     if is_zero (sel_command (si_selected i)) then Act_enable_operation else Act_approved_target]"
  using assms
  by (simp add: bring_up_def safety_step_def bring_up_step safety_evaluate_normal
      runs_normally_with_axes safety_inhibited_def normal_decision_def)

text \<open>
  With clear interlocks, a healthy drive, a selected command and a valid authorization,
  drives that follow the CiA 402 sequence are led from switch on disabled to operation enabled
  by shutdown, switch on and enable operation, and the fourth decision runs the command.
\<close>

theorem bring_up_sequence:
  assumes "drive_ready_input i" and "authorized m i"
  shows "map (\<lambda>l. sd_action (log_decision l)) (run_outputs safety_step m (bring_up i)) =
    [Act_shutdown, Act_switch_on, Act_enable_operation,
     if is_zero (sel_command (si_selected i)) then Act_enable_operation else Act_approved_target]"
  using assms by (rule bring_up_actions)

text \<open>
  The drives may also leave operation enabled without tripping the manager: when both axes are
  found in switch on disabled, they are brought up again and motion is approved under the
  authorization that was used before. The rearm flag is not set on this path.
\<close>

lemma reenabled_without_fresh_authorization:
  assumes "sd_motion_approved (fst (safety_evaluate m i))"
  shows "map (\<lambda>l. sd_action (log_decision l))
      (run_outputs safety_step (snd (safety_evaluate m i)) (bring_up i)) =
    [Act_shutdown, Act_switch_on, Act_enable_operation, Act_approved_target]"
proof -
  have r: "runs_normally m i" "\<not> is_zero (sel_command (si_selected i))"
    using assms by (cases rule: safety_evaluate_cases [of m i];
        simp add: fault_reset_decision_def safety_inhibited_def normal_decision_def Let_def)+
  from r(1) have "drive_ready_input i"
    by (simp add: drive_ready_input_def runs_normally_def drive_healthy_def)
  moreover have "authorized (snd (safety_evaluate m i)) i"
    using r(1) by (simp add: safety_evaluate_normal authorized_def)
  ultimately show ?thesis using r(2) by (simp add: bring_up_actions)
qed

section \<open>The arbiter and the safety manager in one control cycle\<close>

definition control_cycle ::
  "arbiter \<times> safety_manager \<Rightarrow> arbiter_input \<times> time_ns \<times> safety_input
     \<Rightarrow> safety_decision \<times> (arbiter \<times> safety_manager)" where
  "control_cycle s x =
     (let (a, m) = s; (inp, now, si) = x;
          (sel, a') = arbiter_evaluate a inp now;
          (d, m') = safety_evaluate m (si\<lparr>si_selected := sel\<rparr>)
      in (d, (a', m')))"

lemma control_cycle_simps:
  "fst (control_cycle (a, m) (inp, now, si)) =
     fst (safety_evaluate m (si\<lparr>si_selected := fst (arbiter_evaluate a inp now)\<rparr>))"
  "fst (snd (control_cycle (a, m) (inp, now, si))) = snd (arbiter_evaluate a inp now)"
  by (simp_all add: control_cycle_def case_prod_beta Let_def)

lemma approved_command_cases:
  "sd_approved_command (fst (safety_evaluate m i)) \<in> {sel_command (si_selected i), zero_command}"
  by (cases rule: safety_evaluate_cases [of m i])
    (simp_all add: normal_decision_def fault_reset_decision_def safety_inhibited_def Let_def)

text \<open>
  C31: over any run of the arbiter feeding the safety manager, every command approved for the
  drives is within the configured wheel-speed limit, from the first cycle on.
\<close>

theorem approved_commands_within_limit:
  "list_all (\<lambda>d. within_limit (max 0 (sint (max_abs_rpm config))) (sd_approved_command d))
     (run_outputs control_cycle (arbiter_init config, safety_init) inputs)"
proof (rule run_outputs_all [of "\<lambda>s. limit_kept (max 0 (sint (max_abs_rpm config))) (fst s)"])
  fix s :: "arbiter \<times> safety_manager" and x :: "arbiter_input \<times> time_ns \<times> safety_input"
  assume k: "limit_kept (max 0 (sint (max_abs_rpm config))) (fst s)"
  obtain a m inp now si where sx: "s = (a, m)" "x = (inp, now, si)" by (cases s, cases x) auto
  have k': "limit_kept (max 0 (sint (max_abs_rpm config))) a" using k sx by simp
  show "limit_kept (max 0 (sint (max_abs_rpm config))) (fst (snd (control_cycle s x)))"
    using limit_kept_step [OF k', of "(inp, now)"] by (simp add: sx control_cycle_simps arbiter_step_def)
  show "within_limit (max 0 (sint (max_abs_rpm config)))
      (sd_approved_command (fst (control_cycle s x)))"
    using limit_kept_output [OF k', of inp now] unfolding sx control_cycle_simps
    using approved_command_cases
      [of m "si\<lparr>si_selected := fst (arbiter_evaluate a inp now)\<rparr>"] by auto
qed simp

text \<open>
  C2: a motion that is approved for the drives comes from a producer that holds authority in
  the same control cycle, and the approved command is that producer's bounded command.
\<close>

theorem approved_motion_has_authority:
  assumes "sd_motion_approved (fst (control_cycle (a, m) (inp, now, si)))"
  shows "(manual_authority a inp now \<and>
            sd_approved_command (fst (control_cycle (a, m) (inp, now, si))) =
              bounded a (cs_command (in_sbus inp))) \<or>
         (external_authority a inp now \<and>
            sd_approved_command (fst (control_cycle (a, m) (inp, now, si))) =
              bounded a (cs_command (in_external inp)))"
proof -
  let ?out = "fst (arbiter_evaluate a inp now)"
  let ?i = "si\<lparr>si_selected := ?out\<rparr>"
  have ok: "sel_valid ?out" "sd_approved_command (fst (safety_evaluate m ?i)) = sel_command ?out"
    using assms unfolding control_cycle_simps
    by (cases rule: safety_evaluate_cases [of m ?i];
        simp add: fault_reset_decision_def safety_inhibited_def normal_decision_def Let_def
          runs_normally_def command_selected_def)+
  consider (m) "manual_authority a inp now" | (e) "external_authority a inp now"
    | (n) "\<not> manual_authority a inp now" "\<not> external_authority a inp now"
    by blast
  then show ?thesis
  proof cases
    case m
    then show ?thesis
      unfolding control_cycle_simps ok(2) by (auto elim: manual_output simp: bounded_def)
  next
    case e
    then show ?thesis
      unfolding control_cycle_simps ok(2) by (auto elim: external_output simp: bounded_def)
  next
    case n
    with ok(1) show ?thesis by (auto elim: no_authority_output)
  qed
qed

section \<open>A concrete cycle\<close>

definition example_safety_input :: "cia402_state \<Rightarrow> u64 \<Rightarrow> safety_input" where
  "example_safety_input st auth =
     \<lparr>si_selected = fst (arbiter_evaluate (arbiter_init default_arbiter_config) example_manual 0),
      si_low_half_state = st, si_high_half_state = st, si_system_authorization = auth,
      si_fault_reset_generation = 0, si_coherent = True, si_can_started = True,
      si_can_bus_off = False, si_nmt_operational = True, si_heartbeat_fresh = True,
      si_status_fresh = True, si_required_tpdo_fresh = True, si_mode_valid = True,
      si_drive_fault_active = False, si_fault_cause_absent = False,
      si_emergency_stop_known = True, si_emergency_stop_active = False,
      si_shutdown_requested = False, si_fault_reset_requested = False\<rparr>"

lemma trip_needs_fresh_authorization_witness:
  "sm_last_authorization (safety_init\<lparr>sm_last_authorization := 4\<rparr>)
     < si_system_authorization (example_safety_input Operation_enabled 5)"
proof (rule trip_needs_fresh_authorization)
  show "trips (example_safety_input Cia_fault 4)" by code_simp
  show "filter ran_normally (run_outputs safety_step
      (snd (safety_evaluate (safety_init\<lparr>sm_last_authorization := 4\<rparr>)
         (example_safety_input Cia_fault 4)))
      [example_safety_input Operation_enabled 4]) = []" by code_simp
  show "sd_state (fst (safety_evaluate
     (run_state safety_step (snd (safety_evaluate (safety_init\<lparr>sm_last_authorization := 4\<rparr>)
         (example_safety_input Cia_fault 4))) [example_safety_input Operation_enabled 4])
     (example_safety_input Operation_enabled 5))) = Normal" by code_simp
qed

lemma bring_up_sequence_witness:
  "map (\<lambda>l. sd_action (log_decision l))
     (run_outputs safety_step safety_init (bring_up (example_safety_input Cia_unknown 1))) =
   [Act_shutdown, Act_switch_on, Act_enable_operation, Act_approved_target]"
proof -
  have "drive_ready_input (example_safety_input Cia_unknown 1)" by code_simp
  moreover have "authorized safety_init (example_safety_input Cia_unknown 1)" by code_simp
  moreover have "\<not> is_zero (sel_command (si_selected (example_safety_input Cia_unknown 1)))"
    by code_simp
  ultimately show ?thesis using bring_up_sequence by simp
qed

lemma approved_motion_has_authority_witness:
  "(manual_authority (arbiter_init default_arbiter_config) example_manual 0 \<and>
      sd_approved_command (fst (control_cycle (arbiter_init default_arbiter_config, safety_init)
        (example_manual, 0, example_safety_input Operation_enabled 1))) =
      bounded (arbiter_init default_arbiter_config) (cs_command (in_sbus example_manual))) \<or>
   (external_authority (arbiter_init default_arbiter_config) example_manual 0 \<and>
      sd_approved_command (fst (control_cycle (arbiter_init default_arbiter_config, safety_init)
        (example_manual, 0, example_safety_input Operation_enabled 1))) =
      bounded (arbiter_init default_arbiter_config) (cs_command (in_external example_manual)))"
  by (rule approved_motion_has_authority) code_simp

end
