(* ===== verification/Canopen_Gate.thy ===== *)
theory Canopen_Gate
  imports RC_Prelude
begin

text \<open>
  The transmit gates in front of the upstream CANopen stack:
  \<open>communication/canopen/transmit_gate.c\<close>, which denies every frame, and
  \<open>communication/canopen/commissioning_gate.c\<close>, which lets one authorized frame through. The
  thread-local \<open>authorization\<close> variable is a record passed explicitly; the outcome of
  \<open>send(2)\<close>, its result and \<open>errno\<close>, is an argument. Both gates implement the interface
  \<open>transmit_gate\<close>, from which the safety of any sequence of calls follows.
\<close>

section \<open>Frames and calls\<close>

text \<open>
  \<open>struct can_frame\<close> of the kernel interface: identifier, length, three bytes of padding and
  reserved fields, eight data bytes.
\<close>

record can_frame =
  can_id :: u32
  can_dlc :: u8
  can_reserved :: "u8 list"
  can_data :: "u8 list"

definition zero_frame :: can_frame where
  "zero_frame = \<lparr>can_id = 0, can_dlc = 0, can_reserved = replicate 3 0, can_data = replicate 8 0\<rparr>"

definition CAN_MTU :: nat where "CAN_MTU = 16"
definition MSG_DONTWAIT :: int where "MSG_DONTWAIT = 0x40"
definition EINTR :: int where "EINTR = 4"
definition EAGAIN :: int where "EAGAIN = 11"
definition EACCES :: int where "EACCES = 13"
definition ENOBUFS :: int where "ENOBUFS = 105"

record transmit_request =
  rq_socket :: int
  rq_buffer :: "can_frame option"
  rq_length :: nat
  rq_flags :: int

text \<open>What \<open>send\<close> would return for the call: its result, and \<open>errno\<close> when that is negative.\<close>

record send_outcome =
  so_result :: int
  so_errno :: int

text \<open>
  The response of a gate: the value returned, the \<open>errno\<close> left behind, and the frame handed to
  \<open>send\<close>, if the call got that far.
\<close>

record transmit_response =
  tx_result :: int
  tx_errno :: int
  tx_sent :: "can_frame option"

definition transmit_refused :: transmit_response where
  "transmit_refused = \<lparr>tx_result = -1, tx_errno = EACCES, tx_sent = None\<rparr>"

definition transmit_done :: "send_outcome \<Rightarrow> can_frame \<Rightarrow> transmit_response" where
  "transmit_done out f = \<lparr>tx_result = so_result out, tx_errno = so_errno out, tx_sent = Some f\<rparr>"

definition sent_successfully :: "transmit_response \<Rightarrow> bool" where
  "sent_successfully r \<longleftrightarrow> tx_sent r \<noteq> None \<and> 0 \<le> tx_result r"

lemma transmit_refused_simps [simp]:
  "tx_sent transmit_refused = None" "tx_result transmit_refused = -1"
  "\<not> sent_successfully transmit_refused"
  by (simp_all add: transmit_refused_def sent_successfully_def)

lemma transmit_done_simps [simp]:
  "tx_sent (transmit_done out f) = Some f" "tx_result (transmit_done out f) = so_result out"
  "sent_successfully (transmit_done out f) \<longleftrightarrow> 0 \<le> so_result out"
  by (simp_all add: transmit_done_def sent_successfully_def)

section \<open>The interface of a transmit gate\<close>

text \<open>
  A gate holds frames it lets through. A call sends only such a frame, never adds one, and a
  successful send leaves none.
\<close>

locale transmit_gate =
  fixes tx :: "'g \<Rightarrow> transmit_request \<times> send_outcome \<Rightarrow> transmit_response \<times> 'g"
    and lets_through :: "'g \<Rightarrow> can_frame \<Rightarrow> bool"
  assumes sends_let_through: "tx_sent (fst (tx g c)) = Some f \<Longrightarrow> lets_through g f"
    and adds_none: "lets_through (snd (tx g c)) f \<Longrightarrow> lets_through g f"
    and success_consumes: "sent_successfully (fst (tx g c)) \<Longrightarrow> \<not> lets_through (snd (tx g c)) f"
begin

lemma run_adds_none: "lets_through (run_state tx g calls) f \<Longrightarrow> lets_through g f"
  by (induction calls arbitrary: g) (auto dest: adds_none)

lemma run_sends_let_through:
  "r \<in> set (run_outputs tx g calls) \<Longrightarrow> tx_sent r = Some f \<Longrightarrow> lets_through g f"
  by (induction calls arbitrary: g) (auto dest: sends_let_through adds_none)

lemma closed_run: "(\<And>f. \<not> lets_through g f) \<Longrightarrow> r \<in> set (run_outputs tx g calls) \<Longrightarrow> tx_sent r = None"
  by (cases "tx_sent r") (auto dest: run_sends_let_through)

lemma at_most_one_success: "length (filter sent_successfully (run_outputs tx g calls)) \<le> 1"
proof (induction calls arbitrary: g)
  case Nil
  show ?case by simp
next
  case (Cons c calls)
  show ?case
  proof (cases "sent_successfully (fst (tx g c))")
    case True
    have "filter sent_successfully (run_outputs tx (snd (tx g c)) calls) = []"
    proof -
      have "\<not> sent_successfully r" if "r \<in> set (run_outputs tx (snd (tx g c)) calls)" for r
        using closed_run [OF _ that] success_consumes [OF True]
        by (simp add: sent_successfully_def)
      then show ?thesis by (simp add: filter_empty_conv)
    qed
    with True show ?thesis by simp
  next
    case False
    with Cons.IH show ?thesis by simp
  qed
qed

end

section \<open>The gate that denies\<close>

definition deny_transmit :: "transmit_request \<Rightarrow> transmit_response" where
  "deny_transmit rq = transmit_refused"

interpretation deny: transmit_gate "\<lambda>u c. (deny_transmit (fst c), u)" "\<lambda>u f. False"
  by unfold_locales (simp_all add: deny_transmit_def)

section \<open>The commissioning gate\<close>

record sdo_object =
  sdo_index :: u16
  sdo_subindex :: u8

record authorization =
  auth_active :: bool
  auth_expected :: can_frame

definition sdo_upload_size :: "sdo_object \<Rightarrow> u8" where
  "sdo_upload_size ob =
     (let index = sdo_index ob; subindex = sdo_subindex ob in
      if index = 0x1000 then (if subindex = 0 then 4 else 0)
      else if index = 0x1001 then (if subindex = 0 then 1 else 0)
      else if index = 0x1009 \<or> index = 0x100A \<or> index = 0x2031 \<or> index = 0x2035
      then (if subindex = 0 then 2 else 0)
      else if index = 0x1018 then (if subindex = 1 \<or> subindex = 2 then 4 else 0)
      else if index = 0x2032 then (if subindex = 3 then 2 else 0)
      else if index = 0x603F \<or> index = 0x6041 then (if subindex = 0 then 4 else 0)
      else if index = 0x6061 then (if subindex = 0 then 1 else 0)
      else 0)"

definition clear_authorization :: authorization where
  "clear_authorization = \<lparr>auth_active = False, auth_expected = zero_frame\<rparr>"

definition authorize_nmt :: "u8 \<Rightarrow> authorization \<Rightarrow> bool \<times> authorization" where
  "authorize_nmt command a =
     (let a1 = clear_authorization in
      if command \<noteq> 0x02 \<and> command \<noteq> 0x80 then (False, a1)
      else (True,
            a1\<lparr>auth_expected := (auth_expected a1)
                 \<lparr>can_id := 0x000, can_dlc := 2,
                  can_data := (can_data (auth_expected a1))[0 := command, 1 := 1]\<rparr>,
               auth_active := True\<rparr>))"

definition authorize_sdo_upload :: "sdo_object \<Rightarrow> authorization \<Rightarrow> bool \<times> authorization" where
  "authorize_sdo_upload ob a =
     (let a1 = clear_authorization in
      if sdo_upload_size ob = 0 then (False, a1)
      else (True,
            a1\<lparr>auth_expected := (auth_expected a1)
                 \<lparr>can_id := 0x601, can_dlc := 8,
                  can_data := (can_data (auth_expected a1))
                    [0 := 0x40, 1 := ucast (sdo_index ob),
                     2 := ucast (drop_bit 8 (sdo_index ob)), 3 := sdo_subindex ob]\<rparr>,
               auth_active := True\<rparr>))"

definition frame_matches :: "authorization \<Rightarrow> can_frame \<Rightarrow> bool" where
  "frame_matches a f \<longleftrightarrow>
     can_id f = can_id (auth_expected a) \<and> can_dlc f = can_dlc (auth_expected a) \<and>
     can_data f = can_data (auth_expected a)"

definition commissioning_transmit ::
  "authorization \<Rightarrow> transmit_request \<times> send_outcome \<Rightarrow> transmit_response \<times> authorization" where
  "commissioning_transmit a c =
     (let (rq, out) = c in
      case rq_buffer rq of
        None \<Rightarrow> (transmit_refused, clear_authorization)
      | Some frame \<Rightarrow>
          if \<not> auth_active a \<or> rq_length rq \<noteq> CAN_MTU \<or> rq_flags rq \<noteq> MSG_DONTWAIT \<or>
             \<not> frame_matches a frame
          then (transmit_refused, clear_authorization)
          else (transmit_done out frame,
                if so_result out \<ge> 0 \<or>
                   (so_errno out \<noteq> EINTR \<and> so_errno out \<noteq> EAGAIN \<and> so_errno out \<noteq> ENOBUFS)
                then clear_authorization else a))"

definition gate_lets_through :: "authorization \<Rightarrow> can_frame \<Rightarrow> bool" where
  "gate_lets_through a f \<longleftrightarrow> auth_active a \<and> frame_matches a f"

lemma clear_authorization_closed [simp]:
  "\<not> auth_active clear_authorization" "\<not> gate_lets_through clear_authorization f"
  by (simp_all add: clear_authorization_def gate_lets_through_def)

lemma commissioning_transmit_cases:
  obtains
    (refused) "commissioning_transmit a c = (transmit_refused, clear_authorization)"
  | (consumed) f where "gate_lets_through a f" "rq_buffer (fst c) = Some f"
      "commissioning_transmit a c = (transmit_done (snd c) f, clear_authorization)"
  | (retained) f where "gate_lets_through a f" "rq_buffer (fst c) = Some f"
      "so_result (snd c) < 0" "so_errno (snd c) \<in> {EINTR, EAGAIN, ENOBUFS}"
      "commissioning_transmit a c = (transmit_done (snd c) f, a)"
proof (cases "rq_buffer (fst c)")
  case None
  then show thesis
    by (intro refused) (simp add: commissioning_transmit_def case_prod_beta)
next
  case (Some f)
  consider (no) "\<not> (auth_active a \<and> rq_length (fst c) = CAN_MTU \<and> rq_flags (fst c) = MSG_DONTWAIT \<and>
      frame_matches a f)"
    | (yes) "auth_active a" "rq_length (fst c) = CAN_MTU" "rq_flags (fst c) = MSG_DONTWAIT"
      "frame_matches a f" by blast
  then show thesis
  proof cases
    case no
    with Some show thesis
      by (intro refused) (auto simp: commissioning_transmit_def case_prod_beta)
  next
    case yes
    then have g: "gate_lets_through a f" by (simp add: gate_lets_through_def)
    show thesis
    proof (cases "0 \<le> so_result (snd c) \<or> so_errno (snd c) \<notin> {EINTR, EAGAIN, ENOBUFS}")
      case True
      with Some yes show thesis
        by (intro consumed [OF g Some]) (auto simp: commissioning_transmit_def case_prod_beta)
    next
      case False
      with Some yes show thesis
        by (intro retained [OF g Some]) (auto simp: commissioning_transmit_def case_prod_beta)
    qed
  qed
qed

interpretation commissioning: transmit_gate commissioning_transmit gate_lets_through
proof
  fix g c f
  assume "tx_sent (fst (commissioning_transmit g c)) = Some f"
  then show "gate_lets_through g f"
    by (cases rule: commissioning_transmit_cases [of g c]) auto
next
  fix g c f
  assume "gate_lets_through (snd (commissioning_transmit g c)) f"
  then show "gate_lets_through g f"
    by (cases rule: commissioning_transmit_cases [of g c]) auto
next
  fix g c f
  assume "sent_successfully (fst (commissioning_transmit g c))"
  then show "\<not> gate_lets_through (snd (commissioning_transmit g c)) f"
    by (cases rule: commissioning_transmit_cases [of g c]) auto
qed

section \<open>Whole sequences of calls\<close>

text \<open>The calls a thread can make, in any order, and what each returns.\<close>

datatype gate_event =
    Ev_authorize_nmt u8
  | Ev_authorize_sdo_upload sdo_object
  | Ev_clear
  | Ev_transmit transmit_request send_outcome

datatype gate_output = Out_authorized bool | Out_cleared | Out_response transmit_response

fun gate_step :: "authorization \<Rightarrow> gate_event \<Rightarrow> gate_output \<times> authorization" where
  "gate_step a (Ev_authorize_nmt c) = (let (b, a') = authorize_nmt c a in (Out_authorized b, a'))"
| "gate_step a (Ev_authorize_sdo_upload ob) =
     (let (b, a') = authorize_sdo_upload ob a in (Out_authorized b, a'))"
| "gate_step a Ev_clear = (Out_cleared, clear_authorization)"
| "gate_step a (Ev_transmit rq out) =
     (let (r, a') = commissioning_transmit a (rq, out) in (Out_response r, a'))"

text \<open>The frames that may ever leave: two NMT commands and the whitelisted upload requests.\<close>

definition nmt_frame_data :: "u8 \<Rightarrow> u8 list" where
  "nmt_frame_data command = [command, 1, 0, 0, 0, 0, 0, 0]"

definition upload_request_data :: "sdo_object \<Rightarrow> u8 list" where
  "upload_request_data ob =
     [0x40, ucast (sdo_index ob), ucast (drop_bit 8 (sdo_index ob)), sdo_subindex ob, 0, 0, 0, 0]"

definition reviewed_frame :: "can_frame \<Rightarrow> bool" where
  "reviewed_frame f \<longleftrightarrow>
     (can_id f = 0 \<and> can_dlc f = 2 \<and> (\<exists>c \<in> {0x02, 0x80}. can_data f = nmt_frame_data c)) \<or>
     (can_id f = 0x601 \<and> can_dlc f = 8 \<and>
      (\<exists>ob. sdo_upload_size ob \<noteq> 0 \<and> can_data f = upload_request_data ob))"

lemma authorize_nmt_eq [gate_simps]:
  "authorize_nmt c a =
     (if c \<in> {0x02, 0x80}
      then (True, \<lparr>auth_active = True,
        auth_expected = zero_frame\<lparr>can_dlc := 2, can_data := nmt_frame_data c\<rparr>\<rparr>)
      else (False, clear_authorization))"
  by (simp add: authorize_nmt_def clear_authorization_def zero_frame_def nmt_frame_data_def
      Let_def numeral_eq_Suc)

lemma authorize_sdo_upload_eq [gate_simps]:
  "authorize_sdo_upload ob a =
     (if sdo_upload_size ob \<noteq> 0
      then (True, \<lparr>auth_active = True, auth_expected =
        zero_frame\<lparr>can_id := 0x601, can_dlc := 8, can_data := upload_request_data ob\<rparr>\<rparr>)
      else (False, clear_authorization))"
  by (simp add: authorize_sdo_upload_def clear_authorization_def zero_frame_def
      upload_request_data_def Let_def numeral_eq_Suc)

text \<open>The states a thread can bring its authorization into, from the zero-initialised one.\<close>

inductive reachable_gate :: "authorization \<Rightarrow> bool" where
  initial: "reachable_gate clear_authorization"
| step: "reachable_gate a \<Longrightarrow> reachable_gate (snd (gate_step a ev))"

lemma commissioning_transmit_state:
  "snd (commissioning_transmit a c) \<in> {a, clear_authorization}"
  by (cases rule: commissioning_transmit_cases [of a c]) auto

lemma reachable_gate_reviewed:
  "reachable_gate a \<Longrightarrow> gate_lets_through a f \<Longrightarrow> reviewed_frame f"
proof (induction arbitrary: f rule: reachable_gate.induct)
  case initial
  then show ?case by simp
next
  case (step a ev)
  show ?case
  proof (cases ev)
    case (Ev_authorize_nmt c)
    with step.prems show ?thesis
      by (auto simp: gate_simps gate_lets_through_def frame_matches_def reviewed_frame_def
          zero_frame_def split: if_splits)
  next
    case (Ev_authorize_sdo_upload ob)
    with step.prems show ?thesis
      by (auto simp: gate_simps gate_lets_through_def frame_matches_def reviewed_frame_def
          zero_frame_def split: if_splits)
  next
    case Ev_clear
    with step.prems show ?thesis by simp
  next
    case (Ev_transmit rq out)
    with step.prems step.IH commissioning_transmit_state [of a "(rq, out)"] show ?thesis
      by (auto simp: case_prod_beta)
  qed
qed

text \<open>What one output has to satisfy: a sent frame is reviewed, any other call is refused.\<close>

definition response_ok :: "gate_output \<Rightarrow> bool" where
  "response_ok out =
     (case out of
        Out_response r \<Rightarrow>
          (case tx_sent r of
             Some f \<Rightarrow> reviewed_frame f
           | None \<Rightarrow> tx_result r = -1 \<and> tx_errno r = EACCES)
      | _ \<Rightarrow> True)"

lemma gate_step_response_ok: "reachable_gate a \<Longrightarrow> response_ok (fst (gate_step a ev))"
proof (cases ev)
  case (Ev_transmit rq out)
  assume "reachable_gate a"
  then show ?thesis
    using reachable_gate_reviewed Ev_transmit
    by (cases rule: commissioning_transmit_cases [of a "(rq, out)"])
      (auto simp: response_ok_def transmit_refused_def)
qed (simp_all add: response_ok_def case_prod_beta)

text \<open>
  C4: whatever a thread calls in whatever order, and whatever \<open>send\<close> answers, every frame that
  reaches \<open>send\<close> is an NMT stop or pre-operational command or a whitelisted upload request for
  node 1, and every other transmit attempt is refused with EACCES.
\<close>

theorem only_reviewed_frames_are_sent:
  "list_all response_ok (run_outputs gate_step clear_authorization events)"
proof (rule run_outputs_all [of reachable_gate])
  fix a ev
  assume "reachable_gate a"
  then show "response_ok (fst (gate_step a ev))" by (rule gate_step_response_ok)
qed (auto intro: reachable_gate.intros)

definition granted :: "gate_output \<Rightarrow> bool" where
  "granted out = (out = Out_authorized True)"

definition delivered :: "gate_output \<Rightarrow> bool" where
  "delivered out = (case out of Out_response r \<Rightarrow> sent_successfully r | _ \<Rightarrow> False)"

lemma gate_step_budget:
  "length (filter delivered [fst (gate_step a ev)]) + (if auth_active (snd (gate_step a ev)) then 1 else 0)
     \<le> (if auth_active a then 1 else 0) + length (filter granted [fst (gate_step a ev)])"
proof (cases ev)
  case (Ev_transmit rq out)
  then show ?thesis
    by (cases rule: commissioning_transmit_cases [of a "(rq, out)"])
      (auto simp: delivered_def granted_def gate_lets_through_def)
qed (auto simp: delivered_def granted_def gate_simps)

lemma gate_run_budget:
  "length (filter delivered (run_outputs gate_step a events)) \<le>
     (if auth_active a then 1 else 0) + length (filter granted (run_outputs gate_step a events))"
proof (induction events arbitrary: a)
  case Nil
  show ?case by simp
next
  case (Cons ev events)
  show ?case
    using Cons.IH [of "snd (gate_step a ev)"] gate_step_budget [of a ev]
    by (auto split: if_splits)
qed

text \<open>
  At any point of any sequence of calls the number of frames sent successfully is at most
  the number of authorizations granted: one authorization never lets two frames through.
\<close>

theorem one_frame_per_authorization:
  "length (filter delivered (run_outputs gate_step clear_authorization events)) \<le>
     length (filter granted (run_outputs gate_step clear_authorization events))"
  using gate_run_budget [of clear_authorization events] by simp

section \<open>Retries and the upload whitelist\<close>

definition well_formed_request :: "can_frame \<Rightarrow> int \<Rightarrow> transmit_request" where
  "well_formed_request f fd =
     \<lparr>rq_socket = fd, rq_buffer = Some f, rq_length = CAN_MTU, rq_flags = MSG_DONTWAIT\<rparr>"

definition transient_failure :: "send_outcome \<Rightarrow> bool" where
  "transient_failure out \<longleftrightarrow> so_result out < 0 \<and> so_errno out \<in> {EINTR, EAGAIN, ENOBUFS}"

lemma transmit_step:
  assumes "gate_lets_through a f"
  shows "commissioning_transmit a (well_formed_request f fd, out) =
    (transmit_done out f, if transient_failure out then a else clear_authorization)"
  using assms
  by (auto simp: commissioning_transmit_def well_formed_request_def gate_lets_through_def
      transient_failure_def)

text \<open>
  An authorized frame is handed to the kernel on every attempt as long as the attempts
  fail for a transient reason (EINTR, EAGAIN, ENOBUFS), so a retry needs no new authorization,
  and the first other outcome consumes the authorization.
\<close>

theorem transient_failures_keep_authorization:
  assumes "gate_lets_through a f" and "list_all transient_failure outs"
    and "\<not> transient_failure last_out"
  shows "run_outputs commissioning_transmit a
           (map (\<lambda>out. (well_formed_request f fd, out)) (outs @ [last_out])) =
         map (\<lambda>out. transmit_done out f) (outs @ [last_out]) \<and>
        run_state commissioning_transmit a
           (map (\<lambda>out. (well_formed_request f fd, out)) (outs @ [last_out])) = clear_authorization"
  using assms(2) by (induction outs) (simp_all add: transmit_step assms(1,3))

definition example_object :: sdo_object where
  "example_object = \<lparr>sdo_index = 0x6041, sdo_subindex = 0\<rparr>"

definition example_request_frame :: can_frame where
  "example_request_frame =
     zero_frame\<lparr>can_id := 0x601, can_dlc := 8, can_data := upload_request_data example_object\<rparr>"

lemma transient_failures_keep_authorization_witness:
  "run_outputs commissioning_transmit (snd (authorize_sdo_upload example_object clear_authorization))
     (map (\<lambda>out. (well_formed_request example_request_frame 5, out))
        ([\<lparr>so_result = -1, so_errno = EAGAIN\<rparr>] @ [\<lparr>so_result = 16, so_errno = 0\<rparr>])) =
     map (\<lambda>out. transmit_done out example_request_frame)
        ([\<lparr>so_result = -1, so_errno = EAGAIN\<rparr>] @ [\<lparr>so_result = 16, so_errno = 0\<rparr>]) \<and>
   run_state commissioning_transmit (snd (authorize_sdo_upload example_object clear_authorization))
     (map (\<lambda>out. (well_formed_request example_request_frame 5, out))
        ([\<lparr>so_result = -1, so_errno = EAGAIN\<rparr>] @ [\<lparr>so_result = 16, so_errno = 0\<rparr>])) =
     clear_authorization"
proof (rule transient_failures_keep_authorization)
  show "gate_lets_through (snd (authorize_sdo_upload example_object clear_authorization))
      example_request_frame" by code_simp
  show "list_all transient_failure [\<lparr>so_result = -1, so_errno = EAGAIN\<rparr>]" by code_simp
  show "\<not> transient_failure \<lparr>so_result = 16, so_errno = 0\<rparr>" by code_simp
qed

definition upload_whitelist :: "(u16 \<times> u8 \<times> u8) list" where
  "upload_whitelist =
     [(0x1000, 0, 4), (0x1001, 0, 1), (0x1009, 0, 2), (0x100A, 0, 2), (0x1018, 1, 4),
      (0x1018, 2, 4), (0x2031, 0, 2), (0x2032, 3, 2), (0x2035, 0, 2), (0x603F, 0, 4),
      (0x6041, 0, 4), (0x6061, 0, 1)]"

lemma sdo_upload_size_whitelist:
  "sdo_upload_size ob \<noteq> 0 \<longleftrightarrow>
     (sdo_index ob, sdo_subindex ob, sdo_upload_size ob) \<in> set upload_whitelist"
  by (simp add: sdo_upload_size_def upload_whitelist_def Let_def)

lemma ucast_halves_eq:
  assumes "(ucast (i :: u16) :: u8) = ucast (j :: u16)"
    and "(ucast (drop_bit 8 i) :: u8) = ucast (drop_bit 8 j)"
  shows "i = j"
proof (rule bit_word_eqI)
  fix n
  assume n: "n < LENGTH(16)"
  show "bit i n \<longleftrightarrow> bit j n"
  proof (cases "n < 8")
    case True
    have "bit (ucast i :: u8) n = bit (ucast j :: u8) n" by (simp add: assms(1))
    with True show ?thesis by (simp add: bit_simps)
  next
    case False
    have "bit (ucast (drop_bit 8 i) :: u8) (n - 8) = bit (ucast (drop_bit 8 j) :: u8) (n - 8)"
      by (simp add: assms(2))
    moreover have "n - 8 < 8" using False n by simp
    ultimately show ?thesis using False n by (simp add: bit_simps)
  qed
qed

lemma upload_request_data_inject [simp]:
  "upload_request_data ob = upload_request_data ob' \<longleftrightarrow> ob = ob'"
  by (cases ob; cases ob') (auto simp: upload_request_data_def dest: ucast_halves_eq)

text \<open>
  An upload is authorized exactly for the twelve reviewed objects, and the authorization
  lets through the request for that object and for no other one.
\<close>

theorem upload_authorization_exact:
  "(fst (authorize_sdo_upload ob a) \<longleftrightarrow>
     (\<exists>size. (sdo_index ob, sdo_subindex ob, size) \<in> set upload_whitelist)) \<and>
   (gate_lets_through (snd (authorize_sdo_upload ob a))
      (zero_frame\<lparr>can_id := 0x601, can_dlc := 8, can_data := upload_request_data ob'\<rparr>) \<longleftrightarrow>
     ob' = ob \<and> sdo_upload_size ob \<noteq> 0)"
proof (rule conjI)
  have "(sdo_index ob, sdo_subindex ob, size) \<in> set upload_whitelist \<Longrightarrow> sdo_upload_size ob \<noteq> 0"
    for size
    by (auto simp: upload_whitelist_def sdo_upload_size_def)
  then show "fst (authorize_sdo_upload ob a) \<longleftrightarrow>
      (\<exists>size. (sdo_index ob, sdo_subindex ob, size) \<in> set upload_whitelist)"
    using sdo_upload_size_whitelist [of ob] by (auto simp: gate_simps)
next
  show "gate_lets_through (snd (authorize_sdo_upload ob a))
      (zero_frame\<lparr>can_id := 0x601, can_dlc := 8, can_data := upload_request_data ob'\<rparr>) \<longleftrightarrow>
     ob' = ob \<and> sdo_upload_size ob \<noteq> 0"
    by (auto simp: gate_simps gate_lets_through_def frame_matches_def)
qed

end
