(* ===== verification/Canopen_OD.thy ===== *)
theory Canopen_OD
  imports RC_Prelude
begin

text \<open>
  The generated object dictionary of \<^verbatim>\<open>src/communication/canopen/od\<close>: the storage groups
  and their initial values, the object descriptors with their pointers, the sorted entry list
  and the shortcut macros.  The lemmas show that the list is well formed (the order a binary
  search by index relies on, counts, lengths and pointers that agree) and that the shortcuts
  designate the entries they are named after.
\<close>

section \<open>Storage groups (OD.h)\<close>

record od_identity =
  id_highestSub_indexSupported :: u8
  id_vendor_ID :: u32
  id_productCode :: u32
  id_revisionNumber :: u32
  id_serialNumber :: u32

record sdo_client_parameter =
  sdoc_highestSub_indexSupported :: u8
  sdoc_COB_IDClientToServerTx :: u32
  sdoc_COB_IDServerToClientRx :: u32
  sdoc_node_IDOfTheSDOServer :: u8

record rpdo_communication_parameter =
  rpdo_highestSub_indexSupported :: u8
  rpdo_COB_IDUsedByRPDO :: u32
  rpdo_transmissionType :: u8
  rpdo_eventTimer :: u16

record pdo_mapping_parameter =
  pdom_numberOfMappedApplicationObjectsInPDO :: u8
  pdom_applicationObject1 :: u32
  pdom_applicationObject2 :: u32
  pdom_applicationObject3 :: u32
  pdom_applicationObject4 :: u32
  pdom_applicationObject5 :: u32
  pdom_applicationObject6 :: u32
  pdom_applicationObject7 :: u32
  pdom_applicationObject8 :: u32

record tpdo_communication_parameter =
  tpdo_highestSub_indexSupported :: u8
  tpdo_COB_IDUsedByTPDO :: u32
  tpdo_transmissionType :: u8
  tpdo_inhibitTime :: u16
  tpdo_eventTimer :: u16
  tpdo_SYNCStartValue :: u8

record sdo_server_parameter =
  sdos_highestSub_indexSupported :: u8
  sdos_COB_IDClientToServerRx :: u32
  sdos_COB_IDServerToClientTx :: u32

record od_persist_comm =
  x1000_deviceType :: u32
  x1005_COB_ID_SYNCMessage :: u32
  x1006_communicationCyclePeriod :: u32
  x1007_synchronousWindowLength :: u32
  x1012_COB_IDTimeStampObject :: u32
  x1014_COB_ID_EMCY :: u32
  x1015_inhibitTimeEMCY :: u16
  x1016_consumerHeartbeatTime_sub0 :: u8
  x1016_consumerHeartbeatTime :: "u32 list"
  x1017_producerHeartbeatTime :: u16
  x1018_identity :: od_identity
  x1019_synchronousCounterOverflowValue :: u8
  x1280_SDOClientParameter :: sdo_client_parameter
  x1400_RPDOCommunicationParameter :: rpdo_communication_parameter
  x1401_RPDOCommunicationParameter :: rpdo_communication_parameter
  x1402_RPDOCommunicationParameter :: rpdo_communication_parameter
  x1403_RPDOCommunicationParameter :: rpdo_communication_parameter
  x1600_RPDOMappingParameter :: pdo_mapping_parameter
  x1601_RPDOMappingParameter :: pdo_mapping_parameter
  x1602_RPDOMappingParameter :: pdo_mapping_parameter
  x1603_RPDOMappingParameter :: pdo_mapping_parameter
  x1800_TPDOCommunicationParameter :: tpdo_communication_parameter
  x1801_TPDOCommunicationParameter :: tpdo_communication_parameter
  x1802_TPDOCommunicationParameter :: tpdo_communication_parameter
  x1803_TPDOCommunicationParameter :: tpdo_communication_parameter
  x1A00_TPDOMappingParameter :: pdo_mapping_parameter
  x1A01_TPDOMappingParameter :: pdo_mapping_parameter
  x1A02_TPDOMappingParameter :: pdo_mapping_parameter
  x1A03_TPDOMappingParameter :: pdo_mapping_parameter

record od_ram_group =
  x1001_errorRegister :: u8
  x1010_storeParameters_sub0 :: u8
  x1010_storeParameters :: "u32 list"
  x1011_restoreDefaultParameters_sub0 :: u8
  x1011_restoreDefaultParameters :: "u32 list"
  x1200_SDOServerParameter :: sdo_server_parameter

text \<open>
  The dictionary's storage: the two mutable global groups of \<^verbatim>\<open>OD.c\<close>.  The generated
  object records hold pointers into it; a pointer is the cell it designates, read in a given
  memory.  The constructor of a cell is the width of its C type, and an array is a list of the
  array's elements.
\<close>

record od_memory =
  mem_persist :: od_persist_comm
  mem_ram :: od_ram_group

datatype od_cell = Cells8 "u8 list" | Cells16 "u16 list" | Cells32 "u32 list"

type_synonym od_ref = "od_memory \<Rightarrow> od_cell"

definition persist8 :: "(od_persist_comm \<Rightarrow> u8) \<Rightarrow> od_ref" where
  "persist8 f = (\<lambda>m. Cells8 [f (mem_persist m)])"

definition persist16 :: "(od_persist_comm \<Rightarrow> u16) \<Rightarrow> od_ref" where
  "persist16 f = (\<lambda>m. Cells16 [f (mem_persist m)])"

definition persist32 :: "(od_persist_comm \<Rightarrow> u32) \<Rightarrow> od_ref" where
  "persist32 f = (\<lambda>m. Cells32 [f (mem_persist m)])"

definition persist32s :: "(od_persist_comm \<Rightarrow> u32 list) \<Rightarrow> od_ref" where
  "persist32s f = (\<lambda>m. Cells32 (f (mem_persist m)))"

definition ram8 :: "(od_ram_group \<Rightarrow> u8) \<Rightarrow> od_ref" where
  "ram8 f = (\<lambda>m. Cells8 [f (mem_ram m)])"

definition ram32 :: "(od_ram_group \<Rightarrow> u32) \<Rightarrow> od_ref" where
  "ram32 f = (\<lambda>m. Cells32 [f (mem_ram m)])"

definition ram32s :: "(od_ram_group \<Rightarrow> u32 list) \<Rightarrow> od_ref" where
  "ram32s f = (\<lambda>m. Cells32 (f (mem_ram m)))"

section \<open>Initial values (OD.c)\<close>

definition x1018_identity_init :: od_identity where
  "x1018_identity_init =
     \<lparr>id_highestSub_indexSupported = 0x04,
      id_vendor_ID = 0x00000000,
      id_productCode = 0x00000000,
      id_revisionNumber = 0x00000000,
      id_serialNumber = 0x00000000\<rparr>"

definition x1280_SDOClientParameter_init :: sdo_client_parameter where
  "x1280_SDOClientParameter_init =
     \<lparr>sdoc_highestSub_indexSupported = 0x03,
      sdoc_COB_IDClientToServerTx = 0x80000000,
      sdoc_COB_IDServerToClientRx = 0x80000000,
      sdoc_node_IDOfTheSDOServer = 0x01\<rparr>"

definition x1400_RPDOCommunicationParameter_init :: rpdo_communication_parameter where
  "x1400_RPDOCommunicationParameter_init =
     \<lparr>rpdo_highestSub_indexSupported = 0x05,
      rpdo_COB_IDUsedByRPDO = 0x80000200,
      rpdo_transmissionType = 0xFE,
      rpdo_eventTimer = 0x0000\<rparr>"

definition x1401_RPDOCommunicationParameter_init :: rpdo_communication_parameter where
  "x1401_RPDOCommunicationParameter_init =
     \<lparr>rpdo_highestSub_indexSupported = 0x05,
      rpdo_COB_IDUsedByRPDO = 0x80000300,
      rpdo_transmissionType = 0xFE,
      rpdo_eventTimer = 0x0000\<rparr>"

definition x1402_RPDOCommunicationParameter_init :: rpdo_communication_parameter where
  "x1402_RPDOCommunicationParameter_init =
     \<lparr>rpdo_highestSub_indexSupported = 0x05,
      rpdo_COB_IDUsedByRPDO = 0x80000400,
      rpdo_transmissionType = 0xFE,
      rpdo_eventTimer = 0x0000\<rparr>"

definition x1403_RPDOCommunicationParameter_init :: rpdo_communication_parameter where
  "x1403_RPDOCommunicationParameter_init =
     \<lparr>rpdo_highestSub_indexSupported = 0x05,
      rpdo_COB_IDUsedByRPDO = 0x80000500,
      rpdo_transmissionType = 0xFE,
      rpdo_eventTimer = 0x0000\<rparr>"

definition x1600_RPDOMappingParameter_init :: pdo_mapping_parameter where
  "x1600_RPDOMappingParameter_init =
     \<lparr>pdom_numberOfMappedApplicationObjectsInPDO = 0x00,
      pdom_applicationObject1 = 0x00000000,
      pdom_applicationObject2 = 0x00000000,
      pdom_applicationObject3 = 0x00000000,
      pdom_applicationObject4 = 0x00000000,
      pdom_applicationObject5 = 0x00000000,
      pdom_applicationObject6 = 0x00000000,
      pdom_applicationObject7 = 0x00000000,
      pdom_applicationObject8 = 0x00000000\<rparr>"

definition x1601_RPDOMappingParameter_init :: pdo_mapping_parameter where
  "x1601_RPDOMappingParameter_init =
     \<lparr>pdom_numberOfMappedApplicationObjectsInPDO = 0x00,
      pdom_applicationObject1 = 0x00000000,
      pdom_applicationObject2 = 0x00000000,
      pdom_applicationObject3 = 0x00000000,
      pdom_applicationObject4 = 0x00000000,
      pdom_applicationObject5 = 0x00000000,
      pdom_applicationObject6 = 0x00000000,
      pdom_applicationObject7 = 0x00000000,
      pdom_applicationObject8 = 0x00000000\<rparr>"

definition x1602_RPDOMappingParameter_init :: pdo_mapping_parameter where
  "x1602_RPDOMappingParameter_init =
     \<lparr>pdom_numberOfMappedApplicationObjectsInPDO = 0x00,
      pdom_applicationObject1 = 0x00000000,
      pdom_applicationObject2 = 0x00000000,
      pdom_applicationObject3 = 0x00000000,
      pdom_applicationObject4 = 0x00000000,
      pdom_applicationObject5 = 0x00000000,
      pdom_applicationObject6 = 0x00000000,
      pdom_applicationObject7 = 0x00000000,
      pdom_applicationObject8 = 0x00000000\<rparr>"

definition x1603_RPDOMappingParameter_init :: pdo_mapping_parameter where
  "x1603_RPDOMappingParameter_init =
     \<lparr>pdom_numberOfMappedApplicationObjectsInPDO = 0x00,
      pdom_applicationObject1 = 0x00000000,
      pdom_applicationObject2 = 0x00000000,
      pdom_applicationObject3 = 0x00000000,
      pdom_applicationObject4 = 0x00000000,
      pdom_applicationObject5 = 0x00000000,
      pdom_applicationObject6 = 0x00000000,
      pdom_applicationObject7 = 0x00000000,
      pdom_applicationObject8 = 0x00000000\<rparr>"

definition x1800_TPDOCommunicationParameter_init :: tpdo_communication_parameter where
  "x1800_TPDOCommunicationParameter_init =
     \<lparr>tpdo_highestSub_indexSupported = 0x06,
      tpdo_COB_IDUsedByTPDO = 0xC0000180,
      tpdo_transmissionType = 0xFE,
      tpdo_inhibitTime = 0x0000,
      tpdo_eventTimer = 0x0000,
      tpdo_SYNCStartValue = 0x00\<rparr>"

definition x1801_TPDOCommunicationParameter_init :: tpdo_communication_parameter where
  "x1801_TPDOCommunicationParameter_init =
     \<lparr>tpdo_highestSub_indexSupported = 0x06,
      tpdo_COB_IDUsedByTPDO = 0xC0000280,
      tpdo_transmissionType = 0xFE,
      tpdo_inhibitTime = 0x0000,
      tpdo_eventTimer = 0x0000,
      tpdo_SYNCStartValue = 0x00\<rparr>"

definition x1802_TPDOCommunicationParameter_init :: tpdo_communication_parameter where
  "x1802_TPDOCommunicationParameter_init =
     \<lparr>tpdo_highestSub_indexSupported = 0x06,
      tpdo_COB_IDUsedByTPDO = 0xC0000380,
      tpdo_transmissionType = 0xFE,
      tpdo_inhibitTime = 0x0000,
      tpdo_eventTimer = 0x0000,
      tpdo_SYNCStartValue = 0x00\<rparr>"

definition x1803_TPDOCommunicationParameter_init :: tpdo_communication_parameter where
  "x1803_TPDOCommunicationParameter_init =
     \<lparr>tpdo_highestSub_indexSupported = 0x06,
      tpdo_COB_IDUsedByTPDO = 0xC0000480,
      tpdo_transmissionType = 0xFE,
      tpdo_inhibitTime = 0x0000,
      tpdo_eventTimer = 0x0000,
      tpdo_SYNCStartValue = 0x00\<rparr>"

definition x1A00_TPDOMappingParameter_init :: pdo_mapping_parameter where
  "x1A00_TPDOMappingParameter_init =
     \<lparr>pdom_numberOfMappedApplicationObjectsInPDO = 0x00,
      pdom_applicationObject1 = 0x00000000,
      pdom_applicationObject2 = 0x00000000,
      pdom_applicationObject3 = 0x00000000,
      pdom_applicationObject4 = 0x00000000,
      pdom_applicationObject5 = 0x00000000,
      pdom_applicationObject6 = 0x00000000,
      pdom_applicationObject7 = 0x00000000,
      pdom_applicationObject8 = 0x00000000\<rparr>"

definition x1A01_TPDOMappingParameter_init :: pdo_mapping_parameter where
  "x1A01_TPDOMappingParameter_init =
     \<lparr>pdom_numberOfMappedApplicationObjectsInPDO = 0x00,
      pdom_applicationObject1 = 0x00000000,
      pdom_applicationObject2 = 0x00000000,
      pdom_applicationObject3 = 0x00000000,
      pdom_applicationObject4 = 0x00000000,
      pdom_applicationObject5 = 0x00000000,
      pdom_applicationObject6 = 0x00000000,
      pdom_applicationObject7 = 0x00000000,
      pdom_applicationObject8 = 0x00000000\<rparr>"

definition x1A02_TPDOMappingParameter_init :: pdo_mapping_parameter where
  "x1A02_TPDOMappingParameter_init =
     \<lparr>pdom_numberOfMappedApplicationObjectsInPDO = 0x00,
      pdom_applicationObject1 = 0x00000000,
      pdom_applicationObject2 = 0x00000000,
      pdom_applicationObject3 = 0x00000000,
      pdom_applicationObject4 = 0x00000000,
      pdom_applicationObject5 = 0x00000000,
      pdom_applicationObject6 = 0x00000000,
      pdom_applicationObject7 = 0x00000000,
      pdom_applicationObject8 = 0x00000000\<rparr>"

definition x1A03_TPDOMappingParameter_init :: pdo_mapping_parameter where
  "x1A03_TPDOMappingParameter_init =
     \<lparr>pdom_numberOfMappedApplicationObjectsInPDO = 0x00,
      pdom_applicationObject1 = 0x00000000,
      pdom_applicationObject2 = 0x00000000,
      pdom_applicationObject3 = 0x00000000,
      pdom_applicationObject4 = 0x00000000,
      pdom_applicationObject5 = 0x00000000,
      pdom_applicationObject6 = 0x00000000,
      pdom_applicationObject7 = 0x00000000,
      pdom_applicationObject8 = 0x00000000\<rparr>"

definition generated_persist_comm :: od_persist_comm where
  "generated_persist_comm =
     \<lparr>x1000_deviceType = 0x00000000,
      x1005_COB_ID_SYNCMessage = 0x00000080,
      x1006_communicationCyclePeriod = 0x00000000,
      x1007_synchronousWindowLength = 0x00000000,
      x1012_COB_IDTimeStampObject = 0x00000100,
      x1014_COB_ID_EMCY = 0x00000080,
      x1015_inhibitTimeEMCY = 0x0000,
      x1016_consumerHeartbeatTime_sub0 = 0x08,
      x1016_consumerHeartbeatTime = [0x00000000, 0x00000000, 0x00000000, 0x00000000, 0x00000000, 0x00000000, 0x00000000, 0x00000000],
      x1017_producerHeartbeatTime = 0x0000,
      x1018_identity = x1018_identity_init,
      x1019_synchronousCounterOverflowValue = 0x00,
      x1280_SDOClientParameter = x1280_SDOClientParameter_init,
      x1400_RPDOCommunicationParameter = x1400_RPDOCommunicationParameter_init,
      x1401_RPDOCommunicationParameter = x1401_RPDOCommunicationParameter_init,
      x1402_RPDOCommunicationParameter = x1402_RPDOCommunicationParameter_init,
      x1403_RPDOCommunicationParameter = x1403_RPDOCommunicationParameter_init,
      x1600_RPDOMappingParameter = x1600_RPDOMappingParameter_init,
      x1601_RPDOMappingParameter = x1601_RPDOMappingParameter_init,
      x1602_RPDOMappingParameter = x1602_RPDOMappingParameter_init,
      x1603_RPDOMappingParameter = x1603_RPDOMappingParameter_init,
      x1800_TPDOCommunicationParameter = x1800_TPDOCommunicationParameter_init,
      x1801_TPDOCommunicationParameter = x1801_TPDOCommunicationParameter_init,
      x1802_TPDOCommunicationParameter = x1802_TPDOCommunicationParameter_init,
      x1803_TPDOCommunicationParameter = x1803_TPDOCommunicationParameter_init,
      x1A00_TPDOMappingParameter = x1A00_TPDOMappingParameter_init,
      x1A01_TPDOMappingParameter = x1A01_TPDOMappingParameter_init,
      x1A02_TPDOMappingParameter = x1A02_TPDOMappingParameter_init,
      x1A03_TPDOMappingParameter = x1A03_TPDOMappingParameter_init\<rparr>"

definition x1200_SDOServerParameter_init :: sdo_server_parameter where
  "x1200_SDOServerParameter_init =
     \<lparr>sdos_highestSub_indexSupported = 0x02,
      sdos_COB_IDClientToServerRx = 0x00000600,
      sdos_COB_IDServerToClientTx = 0x00000580\<rparr>"

definition generated_ram :: od_ram_group where
  "generated_ram =
     \<lparr>x1001_errorRegister = 0x00,
      x1010_storeParameters_sub0 = 0x04,
      x1010_storeParameters = [0x00000001, 0x00000001, 0x00000001, 0x00000001],
      x1011_restoreDefaultParameters_sub0 = 0x04,
      x1011_restoreDefaultParameters = [0x00000001, 0x00000001, 0x00000001, 0x00000001],
      x1200_SDOServerParameter = x1200_SDOServerParameter_init\<rparr>"

definition generated_memory :: od_memory where
  "generated_memory = \<lparr>mem_persist = generated_persist_comm, mem_ram = generated_ram\<rparr>"

section \<open>Objects (OD.c)\<close>

text \<open>
  The object descriptors.  The attribute macros are defined by CANopenNode's
  \<^verbatim>\<open>CO_ODinterface.h\<close>, which is not part of the repository: an attribute is
  the list of macro names that the generated code joins with a bitwise or.
\<close>

datatype od_attribute = ODA_SDO_R | ODA_SDO_RW | ODA_TPDO | ODA_TRPDO | ODA_MB

datatype od_type = ODT_VAR | ODT_ARR | ODT_REC

record od_var =
  var_data :: "od_ref option"
  var_attribute :: "od_attribute list"
  var_length :: nat

record od_arr =
  arr_data0 :: "od_ref option"
  arr_data :: "od_ref option"
  arr_attribute0 :: "od_attribute list"
  arr_attribute :: "od_attribute list"
  arr_element_length :: nat
  arr_element_sizeof :: nat

record od_rec =
  rec_data :: "od_ref option"
  rec_sub_index :: nat
  rec_attribute :: "od_attribute list"
  rec_length :: nat

datatype od_object = Od_var od_var | Od_arr od_arr | Od_rec "od_rec list"

text \<open>
  An entry of the list; \<^verbatim>\<open>extension\<close> is the pointer through which the stack attaches its
  callbacks (None is NULL).
\<close>

record od_entry =
  od_index :: u16
  od_sub_count :: nat
  od_type :: od_type
  od_object :: od_object
  od_extension :: "nat option"

definition o_1000_deviceType :: od_object where
  "o_1000_deviceType = Od_var
     \<lparr>var_data = Some (persist32 x1000_deviceType), var_attribute = [ODA_SDO_R, ODA_MB], var_length = 4\<rparr>"

definition o_1001_errorRegister :: od_object where
  "o_1001_errorRegister = Od_var
     \<lparr>var_data = Some (ram8 x1001_errorRegister), var_attribute = [ODA_SDO_R, ODA_TPDO], var_length = 1\<rparr>"

definition o_1003_pre_definedErrorField :: od_object where
  "o_1003_pre_definedErrorField = Od_arr
     \<lparr>arr_data0 = None, arr_data = None,
      arr_attribute0 = [ODA_SDO_RW], arr_attribute = [ODA_SDO_R, ODA_MB],
      arr_element_length = 4, arr_element_sizeof = 4\<rparr>"

definition o_1005_COB_ID_SYNCMessage :: od_object where
  "o_1005_COB_ID_SYNCMessage = Od_var
     \<lparr>var_data = Some (persist32 x1005_COB_ID_SYNCMessage), var_attribute = [ODA_SDO_RW, ODA_MB], var_length = 4\<rparr>"

definition o_1006_communicationCyclePeriod :: od_object where
  "o_1006_communicationCyclePeriod = Od_var
     \<lparr>var_data = Some (persist32 x1006_communicationCyclePeriod), var_attribute = [ODA_SDO_RW, ODA_MB], var_length = 4\<rparr>"

definition o_1007_synchronousWindowLength :: od_object where
  "o_1007_synchronousWindowLength = Od_var
     \<lparr>var_data = Some (persist32 x1007_synchronousWindowLength), var_attribute = [ODA_SDO_RW, ODA_MB], var_length = 4\<rparr>"

definition o_1010_storeParameters :: od_object where
  "o_1010_storeParameters = Od_arr
     \<lparr>arr_data0 = Some (ram8 x1010_storeParameters_sub0), arr_data = Some (ram32s x1010_storeParameters),
      arr_attribute0 = [ODA_SDO_R], arr_attribute = [ODA_SDO_RW, ODA_MB],
      arr_element_length = 4, arr_element_sizeof = 4\<rparr>"

definition o_1011_restoreDefaultParameters :: od_object where
  "o_1011_restoreDefaultParameters = Od_arr
     \<lparr>arr_data0 = Some (ram8 x1011_restoreDefaultParameters_sub0), arr_data = Some (ram32s x1011_restoreDefaultParameters),
      arr_attribute0 = [ODA_SDO_R], arr_attribute = [ODA_SDO_RW, ODA_MB],
      arr_element_length = 4, arr_element_sizeof = 4\<rparr>"

definition o_1012_COB_IDTimeStampObject :: od_object where
  "o_1012_COB_IDTimeStampObject = Od_var
     \<lparr>var_data = Some (persist32 x1012_COB_IDTimeStampObject), var_attribute = [ODA_SDO_RW, ODA_MB], var_length = 4\<rparr>"

definition o_1014_COB_ID_EMCY :: od_object where
  "o_1014_COB_ID_EMCY = Od_var
     \<lparr>var_data = Some (persist32 x1014_COB_ID_EMCY), var_attribute = [ODA_SDO_RW, ODA_MB], var_length = 4\<rparr>"

definition o_1015_inhibitTimeEMCY :: od_object where
  "o_1015_inhibitTimeEMCY = Od_var
     \<lparr>var_data = Some (persist16 x1015_inhibitTimeEMCY), var_attribute = [ODA_SDO_RW, ODA_MB], var_length = 2\<rparr>"

definition o_1016_consumerHeartbeatTime :: od_object where
  "o_1016_consumerHeartbeatTime = Od_arr
     \<lparr>arr_data0 = Some (persist8 x1016_consumerHeartbeatTime_sub0), arr_data = Some (persist32s x1016_consumerHeartbeatTime),
      arr_attribute0 = [ODA_SDO_R], arr_attribute = [ODA_SDO_RW, ODA_MB],
      arr_element_length = 4, arr_element_sizeof = 4\<rparr>"

definition o_1017_producerHeartbeatTime :: od_object where
  "o_1017_producerHeartbeatTime = Od_var
     \<lparr>var_data = Some (persist16 x1017_producerHeartbeatTime), var_attribute = [ODA_SDO_RW, ODA_MB], var_length = 2\<rparr>"

definition o_1018_identity :: od_object where
  "o_1018_identity = Od_rec
     [\<lparr>rec_data = Some (persist8 (id_highestSub_indexSupported \<circ> x1018_identity)),
        rec_sub_index = 0, rec_attribute = [ODA_SDO_R], rec_length = 1\<rparr>,
      \<lparr>rec_data = Some (persist32 (id_vendor_ID \<circ> x1018_identity)),
        rec_sub_index = 1, rec_attribute = [ODA_SDO_R, ODA_MB], rec_length = 4\<rparr>,
      \<lparr>rec_data = Some (persist32 (id_productCode \<circ> x1018_identity)),
        rec_sub_index = 2, rec_attribute = [ODA_SDO_R, ODA_MB], rec_length = 4\<rparr>,
      \<lparr>rec_data = Some (persist32 (id_revisionNumber \<circ> x1018_identity)),
        rec_sub_index = 3, rec_attribute = [ODA_SDO_R, ODA_MB], rec_length = 4\<rparr>,
      \<lparr>rec_data = Some (persist32 (id_serialNumber \<circ> x1018_identity)),
        rec_sub_index = 4, rec_attribute = [ODA_SDO_R, ODA_MB], rec_length = 4\<rparr>]"

definition o_1019_synchronousCounterOverflowValue :: od_object where
  "o_1019_synchronousCounterOverflowValue = Od_var
     \<lparr>var_data = Some (persist8 x1019_synchronousCounterOverflowValue), var_attribute = [ODA_SDO_RW], var_length = 1\<rparr>"

definition o_1200_SDOServerParameter :: od_object where
  "o_1200_SDOServerParameter = Od_rec
     [\<lparr>rec_data = Some (ram8 (sdos_highestSub_indexSupported \<circ> x1200_SDOServerParameter)),
        rec_sub_index = 0, rec_attribute = [ODA_SDO_R], rec_length = 1\<rparr>,
      \<lparr>rec_data = Some (ram32 (sdos_COB_IDClientToServerRx \<circ> x1200_SDOServerParameter)),
        rec_sub_index = 1, rec_attribute = [ODA_SDO_R, ODA_TPDO, ODA_MB], rec_length = 4\<rparr>,
      \<lparr>rec_data = Some (ram32 (sdos_COB_IDServerToClientTx \<circ> x1200_SDOServerParameter)),
        rec_sub_index = 2, rec_attribute = [ODA_SDO_R, ODA_TPDO, ODA_MB], rec_length = 4\<rparr>]"

definition o_1280_SDOClientParameter :: od_object where
  "o_1280_SDOClientParameter = Od_rec
     [\<lparr>rec_data = Some (persist8 (sdoc_highestSub_indexSupported \<circ> x1280_SDOClientParameter)),
        rec_sub_index = 0, rec_attribute = [ODA_SDO_R], rec_length = 1\<rparr>,
      \<lparr>rec_data = Some (persist32 (sdoc_COB_IDClientToServerTx \<circ> x1280_SDOClientParameter)),
        rec_sub_index = 1, rec_attribute = [ODA_SDO_RW, ODA_TRPDO, ODA_MB], rec_length = 4\<rparr>,
      \<lparr>rec_data = Some (persist32 (sdoc_COB_IDServerToClientRx \<circ> x1280_SDOClientParameter)),
        rec_sub_index = 2, rec_attribute = [ODA_SDO_RW, ODA_TRPDO, ODA_MB], rec_length = 4\<rparr>,
      \<lparr>rec_data = Some (persist8 (sdoc_node_IDOfTheSDOServer \<circ> x1280_SDOClientParameter)),
        rec_sub_index = 3, rec_attribute = [ODA_SDO_RW], rec_length = 1\<rparr>]"

definition o_1400_RPDOCommunicationParameter :: od_object where
  "o_1400_RPDOCommunicationParameter = Od_rec
     [\<lparr>rec_data = Some (persist8 (rpdo_highestSub_indexSupported \<circ> x1400_RPDOCommunicationParameter)),
        rec_sub_index = 0, rec_attribute = [ODA_SDO_R], rec_length = 1\<rparr>,
      \<lparr>rec_data = Some (persist32 (rpdo_COB_IDUsedByRPDO \<circ> x1400_RPDOCommunicationParameter)),
        rec_sub_index = 1, rec_attribute = [ODA_SDO_RW, ODA_MB], rec_length = 4\<rparr>,
      \<lparr>rec_data = Some (persist8 (rpdo_transmissionType \<circ> x1400_RPDOCommunicationParameter)),
        rec_sub_index = 2, rec_attribute = [ODA_SDO_RW], rec_length = 1\<rparr>,
      \<lparr>rec_data = Some (persist16 (rpdo_eventTimer \<circ> x1400_RPDOCommunicationParameter)),
        rec_sub_index = 5, rec_attribute = [ODA_SDO_RW, ODA_MB], rec_length = 2\<rparr>]"

definition o_1401_RPDOCommunicationParameter :: od_object where
  "o_1401_RPDOCommunicationParameter = Od_rec
     [\<lparr>rec_data = Some (persist8 (rpdo_highestSub_indexSupported \<circ> x1401_RPDOCommunicationParameter)),
        rec_sub_index = 0, rec_attribute = [ODA_SDO_R], rec_length = 1\<rparr>,
      \<lparr>rec_data = Some (persist32 (rpdo_COB_IDUsedByRPDO \<circ> x1401_RPDOCommunicationParameter)),
        rec_sub_index = 1, rec_attribute = [ODA_SDO_RW, ODA_MB], rec_length = 4\<rparr>,
      \<lparr>rec_data = Some (persist8 (rpdo_transmissionType \<circ> x1401_RPDOCommunicationParameter)),
        rec_sub_index = 2, rec_attribute = [ODA_SDO_RW], rec_length = 1\<rparr>,
      \<lparr>rec_data = Some (persist16 (rpdo_eventTimer \<circ> x1401_RPDOCommunicationParameter)),
        rec_sub_index = 5, rec_attribute = [ODA_SDO_RW, ODA_MB], rec_length = 2\<rparr>]"

definition o_1402_RPDOCommunicationParameter :: od_object where
  "o_1402_RPDOCommunicationParameter = Od_rec
     [\<lparr>rec_data = Some (persist8 (rpdo_highestSub_indexSupported \<circ> x1402_RPDOCommunicationParameter)),
        rec_sub_index = 0, rec_attribute = [ODA_SDO_R], rec_length = 1\<rparr>,
      \<lparr>rec_data = Some (persist32 (rpdo_COB_IDUsedByRPDO \<circ> x1402_RPDOCommunicationParameter)),
        rec_sub_index = 1, rec_attribute = [ODA_SDO_RW, ODA_MB], rec_length = 4\<rparr>,
      \<lparr>rec_data = Some (persist8 (rpdo_transmissionType \<circ> x1402_RPDOCommunicationParameter)),
        rec_sub_index = 2, rec_attribute = [ODA_SDO_RW], rec_length = 1\<rparr>,
      \<lparr>rec_data = Some (persist16 (rpdo_eventTimer \<circ> x1402_RPDOCommunicationParameter)),
        rec_sub_index = 5, rec_attribute = [ODA_SDO_RW, ODA_MB], rec_length = 2\<rparr>]"

definition o_1403_RPDOCommunicationParameter :: od_object where
  "o_1403_RPDOCommunicationParameter = Od_rec
     [\<lparr>rec_data = Some (persist8 (rpdo_highestSub_indexSupported \<circ> x1403_RPDOCommunicationParameter)),
        rec_sub_index = 0, rec_attribute = [ODA_SDO_R], rec_length = 1\<rparr>,
      \<lparr>rec_data = Some (persist32 (rpdo_COB_IDUsedByRPDO \<circ> x1403_RPDOCommunicationParameter)),
        rec_sub_index = 1, rec_attribute = [ODA_SDO_RW, ODA_MB], rec_length = 4\<rparr>,
      \<lparr>rec_data = Some (persist8 (rpdo_transmissionType \<circ> x1403_RPDOCommunicationParameter)),
        rec_sub_index = 2, rec_attribute = [ODA_SDO_RW], rec_length = 1\<rparr>,
      \<lparr>rec_data = Some (persist16 (rpdo_eventTimer \<circ> x1403_RPDOCommunicationParameter)),
        rec_sub_index = 5, rec_attribute = [ODA_SDO_RW, ODA_MB], rec_length = 2\<rparr>]"

definition o_1600_RPDOMappingParameter :: od_object where
  "o_1600_RPDOMappingParameter = Od_rec
     [\<lparr>rec_data = Some (persist8 (pdom_numberOfMappedApplicationObjectsInPDO \<circ> x1600_RPDOMappingParameter)),
        rec_sub_index = 0, rec_attribute = [ODA_SDO_RW], rec_length = 1\<rparr>,
      \<lparr>rec_data = Some (persist32 (pdom_applicationObject1 \<circ> x1600_RPDOMappingParameter)),
        rec_sub_index = 1, rec_attribute = [ODA_SDO_RW, ODA_MB], rec_length = 4\<rparr>,
      \<lparr>rec_data = Some (persist32 (pdom_applicationObject2 \<circ> x1600_RPDOMappingParameter)),
        rec_sub_index = 2, rec_attribute = [ODA_SDO_RW, ODA_MB], rec_length = 4\<rparr>,
      \<lparr>rec_data = Some (persist32 (pdom_applicationObject3 \<circ> x1600_RPDOMappingParameter)),
        rec_sub_index = 3, rec_attribute = [ODA_SDO_RW, ODA_MB], rec_length = 4\<rparr>,
      \<lparr>rec_data = Some (persist32 (pdom_applicationObject4 \<circ> x1600_RPDOMappingParameter)),
        rec_sub_index = 4, rec_attribute = [ODA_SDO_RW, ODA_MB], rec_length = 4\<rparr>,
      \<lparr>rec_data = Some (persist32 (pdom_applicationObject5 \<circ> x1600_RPDOMappingParameter)),
        rec_sub_index = 5, rec_attribute = [ODA_SDO_RW, ODA_MB], rec_length = 4\<rparr>,
      \<lparr>rec_data = Some (persist32 (pdom_applicationObject6 \<circ> x1600_RPDOMappingParameter)),
        rec_sub_index = 6, rec_attribute = [ODA_SDO_RW, ODA_MB], rec_length = 4\<rparr>,
      \<lparr>rec_data = Some (persist32 (pdom_applicationObject7 \<circ> x1600_RPDOMappingParameter)),
        rec_sub_index = 7, rec_attribute = [ODA_SDO_RW, ODA_MB], rec_length = 4\<rparr>,
      \<lparr>rec_data = Some (persist32 (pdom_applicationObject8 \<circ> x1600_RPDOMappingParameter)),
        rec_sub_index = 8, rec_attribute = [ODA_SDO_RW, ODA_MB], rec_length = 4\<rparr>]"

definition o_1601_RPDOMappingParameter :: od_object where
  "o_1601_RPDOMappingParameter = Od_rec
     [\<lparr>rec_data = Some (persist8 (pdom_numberOfMappedApplicationObjectsInPDO \<circ> x1601_RPDOMappingParameter)),
        rec_sub_index = 0, rec_attribute = [ODA_SDO_RW], rec_length = 1\<rparr>,
      \<lparr>rec_data = Some (persist32 (pdom_applicationObject1 \<circ> x1601_RPDOMappingParameter)),
        rec_sub_index = 1, rec_attribute = [ODA_SDO_RW, ODA_MB], rec_length = 4\<rparr>,
      \<lparr>rec_data = Some (persist32 (pdom_applicationObject2 \<circ> x1601_RPDOMappingParameter)),
        rec_sub_index = 2, rec_attribute = [ODA_SDO_RW, ODA_MB], rec_length = 4\<rparr>,
      \<lparr>rec_data = Some (persist32 (pdom_applicationObject3 \<circ> x1601_RPDOMappingParameter)),
        rec_sub_index = 3, rec_attribute = [ODA_SDO_RW, ODA_MB], rec_length = 4\<rparr>,
      \<lparr>rec_data = Some (persist32 (pdom_applicationObject4 \<circ> x1601_RPDOMappingParameter)),
        rec_sub_index = 4, rec_attribute = [ODA_SDO_RW, ODA_MB], rec_length = 4\<rparr>,
      \<lparr>rec_data = Some (persist32 (pdom_applicationObject5 \<circ> x1601_RPDOMappingParameter)),
        rec_sub_index = 5, rec_attribute = [ODA_SDO_RW, ODA_MB], rec_length = 4\<rparr>,
      \<lparr>rec_data = Some (persist32 (pdom_applicationObject6 \<circ> x1601_RPDOMappingParameter)),
        rec_sub_index = 6, rec_attribute = [ODA_SDO_RW, ODA_MB], rec_length = 4\<rparr>,
      \<lparr>rec_data = Some (persist32 (pdom_applicationObject7 \<circ> x1601_RPDOMappingParameter)),
        rec_sub_index = 7, rec_attribute = [ODA_SDO_RW, ODA_MB], rec_length = 4\<rparr>,
      \<lparr>rec_data = Some (persist32 (pdom_applicationObject8 \<circ> x1601_RPDOMappingParameter)),
        rec_sub_index = 8, rec_attribute = [ODA_SDO_RW, ODA_MB], rec_length = 4\<rparr>]"

definition o_1602_RPDOMappingParameter :: od_object where
  "o_1602_RPDOMappingParameter = Od_rec
     [\<lparr>rec_data = Some (persist8 (pdom_numberOfMappedApplicationObjectsInPDO \<circ> x1602_RPDOMappingParameter)),
        rec_sub_index = 0, rec_attribute = [ODA_SDO_RW], rec_length = 1\<rparr>,
      \<lparr>rec_data = Some (persist32 (pdom_applicationObject1 \<circ> x1602_RPDOMappingParameter)),
        rec_sub_index = 1, rec_attribute = [ODA_SDO_RW, ODA_MB], rec_length = 4\<rparr>,
      \<lparr>rec_data = Some (persist32 (pdom_applicationObject2 \<circ> x1602_RPDOMappingParameter)),
        rec_sub_index = 2, rec_attribute = [ODA_SDO_RW, ODA_MB], rec_length = 4\<rparr>,
      \<lparr>rec_data = Some (persist32 (pdom_applicationObject3 \<circ> x1602_RPDOMappingParameter)),
        rec_sub_index = 3, rec_attribute = [ODA_SDO_RW, ODA_MB], rec_length = 4\<rparr>,
      \<lparr>rec_data = Some (persist32 (pdom_applicationObject4 \<circ> x1602_RPDOMappingParameter)),
        rec_sub_index = 4, rec_attribute = [ODA_SDO_RW, ODA_MB], rec_length = 4\<rparr>,
      \<lparr>rec_data = Some (persist32 (pdom_applicationObject5 \<circ> x1602_RPDOMappingParameter)),
        rec_sub_index = 5, rec_attribute = [ODA_SDO_RW, ODA_MB], rec_length = 4\<rparr>,
      \<lparr>rec_data = Some (persist32 (pdom_applicationObject6 \<circ> x1602_RPDOMappingParameter)),
        rec_sub_index = 6, rec_attribute = [ODA_SDO_RW, ODA_MB], rec_length = 4\<rparr>,
      \<lparr>rec_data = Some (persist32 (pdom_applicationObject7 \<circ> x1602_RPDOMappingParameter)),
        rec_sub_index = 7, rec_attribute = [ODA_SDO_RW, ODA_MB], rec_length = 4\<rparr>,
      \<lparr>rec_data = Some (persist32 (pdom_applicationObject8 \<circ> x1602_RPDOMappingParameter)),
        rec_sub_index = 8, rec_attribute = [ODA_SDO_RW, ODA_MB], rec_length = 4\<rparr>]"

definition o_1603_RPDOMappingParameter :: od_object where
  "o_1603_RPDOMappingParameter = Od_rec
     [\<lparr>rec_data = Some (persist8 (pdom_numberOfMappedApplicationObjectsInPDO \<circ> x1603_RPDOMappingParameter)),
        rec_sub_index = 0, rec_attribute = [ODA_SDO_RW], rec_length = 1\<rparr>,
      \<lparr>rec_data = Some (persist32 (pdom_applicationObject1 \<circ> x1603_RPDOMappingParameter)),
        rec_sub_index = 1, rec_attribute = [ODA_SDO_RW, ODA_MB], rec_length = 4\<rparr>,
      \<lparr>rec_data = Some (persist32 (pdom_applicationObject2 \<circ> x1603_RPDOMappingParameter)),
        rec_sub_index = 2, rec_attribute = [ODA_SDO_RW, ODA_MB], rec_length = 4\<rparr>,
      \<lparr>rec_data = Some (persist32 (pdom_applicationObject3 \<circ> x1603_RPDOMappingParameter)),
        rec_sub_index = 3, rec_attribute = [ODA_SDO_RW, ODA_MB], rec_length = 4\<rparr>,
      \<lparr>rec_data = Some (persist32 (pdom_applicationObject4 \<circ> x1603_RPDOMappingParameter)),
        rec_sub_index = 4, rec_attribute = [ODA_SDO_RW, ODA_MB], rec_length = 4\<rparr>,
      \<lparr>rec_data = Some (persist32 (pdom_applicationObject5 \<circ> x1603_RPDOMappingParameter)),
        rec_sub_index = 5, rec_attribute = [ODA_SDO_RW, ODA_MB], rec_length = 4\<rparr>,
      \<lparr>rec_data = Some (persist32 (pdom_applicationObject6 \<circ> x1603_RPDOMappingParameter)),
        rec_sub_index = 6, rec_attribute = [ODA_SDO_RW, ODA_MB], rec_length = 4\<rparr>,
      \<lparr>rec_data = Some (persist32 (pdom_applicationObject7 \<circ> x1603_RPDOMappingParameter)),
        rec_sub_index = 7, rec_attribute = [ODA_SDO_RW, ODA_MB], rec_length = 4\<rparr>,
      \<lparr>rec_data = Some (persist32 (pdom_applicationObject8 \<circ> x1603_RPDOMappingParameter)),
        rec_sub_index = 8, rec_attribute = [ODA_SDO_RW, ODA_MB], rec_length = 4\<rparr>]"

definition o_1800_TPDOCommunicationParameter :: od_object where
  "o_1800_TPDOCommunicationParameter = Od_rec
     [\<lparr>rec_data = Some (persist8 (tpdo_highestSub_indexSupported \<circ> x1800_TPDOCommunicationParameter)),
        rec_sub_index = 0, rec_attribute = [ODA_SDO_R], rec_length = 1\<rparr>,
      \<lparr>rec_data = Some (persist32 (tpdo_COB_IDUsedByTPDO \<circ> x1800_TPDOCommunicationParameter)),
        rec_sub_index = 1, rec_attribute = [ODA_SDO_RW, ODA_MB], rec_length = 4\<rparr>,
      \<lparr>rec_data = Some (persist8 (tpdo_transmissionType \<circ> x1800_TPDOCommunicationParameter)),
        rec_sub_index = 2, rec_attribute = [ODA_SDO_RW], rec_length = 1\<rparr>,
      \<lparr>rec_data = Some (persist16 (tpdo_inhibitTime \<circ> x1800_TPDOCommunicationParameter)),
        rec_sub_index = 3, rec_attribute = [ODA_SDO_RW, ODA_MB], rec_length = 2\<rparr>,
      \<lparr>rec_data = Some (persist16 (tpdo_eventTimer \<circ> x1800_TPDOCommunicationParameter)),
        rec_sub_index = 5, rec_attribute = [ODA_SDO_RW, ODA_MB], rec_length = 2\<rparr>,
      \<lparr>rec_data = Some (persist8 (tpdo_SYNCStartValue \<circ> x1800_TPDOCommunicationParameter)),
        rec_sub_index = 6, rec_attribute = [ODA_SDO_RW], rec_length = 1\<rparr>]"

definition o_1801_TPDOCommunicationParameter :: od_object where
  "o_1801_TPDOCommunicationParameter = Od_rec
     [\<lparr>rec_data = Some (persist8 (tpdo_highestSub_indexSupported \<circ> x1801_TPDOCommunicationParameter)),
        rec_sub_index = 0, rec_attribute = [ODA_SDO_R], rec_length = 1\<rparr>,
      \<lparr>rec_data = Some (persist32 (tpdo_COB_IDUsedByTPDO \<circ> x1801_TPDOCommunicationParameter)),
        rec_sub_index = 1, rec_attribute = [ODA_SDO_RW, ODA_MB], rec_length = 4\<rparr>,
      \<lparr>rec_data = Some (persist8 (tpdo_transmissionType \<circ> x1801_TPDOCommunicationParameter)),
        rec_sub_index = 2, rec_attribute = [ODA_SDO_RW], rec_length = 1\<rparr>,
      \<lparr>rec_data = Some (persist16 (tpdo_inhibitTime \<circ> x1801_TPDOCommunicationParameter)),
        rec_sub_index = 3, rec_attribute = [ODA_SDO_RW, ODA_MB], rec_length = 2\<rparr>,
      \<lparr>rec_data = Some (persist16 (tpdo_eventTimer \<circ> x1801_TPDOCommunicationParameter)),
        rec_sub_index = 5, rec_attribute = [ODA_SDO_RW, ODA_MB], rec_length = 2\<rparr>,
      \<lparr>rec_data = Some (persist8 (tpdo_SYNCStartValue \<circ> x1801_TPDOCommunicationParameter)),
        rec_sub_index = 6, rec_attribute = [ODA_SDO_RW], rec_length = 1\<rparr>]"

definition o_1802_TPDOCommunicationParameter :: od_object where
  "o_1802_TPDOCommunicationParameter = Od_rec
     [\<lparr>rec_data = Some (persist8 (tpdo_highestSub_indexSupported \<circ> x1802_TPDOCommunicationParameter)),
        rec_sub_index = 0, rec_attribute = [ODA_SDO_R], rec_length = 1\<rparr>,
      \<lparr>rec_data = Some (persist32 (tpdo_COB_IDUsedByTPDO \<circ> x1802_TPDOCommunicationParameter)),
        rec_sub_index = 1, rec_attribute = [ODA_SDO_RW, ODA_MB], rec_length = 4\<rparr>,
      \<lparr>rec_data = Some (persist8 (tpdo_transmissionType \<circ> x1802_TPDOCommunicationParameter)),
        rec_sub_index = 2, rec_attribute = [ODA_SDO_RW], rec_length = 1\<rparr>,
      \<lparr>rec_data = Some (persist16 (tpdo_inhibitTime \<circ> x1802_TPDOCommunicationParameter)),
        rec_sub_index = 3, rec_attribute = [ODA_SDO_RW, ODA_MB], rec_length = 2\<rparr>,
      \<lparr>rec_data = Some (persist16 (tpdo_eventTimer \<circ> x1802_TPDOCommunicationParameter)),
        rec_sub_index = 5, rec_attribute = [ODA_SDO_RW, ODA_MB], rec_length = 2\<rparr>,
      \<lparr>rec_data = Some (persist8 (tpdo_SYNCStartValue \<circ> x1802_TPDOCommunicationParameter)),
        rec_sub_index = 6, rec_attribute = [ODA_SDO_RW], rec_length = 1\<rparr>]"

definition o_1803_TPDOCommunicationParameter :: od_object where
  "o_1803_TPDOCommunicationParameter = Od_rec
     [\<lparr>rec_data = Some (persist8 (tpdo_highestSub_indexSupported \<circ> x1803_TPDOCommunicationParameter)),
        rec_sub_index = 0, rec_attribute = [ODA_SDO_R], rec_length = 1\<rparr>,
      \<lparr>rec_data = Some (persist32 (tpdo_COB_IDUsedByTPDO \<circ> x1803_TPDOCommunicationParameter)),
        rec_sub_index = 1, rec_attribute = [ODA_SDO_RW, ODA_MB], rec_length = 4\<rparr>,
      \<lparr>rec_data = Some (persist8 (tpdo_transmissionType \<circ> x1803_TPDOCommunicationParameter)),
        rec_sub_index = 2, rec_attribute = [ODA_SDO_RW], rec_length = 1\<rparr>,
      \<lparr>rec_data = Some (persist16 (tpdo_inhibitTime \<circ> x1803_TPDOCommunicationParameter)),
        rec_sub_index = 3, rec_attribute = [ODA_SDO_RW, ODA_MB], rec_length = 2\<rparr>,
      \<lparr>rec_data = Some (persist16 (tpdo_eventTimer \<circ> x1803_TPDOCommunicationParameter)),
        rec_sub_index = 5, rec_attribute = [ODA_SDO_RW, ODA_MB], rec_length = 2\<rparr>,
      \<lparr>rec_data = Some (persist8 (tpdo_SYNCStartValue \<circ> x1803_TPDOCommunicationParameter)),
        rec_sub_index = 6, rec_attribute = [ODA_SDO_RW], rec_length = 1\<rparr>]"

definition o_1A00_TPDOMappingParameter :: od_object where
  "o_1A00_TPDOMappingParameter = Od_rec
     [\<lparr>rec_data = Some (persist8 (pdom_numberOfMappedApplicationObjectsInPDO \<circ> x1A00_TPDOMappingParameter)),
        rec_sub_index = 0, rec_attribute = [ODA_SDO_RW], rec_length = 1\<rparr>,
      \<lparr>rec_data = Some (persist32 (pdom_applicationObject1 \<circ> x1A00_TPDOMappingParameter)),
        rec_sub_index = 1, rec_attribute = [ODA_SDO_RW, ODA_MB], rec_length = 4\<rparr>,
      \<lparr>rec_data = Some (persist32 (pdom_applicationObject2 \<circ> x1A00_TPDOMappingParameter)),
        rec_sub_index = 2, rec_attribute = [ODA_SDO_RW, ODA_MB], rec_length = 4\<rparr>,
      \<lparr>rec_data = Some (persist32 (pdom_applicationObject3 \<circ> x1A00_TPDOMappingParameter)),
        rec_sub_index = 3, rec_attribute = [ODA_SDO_RW, ODA_MB], rec_length = 4\<rparr>,
      \<lparr>rec_data = Some (persist32 (pdom_applicationObject4 \<circ> x1A00_TPDOMappingParameter)),
        rec_sub_index = 4, rec_attribute = [ODA_SDO_RW, ODA_MB], rec_length = 4\<rparr>,
      \<lparr>rec_data = Some (persist32 (pdom_applicationObject5 \<circ> x1A00_TPDOMappingParameter)),
        rec_sub_index = 5, rec_attribute = [ODA_SDO_RW, ODA_MB], rec_length = 4\<rparr>,
      \<lparr>rec_data = Some (persist32 (pdom_applicationObject6 \<circ> x1A00_TPDOMappingParameter)),
        rec_sub_index = 6, rec_attribute = [ODA_SDO_RW, ODA_MB], rec_length = 4\<rparr>,
      \<lparr>rec_data = Some (persist32 (pdom_applicationObject7 \<circ> x1A00_TPDOMappingParameter)),
        rec_sub_index = 7, rec_attribute = [ODA_SDO_RW, ODA_MB], rec_length = 4\<rparr>,
      \<lparr>rec_data = Some (persist32 (pdom_applicationObject8 \<circ> x1A00_TPDOMappingParameter)),
        rec_sub_index = 8, rec_attribute = [ODA_SDO_RW, ODA_MB], rec_length = 4\<rparr>]"

definition o_1A01_TPDOMappingParameter :: od_object where
  "o_1A01_TPDOMappingParameter = Od_rec
     [\<lparr>rec_data = Some (persist8 (pdom_numberOfMappedApplicationObjectsInPDO \<circ> x1A01_TPDOMappingParameter)),
        rec_sub_index = 0, rec_attribute = [ODA_SDO_RW], rec_length = 1\<rparr>,
      \<lparr>rec_data = Some (persist32 (pdom_applicationObject1 \<circ> x1A01_TPDOMappingParameter)),
        rec_sub_index = 1, rec_attribute = [ODA_SDO_RW, ODA_MB], rec_length = 4\<rparr>,
      \<lparr>rec_data = Some (persist32 (pdom_applicationObject2 \<circ> x1A01_TPDOMappingParameter)),
        rec_sub_index = 2, rec_attribute = [ODA_SDO_RW, ODA_MB], rec_length = 4\<rparr>,
      \<lparr>rec_data = Some (persist32 (pdom_applicationObject3 \<circ> x1A01_TPDOMappingParameter)),
        rec_sub_index = 3, rec_attribute = [ODA_SDO_RW, ODA_MB], rec_length = 4\<rparr>,
      \<lparr>rec_data = Some (persist32 (pdom_applicationObject4 \<circ> x1A01_TPDOMappingParameter)),
        rec_sub_index = 4, rec_attribute = [ODA_SDO_RW, ODA_MB], rec_length = 4\<rparr>,
      \<lparr>rec_data = Some (persist32 (pdom_applicationObject5 \<circ> x1A01_TPDOMappingParameter)),
        rec_sub_index = 5, rec_attribute = [ODA_SDO_RW, ODA_MB], rec_length = 4\<rparr>,
      \<lparr>rec_data = Some (persist32 (pdom_applicationObject6 \<circ> x1A01_TPDOMappingParameter)),
        rec_sub_index = 6, rec_attribute = [ODA_SDO_RW, ODA_MB], rec_length = 4\<rparr>,
      \<lparr>rec_data = Some (persist32 (pdom_applicationObject7 \<circ> x1A01_TPDOMappingParameter)),
        rec_sub_index = 7, rec_attribute = [ODA_SDO_RW, ODA_MB], rec_length = 4\<rparr>,
      \<lparr>rec_data = Some (persist32 (pdom_applicationObject8 \<circ> x1A01_TPDOMappingParameter)),
        rec_sub_index = 8, rec_attribute = [ODA_SDO_RW, ODA_MB], rec_length = 4\<rparr>]"

definition o_1A02_TPDOMappingParameter :: od_object where
  "o_1A02_TPDOMappingParameter = Od_rec
     [\<lparr>rec_data = Some (persist8 (pdom_numberOfMappedApplicationObjectsInPDO \<circ> x1A02_TPDOMappingParameter)),
        rec_sub_index = 0, rec_attribute = [ODA_SDO_RW], rec_length = 1\<rparr>,
      \<lparr>rec_data = Some (persist32 (pdom_applicationObject1 \<circ> x1A02_TPDOMappingParameter)),
        rec_sub_index = 1, rec_attribute = [ODA_SDO_RW, ODA_MB], rec_length = 4\<rparr>,
      \<lparr>rec_data = Some (persist32 (pdom_applicationObject2 \<circ> x1A02_TPDOMappingParameter)),
        rec_sub_index = 2, rec_attribute = [ODA_SDO_RW, ODA_MB], rec_length = 4\<rparr>,
      \<lparr>rec_data = Some (persist32 (pdom_applicationObject3 \<circ> x1A02_TPDOMappingParameter)),
        rec_sub_index = 3, rec_attribute = [ODA_SDO_RW, ODA_MB], rec_length = 4\<rparr>,
      \<lparr>rec_data = Some (persist32 (pdom_applicationObject4 \<circ> x1A02_TPDOMappingParameter)),
        rec_sub_index = 4, rec_attribute = [ODA_SDO_RW, ODA_MB], rec_length = 4\<rparr>,
      \<lparr>rec_data = Some (persist32 (pdom_applicationObject5 \<circ> x1A02_TPDOMappingParameter)),
        rec_sub_index = 5, rec_attribute = [ODA_SDO_RW, ODA_MB], rec_length = 4\<rparr>,
      \<lparr>rec_data = Some (persist32 (pdom_applicationObject6 \<circ> x1A02_TPDOMappingParameter)),
        rec_sub_index = 6, rec_attribute = [ODA_SDO_RW, ODA_MB], rec_length = 4\<rparr>,
      \<lparr>rec_data = Some (persist32 (pdom_applicationObject7 \<circ> x1A02_TPDOMappingParameter)),
        rec_sub_index = 7, rec_attribute = [ODA_SDO_RW, ODA_MB], rec_length = 4\<rparr>,
      \<lparr>rec_data = Some (persist32 (pdom_applicationObject8 \<circ> x1A02_TPDOMappingParameter)),
        rec_sub_index = 8, rec_attribute = [ODA_SDO_RW, ODA_MB], rec_length = 4\<rparr>]"

definition o_1A03_TPDOMappingParameter :: od_object where
  "o_1A03_TPDOMappingParameter = Od_rec
     [\<lparr>rec_data = Some (persist8 (pdom_numberOfMappedApplicationObjectsInPDO \<circ> x1A03_TPDOMappingParameter)),
        rec_sub_index = 0, rec_attribute = [ODA_SDO_RW], rec_length = 1\<rparr>,
      \<lparr>rec_data = Some (persist32 (pdom_applicationObject1 \<circ> x1A03_TPDOMappingParameter)),
        rec_sub_index = 1, rec_attribute = [ODA_SDO_RW, ODA_MB], rec_length = 4\<rparr>,
      \<lparr>rec_data = Some (persist32 (pdom_applicationObject2 \<circ> x1A03_TPDOMappingParameter)),
        rec_sub_index = 2, rec_attribute = [ODA_SDO_RW, ODA_MB], rec_length = 4\<rparr>,
      \<lparr>rec_data = Some (persist32 (pdom_applicationObject3 \<circ> x1A03_TPDOMappingParameter)),
        rec_sub_index = 3, rec_attribute = [ODA_SDO_RW, ODA_MB], rec_length = 4\<rparr>,
      \<lparr>rec_data = Some (persist32 (pdom_applicationObject4 \<circ> x1A03_TPDOMappingParameter)),
        rec_sub_index = 4, rec_attribute = [ODA_SDO_RW, ODA_MB], rec_length = 4\<rparr>,
      \<lparr>rec_data = Some (persist32 (pdom_applicationObject5 \<circ> x1A03_TPDOMappingParameter)),
        rec_sub_index = 5, rec_attribute = [ODA_SDO_RW, ODA_MB], rec_length = 4\<rparr>,
      \<lparr>rec_data = Some (persist32 (pdom_applicationObject6 \<circ> x1A03_TPDOMappingParameter)),
        rec_sub_index = 6, rec_attribute = [ODA_SDO_RW, ODA_MB], rec_length = 4\<rparr>,
      \<lparr>rec_data = Some (persist32 (pdom_applicationObject7 \<circ> x1A03_TPDOMappingParameter)),
        rec_sub_index = 7, rec_attribute = [ODA_SDO_RW, ODA_MB], rec_length = 4\<rparr>,
      \<lparr>rec_data = Some (persist32 (pdom_applicationObject8 \<circ> x1A03_TPDOMappingParameter)),
        rec_sub_index = 8, rec_attribute = [ODA_SDO_RW, ODA_MB], rec_length = 4\<rparr>]"

section \<open>The list and its shortcuts (OD.c, OD.h)\<close>

definition od_list :: "od_entry list" where
  "od_list =
     [\<lparr>od_index = 0x1000, od_sub_count = 0x01, od_type = ODT_VAR, od_object = o_1000_deviceType, od_extension = None\<rparr>,
      \<lparr>od_index = 0x1001, od_sub_count = 0x01, od_type = ODT_VAR, od_object = o_1001_errorRegister, od_extension = None\<rparr>,
      \<lparr>od_index = 0x1003, od_sub_count = 0x11, od_type = ODT_ARR, od_object = o_1003_pre_definedErrorField, od_extension = None\<rparr>,
      \<lparr>od_index = 0x1005, od_sub_count = 0x01, od_type = ODT_VAR, od_object = o_1005_COB_ID_SYNCMessage, od_extension = None\<rparr>,
      \<lparr>od_index = 0x1006, od_sub_count = 0x01, od_type = ODT_VAR, od_object = o_1006_communicationCyclePeriod, od_extension = None\<rparr>,
      \<lparr>od_index = 0x1007, od_sub_count = 0x01, od_type = ODT_VAR, od_object = o_1007_synchronousWindowLength, od_extension = None\<rparr>,
      \<lparr>od_index = 0x1010, od_sub_count = 0x05, od_type = ODT_ARR, od_object = o_1010_storeParameters, od_extension = None\<rparr>,
      \<lparr>od_index = 0x1011, od_sub_count = 0x05, od_type = ODT_ARR, od_object = o_1011_restoreDefaultParameters, od_extension = None\<rparr>,
      \<lparr>od_index = 0x1012, od_sub_count = 0x01, od_type = ODT_VAR, od_object = o_1012_COB_IDTimeStampObject, od_extension = None\<rparr>,
      \<lparr>od_index = 0x1014, od_sub_count = 0x01, od_type = ODT_VAR, od_object = o_1014_COB_ID_EMCY, od_extension = None\<rparr>,
      \<lparr>od_index = 0x1015, od_sub_count = 0x01, od_type = ODT_VAR, od_object = o_1015_inhibitTimeEMCY, od_extension = None\<rparr>,
      \<lparr>od_index = 0x1016, od_sub_count = 0x09, od_type = ODT_ARR, od_object = o_1016_consumerHeartbeatTime, od_extension = None\<rparr>,
      \<lparr>od_index = 0x1017, od_sub_count = 0x01, od_type = ODT_VAR, od_object = o_1017_producerHeartbeatTime, od_extension = None\<rparr>,
      \<lparr>od_index = 0x1018, od_sub_count = 0x05, od_type = ODT_REC, od_object = o_1018_identity, od_extension = None\<rparr>,
      \<lparr>od_index = 0x1019, od_sub_count = 0x01, od_type = ODT_VAR, od_object = o_1019_synchronousCounterOverflowValue, od_extension = None\<rparr>,
      \<lparr>od_index = 0x1200, od_sub_count = 0x03, od_type = ODT_REC, od_object = o_1200_SDOServerParameter, od_extension = None\<rparr>,
      \<lparr>od_index = 0x1280, od_sub_count = 0x04, od_type = ODT_REC, od_object = o_1280_SDOClientParameter, od_extension = None\<rparr>,
      \<lparr>od_index = 0x1400, od_sub_count = 0x04, od_type = ODT_REC, od_object = o_1400_RPDOCommunicationParameter, od_extension = None\<rparr>,
      \<lparr>od_index = 0x1401, od_sub_count = 0x04, od_type = ODT_REC, od_object = o_1401_RPDOCommunicationParameter, od_extension = None\<rparr>,
      \<lparr>od_index = 0x1402, od_sub_count = 0x04, od_type = ODT_REC, od_object = o_1402_RPDOCommunicationParameter, od_extension = None\<rparr>,
      \<lparr>od_index = 0x1403, od_sub_count = 0x04, od_type = ODT_REC, od_object = o_1403_RPDOCommunicationParameter, od_extension = None\<rparr>,
      \<lparr>od_index = 0x1600, od_sub_count = 0x09, od_type = ODT_REC, od_object = o_1600_RPDOMappingParameter, od_extension = None\<rparr>,
      \<lparr>od_index = 0x1601, od_sub_count = 0x09, od_type = ODT_REC, od_object = o_1601_RPDOMappingParameter, od_extension = None\<rparr>,
      \<lparr>od_index = 0x1602, od_sub_count = 0x09, od_type = ODT_REC, od_object = o_1602_RPDOMappingParameter, od_extension = None\<rparr>,
      \<lparr>od_index = 0x1603, od_sub_count = 0x09, od_type = ODT_REC, od_object = o_1603_RPDOMappingParameter, od_extension = None\<rparr>,
      \<lparr>od_index = 0x1800, od_sub_count = 0x06, od_type = ODT_REC, od_object = o_1800_TPDOCommunicationParameter, od_extension = None\<rparr>,
      \<lparr>od_index = 0x1801, od_sub_count = 0x06, od_type = ODT_REC, od_object = o_1801_TPDOCommunicationParameter, od_extension = None\<rparr>,
      \<lparr>od_index = 0x1802, od_sub_count = 0x06, od_type = ODT_REC, od_object = o_1802_TPDOCommunicationParameter, od_extension = None\<rparr>,
      \<lparr>od_index = 0x1803, od_sub_count = 0x06, od_type = ODT_REC, od_object = o_1803_TPDOCommunicationParameter, od_extension = None\<rparr>,
      \<lparr>od_index = 0x1A00, od_sub_count = 0x09, od_type = ODT_REC, od_object = o_1A00_TPDOMappingParameter, od_extension = None\<rparr>,
      \<lparr>od_index = 0x1A01, od_sub_count = 0x09, od_type = ODT_REC, od_object = o_1A01_TPDOMappingParameter, od_extension = None\<rparr>,
      \<lparr>od_index = 0x1A02, od_sub_count = 0x09, od_type = ODT_REC, od_object = o_1A02_TPDOMappingParameter, od_extension = None\<rparr>,
      \<lparr>od_index = 0x1A03, od_sub_count = 0x09, od_type = ODT_REC, od_object = o_1A03_TPDOMappingParameter, od_extension = None\<rparr>]"

text \<open>
  The shortcut macros \<^verbatim>\<open>OD_ENTRY_Hxxxx\<close> and \<^verbatim>\<open>OD_ENTRY_Hxxxx_name\<close>:
  the index in the macro's name, and the position in the list it expands to.
\<close>

definition od_entry_shortcuts :: "(u16 \<times> nat) list" where
  "od_entry_shortcuts =
     [(0x1000, 0),
      (0x1001, 1),
      (0x1003, 2),
      (0x1005, 3),
      (0x1006, 4),
      (0x1007, 5),
      (0x1010, 6),
      (0x1011, 7),
      (0x1012, 8),
      (0x1014, 9),
      (0x1015, 10),
      (0x1016, 11),
      (0x1017, 12),
      (0x1018, 13),
      (0x1019, 14),
      (0x1200, 15),
      (0x1280, 16),
      (0x1400, 17),
      (0x1401, 18),
      (0x1402, 19),
      (0x1403, 20),
      (0x1600, 21),
      (0x1601, 22),
      (0x1602, 23),
      (0x1603, 24),
      (0x1800, 25),
      (0x1801, 26),
      (0x1802, 27),
      (0x1803, 28),
      (0x1A00, 29),
      (0x1A01, 30),
      (0x1A02, 31),
      (0x1A03, 32)]"

definition od_named_shortcuts :: "(u16 \<times> nat) list" where
  "od_named_shortcuts =
     [(0x1000, 0),
      (0x1001, 1),
      (0x1003, 2),
      (0x1005, 3),
      (0x1006, 4),
      (0x1007, 5),
      (0x1010, 6),
      (0x1011, 7),
      (0x1012, 8),
      (0x1014, 9),
      (0x1015, 10),
      (0x1016, 11),
      (0x1017, 12),
      (0x1018, 13),
      (0x1019, 14),
      (0x1200, 15),
      (0x1280, 16),
      (0x1400, 17),
      (0x1401, 18),
      (0x1402, 19),
      (0x1403, 20),
      (0x1600, 21),
      (0x1601, 22),
      (0x1602, 23),
      (0x1603, 24),
      (0x1800, 25),
      (0x1801, 26),
      (0x1802, 27),
      (0x1803, 28),
      (0x1A00, 29),
      (0x1A01, 30),
      (0x1A02, 31),
      (0x1A03, 32)]"

section \<open>Well-formedness\<close>

fun cell_width :: "od_cell \<Rightarrow> nat" where
  "cell_width (Cells8 xs) = 1"
| "cell_width (Cells16 xs) = 2"
| "cell_width (Cells32 xs) = 4"

fun cell_count :: "od_cell \<Rightarrow> nat" where
  "cell_count (Cells8 xs) = length xs"
| "cell_count (Cells16 xs) = length xs"
| "cell_count (Cells32 xs) = length xs"

text \<open>The arrays of the storage structs have their declared lengths.\<close>

definition array_lengths_ok :: "od_memory \<Rightarrow> bool" where
  "array_lengths_ok m \<longleftrightarrow>
     length (x1016_consumerHeartbeatTime (mem_persist m)) = 8 \<and>
     length (x1010_storeParameters (mem_ram m)) = 4 \<and>
     length (x1011_restoreDefaultParameters (mem_ram m)) = 4"

text \<open>
  What an attribute has to have whatever the object is: the multi-byte flag exactly for data
  longer than a byte, and some SDO read right.  Which rights each object has is in its definition
  above, taken from OD.c.
\<close>

definition common_attributes_ok :: "nat \<Rightarrow> od_attribute list \<Rightarrow> bool" where
  "common_attributes_ok len a \<longleftrightarrow>
     (ODA_MB \<in> set a \<longleftrightarrow> 1 < len) \<and> (ODA_SDO_R \<in> set a \<or> ODA_SDO_RW \<in> set a)"

definition points_to_scalar :: "od_memory \<Rightarrow> od_ref option \<Rightarrow> nat \<Rightarrow> bool" where
  "points_to_scalar m r len \<longleftrightarrow>
     (case r of None \<Rightarrow> False | Some f \<Rightarrow> cell_width (f m) = len \<and> cell_count (f m) = 1)"

text \<open>
  An array object without storage (the error history) is served by an extension; with
  storage, its elements are as many as the sub-indices above 0.
\<close>

definition points_to_array :: "od_memory \<Rightarrow> od_arr \<Rightarrow> nat \<Rightarrow> bool" where
  "points_to_array m a n \<longleftrightarrow>
     (case (arr_data0 a, arr_data a) of
        (None, None) \<Rightarrow> True
      | (Some f0, Some f) \<Rightarrow>
          cell_width (f0 m) = 1 \<and> cell_count (f0 m) = 1 \<and>
          cell_width (f m) = arr_element_length a \<and> cell_count (f m) + 1 = n
      | _ \<Rightarrow> False)"

definition object_ok :: "od_memory \<Rightarrow> od_entry \<Rightarrow> bool" where
  "object_ok m e \<longleftrightarrow>
     (case od_object e of
        Od_var v \<Rightarrow> od_type e = ODT_VAR \<and> od_sub_count e = 1 \<and>
          common_attributes_ok (var_length v) (var_attribute v) \<and>
          points_to_scalar m (var_data v) (var_length v)
      | Od_arr a \<Rightarrow> od_type e = ODT_ARR \<and>
          common_attributes_ok 1 (arr_attribute0 a) \<and>
          common_attributes_ok (arr_element_length a) (arr_attribute a) \<and>
          arr_element_length a = arr_element_sizeof a \<and> points_to_array m a (od_sub_count e)
      | Od_rec rs \<Rightarrow> od_type e = ODT_REC \<and> length rs = od_sub_count e \<and>
          sorted_wrt (<) (map rec_sub_index rs) \<and> map rec_sub_index (take 1 rs) = [0] \<and>
          list_all (\<lambda>r. common_attributes_ok (rec_length r) (rec_attribute r) \<and>
            points_to_scalar m (rec_data r) (rec_length r)) rs)"

text \<open>
  Sub-index 0 of an array with storage, and of a record where it is constant, is the highest
  sub-index of the object.
\<close>

definition highest_sub_index_ok :: "od_memory \<Rightarrow> od_entry \<Rightarrow> bool" where
  "highest_sub_index_ok m e \<longleftrightarrow>
     (case od_object e of
        Od_var v \<Rightarrow> True
      | Od_arr a \<Rightarrow>
          (case arr_data0 a of None \<Rightarrow> True
           | Some f \<Rightarrow> f m = Cells8 [of_nat (od_sub_count e - 1)])
      | Od_rec rs \<Rightarrow> list_all (\<lambda>r. rec_sub_index r = 0 \<and> rec_attribute r = [ODA_SDO_R] \<longrightarrow>
          (case rec_data r of None \<Rightarrow> False
           | Some f \<Rightarrow> f m = Cells8 [of_nat (rec_sub_index (last rs))])) rs)"

definition shortcut_ok :: "od_entry list \<Rightarrow> u16 \<times> nat \<Rightarrow> bool" where
  "shortcut_ok es s \<longleftrightarrow> snd s < length es \<and> od_index (es ! snd s) = fst s"

definition dictionary_ok :: "od_memory \<Rightarrow> od_entry list \<Rightarrow> bool" where
  "dictionary_ok m es \<longleftrightarrow>
     sorted_wrt (<) (map od_index es) \<and> list_all (object_ok m) es"

lemmas od_object_defs =
  o_1000_deviceType_def o_1001_errorRegister_def o_1003_pre_definedErrorField_def
  o_1005_COB_ID_SYNCMessage_def o_1006_communicationCyclePeriod_def
  o_1007_synchronousWindowLength_def o_1010_storeParameters_def
  o_1011_restoreDefaultParameters_def o_1012_COB_IDTimeStampObject_def
  o_1014_COB_ID_EMCY_def o_1015_inhibitTimeEMCY_def o_1016_consumerHeartbeatTime_def
  o_1017_producerHeartbeatTime_def o_1018_identity_def
  o_1019_synchronousCounterOverflowValue_def o_1200_SDOServerParameter_def
  o_1280_SDOClientParameter_def o_1400_RPDOCommunicationParameter_def
  o_1401_RPDOCommunicationParameter_def o_1402_RPDOCommunicationParameter_def
  o_1403_RPDOCommunicationParameter_def o_1600_RPDOMappingParameter_def
  o_1601_RPDOMappingParameter_def o_1602_RPDOMappingParameter_def
  o_1603_RPDOMappingParameter_def o_1800_TPDOCommunicationParameter_def
  o_1801_TPDOCommunicationParameter_def o_1802_TPDOCommunicationParameter_def
  o_1803_TPDOCommunicationParameter_def o_1A00_TPDOMappingParameter_def
  o_1A01_TPDOMappingParameter_def o_1A02_TPDOMappingParameter_def
  o_1A03_TPDOMappingParameter_def

lemmas od_pointer_defs =
  persist8_def persist16_def persist32_def persist32s_def ram8_def ram32_def ram32s_def

lemma entries_ok:
  assumes "array_lengths_ok m"
  shows "list_all (object_ok m) od_list"
  using assms
  by (simp add: od_list_def od_object_defs object_ok_def common_attributes_ok_def points_to_scalar_def
      points_to_array_def array_lengths_ok_def od_pointer_defs)

lemma highest_sub_indices_ok: "list_all (highest_sub_index_ok generated_memory) od_list"
  by (simp add: od_list_def od_object_defs highest_sub_index_ok_def od_pointer_defs
      generated_memory_def generated_persist_comm_def generated_ram_def
      x1018_identity_init_def x1280_SDOClientParameter_init_def x1200_SDOServerParameter_init_def
      x1400_RPDOCommunicationParameter_init_def x1401_RPDOCommunicationParameter_init_def
      x1402_RPDOCommunicationParameter_init_def x1403_RPDOCommunicationParameter_init_def
      x1800_TPDOCommunicationParameter_init_def x1801_TPDOCommunicationParameter_init_def
      x1802_TPDOCommunicationParameter_init_def x1803_TPDOCommunicationParameter_init_def)

text \<open>
  Internal consistency of the generated tables, in every memory whose arrays have their
  declared lengths: the entries are strictly sorted by index, so the index determines the entry;
  type and sub-index count of each descriptor fit its object; and every pointer designates storage
  of the declared width and count.  In the initial memory the constant sub-index 0 of a record or
  an array is its highest sub-index; and both families of shortcut macros expand to the entry they
  name.
\<close>

lemma generated_dictionary_consistent:
  assumes "array_lengths_ok m"
  shows "dictionary_ok m od_list \<and>
    list_all (highest_sub_index_ok generated_memory) od_list \<and>
    list_all (shortcut_ok od_list) od_entry_shortcuts \<and>
    list_all (shortcut_ok od_list) od_named_shortcuts \<and>
    length od_entry_shortcuts = length od_list"
  using entries_ok [OF assms] highest_sub_indices_ok
  by (simp add: dictionary_ok_def od_list_def od_entry_shortcuts_def od_named_shortcuts_def
      shortcut_ok_def)

end
