(* ===== verification/Platform_Error.thy ===== *)
theory Platform_Error
  imports RC_Prelude
begin

text \<open>
  \<open>src/platform/linux/error.hpp\<close>: the status that every fallible operation of the platform and
  of the CANopen component returns, and the result that carries a value or a failed status.
  An \<open>std::error_code\<close> of the generic category is its number; 0 is no error.
\<close>

record status =
  operation :: string
  status_context :: string
  error_code :: int

definition status_ok :: "status \<Rightarrow> bool" where
  "status_ok s \<longleftrightarrow> error_code s = 0"

definition success_status :: status where
  "success_status = \<lparr>operation = [], status_context = [], error_code = 0\<rparr>"

definition from_errno :: "string \<Rightarrow> string \<Rightarrow> int \<Rightarrow> status" where
  "from_errno op ctx n = \<lparr>operation = op, status_context = ctx, error_code = n\<rparr>"

text \<open>A result: the optional value and the status (both are stored).\<close>

record 'a outcome =
  outcome_value :: "'a option"
  outcome_status :: status

definition outcome_success :: "'a \<Rightarrow> 'a outcome" where
  "outcome_success x = \<lparr>outcome_value = Some x, outcome_status = success_status\<rparr>"

definition outcome_failure :: "status \<Rightarrow> 'a outcome" where
  "outcome_failure s = \<lparr>outcome_value = None, outcome_status = s\<rparr>"

definition outcome_ok :: "'a outcome \<Rightarrow> bool" where
  "outcome_ok r \<longleftrightarrow> outcome_value r \<noteq> None"

definition EINVAL :: int where "EINVAL = 22"
definition ENAMETOOLONG :: int where "ENAMETOOLONG = 36"
definition EBUSY :: int where "EBUSY = 16"
definition ENOMEM :: int where "ENOMEM = 12"

lemmas errno_defs = EINVAL_def ENAMETOOLONG_def EBUSY_def ENOMEM_def

lemma success_ok [simp]: "status_ok success_status"
  by (simp add: status_ok_def success_status_def)

lemma from_errno_ok [simp]: "status_ok (from_errno op ctx n) \<longleftrightarrow> n = 0"
  by (simp add: status_ok_def from_errno_def)

lemma outcome_simps [simp]:
  "outcome_ok (outcome_success x)"
  "\<not> outcome_ok (outcome_failure s)"
  "outcome_value (outcome_success x) = Some x"
  "outcome_value (outcome_failure s) = None"
  "outcome_status (outcome_success x) = success_status"
  "outcome_status (outcome_failure s) = s"
  by (simp_all add: outcome_ok_def outcome_success_def outcome_failure_def)

end
