(* ===== verification/Canopen_Config.thy ===== *)
theory Canopen_Config
  imports Platform_Error
begin

text \<open>
  \<open>src/communication/canopen/stack_config.{hpp,cpp}\<close>: the startup values of the CANopen stack and
  their validation.  The lemmas give the exact set of accepted configurations and what an
  accepted one guarantees to the code that programs the object dictionary from it.
\<close>

record stack_config =
  interface_name :: string
  controller_node_id :: u8
  remote_node_id :: u8
  bit_rate_kbit_s :: u16
  heartbeat_timeout :: int
  sdo_timeout :: int
  tpdo_timeout :: int
  tpdo_expected_dlc :: "u8 list"

definition default_stack_config :: stack_config where
  "default_stack_config =
     \<lparr>interface_name = [], controller_node_id = 0, remote_node_id = 1, bit_rate_kbit_s = 500,
      heartbeat_timeout = 0, sdo_timeout = 0, tpdo_timeout = 0,
      tpdo_expected_dlc = [0, 0, 0, 0]\<rparr>"

definition IFNAMSIZ :: nat where "IFNAMSIZ = 16"

text \<open>\<open>std::isspace\<close> and \<open>std::iscntrl\<close> in the C locale.\<close>

definition c_isspace :: "char \<Rightarrow> bool" where
  "c_isspace c \<longleftrightarrow> of_char c = (32 :: nat) \<or> (9 \<le> (of_char c :: nat) \<and> (of_char c :: nat) \<le> 13)"

definition c_iscntrl :: "char \<Rightarrow> bool" where
  "c_iscntrl c \<longleftrightarrow> (of_char c :: nat) < 32 \<or> of_char c = (127 :: nat)"

definition config_invalid :: "string \<Rightarrow> int \<Rightarrow> status" where
  "config_invalid ctx n = from_errno ''validate_canopen_stack_config'' ctx n"

definition supported_bit_rates :: "u16 list" where
  "supported_bit_rates = [100, 125, 250, 500, 1000]"

definition timeout_invalid :: "int \<Rightarrow> bool" where
  "timeout_invalid t \<longleftrightarrow> t \<le> 0 \<or> t > 65535"

definition validate_stack_config :: "stack_config \<Rightarrow> status" where
  "validate_stack_config c =
     (if controller_node_id c < 1 \<or> controller_node_id c > 127
      then config_invalid ''controller_node_id'' EINVAL
      else if remote_node_id c < 1 \<or> remote_node_id c > 127
      then config_invalid ''remote_node_id'' EINVAL
      else if controller_node_id c = remote_node_id c
      then config_invalid ''node_ids_must_differ'' EINVAL
      else if interface_name c = [] then config_invalid ''interface_name'' EINVAL
      else if length (interface_name c) \<ge> IFNAMSIZ
      then config_invalid ''interface_name'' ENAMETOOLONG
      else if interface_name c = ''.'' \<or> interface_name c = ''..'' \<or>
        list_ex (\<lambda>ch. ch = CHR ''/'' \<or> c_isspace ch \<or> c_iscntrl ch) (interface_name c)
      then config_invalid ''interface_name'' EINVAL
      else if \<not> List.member supported_bit_rates (bit_rate_kbit_s c)
      then config_invalid ''bit_rate_kbit_s'' EINVAL
      else if timeout_invalid (heartbeat_timeout c)
      then config_invalid ''heartbeat_timeout'' EINVAL
      else if timeout_invalid (sdo_timeout c) then config_invalid ''sdo_timeout'' EINVAL
      else if timeout_invalid (tpdo_timeout c) then config_invalid ''tpdo_timeout'' EINVAL
      else if list_ex (\<lambda>d. d > 8) (tpdo_expected_dlc c)
      then config_invalid ''tpdo_expected_dlc'' EINVAL
      else success_status)"

section \<open>The accepted configurations\<close>

definition node_id_ok :: "u8 \<Rightarrow> bool" where
  "node_id_ok n \<longleftrightarrow> unat n \<in> {1..127}"

definition printable :: "char \<Rightarrow> bool" where
  "printable c \<longleftrightarrow> 33 \<le> (of_char c :: nat) \<and> of_char c \<noteq> (47 :: nat) \<and> of_char c \<noteq> (127 :: nat)"

definition interface_name_ok :: "string \<Rightarrow> bool" where
  "interface_name_ok s \<longleftrightarrow>
     length s \<in> {1..15} \<and> s \<noteq> ''.'' \<and> s \<noteq> ''..'' \<and> (\<forall>c \<in> set s. printable c)"

definition stack_config_ok :: "stack_config \<Rightarrow> bool" where
  "stack_config_ok c \<longleftrightarrow>
     node_id_ok (controller_node_id c) \<and> node_id_ok (remote_node_id c) \<and>
     controller_node_id c \<noteq> remote_node_id c \<and> interface_name_ok (interface_name c) \<and>
     unat (bit_rate_kbit_s c) \<in> {100, 125, 250, 500, 1000} \<and>
     heartbeat_timeout c \<in> {1..65535} \<and> sdo_timeout c \<in> {1..65535} \<and>
     tpdo_timeout c \<in> {1..65535} \<and> (\<forall>d \<in> set (tpdo_expected_dlc c). unat d \<le> 8)"

lemma node_id_bounds: "n < 1 \<or> n > 127 \<longleftrightarrow> \<not> node_id_ok n" for n :: u8
  by (auto simp: node_id_ok_def word_less_nat_alt)

lemma timeout_bounds: "\<not> timeout_invalid t \<longleftrightarrow> t \<in> {1..65535}"
  by (auto simp: timeout_invalid_def)

lemma of_char_slash: "(of_char c :: nat) = 47 \<longleftrightarrow> c = CHR ''/''"
proof
  assume "(of_char c :: nat) = 47"
  then have "(of_char c :: nat) = of_char (CHR ''/'')"
    by simp
  then show "c = CHR ''/''"
    by (simp only: of_char_eq_iff)
qed simp

lemma printable_char:
  "printable c \<longleftrightarrow> \<not> (c = CHR ''/'' \<or> c_isspace c \<or> c_iscntrl c)"
  by (auto simp: printable_def c_isspace_def c_iscntrl_def of_char_slash [symmetric])

lemma bit_rate_member:
  "List.member supported_bit_rates r \<longleftrightarrow> unat r \<in> {100, 125, 250, 500, 1000}"
  by (simp add: supported_bit_rates_def word_unat_eq_iff)

lemma interface_name_conditions:
  "interface_name_ok s \<longleftrightarrow>
     s \<noteq> [] \<and> \<not> length s \<ge> IFNAMSIZ \<and>
     \<not> (s = ''.'' \<or> s = ''..'' \<or> list_ex (\<lambda>ch. ch = CHR ''/'' \<or> c_isspace ch \<or> c_iscntrl ch) s)"
proof -
  have chars: "(\<forall>c \<in> set s. printable c) \<longleftrightarrow>
      \<not> list_ex (\<lambda>ch. ch = CHR ''/'' \<or> c_isspace ch \<or> c_iscntrl ch) s"
    unfolding printable_char list_ex_iff by blast
  have lengths: "length s \<in> {1..15} \<longleftrightarrow> s \<noteq> [] \<and> \<not> length s \<ge> IFNAMSIZ"
    by (cases s) (simp_all add: IFNAMSIZ_def, linarith)
  show ?thesis
    unfolding interface_name_ok_def chars lengths by blast
qed

lemma dlc_conditions: "list_ex (\<lambda>d. d > 8) ds \<longleftrightarrow> \<not> (\<forall>d \<in> set ds. unat d \<le> 8)" for ds :: "u8 list"
  by (auto simp: list_ex_iff word_less_nat_alt not_le)

lemma validate_status:
  "status_ok (validate_stack_config c) \<longleftrightarrow> stack_config_ok c"
  unfolding validate_stack_config_def stack_config_ok_def node_id_bounds bit_rate_member
    interface_name_conditions dlc_conditions timeout_bounds [symmetric]
  by (simp add: config_invalid_def errno_defs)

lemma config_invalid_fields [simp]:
  "operation (config_invalid ctx n) = ''validate_canopen_stack_config''"
  "error_code (config_invalid ctx n) = n"
  by (simp_all add: config_invalid_def from_errno_def)

lemma if_either: "P x \<Longrightarrow> P y \<Longrightarrow> P (if b then x else y)"
  by simp

lemma validate_operation:
  "status_ok (validate_stack_config c) \<or>
   operation (validate_stack_config c) = ''validate_canopen_stack_config''"
  unfolding validate_stack_config_def
  by (intro if_either [where P = "\<lambda>s. status_ok s \<or> operation s = ''validate_canopen_stack_config''"])
    simp_all

lemma validate_too_long:
  assumes "\<not> status_ok (validate_stack_config c)"
  shows "error_code (validate_stack_config c) = ENAMETOOLONG \<longleftrightarrow>
    node_id_ok (controller_node_id c) \<and> node_id_ok (remote_node_id c) \<and>
    controller_node_id c \<noteq> remote_node_id c \<and> length (interface_name c) > 15"
  using assms unfolding validate_stack_config_def node_id_bounds
  by (auto simp: errno_defs IFNAMSIZ_def)

text \<open>
  Validation accepts exactly the well-formed configurations: node ids 1 to 127 that differ,
  an interface name of 1 to 15 characters that names a file-system-safe device, a supported
  bit rate, timeouts of 1 to 65535 ms (so that each fits the 16-bit field of the dictionary) and
  expected lengths of at most 8 bytes.  A refusal is an error of this operation, and is
  ENAMETOOLONG for a name that is too long, when both node ids are acceptable.
\<close>

theorem validation_exact:
  "(status_ok (validate_stack_config c) \<longleftrightarrow> stack_config_ok c) \<and>
   (\<not> stack_config_ok c \<longrightarrow>
      operation (validate_stack_config c) = ''validate_canopen_stack_config'' \<and>
      (error_code (validate_stack_config c) = ENAMETOOLONG \<longleftrightarrow>
         node_id_ok (controller_node_id c) \<and> node_id_ok (remote_node_id c) \<and>
         controller_node_id c \<noteq> remote_node_id c \<and> length (interface_name c) > 15))"
  using validate_status validate_operation validate_too_long by metis

definition example_config :: stack_config where
  "example_config = default_stack_config
     \<lparr>interface_name := ''can0'', controller_node_id := 127, heartbeat_timeout := 1000,
      sdo_timeout := 500, tpdo_timeout := 100, tpdo_expected_dlc := [8, 0, 0, 0]\<rparr>"

lemma example_config_ok: "stack_config_ok example_config"
  unfolding validate_status [symmetric] by code_simp

theorem validation_exact_witness:
  "status_ok (validate_stack_config example_config) \<and>
   error_code (validate_stack_config
     (example_config\<lparr>interface_name := ''a-long-interface''\<rparr>)) = ENAMETOOLONG"
proof -
  let ?long = "example_config\<lparr>interface_name := ''a-long-interface''\<rparr>"
  have "\<not> stack_config_ok ?long"
    by (simp add: stack_config_ok_def interface_name_ok_def)
  moreover have "node_id_ok (controller_node_id ?long) \<and> node_id_ok (remote_node_id ?long) \<and>
      controller_node_id ?long \<noteq> remote_node_id ?long \<and> length (interface_name ?long) > 15"
    by (simp add: example_config_def default_stack_config_def node_id_ok_def)
  ultimately show ?thesis
    using validation_exact [of ?long] validation_exact [of example_config] example_config_ok
    by blast
qed

end
