(* ===== verification/RC_Text.thy ===== *)
theory RC_Text
  imports RC_Prelude
begin

text \<open>
  Number formatting as \<open>printf\<close> and the port layer do it: digits are produced least
  significant first and reversed.
\<close>

definition digit_char :: "nat \<Rightarrow> char" where
  "digit_char d = (if d < 10 then char_of (48 + d) else char_of (55 + d))"

definition char_digit :: "char \<Rightarrow> nat" where
  "char_digit c = (let n = of_char c in if n < 58 then n - 48 else n - 55)"

fun digits_rev :: "nat \<Rightarrow> nat \<Rightarrow> string" where
  "digits_rev base n =
     digit_char (n mod base) # (if n < base \<or> base < 2 then [] else digits_rev base (n div base))"

declare digits_rev.simps [simp del]

definition decimal :: "nat \<Rightarrow> string" where
  "decimal n = rev (digits_rev 10 n)"

definition decimal_int :: "int \<Rightarrow> string" where
  "decimal_int i = (if i < 0 then CHR ''-'' # decimal (nat (- i)) else decimal (nat i))"

definition hex_padded :: "nat \<Rightarrow> nat \<Rightarrow> string" where
  "hex_padded width n =
     (let ds = rev (digits_rev 16 n) in replicate (width - length ds) (CHR ''0'') @ ds)"

fun value_rev :: "nat \<Rightarrow> string \<Rightarrow> nat" where
  "value_rev base [] = 0"
| "value_rev base (c # cs) = char_digit c + base * value_rev base cs"

lemma char_digit_digit_char [simp]: "d < 16 \<Longrightarrow> char_digit (digit_char d) = d"
  by (simp add: char_digit_def digit_char_def Let_def)

lemma digits_rev_nonempty [simp]: "digits_rev base n \<noteq> []"
  by (subst digits_rev.simps) simp

lemma value_digits_rev:
  assumes "2 \<le> base" "base \<le> 16"
  shows "value_rev base (digits_rev base n) = n"
proof (induction n rule: less_induct)
  case (less n)
  have d: "n mod base < 16" using assms mod_less_divisor [of base n] by linarith
  show ?case
  proof (cases "n < base")
    case True
    then show ?thesis using assms d by (subst digits_rev.simps) simp
  next
    case False
    then have "n div base < n" using assms by simp
    from less [OF this] False assms d show ?thesis by (subst digits_rev.simps) simp
  qed
qed

lemma length_digits_rev:
  assumes "2 \<le> base" "n < base ^ k" "0 < k"
  shows "length (digits_rev base n) \<le> k"
  using assms(2,3)
proof (induction k arbitrary: n)
  case 0
  then show ?case by simp
next
  case (Suc k)
  show ?case
  proof (cases "n < base")
    case True
    then show ?thesis by (subst digits_rev.simps) simp
  next
    case False
    have "0 < k"
    proof (rule ccontr)
      assume "\<not> 0 < k"
      with Suc.prems(1) False show False by simp
    qed
    moreover have "n div base < base ^ k"
      using Suc.prems(1) assms(1) by (simp add: less_mult_imp_div_less mult.commute)
    ultimately have "length (digits_rev base (n div base)) \<le> k" by (rule Suc.IH [rotated])
    with False assms(1) show ?thesis by (subst digits_rev.simps) simp
  qed
qed

lemma of_char_digit_char:
  "d < 16 \<Longrightarrow> (of_char (digit_char d) :: nat) = (if d < 10 then 48 + d else 55 + d)"
  by (simp add: digit_char_def)

lemma digit_char_not_NUL: "d < 16 \<Longrightarrow> digit_char d \<noteq> CHR 0x00"
  using of_char_digit_char [of d] by (auto split: if_splits)

end
