(* ===== verification/Canopen_Storage.thy ===== *)
theory Canopen_Storage
  imports Canopen_OD Canopen_Config RC_Text
begin

text \<open>
  \<open>src/communication/canopen/stack_storage.{hpp,cpp}\<close>: the process-wide claim on the generated
  object dictionary, its reset and its programming for one remote node, and the life of the one
  owner of the upstream stack.  \<open>CO_new\<close>, \<open>CO_delete\<close> and \<open>CO_CANmodule_disable\<close> belong to
  CANopenNode, which is not in the repository: the answer of \<open>CO_new\<close> is an argument and the
  calls are recorded in order; what the stack does to the dictionary while an owner lives is
  left open in the step relation.  The lemmas show that at most one owner lives, and that
  whatever the stack did before, a reset or a new owner starts from the same programmed
  dictionary, in which only the receive side is enabled.
\<close>

section \<open>State\<close>

text \<open>The fields of \<open>CO_config_t\<close> that the code sets; an entry is a position in the list.\<close>

record co_config =
  CNT_NMT :: nat
  ENTRY_H1017 :: "nat option"
  CNT_HB_CONS :: nat
  CNT_ARR_1016 :: nat
  ENTRY_H1016 :: "nat option"
  CNT_EM :: nat
  ENTRY_H1001 :: "nat option"
  ENTRY_H1014 :: "nat option"
  ENTRY_H1015 :: "nat option"
  CNT_ARR_1003 :: nat
  ENTRY_H1003 :: "nat option"
  CNT_SDO_SRV :: nat
  ENTRY_H1200 :: "nat option"
  CNT_SDO_CLI :: nat
  ENTRY_H1280 :: "nat option"
  CNT_TIME :: nat
  ENTRY_H1012 :: "nat option"
  CNT_SYNC :: nat
  ENTRY_H1005 :: "nat option"
  ENTRY_H1006 :: "nat option"
  ENTRY_H1007 :: "nat option"
  ENTRY_H1019 :: "nat option"
  CNT_RPDO :: nat
  ENTRY_H1400 :: "nat option"
  ENTRY_H1600 :: "nat option"
  CNT_TPDO :: nat
  ENTRY_H1800 :: "nat option"
  ENTRY_H1A00 :: "nat option"
  CNT_LEDS :: nat
  CNT_GFC :: nat
  ENTRY_H1300 :: "nat option"
  CNT_SRDO :: nat
  ENTRY_H1301 :: "nat option"
  ENTRY_H1381 :: "nat option"
  ENTRY_H13FE :: "nat option"
  ENTRY_H13FF :: "nat option"
  CNT_LSS_SLV :: nat
  CNT_LSS_MST :: nat
  CNT_GTWA :: nat
  CNT_TRACE :: nat

text \<open>The counts of \<open>OD.h\<close>, and its configuration macro with the shortcuts expanded.\<close>

definition OD_CNT_NMT :: nat where "OD_CNT_NMT = 1"
definition OD_CNT_EM :: nat where "OD_CNT_EM = 1"
definition OD_CNT_SYNC :: nat where "OD_CNT_SYNC = 1"
definition OD_CNT_TIME :: nat where "OD_CNT_TIME = 1"
definition OD_CNT_HB_CONS :: nat where "OD_CNT_HB_CONS = 1"
definition OD_CNT_SDO_SRV :: nat where "OD_CNT_SDO_SRV = 1"
definition OD_CNT_SDO_CLI :: nat where "OD_CNT_SDO_CLI = 1"
definition OD_CNT_RPDO :: nat where "OD_CNT_RPDO = 4"
definition OD_CNT_TPDO :: nat where "OD_CNT_TPDO = 4"
definition OD_CNT_ARR_1003 :: nat where "OD_CNT_ARR_1003 = 16"
definition OD_CNT_ARR_1016 :: nat where "OD_CNT_ARR_1016 = 8"

lemmas od_counts =
  OD_CNT_NMT_def OD_CNT_EM_def OD_CNT_SYNC_def OD_CNT_TIME_def OD_CNT_HB_CONS_def
  OD_CNT_SDO_SRV_def OD_CNT_SDO_CLI_def OD_CNT_RPDO_def OD_CNT_TPDO_def OD_CNT_ARR_1003_def
  OD_CNT_ARR_1016_def

definition OD_ENTRY :: "u16 \<Rightarrow> nat option" where
  "OD_ENTRY i = map_of od_entry_shortcuts i"

definition OD_INIT_CONFIG :: "co_config \<Rightarrow> co_config" where
  "OD_INIT_CONFIG c = c
     \<lparr>CNT_NMT := OD_CNT_NMT,
      ENTRY_H1017 := OD_ENTRY 0x1017,
      CNT_HB_CONS := OD_CNT_HB_CONS,
      CNT_ARR_1016 := OD_CNT_ARR_1016,
      ENTRY_H1016 := OD_ENTRY 0x1016,
      CNT_EM := OD_CNT_EM,
      ENTRY_H1001 := OD_ENTRY 0x1001,
      ENTRY_H1014 := OD_ENTRY 0x1014,
      ENTRY_H1015 := OD_ENTRY 0x1015,
      CNT_ARR_1003 := OD_CNT_ARR_1003,
      ENTRY_H1003 := OD_ENTRY 0x1003,
      CNT_SDO_SRV := OD_CNT_SDO_SRV,
      ENTRY_H1200 := OD_ENTRY 0x1200,
      CNT_SDO_CLI := OD_CNT_SDO_CLI,
      ENTRY_H1280 := OD_ENTRY 0x1280,
      CNT_TIME := OD_CNT_TIME,
      ENTRY_H1012 := OD_ENTRY 0x1012,
      CNT_SYNC := OD_CNT_SYNC,
      ENTRY_H1005 := OD_ENTRY 0x1005,
      ENTRY_H1006 := OD_ENTRY 0x1006,
      ENTRY_H1007 := OD_ENTRY 0x1007,
      ENTRY_H1019 := OD_ENTRY 0x1019,
      CNT_RPDO := OD_CNT_RPDO,
      ENTRY_H1400 := OD_ENTRY 0x1400,
      ENTRY_H1600 := OD_ENTRY 0x1600,
      CNT_TPDO := OD_CNT_TPDO,
      ENTRY_H1800 := OD_ENTRY 0x1800,
      ENTRY_H1A00 := OD_ENTRY 0x1A00,
      CNT_LEDS := 0,
      CNT_GFC := 0,
      ENTRY_H1300 := None,
      CNT_SRDO := 0,
      ENTRY_H1301 := None,
      ENTRY_H1381 := None,
      ENTRY_H13FE := None,
      ENTRY_H13FF := None,
      CNT_LSS_SLV := 0,
      CNT_LSS_MST := 0,
      CNT_GTWA := 0,
      CNT_TRACE := 0\<rparr>"

definition configure_active_counts :: "co_config \<Rightarrow> co_config" where
  "configure_active_counts c = (OD_INIT_CONFIG c)
     \<lparr>CNT_NMT := 1, CNT_HB_CONS := 1, CNT_ARR_1016 := 1, CNT_EM := 1, CNT_SDO_SRV := 0,
      CNT_SDO_CLI := 1, CNT_TIME := 0, CNT_SYNC := 0, CNT_RPDO := 4, CNT_TPDO := 0,
      CNT_LEDS := 0, CNT_GFC := 0, CNT_SRDO := 0, CNT_LSS_SLV := 0, CNT_LSS_MST := 0,
      CNT_GTWA := 0, CNT_TRACE := 0\<rparr>"

text \<open>The value-initialised \<open>CO_config_t\<close> of a new owner.\<close>

definition zero_co_config :: co_config where
  "zero_co_config =
     \<lparr>CNT_NMT = 0, ENTRY_H1017 = None, CNT_HB_CONS = 0, CNT_ARR_1016 = 0, ENTRY_H1016 = None,
      CNT_EM = 0, ENTRY_H1001 = None, ENTRY_H1014 = None, ENTRY_H1015 = None,
      CNT_ARR_1003 = 0, ENTRY_H1003 = None, CNT_SDO_SRV = 0, ENTRY_H1200 = None,
      CNT_SDO_CLI = 0, ENTRY_H1280 = None, CNT_TIME = 0, ENTRY_H1012 = None, CNT_SYNC = 0,
      ENTRY_H1005 = None, ENTRY_H1006 = None, ENTRY_H1007 = None, ENTRY_H1019 = None,
      CNT_RPDO = 0, ENTRY_H1400 = None, ENTRY_H1600 = None, CNT_TPDO = 0,
      ENTRY_H1800 = None, ENTRY_H1A00 = None, CNT_LEDS = 0, CNT_GFC = 0, ENTRY_H1300 = None,
      CNT_SRDO = 0, ENTRY_H1301 = None, ENTRY_H1381 = None, ENTRY_H13FE = None,
      ENTRY_H13FF = None, CNT_LSS_SLV = 0, CNT_LSS_MST = 0, CNT_GTWA = 0, CNT_TRACE = 0\<rparr>"

text \<open>
  The process-wide state: the claim flag, the dictionary's storage and entry list, and the two
  function-local statics of the reset, which are initialised by its first call.
\<close>

record od_process =
  stack_claim :: bool
  od_memory :: od_memory
  od_entries :: "od_entry list"
  generated_copy :: "od_memory option"

definition process_start :: od_process where
  "process_start = \<lparr>stack_claim = False, od_memory = generated_memory, od_entries = od_list,
     generated_copy = None\<rparr>"

record stack_owner =
  owner_config :: stack_config
  upstream_config :: co_config
  owner_stack :: "nat option"
  heap_memory_used :: u32

datatype upstream_call = Co_new co_config | Co_delete "nat option" | Can_module_disable nat

section \<open>Operations (stack_storage.cpp)\<close>

definition identity_context :: "stack_config \<Rightarrow> string" where
  "identity_context c =
     ''controller='' @ decimal (unat (controller_node_id c)) @
     '' remote='' @ decimal (unat (remote_node_id c))"

definition clear_extensions :: "od_process \<Rightarrow> od_process" where
  "clear_extensions p =
     p\<lparr>od_entries := map (\<lambda>e. e\<lparr>od_extension := None\<rparr>) (od_entries p)\<rparr>"

definition reset_generated_dictionary :: "od_process \<Rightarrow> od_process" where
  "reset_generated_dictionary p =
     (let q = clear_extensions p;
          generated = (case generated_copy q of None \<Rightarrow> od_memory q | Some g \<Rightarrow> g)
      in q\<lparr>generated_copy := Some generated, od_memory := generated\<rparr>)"

definition receive_configuration :: "stack_config \<Rightarrow> od_persist_comm \<Rightarrow> od_persist_comm" where
  "receive_configuration c d =
     (let remote = (ucast (remote_node_id c) :: u32);
          heartbeat = push_bit 16 remote OR word_of_int (heartbeat_timeout c)
      in d
     \<lparr>x1017_producerHeartbeatTime := 0,
      x1016_consumerHeartbeatTime_sub0 := 1,
      x1016_consumerHeartbeatTime :=
        (map (\<lambda>_. 0) (x1016_consumerHeartbeatTime d))[0 := heartbeat],
      x1280_SDOClientParameter := (x1280_SDOClientParameter d)
        \<lparr>sdoc_COB_IDClientToServerTx := 0x600 + remote,
         sdoc_COB_IDServerToClientRx := 0x580 + remote,
         sdoc_node_IDOfTheSDOServer := remote_node_id c\<rparr>,
      x1400_RPDOCommunicationParameter := (x1400_RPDOCommunicationParameter d)
        \<lparr>rpdo_COB_IDUsedByRPDO := 0x180 + remote\<rparr>,
      x1401_RPDOCommunicationParameter := (x1401_RPDOCommunicationParameter d)
        \<lparr>rpdo_COB_IDUsedByRPDO := 0x280 + remote\<rparr>,
      x1402_RPDOCommunicationParameter := (x1402_RPDOCommunicationParameter d)
        \<lparr>rpdo_COB_IDUsedByRPDO := 0x380 + remote\<rparr>,
      x1403_RPDOCommunicationParameter := (x1403_RPDOCommunicationParameter d)
        \<lparr>rpdo_COB_IDUsedByRPDO := 0x480 + remote\<rparr>\<rparr>)"

definition apply_receive_configuration :: "stack_config \<Rightarrow> od_process \<Rightarrow> od_process" where
  "apply_receive_configuration c p =
     p\<lparr>od_memory := (od_memory p)
         \<lparr>mem_persist := receive_configuration c (mem_persist (od_memory p))\<rparr>\<rparr>"

text \<open>The destructor: its calls, and the process after it.\<close>

definition storage_destroy :: "stack_owner \<Rightarrow> od_process \<Rightarrow> upstream_call list \<times> od_process" where
  "storage_destroy s p = ([Co_delete (owner_stack s)], (clear_extensions p)\<lparr>stack_claim := False\<rparr>)"

text \<open>
  Creation.  \<open>allocated\<close> is the answer of the non-throwing allocation of the owner, \<open>co_new\<close> the
  upstream allocator: the stack's address, or None for a null pointer, and the heap it counted.
\<close>

definition storage_create ::
  "bool \<Rightarrow> (co_config \<Rightarrow> nat option \<times> u32) \<Rightarrow> stack_config \<Rightarrow> od_process \<Rightarrow>
     stack_owner outcome \<times> upstream_call list \<times> od_process" where
  "storage_create allocated co_new c p =
     (let st = validate_stack_config c; ctx = identity_context c
      in if \<not> status_ok st then (outcome_failure st, [], p)
      else if stack_claim p
      then (outcome_failure (from_errno ''claim_canopen_stack'' ctx EBUSY), [], p)
      else if \<not> allocated
      then (outcome_failure (from_errno ''allocate_canopen_stack_owner'' ctx ENOMEM), [],
            p\<lparr>stack_claim := False\<rparr>)
      else
        let p1 = apply_receive_configuration c
                   (reset_generated_dictionary (p\<lparr>stack_claim := True\<rparr>));
            up = configure_active_counts zero_co_config;
            (stack, heap) = co_new up;
            s = \<lparr>owner_config = c, upstream_config = up, owner_stack = stack,
                 heap_memory_used = heap\<rparr>
        in case stack of
             None \<Rightarrow> (let (calls, p2) = storage_destroy s p1
                      in (outcome_failure (from_errno ''CO_new'' ctx ENOMEM), Co_new up # calls, p2))
           | Some _ \<Rightarrow> (outcome_success s, [Co_new up], p1))"

definition prepare_communication_reset ::
  "stack_owner \<Rightarrow> od_process \<Rightarrow> upstream_call list \<times> od_process" where
  "prepare_communication_reset s p =
     ((case owner_stack s of None \<Rightarrow> [] | Some a \<Rightarrow> [Can_module_disable a]),
      apply_receive_configuration (owner_config s) (reset_generated_dictionary p))"

section \<open>The dictionary seen through its entries\<close>

fun cell_at :: "od_cell \<Rightarrow> nat \<Rightarrow> od_cell option" where
  "cell_at (Cells8 xs) k = (if k < length xs then Some (Cells8 [xs ! k]) else None)"
| "cell_at (Cells16 xs) k = (if k < length xs then Some (Cells16 [xs ! k]) else None)"
| "cell_at (Cells32 xs) k = (if k < length xs then Some (Cells32 [xs ! k]) else None)"

definition pointed :: "od_memory \<Rightarrow> od_ref option \<Rightarrow> nat \<Rightarrow> od_cell option" where
  "pointed m r k = (case r of None \<Rightarrow> None | Some f \<Rightarrow> cell_at (f m) k)"

definition object_value :: "od_memory \<Rightarrow> od_object \<Rightarrow> nat \<Rightarrow> od_cell option" where
  "object_value m ob s =
     (case ob of
        Od_var v \<Rightarrow> (if s = 0 then pointed m (var_data v) 0 else None)
      | Od_arr a \<Rightarrow> (if s = 0 then pointed m (arr_data0 a) 0 else pointed m (arr_data a) (s - 1))
      | Od_rec rs \<Rightarrow> (case find (\<lambda>r. rec_sub_index r = s) rs of
            None \<Rightarrow> None | Some r \<Rightarrow> pointed m (rec_data r) 0))"

definition dictionary_value :: "od_process \<Rightarrow> u16 \<Rightarrow> nat \<Rightarrow> od_cell option" where
  "dictionary_value p i s =
     (case find (\<lambda>e. od_index e = i) (od_entries p) of
        None \<Rightarrow> None | Some e \<Rightarrow> object_value (od_memory p) (od_object e) s)"

definition cell_nat :: "od_cell \<Rightarrow> nat option" where
  "cell_nat c =
     (case c of
        Cells8 xs \<Rightarrow> (case xs of [x] \<Rightarrow> Some (unat x) | _ \<Rightarrow> None)
      | Cells16 xs \<Rightarrow> (case xs of [x] \<Rightarrow> Some (unat x) | _ \<Rightarrow> None)
      | Cells32 xs \<Rightarrow> (case xs of [x] \<Rightarrow> Some (unat x) | _ \<Rightarrow> None))"

definition entry_nat :: "od_process \<Rightarrow> u16 \<Rightarrow> nat \<Rightarrow> nat option" where
  "entry_nat p i s = Option.bind (dictionary_value p i s) cell_nat"

text \<open>
  What a dictionary programmed for a remote node says: the four receive PDOs and the SDO client
  address the remote node, its heartbeat is the only one consumed, with the configured timeout;
  nothing is produced: no heartbeat, and every transmit PDO is invalid (bit 31 of its COB-ID);
  and no PDO maps an object.
\<close>

definition receives_only :: "stack_config \<Rightarrow> od_process \<Rightarrow> bool" where
  "receives_only c p \<longleftrightarrow>
     (let remote = unat (remote_node_id c) in
      entry_nat p 0x1400 1 = Some (0x180 + remote) \<and>
      entry_nat p 0x1401 1 = Some (0x280 + remote) \<and>
      entry_nat p 0x1402 1 = Some (0x380 + remote) \<and>
      entry_nat p 0x1403 1 = Some (0x480 + remote) \<and>
      entry_nat p 0x1280 1 = Some (0x600 + remote) \<and>
      entry_nat p 0x1280 2 = Some (0x580 + remote) \<and>
      entry_nat p 0x1280 3 = Some remote \<and>
      entry_nat p 0x1016 0 = Some 1 \<and>
      entry_nat p 0x1016 1 = Some (0x10000 * remote + nat (heartbeat_timeout c)) \<and>
      list_all (\<lambda>s. entry_nat p 0x1016 s = Some 0) [2, 3, 4, 5, 6, 7, 8] \<and>
      entry_nat p 0x1017 0 = Some 0 \<and>
      list_all (\<lambda>i. case entry_nat p i 1 of None \<Rightarrow> False | Some w \<Rightarrow> 0x80000000 \<le> w)
        [0x1800, 0x1801, 0x1802, 0x1803] \<and>
      list_all (\<lambda>i. entry_nat p i 0 = Some 0)
        [0x1600, 0x1601, 0x1602, 0x1603, 0x1A00, 0x1A01, 0x1A02, 0x1A03])"

definition programmed :: "stack_config \<Rightarrow> od_process \<Rightarrow> bool" where
  "programmed c p \<longleftrightarrow> od_entries p = od_list \<and> od_memory p =
     generated_memory\<lparr>mem_persist := receive_configuration c generated_persist_comm\<rparr>"

lemma unat_offset_node:
  fixes n :: u8
  assumes "k + 256 \<le> 2 ^ 32"
  shows "unat (of_nat k + ucast n :: u32) = k + unat n"
proof -
  have "unat n < 256"
    by (rule order_less_le_trans [OF unsigned_less]) simp
  then have "k + unat n < 2 ^ 32"
    using assms by linarith
  moreover have "(of_nat k + ucast n :: u32) = of_nat (k + unat n)"
    by simp
  ultimately show ?thesis
    by (simp only: unat_of_nat) simp
qed

lemma unat_cob_ids:
  fixes n :: u8
  shows "unat (0x180 + ucast n :: u32) = 0x180 + unat n"
    and "unat (0x280 + ucast n :: u32) = 0x280 + unat n"
    and "unat (0x380 + ucast n :: u32) = 0x380 + unat n"
    and "unat (0x480 + ucast n :: u32) = 0x480 + unat n"
    and "unat (0x580 + ucast n :: u32) = 0x580 + unat n"
    and "unat (0x600 + ucast n :: u32) = 0x600 + unat n"
  using unat_offset_node [of "0x180" n] unat_offset_node [of "0x280" n]
    unat_offset_node [of "0x380" n] unat_offset_node [of "0x480" n]
    unat_offset_node [of "0x580" n] unat_offset_node [of "0x600" n]
  by simp_all

lemma unat_heartbeat:
  fixes n :: u8
  assumes "0 \<le> t" and "t \<le> 65535"
  shows "unat (push_bit 16 (ucast n :: u32) OR word_of_int t) = 0x10000 * unat n + nat t"
proof -
  have n: "unat n < 256"
    by (rule order_less_le_trans [OF unsigned_less]) simp
  have t: "take_bit 16 t = t"
    using assms by (simp add: take_bit_int_eq_self)
  have "push_bit 16 (ucast n :: u32) AND word_of_int t = 0"
    by (rule bit_word_eqI, subst t [symmetric]) (auto simp: bit_simps)
  then have "push_bit 16 (ucast n :: u32) OR word_of_int t = push_bit 16 (ucast n) + word_of_int t"
    by (simp add: disjunctive_add_eq_or)
  also have "\<dots> = of_nat (0x10000 * unat n + nat t)"
    using assms by (simp add: push_bit_eq_mult mult.commute)
  finally show ?thesis
    using n assms by (simp only: unat_of_nat) simp
qed

lemma programmed_receives_only:
  assumes "stack_config_ok c" and "programmed c p"
  shows "receives_only c p"
proof -
  have t: "0 \<le> heartbeat_timeout c" "heartbeat_timeout c \<le> 65535"
    using assms(1) by (auto simp: stack_config_ok_def)
  show ?thesis
    using assms(2)
    by (simp add: receives_only_def programmed_def Let_def entry_nat_def dictionary_value_def
        od_list_def od_object_defs object_value_def pointed_def od_pointer_defs cell_nat_def
        generated_memory_def generated_persist_comm_def receive_configuration_def
        unat_cob_ids unat_heartbeat [OF t]
        x1280_SDOClientParameter_init_def x1400_RPDOCommunicationParameter_init_def
        x1401_RPDOCommunicationParameter_init_def x1402_RPDOCommunicationParameter_init_def
        x1403_RPDOCommunicationParameter_init_def x1800_TPDOCommunicationParameter_init_def
        x1801_TPDOCommunicationParameter_init_def x1802_TPDOCommunicationParameter_init_def
        x1803_TPDOCommunicationParameter_init_def x1600_RPDOMappingParameter_init_def
        x1601_RPDOMappingParameter_init_def x1602_RPDOMappingParameter_init_def
        x1603_RPDOMappingParameter_init_def x1A00_TPDOMappingParameter_init_def
        x1A01_TPDOMappingParameter_init_def x1A02_TPDOMappingParameter_init_def
        x1A03_TPDOMappingParameter_init_def)
qed

section \<open>The life of the owners\<close>

text \<open>
  The process and the owners alive in it.  While an owner lives, the upstream stack may write
  any value to the dictionary's storage and attach or replace extensions.
\<close>

record storage_system =
  sys_process :: od_process
  sys_owners :: "stack_owner list"

definition without_extensions :: "od_entry list \<Rightarrow> od_entry list" where
  "without_extensions es = map (\<lambda>e. e\<lparr>od_extension := None\<rparr>) es"

inductive storage_step :: "storage_system \<Rightarrow> storage_system \<Rightarrow> bool" where
  create: "storage_create allocated co_new c p = (r, calls, p') \<Longrightarrow>
    storage_step \<lparr>sys_process = p, sys_owners = os\<rparr>
      \<lparr>sys_process = p',
       sys_owners = (case outcome_value r of None \<Rightarrow> os | Some s \<Rightarrow> s # os)\<rparr>"
| destroy: "s \<in> set os \<Longrightarrow> storage_destroy s p = (calls, p') \<Longrightarrow>
    storage_step \<lparr>sys_process = p, sys_owners = os\<rparr>
      \<lparr>sys_process = p', sys_owners = remove1 s os\<rparr>"
| prepare: "s \<in> set os \<Longrightarrow> prepare_communication_reset s p = (calls, p') \<Longrightarrow>
    storage_step \<lparr>sys_process = p, sys_owners = os\<rparr> \<lparr>sys_process = p', sys_owners = os\<rparr>"
| upstream: "os \<noteq> [] \<Longrightarrow> array_lengths_ok m \<Longrightarrow> without_extensions es = od_list \<Longrightarrow>
    storage_step \<lparr>sys_process = p, sys_owners = os\<rparr>
      \<lparr>sys_process = p\<lparr>od_memory := m, od_entries := es\<rparr>, sys_owners = os\<rparr>"

inductive_cases storage_stepE: "storage_step sys sys'"

definition storage_start :: storage_system where
  "storage_start = \<lparr>sys_process = process_start, sys_owners = []\<rparr>"

definition storage_reachable :: "storage_system \<Rightarrow> bool" where
  "storage_reachable sys \<longleftrightarrow> storage_step\<^sup>*\<^sup>* storage_start sys"

definition reset_source_ok :: "od_process \<Rightarrow> bool" where
  "reset_source_ok p \<longleftrightarrow>
     (generated_copy p = None \<and> od_memory p = generated_memory \<or>
      generated_copy p = Some generated_memory) \<and>
     without_extensions (od_entries p) = od_list"

definition owner_ok :: "stack_owner \<Rightarrow> bool" where
  "owner_ok s \<longleftrightarrow> stack_config_ok (owner_config s) \<and> owner_stack s \<noteq> None \<and>
     upstream_config s = configure_active_counts zero_co_config"

definition storage_inv :: "storage_system \<Rightarrow> bool" where
  "storage_inv sys \<longleftrightarrow>
     reset_source_ok (sys_process sys) \<and> length (sys_owners sys) \<le> 1 \<and>
     (stack_claim (sys_process sys) \<longleftrightarrow> sys_owners sys \<noteq> []) \<and>
     (sys_owners sys \<noteq> [] \<longrightarrow> generated_copy (sys_process sys) \<noteq> None) \<and>
     (\<forall>s \<in> set (sys_owners sys). owner_ok s)"

lemma without_extensions_idem [simp]:
  "without_extensions (without_extensions es) = without_extensions es"
  by (simp add: without_extensions_def comp_def)

lemma od_list_without_extensions: "without_extensions od_list = od_list"
  by (simp add: without_extensions_def od_list_def)

lemma clear_extensions_simps [simp]:
  "stack_claim (clear_extensions p) = stack_claim p"
  "od_memory (clear_extensions p) = od_memory p"
  "generated_copy (clear_extensions p) = generated_copy p"
  "od_entries (clear_extensions p) = without_extensions (od_entries p)"
  by (simp_all add: clear_extensions_def without_extensions_def)

lemma apply_receive_simps [simp]:
  "stack_claim (apply_receive_configuration c p) = stack_claim p"
  "generated_copy (apply_receive_configuration c p) = generated_copy p"
  "od_entries (apply_receive_configuration c p) = od_entries p"
  by (simp_all add: apply_receive_configuration_def)

lemma reset_simps:
  assumes "reset_source_ok p"
  shows "stack_claim (reset_generated_dictionary p) = stack_claim p"
    and "od_memory (reset_generated_dictionary p) = generated_memory"
    and "generated_copy (reset_generated_dictionary p) = Some generated_memory"
    and "od_entries (reset_generated_dictionary p) = od_list"
  using assms by (auto simp: reset_source_ok_def reset_generated_dictionary_def Let_def)

lemma reset_programs:
  assumes "reset_source_ok p"
  shows "programmed c (apply_receive_configuration c (reset_generated_dictionary p))"
    and "reset_source_ok (apply_receive_configuration c (reset_generated_dictionary p))"
  using reset_simps [OF assms]
  by (simp_all add: programmed_def apply_receive_configuration_def generated_memory_def
      reset_source_ok_def od_list_without_extensions)

lemma reset_source_ok_update [simp]:
  "reset_source_ok (p\<lparr>stack_claim := b\<rparr>) = reset_source_ok p"
  "reset_source_ok (clear_extensions p) = reset_source_ok p"
  by (simp_all add: reset_source_ok_def)

lemma unclaimed_update: "\<not> stack_claim p \<Longrightarrow> p\<lparr>stack_claim := False\<rparr> = p"
  by (cases p) simp

text \<open>The three ways a creation ends.\<close>

definition active_config :: co_config where
  "active_config = configure_active_counts zero_co_config"

definition created_process :: "stack_config \<Rightarrow> od_process \<Rightarrow> od_process" where
  "created_process c p =
     apply_receive_configuration c (reset_generated_dictionary (p\<lparr>stack_claim := True\<rparr>))"

lemma storage_create_refused:
  assumes "\<not> status_ok (validate_stack_config c) \<or> stack_claim p \<or> \<not> allocated"
  shows "\<exists>st. storage_create allocated co_new c p = (outcome_failure st, [], p)"
  using assms by (auto simp: storage_create_def Let_def unclaimed_update)

lemma storage_create_no_stack:
  assumes "status_ok (validate_stack_config c)" and "\<not> stack_claim p"
    and "co_new active_config = (None, heap)"
  shows "storage_create True co_new c p =
    (outcome_failure (from_errno ''CO_new'' (identity_context c) ENOMEM),
     [Co_new active_config, Co_delete None],
     (clear_extensions (created_process c p))\<lparr>stack_claim := False\<rparr>)"
  using assms
  by (simp add: storage_create_def storage_destroy_def Let_def created_process_def active_config_def)

lemma storage_create_success:
  assumes "status_ok (validate_stack_config c)" and "\<not> stack_claim p"
    and "co_new active_config = (Some a, heap)"
  shows "storage_create True co_new c p =
    (outcome_success \<lparr>owner_config = c, upstream_config = active_config, owner_stack = Some a,
       heap_memory_used = heap\<rparr>, [Co_new active_config], created_process c p)"
  using assms by (simp add: storage_create_def Let_def created_process_def active_config_def)

lemma created_process_ok:
  assumes "reset_source_ok p"
  shows "stack_claim (created_process c p)" and "reset_source_ok (created_process c p)"
    and "generated_copy (created_process c p) \<noteq> None" and "programmed c (created_process c p)"
proof -
  have src: "reset_source_ok (p\<lparr>stack_claim := True\<rparr>)"
    using assms by simp
  show "stack_claim (created_process c p)" "reset_source_ok (created_process c p)"
    "generated_copy (created_process c p) \<noteq> None" "programmed c (created_process c p)"
    unfolding created_process_def
    using reset_simps [OF src] reset_programs [OF src] by simp_all
qed

lemma storage_create_cases:
  assumes "storage_create allocated co_new c p = (r, calls, p')" and "reset_source_ok p"
  obtains (refused) "outcome_value r = None" "p' = p" "calls = []"
  | (no_stack) "outcome_value r = None" "\<not> stack_claim p" "\<not> stack_claim p'"
      "reset_source_ok p'"
  | (created) s where "r = outcome_success s" "\<not> stack_claim p" "stack_claim p'"
      "reset_source_ok p'" "generated_copy p' \<noteq> None" "programmed c p'" "owner_ok s"
      "owner_config s = c"
proof (cases "\<not> status_ok (validate_stack_config c) \<or> stack_claim p \<or> \<not> allocated")
  case True
  obtain st where "storage_create allocated co_new c p = (outcome_failure st, [], p)"
    using storage_create_refused [OF True] by blast
  with assms(1) show thesis
    by (intro refused) auto
next
  case False
  then have free: "status_ok (validate_stack_config c)" "\<not> stack_claim p" "allocated"
    by simp_all
  note ok = created_process_ok [OF assms(2)]
  obtain stack heap where co: "co_new active_config = (stack, heap)"
    by fastforce
  show thesis
  proof (cases stack)
    case None
    with storage_create_no_stack [OF free(1,2)] co assms(1) free ok show thesis
      by (intro no_stack) auto
  next
    case (Some a)
    with storage_create_success [OF free(1,2)] co assms(1) free
    have "r = outcome_success \<lparr>owner_config = c, upstream_config = active_config,
        owner_stack = Some a, heap_memory_used = heap\<rparr>" "p' = created_process c p"
      by auto
    with free ok show thesis
      using validate_status [of c] by (intro created) (auto simp: owner_ok_def active_config_def)
  qed
qed

lemma storage_create_claimed:
  assumes "stack_config_ok c" and "stack_claim p"
  shows "storage_create allocated co_new c p =
    (outcome_failure (from_errno ''claim_canopen_stack'' (identity_context c) EBUSY), [], p)"
  using assms by (simp add: storage_create_def Let_def validate_status)

lemma storage_create_free:
  assumes "stack_config_ok c" and "\<not> stack_claim p"
    and "fst (co_new active_config) \<noteq> None"
  shows "outcome_ok (fst (storage_create True co_new c p))"
proof -
  obtain a heap where "co_new active_config = (Some a, heap)"
    using assms(3) by (cases "co_new active_config") auto
  with assms(1,2) show ?thesis
    using storage_create_success validate_status by simp
qed

lemma storage_inv_step:
  assumes "storage_step sys sys'" and "storage_inv sys"
  shows "storage_inv sys'"
  using assms(1)
proof cases
  case (create allocated co_new c p r calls p' os)
  with assms(2) have inv: "reset_source_ok p" "stack_claim p \<longleftrightarrow> os \<noteq> []"
    by (simp_all add: storage_inv_def)
  from create(3) inv(1) show ?thesis
  proof (cases rule: storage_create_cases)
    case refused
    with create assms(2) show ?thesis by simp
  next
    case no_stack
    with create inv show ?thesis by (simp add: storage_inv_def)
  next
    case (created s)
    with create inv show ?thesis by (simp add: storage_inv_def)
  qed
next
  case (destroy s os p calls p')
  with assms(2) have "os = [s]"
    by (cases os) (auto simp: storage_inv_def)
  with destroy assms(2) show ?thesis
    by (auto simp: storage_inv_def storage_destroy_def)
next
  case (prepare s os p calls p')
  with assms(2) have "reset_source_ok p" by (simp add: storage_inv_def)
  with prepare assms(2) reset_simps [OF this] reset_programs [OF this] show ?thesis
    by (auto simp: storage_inv_def prepare_communication_reset_def)
next
  case (upstream os m es p)
  with assms(2) show ?thesis
    by (auto simp: storage_inv_def reset_source_ok_def)
qed

lemma storage_reachable_inv:
  assumes "storage_reachable sys"
  shows "storage_inv sys"
  using assms unfolding storage_reachable_def
proof (induction rule: rtranclp_induct)
  case base
  show ?case
    by (simp add: storage_inv_def storage_start_def process_start_def reset_source_ok_def
        od_list_without_extensions)
next
  case (step sys sys')
  then show ?case by (blast intro: storage_inv_step)
qed

text \<open>
  C23: Whatever creations, resets and destructions happened and whatever the stack wrote
  meanwhile, at most one owner of the CANopen stack lives, and the claim is held exactly while
  one does.  While it lives, any valid creation is refused with EBUSY and leaves the process
  alone; with none, a valid creation succeeds when the allocations do, so no failure and no
  destruction leaks the claim.
\<close>

theorem stack_ownership_exclusive:
  assumes "storage_reachable sys" and "stack_config_ok c"
  shows "length (sys_owners sys) \<le> 1 \<and>
    (stack_claim (sys_process sys) \<longleftrightarrow> sys_owners sys \<noteq> []) \<and>
    (sys_owners sys \<noteq> [] \<longrightarrow> storage_create allocated co_new c (sys_process sys) =
       (outcome_failure (from_errno ''claim_canopen_stack'' (identity_context c) EBUSY), [],
        sys_process sys)) \<and>
    (sys_owners sys = [] \<longrightarrow>
       fst (co_new active_config) \<noteq> None \<longrightarrow>
       outcome_ok (fst (storage_create True co_new c (sys_process sys))))"
proof -
  have inv: "storage_inv sys"
    using assms(1) by (rule storage_reachable_inv)
  have "length (sys_owners sys) \<le> 1 \<and> (stack_claim (sys_process sys) \<longleftrightarrow> sys_owners sys \<noteq> [])"
    using inv by (simp add: storage_inv_def)
  then show ?thesis
    using storage_create_claimed [OF assms(2)] storage_create_free [OF assms(2)] by blast
qed

text \<open>
  C18: Every new owner, and every communication reset of a living owner, starts from the same
  dictionary, whatever the stack wrote before: the generated list without extensions, the
  generated values, and the receive configuration of the owner.  Seen through the dictionary's
  own entries it addresses the remote node's transmit PDOs, SDO server and heartbeat, and
  produces nothing: every transmit PDO and the heartbeat producer are off.
\<close>

theorem dictionary_reprogrammed:
  assumes "storage_reachable sys"
  shows "(outcome_value (fst (storage_create allocated co_new c (sys_process sys))) = Some s \<longrightarrow>
      (let p = snd (snd (storage_create allocated co_new c (sys_process sys)))
       in programmed c p \<and> receives_only c p)) \<and>
    (s \<in> set (sys_owners sys) \<longrightarrow>
      (let p = snd (prepare_communication_reset s (sys_process sys))
       in programmed (owner_config s) p \<and> receives_only (owner_config s) p))"
proof -
  have inv: "storage_inv sys"
    using assms by (rule storage_reachable_inv)
  then have src: "reset_source_ok (sys_process sys)"
    by (simp add: storage_inv_def)
  have "programmed c p' \<and> receives_only c p'"
    if "storage_create allocated co_new c (sys_process sys) = (r, calls, p')"
      and "outcome_value r = Some s" for r calls p'
    using that(1) src
    by (cases rule: storage_create_cases)
      (use that(2) programmed_receives_only in \<open>auto simp: owner_ok_def\<close>)
  moreover have "programmed (owner_config s) p \<and> receives_only (owner_config s) p"
    if "s \<in> set (sys_owners sys)" and "p = snd (prepare_communication_reset s (sys_process sys))" for p
    using that inv reset_programs [OF src] programmed_receives_only
    by (auto simp: storage_inv_def owner_ok_def prepare_communication_reset_def)
  ultimately show ?thesis
    by (auto simp: Let_def prod_eq_iff split_def)
qed

section \<open>Example\<close>

definition example_co_new :: "co_config \<Rightarrow> nat option \<times> u32" where
  "example_co_new c = (if CNT_RPDO c = 4 then (Some 0x1000, 4096) else (None, 0))"

definition example_created :: "stack_owner outcome \<times> upstream_call list \<times> od_process" where
  "example_created = storage_create True example_co_new example_config process_start"

definition example_owned :: storage_system where
  "example_owned = \<lparr>sys_process = snd (snd example_created),
     sys_owners = [the (outcome_value (fst example_created))]\<rparr>"

lemma example_created_value:
  "fst example_created = outcome_success \<lparr>owner_config = example_config,
     upstream_config = configure_active_counts zero_co_config, owner_stack = Some 0x1000,
     heap_memory_used = 4096\<rparr>"
  using validate_status example_config_ok
  by (simp add: example_created_def storage_create_def Let_def process_start_def
      example_co_new_def configure_active_counts_def)

lemma example_owned_reachable: "storage_reachable example_owned"
proof -
  obtain r calls p' where c: "storage_create True example_co_new example_config process_start =
      (r, calls, p')"
    by (metis prod_cases3)
  then have "example_owned = \<lparr>sys_process = p',
      sys_owners = (case outcome_value r of None \<Rightarrow> [] | Some s \<Rightarrow> s # [])\<rparr>"
    using example_created_value by (simp add: example_owned_def example_created_def)
  with storage_step.create [OF c, of "[]"] show ?thesis
    by (simp add: storage_reachable_def storage_start_def r_into_rtranclp)
qed

theorem stack_ownership_exclusive_witness:
  "stack_claim (sys_process example_owned) \<and>
   fst (storage_create True example_co_new example_config (sys_process example_owned)) =
     outcome_failure (from_errno ''claim_canopen_stack''
       (identity_context example_config) EBUSY) \<and>
   outcome_ok (fst (storage_create True example_co_new example_config process_start))"
proof -
  have "sys_owners example_owned \<noteq> []"
    by (simp add: example_owned_def)
  moreover have "storage_reachable storage_start"
    by (simp add: storage_reachable_def)
  moreover have "fst (example_co_new active_config) \<noteq> None"
    by (simp add: example_co_new_def active_config_def configure_active_counts_def)
  moreover have "sys_owners storage_start = []" "sys_process storage_start = process_start"
    by (simp_all add: storage_start_def)
  ultimately show ?thesis
    using stack_ownership_exclusive [OF example_owned_reachable example_config_ok,
        where co_new = example_co_new and allocated = True]
      stack_ownership_exclusive [where sys = storage_start and co_new = example_co_new
        and c = example_config] example_config_ok
    by auto
qed

theorem dictionary_reprogrammed_witness:
  "receives_only example_config (snd (snd example_created)) \<and>
   receives_only example_config (snd (prepare_communication_reset
     (the (outcome_value (fst example_created))) (sys_process example_owned)))"
proof -
  let ?s = "the (outcome_value (fst example_created))"
  have start: "storage_reachable storage_start"
    by (simp add: storage_reachable_def)
  have s: "outcome_value (fst example_created) = Some ?s" "owner_config ?s = example_config"
    by (simp_all add: example_created_value)
  have "receives_only example_config (snd (snd example_created))"
    using dictionary_reprogrammed [OF start, where allocated = True and co_new = example_co_new
        and c = example_config and s = ?s] s(1)
    by (simp add: example_created_def storage_start_def Let_def)
  moreover have "?s \<in> set (sys_owners example_owned)"
    by (simp add: example_owned_def)
  ultimately show ?thesis
    using dictionary_reprogrammed [OF example_owned_reachable, where s = ?s] s(2)
    by (simp add: Let_def)
qed

end
