(* ===== verification/Platform_Can.thy ===== *)
theory Platform_Can
  imports Platform_Error RC_Text
begin

text \<open>
  \<open>src/platform/linux/can/classic_frame.{hpp,cpp}\<close>: the frames of the program and of the kernel,
  and the conversion between them.  The lemmas show which frames can be sent, and that the two
  conversions are inverse on them up to the bytes that a frame does not carry.
\<close>

section \<open>Frames\<close>

text \<open>The flag and mask constants of \<open>linux/can.h\<close>.\<close>

definition CAN_EFF_FLAG :: u32 where "CAN_EFF_FLAG = 0x80000000"
definition CAN_RTR_FLAG :: u32 where "CAN_RTR_FLAG = 0x40000000"
definition CAN_ERR_FLAG :: u32 where "CAN_ERR_FLAG = 0x20000000"
definition CAN_SFF_MASK :: u32 where "CAN_SFF_MASK = 0x7FF"
definition CAN_EFF_MASK :: u32 where "CAN_EFF_MASK = 0x1FFFFFFF"

text \<open>\<open>struct can_frame\<close> of the kernel; \<open>can_dlc\<close> is another name of its length byte.\<close>

record can_frame =
  can_id :: u32
  can_len :: u8
  can_len8_dlc :: u8
  can_data :: "u8 list"

record classic_can_frame =
  raw_can_id :: u32
  payload_length :: u8
  len8_dlc :: u8
  frame_data :: "u8 list"

definition invalid_frame :: "string \<Rightarrow> classic_can_frame \<Rightarrow> string \<Rightarrow> status" where
  "invalid_frame op f detail =
     from_errno op (''raw_can_id='' @ decimal (unat (raw_can_id f)) @ '' '' @ detail) EINVAL"

definition validate_representation :: "string \<Rightarrow> classic_can_frame \<Rightarrow> status" where
  "validate_representation op f =
     (if payload_length f > 8 then invalid_frame op f ''payload length exceeds 8''
      else if len8_dlc f \<noteq> 0 \<and> (payload_length f \<noteq> 8 \<or> len8_dlc f \<le> 8 \<or> len8_dlc f > 15)
      then invalid_frame op f ''invalid len8_dlc''
      else let is_extended = raw_can_id f AND CAN_EFF_FLAG \<noteq> 0;
               is_remote = raw_can_id f AND CAN_RTR_FLAG \<noteq> 0;
               is_error = raw_can_id f AND CAN_ERR_FLAG \<noteq> 0
        in if is_error \<and> (is_extended \<or> is_remote)
           then invalid_frame op f ''error frame has EFF/RTR flag''
           else if \<not> is_error \<and> \<not> is_extended \<and> raw_can_id f AND CAN_EFF_MASK > CAN_SFF_MASK
           then invalid_frame op f ''standard identifier exceeds 11 bits''
           else success_status)"

definition validate_transmit_frame :: "classic_can_frame \<Rightarrow> status" where
  "validate_transmit_frame f =
     (let representation = validate_representation ''validate_can_tx'' f in
      if \<not> status_ok representation then representation
      else if raw_can_id f AND CAN_ERR_FLAG \<noteq> 0
      then invalid_frame ''validate_can_tx'' f ''kernel error frame cannot be transmitted''
      else success_status)"

definition encode_classic_frame :: "classic_can_frame \<Rightarrow> can_frame outcome" where
  "encode_classic_frame f =
     (let validation = validate_transmit_frame f in
      if \<not> status_ok validation then outcome_failure validation
      else let n = unat (payload_length f) in
        outcome_success
          \<lparr>can_id = raw_can_id f, can_len = payload_length f, can_len8_dlc = len8_dlc f,
           can_data = (if raw_can_id f AND CAN_RTR_FLAG = 0
             then take n (frame_data f) @ replicate (8 - n) 0 else replicate 8 0)\<rparr>)"

definition decode_classic_frame :: "can_frame \<Rightarrow> classic_can_frame outcome" where
  "decode_classic_frame k =
     (let n = min (unat (can_len k)) 8;
          decoded = \<lparr>raw_can_id = can_id k, payload_length = can_len k, len8_dlc = can_len8_dlc k,
            frame_data = take n (can_data k) @ replicate (8 - n) 0\<rparr>;
          validation = validate_representation ''decode_can_frame'' decoded
      in if \<not> status_ok validation then outcome_failure validation else outcome_success decoded)"

section \<open>The conversions\<close>

text \<open>What can be represented, and what can be sent.\<close>

definition representable :: "u32 \<Rightarrow> u8 \<Rightarrow> u8 \<Rightarrow> bool" where
  "representable i len dlc \<longleftrightarrow>
     unat len \<le> 8 \<and> (dlc = 0 \<or> unat len = 8 \<and> unat dlc \<in> {9..15}) \<and>
     (if i AND CAN_ERR_FLAG \<noteq> 0 then i AND (CAN_EFF_FLAG OR CAN_RTR_FLAG) = 0
      else i AND CAN_EFF_FLAG \<noteq> 0 \<or> unat (i AND CAN_EFF_MASK) \<le> 0x7FF)"

text \<open>A frame carries its identifier, its lengths and, unless it is a request, its payload.\<close>

definition carried :: "u32 \<Rightarrow> u8 \<Rightarrow> u8 list \<Rightarrow> u8 list" where
  "carried i len bytes =
     (let n = (if i AND CAN_RTR_FLAG = 0 then unat len else 0) in take n bytes @ replicate (8 - n) 0)"

lemma word_and_or_zero: "(w AND (a OR b) = 0) = (w AND a = 0 \<and> w AND b = 0)" for w :: "'a::len word"
  by (auto simp: bit_eq_iff bit_simps)

lemma invalid_frame_status [simp]: "\<not> status_ok (invalid_frame op f detail)"
  by (simp add: invalid_frame_def EINVAL_def)

lemma validate_representation_ok:
  "status_ok (validate_representation op f) \<longleftrightarrow>
   representable (raw_can_id f) (payload_length f) (len8_dlc f)"
proof -
  have "payload_length f > 8 \<longleftrightarrow> \<not> unat (payload_length f) \<le> 8"
    by (simp add: word_less_nat_alt not_le)
  moreover have "payload_length f \<noteq> 8 \<longleftrightarrow> unat (payload_length f) \<noteq> 8"
    by (simp add: word_unat_eq_iff)
  moreover have "len8_dlc f \<le> 8 \<or> len8_dlc f > 15 \<longleftrightarrow> unat (len8_dlc f) \<notin> {9..15}"
    by (auto simp: word_less_nat_alt word_le_nat_alt)
  moreover have "raw_can_id f AND CAN_EFF_MASK > CAN_SFF_MASK \<longleftrightarrow>
      \<not> unat (raw_can_id f AND CAN_EFF_MASK) \<le> 0x7FF"
    by (simp add: word_less_nat_alt CAN_SFF_MASK_def not_le)
  ultimately show ?thesis
    by (auto simp: validate_representation_def representable_def Let_def word_and_or_zero)
qed

lemma validate_transmit_ok:
  "status_ok (validate_transmit_frame f) \<longleftrightarrow>
   representable (raw_can_id f) (payload_length f) (len8_dlc f) \<and> raw_can_id f AND CAN_ERR_FLAG = 0"
  by (simp add: validate_transmit_frame_def Let_def validate_representation_ok)

lemma decode_encoded:
  assumes "length (frame_data f) = 8" and "outcome_value (encode_classic_frame f) = Some e"
  shows "decode_classic_frame e =
    outcome_success (f\<lparr>frame_data := carried (raw_can_id f) (payload_length f) (frame_data f)\<rparr>)"
proof -
  from assms(2) have "representable (raw_can_id f) (payload_length f) (len8_dlc f)"
    and "e = \<lparr>can_id = raw_can_id f, can_len = payload_length f, can_len8_dlc = len8_dlc f,
      can_data = carried (raw_can_id f) (payload_length f) (frame_data f)\<rparr>"
    by (auto simp: encode_classic_frame_def Let_def validate_transmit_ok carried_def split: if_splits)
  then show ?thesis
    using assms(1)
    by (cases f) (simp add: decode_classic_frame_def Let_def validate_representation_ok,
        simp add: representable_def carried_def Let_def flip: replicate_add)
qed

text \<open>
  Exactly the well-formed frames that are not error frames can be encoded (at most 8 bytes, a
  raw length code 9 to 15 only with 8 bytes, an 11-bit identifier unless the extended flag is
  set).  Decoding an encoded frame gives the frame back with the bytes it does not carry zeroed;
  encoding a received frame that is not an error frame succeeds and gives the same kernel frame
  up to the same bytes; and every other received frame is refused, or is an error frame without
  the extended and remote flags.
\<close>

theorem classic_frame_roundtrip:
  assumes "length (frame_data f) = 8" and "length (can_data k) = 8"
  shows "(outcome_ok (encode_classic_frame f) \<longleftrightarrow>
       representable (raw_can_id f) (payload_length f) (len8_dlc f) \<and> raw_can_id f AND CAN_ERR_FLAG = 0) \<and>
     (\<forall>e. outcome_value (encode_classic_frame f) = Some e \<longrightarrow>
        decode_classic_frame e = outcome_success
          (f\<lparr>frame_data := carried (raw_can_id f) (payload_length f) (frame_data f)\<rparr>)) \<and>
     (outcome_ok (decode_classic_frame k) \<longleftrightarrow> representable (can_id k) (can_len k) (can_len8_dlc k)) \<and>
     (\<forall>d. outcome_value (decode_classic_frame k) = Some d \<longrightarrow>
        encode_classic_frame d =
          (if can_id k AND CAN_ERR_FLAG = 0
           then outcome_success (k\<lparr>can_data := carried (can_id k) (can_len k) (can_data k)\<rparr>)
           else outcome_failure (invalid_frame ''validate_can_tx'' d
             ''kernel error frame cannot be transmitted'')))"
proof (intro conjI allI impI)
  show "outcome_ok (encode_classic_frame f) \<longleftrightarrow>
      representable (raw_can_id f) (payload_length f) (len8_dlc f) \<and> raw_can_id f AND CAN_ERR_FLAG = 0"
    by (simp add: encode_classic_frame_def Let_def validate_transmit_ok)
  show "outcome_ok (decode_classic_frame k) \<longleftrightarrow> representable (can_id k) (can_len k) (can_len8_dlc k)"
    by (simp add: decode_classic_frame_def Let_def validate_representation_ok)
next
  fix e
  assume "outcome_value (encode_classic_frame f) = Some e"
  with assms(1) show "decode_classic_frame e = outcome_success
      (f\<lparr>frame_data := carried (raw_can_id f) (payload_length f) (frame_data f)\<rparr>)"
    by (rule decode_encoded)
next
  fix d
  assume "outcome_value (decode_classic_frame k) = Some d"
  then have ok: "representable (can_id k) (can_len k) (can_len8_dlc k)"
    and d: "d = \<lparr>raw_can_id = can_id k, payload_length = can_len k, len8_dlc = can_len8_dlc k,
      frame_data = take (unat (can_len k)) (can_data k) @ replicate (8 - unat (can_len k)) 0\<rparr>"
    by (auto simp: decode_classic_frame_def Let_def validate_representation_ok representable_def
        split: if_splits)
  show "encode_classic_frame d =
      (if can_id k AND CAN_ERR_FLAG = 0
       then outcome_success (k\<lparr>can_data := carried (can_id k) (can_len k) (can_data k)\<rparr>)
       else outcome_failure (invalid_frame ''validate_can_tx'' d
         ''kernel error frame cannot be transmitted''))"
    using ok assms(2)
    by (simp add: d encode_classic_frame_def validate_transmit_frame_def Let_def
        validate_representation_ok) (simp add: representable_def carried_def Let_def)
qed

theorem classic_frame_roundtrip_witness:
  "decode_classic_frame \<lparr>can_id = 0x181, can_len = 2, can_len8_dlc = 0, can_data = [1, 2, 0, 0, 0, 0, 0, 0]\<rparr> =
   outcome_success \<lparr>raw_can_id = 0x181, payload_length = 2, len8_dlc = 0,
     frame_data = [1, 2, 0, 0, 0, 0, 0, 0]\<rparr>"
proof -
  let ?f = "\<lparr>raw_can_id = 0x181, payload_length = 2, len8_dlc = 0, frame_data = [1, 2, 3, 4, 5, 6, 7, 8]\<rparr>"
  let ?k = "\<lparr>can_id = 0x181, can_len = 2, can_len8_dlc = 0, can_data = [1, 2, 0, 0, 0, 0, 0, 0]\<rparr>"
  have "outcome_value (encode_classic_frame ?f) = Some ?k"
    by code_simp
  moreover have "carried 0x181 2 [1, 2, 3, 4, 5, 6, 7, 8] = [1, 2, 0, 0, 0, 0, 0, 0]"
    by code_simp
  ultimately show ?thesis
    using classic_frame_roundtrip [of ?f ?k] by simp
qed

end
