(* ===== verification/Canopen_Observation.thy ===== *)
theory Canopen_Observation
  imports Canopen_Config Platform_Can
begin

text \<open>
  \<open>src/communication/canopen/observation.{hpp,cpp}\<close>: what the owner of the CAN socket knows of the
  remote node.  Every received frame is recorded raw; a record is current only within the
  transport lifetime and the remote boot it was received in, and a reader sees it as current only
  while it is fresh.  The mutex makes each operation atomic, so a history of the store is a
  sequence of operations.  The lemmas show what a reader may conclude from a current record, and
  that an accepted SDO response answers the last request.
\<close>

section \<open>Data\<close>

record observation_generation =
  og_transport :: u64
  og_boot :: u64

record raw_canopen_frame =
  rf_identifier :: u32
  rf_dlc :: u8
  rf_payload :: "u8 list"
  rf_received_at :: time_ns
  rf_generation :: observation_generation

record frame_observation =
  fo_present :: bool
  fo_current :: bool
  fo_raw :: raw_canopen_frame

datatype remote_nmt_state =
    Remote_initializing | Remote_stopped | Remote_operational | Remote_pre_operational
  | Remote_unknown

fun nmt_state_value :: "remote_nmt_state \<Rightarrow> u8" where
  "nmt_state_value Remote_initializing = 0x00"
| "nmt_state_value Remote_stopped = 0x04"
| "nmt_state_value Remote_operational = 0x05"
| "nmt_state_value Remote_pre_operational = 0x7F"
| "nmt_state_value Remote_unknown = 0xFF"

datatype sdo_outcome = Sdo_none | Sdo_expedited_upload | Sdo_abort

record sdo_observation =
  sdo_frame :: frame_observation
  sdo_outcome :: sdo_outcome
  sdo_request_generation :: u64
  sdo_attempt_generation :: u64
  sdo_index :: u16
  sdo_subindex :: u8
  sdo_data_length :: u8
  sdo_data :: "u8 list"
  sdo_abort_code :: u32

record nmt_observation =
  nmt_present :: bool
  nmt_current :: bool
  nmt_state :: remote_nmt_state
  nmt_raw :: raw_canopen_frame

record heartbeat_observation =
  hb_frame :: frame_observation

record emergency_observation =
  em_frame :: frame_observation
  em_error_code :: u16
  em_error_register :: u8
  em_error_bit :: u8
  em_info_code :: u32

record observation_snapshot =
  ob_version :: u64
  ob_generation :: observation_generation
  ob_boot_observed :: bool
  ob_boot :: frame_observation
  ob_nmt :: nmt_observation
  ob_heartbeat :: heartbeat_observation
  ob_emergency :: emergency_observation
  ob_sdo_result :: sdo_observation
  ob_sdo_rejected :: frame_observation
  ob_tpdo :: "frame_observation list"
  ob_malformed :: frame_observation
  ob_can_error :: frame_observation
  ob_malformed_count :: u64
  ob_future_timestamp_count :: u64
  ob_replay_count :: u64
  ob_sdo_rejection_count :: u64

record sdo_token =
  tk_active :: bool
  tk_generation :: observation_generation
  tk_request :: u64
  tk_attempt :: u64
  tk_index :: u16
  tk_subindex :: u8
  tk_expected_size :: u8

text \<open>The store is its published state (\<open>state_\<close>) with the private members added.\<close>

record observation_store = observation_snapshot +
  st_remote_node_id :: u8
  st_heartbeat_timeout :: int
  st_tpdo_timeout :: int
  st_tpdo_expected_dlc :: "u8 list"
  st_sdo_token :: sdo_token

definition no_generation :: observation_generation where
  "no_generation = \<lparr>og_transport = 0, og_boot = 0\<rparr>"

definition no_raw_frame :: raw_canopen_frame where
  "no_raw_frame = \<lparr>rf_identifier = 0, rf_dlc = 0, rf_payload = replicate 8 0, rf_received_at = 0,
     rf_generation = no_generation\<rparr>"

definition no_frame :: frame_observation where
  "no_frame = \<lparr>fo_present = False, fo_current = False, fo_raw = no_raw_frame\<rparr>"

definition no_sdo :: sdo_observation where
  "no_sdo = \<lparr>sdo_frame = no_frame, sdo_outcome = Sdo_none, sdo_request_generation = 0,
     sdo_attempt_generation = 0, sdo_index = 0, sdo_subindex = 0, sdo_data_length = 0,
     sdo_data = replicate 4 0, sdo_abort_code = 0\<rparr>"

definition no_nmt :: nmt_observation where
  "no_nmt = \<lparr>nmt_present = False, nmt_current = False, nmt_state = Remote_unknown,
     nmt_raw = no_raw_frame\<rparr>"

definition no_emergency :: emergency_observation where
  "no_emergency = \<lparr>em_frame = no_frame, em_error_code = 0, em_error_register = 0,
     em_error_bit = 0, em_info_code = 0\<rparr>"

definition no_token :: sdo_token where
  "no_token = \<lparr>tk_active = False, tk_generation = no_generation, tk_request = 0, tk_attempt = 0,
     tk_index = 0, tk_subindex = 0, tk_expected_size = 0\<rparr>"

definition observation_store_create :: "stack_config \<Rightarrow> observation_store" where
  "observation_store_create c =
     \<lparr>ob_version = 0, ob_generation = no_generation, ob_boot_observed = False, ob_boot = no_frame,
      ob_nmt = no_nmt, ob_heartbeat = \<lparr>hb_frame = no_frame\<rparr>, ob_emergency = no_emergency,
      ob_sdo_result = no_sdo, ob_sdo_rejected = no_frame, ob_tpdo = replicate 4 no_frame,
      ob_malformed = no_frame, ob_can_error = no_frame, ob_malformed_count = 0,
      ob_future_timestamp_count = 0, ob_replay_count = 0, ob_sdo_rejection_count = 0,
      st_remote_node_id = remote_node_id c, st_heartbeat_timeout = heartbeat_timeout c,
      st_tpdo_timeout = tpdo_timeout c, st_tpdo_expected_dlc = tpdo_expected_dlc c,
      st_sdo_token = no_token\<rparr>"

section \<open>Frames\<close>

definition standard_identifier :: "raw_canopen_frame \<Rightarrow> u32" where
  "standard_identifier f = rf_identifier f AND CAN_SFF_MASK"

definition valid_nmt_state :: "u8 \<Rightarrow> bool" where
  "valid_nmt_state v \<longleftrightarrow>
     v = nmt_state_value Remote_initializing \<or> v = nmt_state_value Remote_stopped \<or>
     v = nmt_state_value Remote_operational \<or> v = nmt_state_value Remote_pre_operational"

text \<open>The cast of a reviewed byte to \<open>RemoteNmtState\<close>.\<close>

definition nmt_state_of :: "u8 \<Rightarrow> remote_nmt_state" where
  "nmt_state_of v =
     (if v = nmt_state_value Remote_initializing then Remote_initializing
      else if v = nmt_state_value Remote_stopped then Remote_stopped
      else if v = nmt_state_value Remote_operational then Remote_operational
      else if v = nmt_state_value Remote_pre_operational then Remote_pre_operational
      else Remote_unknown)"

definition read_u16 :: "u8 list \<Rightarrow> nat \<Rightarrow> u16" where
  "read_u16 p off = ucast (p ! off) OR push_bit 8 (ucast (p ! (off + 1)))"

definition read_u32 :: "u8 list \<Rightarrow> nat \<Rightarrow> u32" where
  "read_u32 p off = ucast (p ! off) OR push_bit 8 (ucast (p ! (off + 1))) OR
     push_bit 16 (ucast (p ! (off + 2))) OR push_bit 24 (ucast (p ! (off + 3)))"

definition ms_ns :: "int \<Rightarrow> time_ns" where
  "ms_ns t = t * 1000000"

definition fresh :: "frame_observation \<Rightarrow> observation_generation \<Rightarrow> time_ns \<Rightarrow> int \<Rightarrow> bool" where
  "fresh ob gen now timeout \<longleftrightarrow>
     fo_present ob \<and> fo_current ob \<and> rf_generation (fo_raw ob) = gen \<and>
     rf_received_at (fo_raw ob) \<le> now \<and> now - rf_received_at (fo_raw ob) \<le> ms_ns timeout"

definition tpdo_bases :: "u32 list" where
  "tpdo_bases = [0x180, 0x280, 0x380, 0x480]"

definition tpdo_index :: "u32 \<Rightarrow> u8 \<Rightarrow> nat" where
  "tpdo_index identifier node = length (takeWhile (\<lambda>base. identifier \<noteq> base + ucast node) tpdo_bases)"

section \<open>Operations\<close>

definition observed :: "bool \<Rightarrow> raw_canopen_frame \<Rightarrow> frame_observation" where
  "observed current raw = \<lparr>fo_present = True, fo_current = current, fo_raw = raw\<rparr>"

definition outdated :: "frame_observation \<Rightarrow> frame_observation" where
  "outdated ob = ob\<lparr>fo_current := False\<rparr>"

definition bump_version :: "observation_store \<Rightarrow> observation_store" where
  "bump_version s = s\<lparr>ob_version := ob_version s + 1\<rparr>"

definition outdate_nmt :: "observation_store \<Rightarrow> observation_store" where
  "outdate_nmt s = s\<lparr>ob_nmt := (ob_nmt s)\<lparr>nmt_current := False\<rparr>\<rparr>"

definition outdate_heartbeat :: "observation_store \<Rightarrow> observation_store" where
  "outdate_heartbeat s =
     s\<lparr>ob_heartbeat := (ob_heartbeat s)\<lparr>hb_frame := outdated (hb_frame (ob_heartbeat s))\<rparr>\<rparr>"

definition outdate_emergency :: "observation_store \<Rightarrow> observation_store" where
  "outdate_emergency s =
     s\<lparr>ob_emergency := (ob_emergency s)\<lparr>em_frame := outdated (em_frame (ob_emergency s))\<rparr>\<rparr>"

definition outdate_sdo :: "observation_store \<Rightarrow> observation_store" where
  "outdate_sdo s =
     s\<lparr>ob_sdo_result := (ob_sdo_result s)\<lparr>sdo_frame := outdated (sdo_frame (ob_sdo_result s))\<rparr>\<rparr>"

definition drop_token :: "observation_store \<Rightarrow> observation_store" where
  "drop_token s = s\<lparr>st_sdo_token := (st_sdo_token s)\<lparr>tk_active := False\<rparr>\<rparr>"

definition outdate_tpdos :: "observation_store \<Rightarrow> observation_store" where
  "outdate_tpdos s = s\<lparr>ob_tpdo := map outdated (ob_tpdo s)\<rparr>"

definition invalidate_remote :: "observation_store \<Rightarrow> observation_store" where
  "invalidate_remote s =
     outdate_tpdos (drop_token (outdate_sdo (outdate_emergency (outdate_heartbeat (outdate_nmt
       (s\<lparr>ob_boot_observed := False, ob_boot := outdated (ob_boot s)\<rparr>))))))"

definition invalidate_heartbeat_dependents :: "observation_store \<Rightarrow> observation_store" where
  "invalidate_heartbeat_dependents s = outdate_tpdos (outdate_heartbeat (outdate_nmt s))"

definition invalidate_addressed :: "u32 \<Rightarrow> observation_store \<Rightarrow> observation_store" where
  "invalidate_addressed identifier s =
     (let node = st_remote_node_id s in
      if identifier = 0x700 + ucast node then invalidate_heartbeat_dependents s
      else if identifier = 0x080 + ucast node then outdate_emergency s
      else if identifier = 0x580 + ucast node then drop_token (outdate_sdo s)
      else let i = tpdo_index identifier node in
        if i < length (ob_tpdo s) then s\<lparr>ob_tpdo := (ob_tpdo s)[i := outdated (ob_tpdo s ! i)]\<rparr>
        else s)"

definition record_malformed :: "raw_canopen_frame \<Rightarrow> observation_store \<Rightarrow> observation_store" where
  "record_malformed f s =
     invalidate_addressed (standard_identifier f)
       (s\<lparr>ob_malformed := observed False f, ob_malformed_count := ob_malformed_count s + 1\<rparr>)"

definition begin_transport :: "observation_store \<Rightarrow> observation_store" where
  "begin_transport s =
     bump_version (invalidate_remote
       (s\<lparr>ob_generation := \<lparr>og_transport = og_transport (ob_generation s) + 1, og_boot = 0\<rparr>\<rparr>))"

definition begin_sdo_upload ::
  "u64 \<Rightarrow> u64 \<Rightarrow> u16 \<Rightarrow> u8 \<Rightarrow> u8 \<Rightarrow> observation_store \<Rightarrow> observation_store" where
  "begin_sdo_upload request attempt index subindex expected_size s =
     bump_version ((outdate_sdo s)\<lparr>st_sdo_token :=
       \<lparr>tk_active = request \<noteq> 0 \<and> attempt \<noteq> 0 \<and> expected_size \<ge> 1 \<and> expected_size \<le> 4,
        tk_generation = ob_generation s, tk_request = request, tk_attempt = attempt,
        tk_index = index, tk_subindex = subindex, tk_expected_size = expected_size\<rparr>\<rparr>)"

definition cancel_sdo_upload :: "observation_store \<Rightarrow> observation_store" where
  "cancel_sdo_upload s =
     (if tk_active (st_sdo_token s) then bump_version (outdate_sdo (drop_token s)) else s)"

definition reject_sdo :: "raw_canopen_frame \<Rightarrow> observation_store \<Rightarrow> observation_store" where
  "reject_sdo f s =
     bump_version (s\<lparr>ob_sdo_rejected := observed False f,
       ob_sdo_rejection_count := ob_sdo_rejection_count s + 1\<rparr>)"

definition expected_command :: "u8 \<Rightarrow> u8" where
  "expected_command n = 0x43 OR push_bit 2 (4 - n)"

definition accepted_sdo :: "sdo_token \<Rightarrow> raw_canopen_frame \<Rightarrow> sdo_observation" where
  "accepted_sdo t f =
     (let abort = rf_payload f ! 0 = 0x80; len = (if abort then 0 else tk_expected_size t) in
      \<lparr>sdo_frame = observed True f,
       sdo_outcome = (if abort then Sdo_abort else Sdo_expedited_upload),
       sdo_request_generation = tk_request t, sdo_attempt_generation = tk_attempt t,
       sdo_index = tk_index t, sdo_subindex = tk_subindex t, sdo_data_length = len,
       sdo_data = take (unat len) (drop 4 (rf_payload f)) @ replicate (4 - unat len) 0,
       sdo_abort_code = (if abort then read_u32 (rf_payload f) 4 else 0)\<rparr>)"

definition ingest_sdo :: "raw_canopen_frame \<Rightarrow> observation_store \<Rightarrow> observation_store" where
  "ingest_sdo f s =
     (let t = st_sdo_token s; p = rf_payload f in
      if rf_dlc f \<noteq> 8 \<or> \<not> tk_active t \<or> tk_generation t \<noteq> ob_generation s \<or>
         p ! 1 \<noteq> ucast (tk_index t) \<or> p ! 2 \<noteq> ucast (drop_bit 8 (tk_index t)) \<or>
         p ! 3 \<noteq> tk_subindex t
      then reject_sdo f s
      else if p ! 0 \<noteq> 0x80 \<and> p ! 0 \<noteq> expected_command (tk_expected_size t)
      then reject_sdo f s
      else bump_version (drop_token (s\<lparr>ob_sdo_result := accepted_sdo t f\<rparr>)))"

definition ingest_heartbeat :: "raw_canopen_frame \<Rightarrow> observation_store \<Rightarrow> observation_store" where
  "ingest_heartbeat f s =
     (if rf_dlc f \<noteq> 1 \<or> \<not> valid_nmt_state (rf_payload f ! 0)
      then bump_version (record_malformed f s)
      else let state = nmt_state_of (rf_payload f ! 0) in
        if state = Remote_initializing
        then let gen = (ob_generation s)\<lparr>og_boot := og_boot (ob_generation s) + 1\<rparr>;
                 f = f\<lparr>rf_generation := gen\<rparr>;
                 s = invalidate_remote (s\<lparr>ob_generation := gen\<rparr>)
             in bump_version (s\<lparr>ob_boot_observed := True, ob_boot := observed True f,
                  ob_nmt := \<lparr>nmt_present = True, nmt_current = True, nmt_state = state, nmt_raw = f\<rparr>\<rparr>)
        else if \<not> ob_boot_observed s
        then bump_version (s\<lparr>ob_heartbeat := (ob_heartbeat s)\<lparr>hb_frame := observed False f\<rparr>\<rparr>)
        else let hb = hb_frame (ob_heartbeat s) in
          if fo_present hb \<and> rf_received_at f < rf_received_at (fo_raw hb)
          then bump_version (s\<lparr>ob_replay_count := ob_replay_count s + 1\<rparr>)
          else let s = (if fo_current hb \<and>
                          rf_received_at f - rf_received_at (fo_raw hb) > ms_ns (st_heartbeat_timeout s)
                        then outdate_tpdos s else s)
            in bump_version (s\<lparr>ob_heartbeat := (ob_heartbeat s)\<lparr>hb_frame := observed True f\<rparr>,
                 ob_nmt := \<lparr>nmt_present = True, nmt_current = True, nmt_state = state, nmt_raw = f\<rparr>\<rparr>))"

definition ingest_tpdo :: "nat \<Rightarrow> raw_canopen_frame \<Rightarrow> observation_store \<Rightarrow> observation_store" where
  "ingest_tpdo i f s =
     (if rf_dlc f \<noteq> st_tpdo_expected_dlc s ! i then bump_version (record_malformed f s)
      else let tpdo = ob_tpdo s ! i in
        if fo_present tpdo \<and> rf_received_at f < rf_received_at (fo_raw tpdo)
        then bump_version (s\<lparr>ob_replay_count := ob_replay_count s + 1\<rparr>)
        else bump_version (s\<lparr>ob_tpdo := (ob_tpdo s)[i := observed (ob_boot_observed s) f]\<rparr>))"

definition ingest_emergency :: "raw_canopen_frame \<Rightarrow> observation_store \<Rightarrow> observation_store" where
  "ingest_emergency f s =
     (if rf_dlc f \<noteq> 8 then bump_version (record_malformed f s)
      else let p = rf_payload f in
        bump_version (s\<lparr>ob_emergency :=
          \<lparr>em_frame = observed (ob_boot_observed s) f, em_error_code = read_u16 p 0,
           em_error_register = p ! 2, em_error_bit = p ! 3, em_info_code = read_u32 p 4\<rparr>\<rparr>))"

definition ingest :: "raw_canopen_frame \<Rightarrow> time_ns \<Rightarrow> observation_store \<Rightarrow> observation_store" where
  "ingest f now s =
     (if rf_generation f \<noteq> ob_generation s
      then bump_version (s\<lparr>ob_replay_count := ob_replay_count s + 1\<rparr>)
      else if rf_received_at f > now
      then bump_version (record_malformed f
        (s\<lparr>ob_future_timestamp_count := ob_future_timestamp_count s + 1\<rparr>))
      else if rf_identifier f AND CAN_ERR_FLAG \<noteq> 0
      then bump_version (invalidate_remote (s\<lparr>ob_can_error := observed False f,
        ob_generation := \<lparr>og_transport = og_transport (ob_generation s) + 1, og_boot = 0\<rparr>\<rparr>))
      else if rf_identifier f AND (CAN_EFF_FLAG OR CAN_RTR_FLAG) \<noteq> 0 \<or>
        unat (rf_dlc f) > length (rf_payload f)
      then bump_version (record_malformed f s)
      else let identifier = standard_identifier f; node = st_remote_node_id s in
        if identifier = 0x580 + ucast node then ingest_sdo f s
        else if identifier = 0x700 + ucast node then ingest_heartbeat f s
        else let i = tpdo_index identifier node in
          if i < length (ob_tpdo s) then ingest_tpdo i f s
          else if identifier = 0x080 + ucast node then ingest_emergency f s
          else s)"

definition nmt_as_frame :: "nmt_observation \<Rightarrow> frame_observation" where
  "nmt_as_frame n = \<lparr>fo_present = nmt_present n, fo_current = nmt_current n, fo_raw = nmt_raw n\<rparr>"

text \<open>The three tests of \<open>advance_time\<close>, in order; the last reads the heartbeat the second left.\<close>

definition advance_nmt :: "time_ns \<Rightarrow> observation_store \<Rightarrow> bool \<times> observation_store" where
  "advance_nmt now s =
     (if nmt_current (ob_nmt s) \<and>
        \<not> fresh (nmt_as_frame (ob_nmt s)) (ob_generation s) now (st_heartbeat_timeout s)
      then (True, outdate_nmt s) else (False, s))"

definition advance_heartbeat :: "time_ns \<Rightarrow> observation_store \<Rightarrow> bool \<times> observation_store" where
  "advance_heartbeat now s =
     (if fo_current (hb_frame (ob_heartbeat s)) \<and>
        \<not> fresh (hb_frame (ob_heartbeat s)) (ob_generation s) now (st_heartbeat_timeout s)
      then (True, outdate_heartbeat s) else (False, s))"

definition tpdo_expired :: "time_ns \<Rightarrow> observation_store \<Rightarrow> frame_observation \<Rightarrow> bool" where
  "tpdo_expired now s t \<longleftrightarrow>
     fo_current t \<and> (\<not> fo_current (hb_frame (ob_heartbeat s)) \<or>
       \<not> fresh t (ob_generation s) now (st_tpdo_timeout s))"

definition advance_tpdos :: "time_ns \<Rightarrow> observation_store \<Rightarrow> bool \<times> observation_store" where
  "advance_tpdos now s =
     (list_ex (tpdo_expired now s) (ob_tpdo s),
      s\<lparr>ob_tpdo := map (\<lambda>t. if tpdo_expired now s t then outdated t else t) (ob_tpdo s)\<rparr>)"

definition advance_time :: "time_ns \<Rightarrow> observation_store \<Rightarrow> observation_store" where
  "advance_time now s =
     (let (c1, s1) = advance_nmt now s; (c2, s2) = advance_heartbeat now s1;
          (c3, s3) = advance_tpdos now s2
      in if c1 \<or> c2 \<or> c3 then bump_version s3 else s3)"

text \<open>\<open>boot\<close>, \<open>emergency\<close> and \<open>sdo_result\<close> do not expire; a reader sees them as current within their
  generation.\<close>

definition still_valid :: "frame_observation \<Rightarrow> observation_generation \<Rightarrow> time_ns \<Rightarrow> bool" where
  "still_valid ob gen now \<longleftrightarrow>
     fo_current ob \<and> rf_generation (fo_raw ob) = gen \<and> rf_received_at (fo_raw ob) \<le> now"

definition take_snapshot :: "time_ns \<Rightarrow> observation_store \<Rightarrow> observation_snapshot" where
  "take_snapshot now st =
     (let s = observation_snapshot.truncate st; gen = ob_generation s;
          boot = (ob_boot s)\<lparr>fo_current := still_valid (ob_boot s) gen now\<rparr>;
          hb = hb_frame (ob_heartbeat s);
          heartbeat_fresh = fresh hb gen now (st_heartbeat_timeout st);
          nmt = (ob_nmt s)\<lparr>nmt_current :=
            fresh (nmt_as_frame (ob_nmt s)) gen now (st_heartbeat_timeout st)\<rparr>;
          tpdo = (if \<not> heartbeat_fresh then map outdated (ob_tpdo s)
                  else map (\<lambda>t. t\<lparr>fo_current := fresh t gen now (st_tpdo_timeout st)\<rparr>) (ob_tpdo s));
          em = em_frame (ob_emergency s); sdo = sdo_frame (ob_sdo_result s)
      in s\<lparr>ob_boot := boot,
           ob_heartbeat := (ob_heartbeat s)\<lparr>hb_frame := hb\<lparr>fo_current := heartbeat_fresh\<rparr>\<rparr>,
           ob_nmt := nmt, ob_tpdo := tpdo,
           ob_emergency := (ob_emergency s)\<lparr>em_frame := em\<lparr>fo_current := still_valid em gen now\<rparr>\<rparr>,
           ob_sdo_result := (ob_sdo_result s)\<lparr>sdo_frame := sdo\<lparr>fo_current := still_valid sdo gen now\<rparr>\<rparr>\<rparr>)"

section \<open>Histories\<close>

datatype store_event =
    Begin_transport
  | Begin_sdo_upload u64 u64 u16 u8 u8
  | Cancel_sdo_upload
  | Ingest raw_canopen_frame time_ns
  | Advance_time time_ns

fun apply_event :: "store_event \<Rightarrow> observation_store \<Rightarrow> observation_store" where
  "apply_event Begin_transport s = begin_transport s"
| "apply_event (Begin_sdo_upload r a i si n) s = begin_sdo_upload r a i si n s"
| "apply_event Cancel_sdo_upload s = cancel_sdo_upload s"
| "apply_event (Ingest f now) s = ingest f now s"
| "apply_event (Advance_time now) s = advance_time now s"

text \<open>The store after a history, given newest first.\<close>

primrec store_after :: "stack_config \<Rightarrow> store_event list \<Rightarrow> observation_store" where
  "store_after c [] = observation_store_create c"
| "store_after c (e # past) = apply_event e (store_after c past)"

section \<open>The invariant of the store\<close>

definition standard_frame :: "u8 \<Rightarrow> u32 \<Rightarrow> raw_canopen_frame \<Rightarrow> bool" where
  "standard_frame node base f \<longleftrightarrow>
     rf_identifier f AND CAN_ERR_FLAG = 0 \<and> rf_identifier f AND (CAN_EFF_FLAG OR CAN_RTR_FLAG) = 0 \<and>
     standard_identifier f = base + ucast node"

definition live :: "observation_generation \<Rightarrow> bool \<Rightarrow> frame_observation \<Rightarrow> bool" where
  "live gen booted ob \<longleftrightarrow> fo_present ob \<and> rf_generation (fo_raw ob) = gen \<and> booted"

definition boot_inv :: "observation_generation \<Rightarrow> bool \<Rightarrow> u8 \<Rightarrow> frame_observation \<Rightarrow> bool" where
  "boot_inv gen booted node ob \<longleftrightarrow>
     (fo_current ob \<longrightarrow> live gen booted ob \<and> standard_frame node 0x700 (fo_raw ob) \<and>
        rf_dlc (fo_raw ob) = 1 \<and> rf_payload (fo_raw ob) ! 0 = 0)"

definition nmt_inv :: "observation_generation \<Rightarrow> bool \<Rightarrow> u8 \<Rightarrow> nmt_observation \<Rightarrow> bool" where
  "nmt_inv gen booted node n \<longleftrightarrow>
     (nmt_current n \<longrightarrow> live gen booted (nmt_as_frame n) \<and> standard_frame node 0x700 (nmt_raw n) \<and>
        rf_dlc (nmt_raw n) = 1 \<and> rf_payload (nmt_raw n) ! 0 = nmt_state_value (nmt_state n) \<and>
        nmt_state n \<noteq> Remote_unknown)"

definition heartbeat_inv :: "nmt_observation \<Rightarrow> frame_observation \<Rightarrow> bool" where
  "heartbeat_inv n ob \<longleftrightarrow>
     (fo_current ob \<longrightarrow> fo_present ob \<and> nmt_current n \<and> nmt_raw n = fo_raw ob \<and>
        nmt_state n \<noteq> Remote_initializing)"

definition tpdo_inv :: "observation_generation \<Rightarrow> bool \<Rightarrow> u8 \<Rightarrow> u8 list \<Rightarrow> frame_observation list \<Rightarrow> bool" where
  "tpdo_inv gen booted node dlcs ts \<longleftrightarrow>
     length ts = 4 \<and>
     (\<forall>i<4. fo_current (ts ! i) \<longrightarrow> live gen booted (ts ! i) \<and>
        standard_frame node (tpdo_bases ! i) (fo_raw (ts ! i)) \<and> rf_dlc (fo_raw (ts ! i)) = dlcs ! i)"

definition emergency_inv :: "observation_generation \<Rightarrow> bool \<Rightarrow> u8 \<Rightarrow> emergency_observation \<Rightarrow> bool" where
  "emergency_inv gen booted node e \<longleftrightarrow>
     (fo_current (em_frame e) \<longrightarrow>
        (let f = fo_raw (em_frame e); p = rf_payload f in
         live gen booted (em_frame e) \<and> standard_frame node 0x080 f \<and> rf_dlc f = 8 \<and>
         em_error_code e = read_u16 p 0 \<and> em_error_register e = p ! 2 \<and> em_error_bit e = p ! 3 \<and>
         em_info_code e = read_u32 p 4))"

definition sdo_inv :: "observation_generation \<Rightarrow> u8 \<Rightarrow> sdo_token \<Rightarrow> sdo_observation \<Rightarrow> bool" where
  "sdo_inv gen node t r \<longleftrightarrow>
     (tk_active t \<longrightarrow> tk_generation t = gen \<and> \<not> fo_current (sdo_frame r)) \<and>
     (fo_current (sdo_frame r) \<longrightarrow> live gen True (sdo_frame r) \<and>
        standard_frame node 0x580 (fo_raw (sdo_frame r)) \<and> rf_dlc (fo_raw (sdo_frame r)) = 8)"

definition store_inv :: "observation_store \<Rightarrow> bool" where
  "store_inv s \<longleftrightarrow>
     (let gen = ob_generation s; booted = ob_boot_observed s; node = st_remote_node_id s in
      boot_inv gen booted node (ob_boot s) \<and> nmt_inv gen booted node (ob_nmt s) \<and>
      heartbeat_inv (ob_nmt s) (hb_frame (ob_heartbeat s)) \<and>
      tpdo_inv gen booted node (st_tpdo_expected_dlc s) (ob_tpdo s) \<and>
      emergency_inv gen booted node (ob_emergency s) \<and>
      sdo_inv gen node (st_sdo_token s) (ob_sdo_result s))"

lemmas slot_inv_defs = boot_inv_def nmt_inv_def heartbeat_inv_def tpdo_inv_def emergency_inv_def
  sdo_inv_def live_def

lemma outdated_simps [simp]:
  "\<not> fo_current (outdated ob)" "fo_present (outdated ob) = fo_present ob"
  "fo_raw (outdated ob) = fo_raw ob"
  by (simp_all add: outdated_def)

lemma observed_simps [simp]:
  "fo_current (observed c f) = c" "fo_present (observed c f)" "fo_raw (observed c f) = f"
  by (simp_all add: observed_def)

lemmas outdate_defs = outdate_nmt_def outdate_heartbeat_def outdate_emergency_def outdate_sdo_def
  outdate_tpdos_def drop_token_def bump_version_def

lemma tpdo_index_bound: "tpdo_index identifier node \<le> 4"
  using length_takeWhile_le [of _ tpdo_bases] by (auto simp: tpdo_index_def tpdo_bases_def)

lemma tpdo_index_base:
  "tpdo_index identifier node < 4 \<Longrightarrow> identifier = tpdo_bases ! tpdo_index identifier node + ucast node"
  using nth_length_takeWhile [of "\<lambda>base. identifier \<noteq> base + ucast node" tpdo_bases]
  by (simp add: tpdo_index_def) (simp add: tpdo_bases_def)

lemma store_inv_create: "store_inv (observation_store_create c)"
  by (simp add: store_inv_def observation_store_create_def slot_inv_defs no_frame_def no_nmt_def
      no_sdo_def no_emergency_def no_token_def)

lemma store_inv_bump [simp]: "store_inv (bump_version s) = store_inv s"
  by (simp add: store_inv_def bump_version_def)

lemma store_inv_counters [simp]:
  "store_inv (s\<lparr>ob_replay_count := n\<rparr>) = store_inv s"
  "store_inv (s\<lparr>ob_future_timestamp_count := n\<rparr>) = store_inv s"
  "store_inv (s\<lparr>ob_sdo_rejected := ob, ob_sdo_rejection_count := n\<rparr>) = store_inv s"
  "store_inv (s\<lparr>ob_malformed := ob, ob_malformed_count := n\<rparr>) = store_inv s"
  by (simp_all add: store_inv_def)

lemma tpdo_inv_update:
  "tpdo_inv gen booted node dlcs ts \<Longrightarrow>
   (fo_current ob \<Longrightarrow> live gen booted ob \<and> standard_frame node (tpdo_bases ! i) (fo_raw ob) \<and>
      rf_dlc (fo_raw ob) = dlcs ! i) \<Longrightarrow>
   tpdo_inv gen booted node dlcs (ts[i := ob])"
  unfolding tpdo_inv_def by (metis length_list_update nth_list_update_eq nth_list_update_neq)

lemma tpdo_inv_map:
  "tpdo_inv gen booted node dlcs ts \<Longrightarrow> (\<And>t. f t = t \<or> f t = outdated t) \<Longrightarrow>
   tpdo_inv gen booted node dlcs (map f ts)"
  unfolding tpdo_inv_def by (metis length_map nth_map outdated_simps(1))

lemma tpdo_inv_outdated:
  "length ts = 4 \<Longrightarrow> tpdo_inv gen booted node dlcs (map outdated ts)"
  by (simp add: tpdo_inv_def)

lemma store_inv_outdate_tpdos: "store_inv s \<Longrightarrow> store_inv (outdate_tpdos s)"
  by (auto simp: store_inv_def Let_def outdate_tpdos_def tpdo_inv_def)

lemma store_inv_outdate_emergency: "store_inv s \<Longrightarrow> store_inv (outdate_emergency s)"
  by (simp add: store_inv_def Let_def outdate_emergency_def emergency_inv_def)

lemma store_inv_outdate_sdo: "store_inv s \<Longrightarrow> store_inv (outdate_sdo s)"
  by (simp add: store_inv_def Let_def outdate_sdo_def sdo_inv_def)

lemma store_inv_drop_token: "store_inv s \<Longrightarrow> store_inv (drop_token s)"
  by (simp add: store_inv_def Let_def drop_token_def sdo_inv_def)

text \<open>What \<open>invalidate_remote\<close> leaves current: nothing, whatever the generation has become.\<close>

lemma store_inv_invalidate_remote:
  "length (ob_tpdo s) = 4 \<Longrightarrow> store_inv (invalidate_remote s)"
  by (simp add: store_inv_def Let_def invalidate_remote_def outdate_defs slot_inv_defs)

lemma store_inv_invalidate_heartbeat_dependents:
  "store_inv s \<Longrightarrow> store_inv (invalidate_heartbeat_dependents s)"
  by (simp add: store_inv_def Let_def invalidate_heartbeat_dependents_def outdate_defs
      nmt_inv_def heartbeat_inv_def tpdo_inv_def)

lemma store_inv_tpdos: "store_inv s \<Longrightarrow> length (ob_tpdo s) = 4"
  by (simp add: store_inv_def Let_def tpdo_inv_def)

lemma store_inv_invalidate_addressed: "store_inv s \<Longrightarrow> store_inv (invalidate_addressed i s)"
  unfolding invalidate_addressed_def Let_def
  by (auto intro: store_inv_invalidate_heartbeat_dependents store_inv_outdate_emergency
      store_inv_drop_token store_inv_outdate_sdo)
    (auto simp: store_inv_def Let_def intro: tpdo_inv_update)

lemma store_inv_record_malformed: "store_inv s \<Longrightarrow> store_inv (record_malformed f s)"
  by (simp add: record_malformed_def store_inv_invalidate_addressed)

lemma accepted_sdo_frame [simp]: "sdo_frame (accepted_sdo t f) = observed True f"
  by (simp add: accepted_sdo_def Let_def)

lemma store_inv_ingest_sdo:
  assumes "store_inv s" and "rf_generation f = ob_generation s"
    and "standard_frame (st_remote_node_id s) 0x580 f"
  shows "store_inv (ingest_sdo f s)"
proof -
  have "store_inv (reject_sdo f s)"
    using assms(1) by (simp add: reject_sdo_def)
  moreover have "store_inv (drop_token (s\<lparr>ob_sdo_result := accepted_sdo (st_sdo_token s) f\<rparr>))"
    if "rf_dlc f = 8"
    using assms that by (simp add: store_inv_def Let_def drop_token_def sdo_inv_def live_def)
  ultimately show ?thesis
    by (simp add: ingest_sdo_def Let_def)
qed

lemma nmt_state_of_value: "valid_nmt_state v \<Longrightarrow> nmt_state_value (nmt_state_of v) = v"
  by (auto simp: valid_nmt_state_def nmt_state_of_def)

lemma nmt_state_of_known: "valid_nmt_state v \<Longrightarrow> nmt_state_of v \<noteq> Remote_unknown"
  by (auto simp: valid_nmt_state_def nmt_state_of_def)

lemma nmt_state_of_initializing: "nmt_state_of v = Remote_initializing \<Longrightarrow> v = 0"
  by (auto simp: nmt_state_of_def split: if_splits)

lemma invalidate_remote_simps [simp]:
  "ob_generation (invalidate_remote s) = ob_generation s"
  "st_remote_node_id (invalidate_remote s) = st_remote_node_id s"
  by (simp_all add: invalidate_remote_def outdate_defs)

lemma store_inv_boot:
  assumes "length (ob_tpdo s) = 4" and "rf_generation f = ob_generation s"
    and "standard_frame (st_remote_node_id s) 0x700 f" and "rf_dlc f = 1" and "rf_payload f ! 0 = 0"
  shows "store_inv ((invalidate_remote s)\<lparr>ob_boot_observed := True, ob_boot := observed True f,
     ob_nmt := \<lparr>nmt_present = True, nmt_current = True, nmt_state = Remote_initializing, nmt_raw = f\<rparr>\<rparr>)"
  using assms
  by (simp add: store_inv_def Let_def invalidate_remote_def outdate_defs slot_inv_defs nmt_as_frame_def)

lemma store_inv_heartbeat:
  assumes "store_inv s" and "rf_generation f = ob_generation s" and "ob_boot_observed s"
    and "standard_frame (st_remote_node_id s) 0x700 f" and "rf_dlc f = 1"
    and "rf_payload f ! 0 = nmt_state_value st" and "st \<noteq> Remote_unknown" and "st \<noteq> Remote_initializing"
  shows "store_inv (s\<lparr>ob_heartbeat := (ob_heartbeat s)\<lparr>hb_frame := observed True f\<rparr>,
     ob_nmt := \<lparr>nmt_present = True, nmt_current = True, nmt_state = st, nmt_raw = f\<rparr>\<rparr>)"
  using assms
  by (simp add: store_inv_def Let_def nmt_inv_def heartbeat_inv_def live_def nmt_as_frame_def)

lemma standard_frame_generation [simp]:
  "standard_frame node base (f\<lparr>rf_generation := g\<rparr>) = standard_frame node base f"
  by (simp add: standard_frame_def standard_identifier_def)

lemma outdate_tpdos_simps [simp]:
  "ob_generation (outdate_tpdos s) = ob_generation s"
  "ob_boot_observed (outdate_tpdos s) = ob_boot_observed s"
  "st_remote_node_id (outdate_tpdos s) = st_remote_node_id s"
  by (simp_all add: outdate_tpdos_def)

lemma store_inv_ingest_heartbeat:
  assumes "store_inv s" and "rf_generation f = ob_generation s"
    and "standard_frame (st_remote_node_id s) 0x700 f"
  shows "store_inv (ingest_heartbeat f s)"
proof (cases "rf_dlc f \<noteq> 1 \<or> \<not> valid_nmt_state (rf_payload f ! 0)")
  case True
  then show ?thesis
    using assms(1) by (auto simp: ingest_heartbeat_def store_inv_record_malformed)
next
  case False
  let ?state = "nmt_state_of (rf_payload f ! 0)"
  have state: "rf_payload f ! 0 = nmt_state_value ?state" "?state \<noteq> Remote_unknown" "rf_dlc f = 1"
    using False by (simp_all add: nmt_state_of_value nmt_state_of_known)
  have len: "length (ob_tpdo s) = 4"
    using assms(1) by (rule store_inv_tpdos)
  show ?thesis
  proof (cases "?state = Remote_initializing")
    case True
    let ?gen = "(ob_generation s)\<lparr>og_boot := og_boot (ob_generation s) + 1\<rparr>"
    have "rf_payload f ! 0 = 0"
      using state(1) True by simp
    then have "store_inv ((invalidate_remote (s\<lparr>ob_generation := ?gen\<rparr>))\<lparr>ob_boot_observed := True,
        ob_boot := observed True (f\<lparr>rf_generation := ?gen\<rparr>),
        ob_nmt := \<lparr>nmt_present = True, nmt_current = True, nmt_state = Remote_initializing,
          nmt_raw = f\<lparr>rf_generation := ?gen\<rparr>\<rparr>\<rparr>)"
      using assms(3) state(3) len by (intro store_inv_boot) simp_all
    then show ?thesis
      using False True by (simp add: ingest_heartbeat_def Let_def)
  next
    case running: False
    have early: "store_inv (s\<lparr>ob_heartbeat := (ob_heartbeat s)\<lparr>hb_frame := observed False f\<rparr>\<rparr>)"
      using assms(1) by (simp add: store_inv_def Let_def heartbeat_inv_def)
    have "store_inv (s'\<lparr>ob_heartbeat := (ob_heartbeat s')\<lparr>hb_frame := observed True f\<rparr>,
        ob_nmt := \<lparr>nmt_present = True, nmt_current = True, nmt_state = ?state, nmt_raw = f\<rparr>\<rparr>)"
      if "ob_boot_observed s" "s' = s \<or> s' = outdate_tpdos s" for s'
      using that assms state running
      by (intro store_inv_heartbeat) (auto intro: store_inv_outdate_tpdos)
    with early show ?thesis
      using False running assms(1) by (auto simp: ingest_heartbeat_def Let_def)
  qed
qed

lemma store_inv_ingest_tpdo:
  assumes "store_inv s" and "rf_generation f = ob_generation s"
    and "standard_frame (st_remote_node_id s) (tpdo_bases ! i) f"
  shows "store_inv (ingest_tpdo i f s)"
proof -
  have "store_inv (s\<lparr>ob_tpdo := (ob_tpdo s)[i := observed (ob_boot_observed s) f]\<rparr>)"
    if "rf_dlc f = st_tpdo_expected_dlc s ! i"
    using assms that by (auto simp: store_inv_def Let_def live_def intro!: tpdo_inv_update)
  then show ?thesis
    using assms(1) by (simp add: ingest_tpdo_def Let_def store_inv_record_malformed)
qed

lemma store_inv_ingest_emergency:
  assumes "store_inv s" and "rf_generation f = ob_generation s"
    and "standard_frame (st_remote_node_id s) 0x080 f"
  shows "store_inv (ingest_emergency f s)"
  using assms
  by (simp add: ingest_emergency_def Let_def store_inv_record_malformed)
    (simp add: store_inv_def Let_def emergency_inv_def live_def)

lemma store_inv_ingest: "store_inv s \<Longrightarrow> store_inv (ingest f now s)"
proof -
  assume inv: "store_inv s"
  have len: "length (ob_tpdo s) = 4"
    using inv by (rule store_inv_tpdos)
  consider (replay) "rf_generation f \<noteq> ob_generation s"
    | (future) "rf_generation f = ob_generation s" "now < rf_received_at f"
    | (bus_error) "rf_generation f = ob_generation s" "\<not> now < rf_received_at f"
        "rf_identifier f AND CAN_ERR_FLAG \<noteq> 0"
    | (malformed) "rf_generation f = ob_generation s" "\<not> now < rf_received_at f"
        "rf_identifier f AND CAN_ERR_FLAG = 0"
        "rf_identifier f AND (CAN_EFF_FLAG OR CAN_RTR_FLAG) \<noteq> 0 \<or> unat (rf_dlc f) > length (rf_payload f)"
    | (standard) "rf_generation f = ob_generation s" "\<not> now < rf_received_at f"
        "rf_identifier f AND CAN_ERR_FLAG = 0"
        "rf_identifier f AND (CAN_EFF_FLAG OR CAN_RTR_FLAG) = 0" "\<not> unat (rf_dlc f) > length (rf_payload f)"
    by blast
  then show "store_inv (ingest f now s)"
  proof cases
    case replay
    then show ?thesis
      using inv by (simp add: ingest_def)
  next
    case future
    then show ?thesis
      using inv by (simp add: ingest_def store_inv_record_malformed)
  next
    case bus_error
    then show ?thesis
      using len by (simp add: ingest_def store_inv_invalidate_remote)
  next
    case malformed
    then show ?thesis
      using inv by (simp add: ingest_def store_inv_record_malformed)
  next
    case standard
    let ?id = "standard_identifier f" and ?node = "st_remote_node_id s"
    have frame: "standard_frame ?node base f" if "?id = base + ucast ?node" for base
      using standard that by (simp add: standard_frame_def)
    have tpdo: "store_inv (ingest_tpdo (tpdo_index ?id ?node) f s)" if "tpdo_index ?id ?node < 4"
      using tpdo_index_base [OF that] by (intro store_inv_ingest_tpdo inv standard(1) frame)
    have "ingest f now s =
        (if ?id = 0x580 + ucast ?node then ingest_sdo f s
         else if ?id = 0x700 + ucast ?node then ingest_heartbeat f s
         else if tpdo_index ?id ?node < 4 then ingest_tpdo (tpdo_index ?id ?node) f s
         else if ?id = 0x080 + ucast ?node then ingest_emergency f s else s)"
      using standard len by (simp add: ingest_def Let_def)
    then show ?thesis
      using inv tpdo store_inv_ingest_sdo [OF inv standard(1) frame]
        store_inv_ingest_heartbeat [OF inv standard(1) frame]
        store_inv_ingest_emergency [OF inv standard(1) frame]
      by (simp split: if_splits)
  qed
qed

lemma store_inv_begin_transport: "store_inv s \<Longrightarrow> store_inv (begin_transport s)"
  by (simp add: begin_transport_def store_inv_invalidate_remote store_inv_tpdos)

lemma store_inv_begin_sdo: "store_inv s \<Longrightarrow> store_inv (begin_sdo_upload r a i si n s)"
  unfolding begin_sdo_upload_def store_inv_bump
  by (simp add: store_inv_def Let_def outdate_sdo_def sdo_inv_def)

lemma store_inv_cancel: "store_inv s \<Longrightarrow> store_inv (cancel_sdo_upload s)"
  by (simp add: cancel_sdo_upload_def store_inv_drop_token store_inv_outdate_sdo)

lemma store_inv_advance_tpdos: "store_inv s \<Longrightarrow> store_inv (snd (advance_tpdos now s))"
  using tpdo_inv_map [of "ob_generation s" "ob_boot_observed s" "st_remote_node_id s"
      "st_tpdo_expected_dlc s" "ob_tpdo s" "\<lambda>t. if tpdo_expired now s t then outdated t else t"]
  by (simp add: store_inv_def Let_def advance_tpdos_def)

text \<open>The network state and the heartbeat expire together: a current heartbeat is its source.\<close>

lemma store_inv_advance_nmt_heartbeat:
  assumes inv: "store_inv s"
  shows "store_inv (snd (advance_heartbeat now (snd (advance_nmt now s))))"
proof (cases "nmt_current (ob_nmt s) \<and> \<not> fresh (nmt_as_frame (ob_nmt s)) (ob_generation s) now (st_heartbeat_timeout s)")
  case True
  then have stale: "fo_current (hb_frame (ob_heartbeat s)) \<Longrightarrow>
      \<not> fresh (hb_frame (ob_heartbeat s)) (ob_generation s) now (st_heartbeat_timeout s)"
    using inv by (auto simp: store_inv_def Let_def nmt_inv_def heartbeat_inv_def fresh_def nmt_as_frame_def live_def)
  from True stale inv show ?thesis
    by (cases "fo_current (hb_frame (ob_heartbeat s))")
      (simp_all add: store_inv_def Let_def advance_nmt_def advance_heartbeat_def outdate_nmt_def
        outdate_heartbeat_def nmt_inv_def heartbeat_inv_def)
next
  case False
  then show ?thesis using inv
    by (auto simp: store_inv_def Let_def advance_nmt_def advance_heartbeat_def outdate_heartbeat_def heartbeat_inv_def)
qed

lemma store_inv_advance: "store_inv s \<Longrightarrow> store_inv (advance_time now s)"
proof -
  assume inv: "store_inv s"
  let ?s1 = "snd (advance_nmt now s)"
  let ?s2 = "snd (advance_heartbeat now ?s1)"
  have "store_inv ?s2"
    by (rule store_inv_advance_nmt_heartbeat [OF inv])
  then have "store_inv (snd (advance_tpdos now ?s2))"
    by (rule store_inv_advance_tpdos)
  then show "store_inv (advance_time now s)"
    by (simp add: advance_time_def Let_def case_prod_beta)
qed

lemma store_inv_apply: "store_inv s \<Longrightarrow> store_inv (apply_event e s)"
  by (cases e) (simp_all add: store_inv_begin_transport store_inv_begin_sdo store_inv_cancel
      store_inv_ingest store_inv_advance)

lemma store_inv_after: "store_inv (store_after c events)"
  by (induction events) (simp_all add: store_inv_create store_inv_apply)

section \<open>What a reader may conclude\<close>

lemma snapshot_simps [simp]:
  "ob_generation (take_snapshot now s) = ob_generation s"
  "ob_boot_observed (take_snapshot now s) = ob_boot_observed s"
  "fo_raw (hb_frame (ob_heartbeat (take_snapshot now s))) = fo_raw (hb_frame (ob_heartbeat s))"
  "nmt_raw (ob_nmt (take_snapshot now s)) = nmt_raw (ob_nmt s)"
  "nmt_state (ob_nmt (take_snapshot now s)) = nmt_state (ob_nmt s)"
  "length (ob_tpdo (take_snapshot now s)) = length (ob_tpdo s)"
  by (simp_all add: take_snapshot_def Let_def observation_snapshot.defs)

lemma snapshot_heartbeat_current [simp]:
  "fo_current (hb_frame (ob_heartbeat (take_snapshot now s))) =
   fresh (hb_frame (ob_heartbeat s)) (ob_generation s) now (st_heartbeat_timeout s)"
  by (simp add: take_snapshot_def Let_def observation_snapshot.defs)

lemma snapshot_nmt_current [simp]:
  "nmt_current (ob_nmt (take_snapshot now s)) =
   fresh (nmt_as_frame (ob_nmt s)) (ob_generation s) now (st_heartbeat_timeout s)"
  by (simp add: take_snapshot_def Let_def observation_snapshot.defs)

lemma snapshot_tpdo [simp]:
  "i < length (ob_tpdo s) \<Longrightarrow>
   fo_current (ob_tpdo (take_snapshot now s) ! i) =
     (fresh (hb_frame (ob_heartbeat s)) (ob_generation s) now (st_heartbeat_timeout s) \<and>
      fresh (ob_tpdo s ! i) (ob_generation s) now (st_tpdo_timeout s))"
  "i < length (ob_tpdo s) \<Longrightarrow> fo_raw (ob_tpdo (take_snapshot now s) ! i) = fo_raw (ob_tpdo s ! i)"
  by (simp_all add: take_snapshot_def Let_def observation_snapshot.defs)

text \<open>The configuration copied at construction never changes.\<close>

definition store_setup :: "observation_store \<Rightarrow> u8 \<times> int \<times> int \<times> u8 list" where
  "store_setup s =
     (st_remote_node_id s, st_heartbeat_timeout s, st_tpdo_timeout s, st_tpdo_expected_dlc s)"

lemma store_setup_updates [simp]:
  "store_setup (s\<lparr>ob_version := version\<rparr>) = store_setup s"
  "store_setup (s\<lparr>ob_generation := gen\<rparr>) = store_setup s"
  "store_setup (s\<lparr>ob_boot_observed := b\<rparr>) = store_setup s"
  "store_setup (s\<lparr>ob_boot := ob\<rparr>) = store_setup s"
  "store_setup (s\<lparr>ob_nmt := nmt\<rparr>) = store_setup s"
  "store_setup (s\<lparr>ob_heartbeat := hb\<rparr>) = store_setup s"
  "store_setup (s\<lparr>ob_emergency := em\<rparr>) = store_setup s"
  "store_setup (s\<lparr>ob_sdo_result := sdo\<rparr>) = store_setup s"
  "store_setup (s\<lparr>ob_sdo_rejected := ob\<rparr>) = store_setup s"
  "store_setup (s\<lparr>ob_tpdo := ts\<rparr>) = store_setup s"
  "store_setup (s\<lparr>ob_malformed := ob\<rparr>) = store_setup s"
  "store_setup (s\<lparr>ob_can_error := ob\<rparr>) = store_setup s"
  "store_setup (s\<lparr>ob_malformed_count := n\<rparr>) = store_setup s"
  "store_setup (s\<lparr>ob_future_timestamp_count := n\<rparr>) = store_setup s"
  "store_setup (s\<lparr>ob_replay_count := n\<rparr>) = store_setup s"
  "store_setup (s\<lparr>ob_sdo_rejection_count := n\<rparr>) = store_setup s"
  "store_setup (s\<lparr>st_sdo_token := tk\<rparr>) = store_setup s"
  by (simp_all add: store_setup_def)

lemma store_setup_outdate [simp]:
  "store_setup (bump_version s) = store_setup s"
  "store_setup (outdate_nmt s) = store_setup s"
  "store_setup (outdate_heartbeat s) = store_setup s"
  "store_setup (outdate_emergency s) = store_setup s"
  "store_setup (outdate_sdo s) = store_setup s"
  "store_setup (outdate_tpdos s) = store_setup s"
  "store_setup (drop_token s) = store_setup s"
  "store_setup (invalidate_remote s) = store_setup s"
  "store_setup (invalidate_heartbeat_dependents s) = store_setup s"
  by (simp_all add: outdate_nmt_def outdate_heartbeat_def outdate_emergency_def outdate_sdo_def
      outdate_tpdos_def drop_token_def bump_version_def invalidate_remote_def
      invalidate_heartbeat_dependents_def)

lemma store_setup_malformed [simp]: "store_setup (record_malformed f s) = store_setup s"
  by (simp add: record_malformed_def invalidate_addressed_def Let_def)

lemma store_setup_ingest:
  "store_setup (ingest_sdo f s) = store_setup s"
  "store_setup (ingest_heartbeat f s) = store_setup s"
  "store_setup (ingest_tpdo i f s) = store_setup s"
  "store_setup (ingest_emergency f s) = store_setup s"
  by (simp_all add: ingest_sdo_def ingest_heartbeat_def ingest_tpdo_def ingest_emergency_def
      reject_sdo_def Let_def)

lemma store_setup_apply [simp]: "store_setup (apply_event e s) = store_setup s"
  by (cases e) (simp_all add: begin_transport_def begin_sdo_upload_def cancel_sdo_upload_def
      ingest_def store_setup_ingest advance_time_def advance_nmt_def advance_heartbeat_def
      advance_tpdos_def Let_def case_prod_beta)

lemma store_config:
  "store_setup (store_after c events) =
     (remote_node_id c, heartbeat_timeout c, tpdo_timeout c, tpdo_expected_dlc c)"
  by (induction events) (simp_all add: store_setup_def observation_store_create_def
      store_setup_apply [unfolded store_setup_def])

text \<open>The facts behind a current heartbeat or process data object.\<close>

lemma snapshot_current_facts:
  fixes now :: time_ns
  defines "v \<equiv> \<lambda>c events. take_snapshot now (store_after c events)"
  shows "(fo_current (hb_frame (ob_heartbeat (v c events))) \<longrightarrow>
       (let f = fo_raw (hb_frame (ob_heartbeat (v c events))) in
        ob_boot_observed (v c events) \<and> rf_generation f = ob_generation (v c events) \<and>
        standard_frame (remote_node_id c) 0x700 f \<and> rf_dlc f = 1 \<and>
        rf_received_at f \<le> now \<and> now - rf_received_at f \<le> ms_ns (heartbeat_timeout c) \<and>
        nmt_current (ob_nmt (v c events)) \<and> nmt_raw (ob_nmt (v c events)) = f \<and>
        rf_payload f ! 0 = nmt_state_value (nmt_state (ob_nmt (v c events))) \<and>
        nmt_state (ob_nmt (v c events)) \<notin> {Remote_initializing, Remote_unknown})) \<and>
     (\<forall>i<4. fo_current (ob_tpdo (v c events) ! i) \<longrightarrow>
       (let f = fo_raw (ob_tpdo (v c events) ! i) in
        fo_current (hb_frame (ob_heartbeat (v c events))) \<and>
        rf_generation f = ob_generation (v c events) \<and>
        standard_frame (remote_node_id c) (tpdo_bases ! i) f \<and> rf_dlc f = tpdo_expected_dlc c ! i \<and>
        rf_received_at f \<le> now \<and> now - rf_received_at f \<le> ms_ns (tpdo_timeout c)))"
proof -
  let ?s = "store_after c events"
  have inv: "store_inv ?s"
    by (rule store_inv_after)
  have len: "length (ob_tpdo ?s) = 4"
    by (rule store_inv_tpdos [OF inv])
  have cfg: "st_remote_node_id ?s = remote_node_id c" "st_heartbeat_timeout ?s = heartbeat_timeout c"
    "st_tpdo_timeout ?s = tpdo_timeout c" "st_tpdo_expected_dlc ?s = tpdo_expected_dlc c"
    using store_config [of c events] by (simp_all add: store_setup_def)
  have hb: "heartbeat_inv (ob_nmt ?s) (hb_frame (ob_heartbeat ?s))"
    and nmt: "nmt_inv (ob_generation ?s) (ob_boot_observed ?s) (remote_node_id c) (ob_nmt ?s)"
    and tpdo: "tpdo_inv (ob_generation ?s) (ob_boot_observed ?s) (remote_node_id c)
      (tpdo_expected_dlc c) (ob_tpdo ?s)"
    using inv cfg by (simp_all add: store_inv_def Let_def)
  show ?thesis
    using hb nmt tpdo len
    by (auto simp: v_def cfg Let_def fresh_def heartbeat_inv_def nmt_inv_def tpdo_inv_def live_def
        nmt_as_frame_def)
qed

text \<open>
  C5: What a reader may conclude from a current record, after any history of the store.  A
  heartbeat or process data object that a reader sees as current was received in the generation
  the reader sees, not in the future and within its timeout, from the remote node (a standard
  frame with its identifier and the expected length), after a boot-up of that node was observed;
  process data are current only together with the heartbeat, and a current heartbeat comes with
  the network state of the same frame.
\<close>

theorem snapshot_current_is_fresh:
  fixes now :: time_ns
  defines "v \<equiv> \<lambda>c events. take_snapshot now (store_after c events)"
  shows "(fo_current (hb_frame (ob_heartbeat (v c events))) \<longrightarrow>
       (let f = fo_raw (hb_frame (ob_heartbeat (v c events))) in
        ob_boot_observed (v c events) \<and> rf_generation f = ob_generation (v c events) \<and>
        standard_frame (remote_node_id c) 0x700 f \<and> rf_dlc f = 1 \<and>
        rf_received_at f \<le> now \<and> now - rf_received_at f \<le> ms_ns (heartbeat_timeout c) \<and>
        nmt_current (ob_nmt (v c events)) \<and> nmt_raw (ob_nmt (v c events)) = f \<and>
        rf_payload f ! 0 = nmt_state_value (nmt_state (ob_nmt (v c events))) \<and>
        nmt_state (ob_nmt (v c events)) \<notin> {Remote_initializing, Remote_unknown})) \<and>
     (\<forall>i<4. fo_current (ob_tpdo (v c events) ! i) \<longrightarrow>
       (let f = fo_raw (ob_tpdo (v c events) ! i) in
        fo_current (hb_frame (ob_heartbeat (v c events))) \<and>
        rf_generation f = ob_generation (v c events) \<and>
        standard_frame (remote_node_id c) (tpdo_bases ! i) f \<and> rf_dlc f = tpdo_expected_dlc c ! i \<and>
        rf_received_at f \<le> now \<and> now - rf_received_at f \<le> ms_ns (tpdo_timeout c)))"
  unfolding v_def by (rule snapshot_current_facts)

definition example_frame :: "u32 \<Rightarrow> u8 \<Rightarrow> u8 \<Rightarrow> time_ns \<Rightarrow> observation_generation \<Rightarrow> raw_canopen_frame" where
  "example_frame identifier dlc first at gen =
     \<lparr>rf_identifier = identifier, rf_dlc = dlc, rf_payload = first # replicate 7 0,
      rf_received_at = at, rf_generation = gen\<rparr>"

text \<open>Boot-up, a heartbeat in the operational state and a process data object of node 1.\<close>

definition example_history :: "store_event list" where
  "example_history =
     [Ingest (example_frame 0x181 8 0 3000 \<lparr>og_transport = 1, og_boot = 1\<rparr>) 3000,
      Ingest (example_frame 0x701 1 5 2000 \<lparr>og_transport = 1, og_boot = 1\<rparr>) 2000,
      Ingest (example_frame 0x701 1 0 1000 \<lparr>og_transport = 1, og_boot = 0\<rparr>) 1000,
      Begin_transport]"

lemma example_history_current:
  "fo_current (hb_frame (ob_heartbeat (take_snapshot 5000 (store_after example_config example_history)))) \<and>
   fo_current (ob_tpdo (take_snapshot 5000 (store_after example_config example_history)) ! 0)"
  by code_simp

theorem snapshot_current_is_fresh_witness:
  "ob_boot_observed (take_snapshot 5000 (store_after example_config example_history)) \<and>
   rf_received_at (fo_raw (ob_tpdo (take_snapshot 5000 (store_after example_config example_history)) ! 0)) \<le> 5000"
  using snapshot_current_is_fresh [of 5000 example_config example_history] example_history_current
  by (simp add: Let_def)

section \<open>Correlation of SDO responses\<close>

text \<open>
  An operation that accepts no response and starts no request can only outdate the result and
  drop the token.
\<close>

definition sdo_kept :: "observation_store \<Rightarrow> observation_store \<Rightarrow> bool" where
  "sdo_kept s s' \<longleftrightarrow>
     (fo_current (sdo_frame (ob_sdo_result s')) \<longrightarrow> ob_sdo_result s' = ob_sdo_result s) \<and>
     (tk_active (st_sdo_token s') \<longrightarrow> st_sdo_token s' = st_sdo_token s)"

definition sdo_accepts :: "u8 \<Rightarrow> sdo_token \<Rightarrow> raw_canopen_frame \<Rightarrow> bool" where
  "sdo_accepts node t f \<longleftrightarrow>
     tk_active t \<and> standard_frame node 0x580 f \<and> rf_generation f = tk_generation t \<and> rf_dlc f = 8 \<and>
     rf_payload f ! 1 = ucast (tk_index t) \<and> rf_payload f ! 2 = ucast (drop_bit 8 (tk_index t)) \<and>
     rf_payload f ! 3 = tk_subindex t \<and>
     rf_payload f ! 0 \<in> {0x80, expected_command (tk_expected_size t)}"

fun is_begin :: "store_event \<Rightarrow> bool" where
  "is_begin (Begin_sdo_upload r a i si n) = True"
| "is_begin e = False"

lemma sdo_kept_refl [simp]: "sdo_kept s s"
  by (simp add: sdo_kept_def)

lemma sdo_kept_same:
  "ob_sdo_result s' = ob_sdo_result s \<Longrightarrow> st_sdo_token s' = st_sdo_token s \<Longrightarrow> sdo_kept s s'"
  by (simp add: sdo_kept_def)

lemma sdo_kept_dropped:
  "\<not> fo_current (sdo_frame (ob_sdo_result s')) \<Longrightarrow> \<not> tk_active (st_sdo_token s') \<Longrightarrow> sdo_kept s s'"
  by (simp add: sdo_kept_def)

lemma sdo_kept_bump [simp]: "sdo_kept s (bump_version s') = sdo_kept s s'"
  by (simp add: sdo_kept_def bump_version_def)

lemma sdo_kept_malformed: "sdo_kept s (record_malformed f s)"
  by (simp add: sdo_kept_def record_malformed_def invalidate_addressed_def Let_def
      invalidate_heartbeat_dependents_def outdate_defs)

lemma sdo_kept_invalidate_remote: "sdo_kept s (invalidate_remote s')"
  by (rule sdo_kept_dropped) (simp_all add: invalidate_remote_def outdate_defs)

lemma sdo_kept_heartbeat: "sdo_kept s (ingest_heartbeat f s)"
  by (simp add: ingest_heartbeat_def Let_def sdo_kept_malformed)
    (simp add: sdo_kept_def invalidate_remote_def outdate_defs)

lemma sdo_kept_tpdo: "sdo_kept s (ingest_tpdo i f s)"
  by (simp add: ingest_tpdo_def Let_def sdo_kept_malformed) (simp add: sdo_kept_def)

lemma sdo_kept_emergency: "sdo_kept s (ingest_emergency f s)"
  by (simp add: ingest_emergency_def Let_def sdo_kept_malformed) (simp add: sdo_kept_def)

lemma sdo_kept_advance: "sdo_kept s (advance_time now s)"
  by (rule sdo_kept_same) (simp_all add: advance_time_def advance_nmt_def advance_heartbeat_def
      advance_tpdos_def Let_def case_prod_beta outdate_defs)

lemma ingest_sdo_cases:
  assumes "rf_generation f = ob_generation s" and "standard_frame (st_remote_node_id s) 0x580 f"
  shows "sdo_kept s (ingest_sdo f s) \<or>
    sdo_accepts (st_remote_node_id s) (st_sdo_token s) f \<and>
    ob_sdo_result (ingest_sdo f s) = accepted_sdo (st_sdo_token s) f \<and>
    \<not> tk_active (st_sdo_token (ingest_sdo f s))"
proof -
  have "sdo_kept s (reject_sdo f s)"
    by (simp add: reject_sdo_def) (simp add: sdo_kept_def)
  then show ?thesis
    using assms by (simp add: ingest_sdo_def Let_def sdo_accepts_def drop_token_def bump_version_def)
qed

lemma ingest_sdo_result:
  assumes "\<not> sdo_kept s (ingest f now s)"
  shows "sdo_accepts (st_remote_node_id s) (st_sdo_token s) f \<and> rf_received_at f \<le> now \<and>
    ob_sdo_result (ingest f now s) = accepted_sdo (st_sdo_token s) f \<and>
    \<not> tk_active (st_sdo_token (ingest f now s))"
proof -
  let ?id = "standard_identifier f" and ?node = "st_remote_node_id s"
  have counted: "sdo_kept s (s\<lparr>ob_replay_count := n\<rparr>)"
    "sdo_kept s (record_malformed f (s\<lparr>ob_future_timestamp_count := n\<rparr>))" for n
    using sdo_kept_malformed [of "s\<lparr>ob_future_timestamp_count := n\<rparr>" f] by (simp_all add: sdo_kept_def)
  have "rf_generation f = ob_generation s" and time: "rf_received_at f \<le> now"
    and std: "standard_frame ?node 0x580 f" and this: "ingest f now s = ingest_sdo f s"
    using assms counted sdo_kept_malformed sdo_kept_invalidate_remote sdo_kept_heartbeat
      sdo_kept_tpdo sdo_kept_emergency
    by (auto simp: ingest_def Let_def standard_frame_def split: if_splits)
  with ingest_sdo_cases [of f s] assms show ?thesis
    by simp
qed

lemma apply_event_sdo:
  assumes "\<not> is_begin e"
  shows "sdo_kept s (apply_event e s) \<or>
    (\<exists>f now. e = Ingest f now \<and> sdo_accepts (st_remote_node_id s) (st_sdo_token s) f \<and>
       rf_received_at f \<le> now \<and> ob_sdo_result (apply_event e s) = accepted_sdo (st_sdo_token s) f \<and>
       \<not> tk_active (st_sdo_token (apply_event e s)))"
proof (cases e)
  case Begin_transport
  then show ?thesis
    by (simp add: begin_transport_def sdo_kept_invalidate_remote)
next
  case Cancel_sdo_upload
  then show ?thesis
    by (simp add: cancel_sdo_upload_def) (simp add: sdo_kept_def outdate_defs)
next
  case (Ingest f now)
  then show ?thesis
    using ingest_sdo_result [of s f now] by auto
next
  case (Advance_time now)
  then show ?thesis
    by (simp add: sdo_kept_advance)
qed (use assms in simp)

text \<open>The token that \<open>begin_sdo_upload\<close> arms.\<close>

definition request_token :: "observation_generation \<Rightarrow> u64 \<Rightarrow> u64 \<Rightarrow> u16 \<Rightarrow> u8 \<Rightarrow> u8 \<Rightarrow> sdo_token" where
  "request_token gen r a i si n =
     \<lparr>tk_active = r \<noteq> 0 \<and> a \<noteq> 0 \<and> n \<ge> 1 \<and> n \<le> 4, tk_generation = gen, tk_request = r,
      tk_attempt = a, tk_index = i, tk_subindex = si, tk_expected_size = n\<rparr>"

lemma begin_sdo_upload_token:
  "st_sdo_token (begin_sdo_upload r a i si n s) = request_token (ob_generation s) r a i si n"
  "\<not> fo_current (sdo_frame (ob_sdo_result (begin_sdo_upload r a i si n s)))"
  by (simp_all add: begin_sdo_upload_def request_token_def outdate_defs)

lemma active_token_origin:
  assumes "tk_active (st_sdo_token (store_after c events))"
  shows "\<exists>between r a i si n earlier. events = between @ Begin_sdo_upload r a i si n # earlier \<and>
    list_all (\<lambda>e. \<not> is_begin e) between \<and>
    st_sdo_token (store_after c events) = request_token (ob_generation (store_after c earlier)) r a i si n"
  using assms
proof (induction events)
  case Nil
  then show ?case
    by (simp add: observation_store_create_def no_token_def)
next
  case (Cons e past)
  show ?case
  proof (cases "is_begin e")
    case True
    then obtain r a i si n where "e = Begin_sdo_upload r a i si n"
      by (cases e) auto
    then show ?thesis
      by (intro exI [of _ "[]"]) (simp add: begin_sdo_upload_token)
  next
    case False
    with Cons.prems have "sdo_kept (store_after c past) (store_after c (e # past))"
      using apply_event_sdo [of e "store_after c past"] by auto
    with Cons.prems have same: "st_sdo_token (store_after c (e # past)) = st_sdo_token (store_after c past)"
      by (simp add: sdo_kept_def)
    with Cons.prems Cons.IH obtain between r a i si n earlier where
      "past = between @ Begin_sdo_upload r a i si n # earlier" "list_all (\<lambda>e. \<not> is_begin e) between"
      "st_sdo_token (store_after c past) = request_token (ob_generation (store_after c earlier)) r a i si n"
      by auto
    with False same show ?thesis
      by (intro exI [of _ "e # between"]) auto
  qed
qed

lemma current_result_origin:
  assumes "fo_current (sdo_frame (ob_sdo_result (store_after c events)))"
  shows "\<exists>later f now past. events = later @ Ingest f now # past \<and>
    list_all (\<lambda>e. \<not> is_begin e) later \<and> rf_received_at f \<le> now \<and>
    sdo_accepts (remote_node_id c) (st_sdo_token (store_after c past)) f \<and>
    ob_sdo_result (store_after c events) = accepted_sdo (st_sdo_token (store_after c past)) f"
  using assms
proof (induction events)
  case Nil
  then show ?case
    by (simp add: observation_store_create_def no_sdo_def no_frame_def)
next
  case (Cons e past)
  let ?s = "store_after c past"
  have begun: "\<not> is_begin e"
    using Cons.prems by (cases e) (simp_all add: begin_sdo_upload_token)
  have node: "st_remote_node_id ?s = remote_node_id c"
    using store_config [of c past] by (simp add: store_setup_def)
  from apply_event_sdo [OF begun, of ?s] show ?case
  proof
    assume "sdo_kept ?s (apply_event e ?s)"
    with Cons.prems have same: "ob_sdo_result (store_after c (e # past)) = ob_sdo_result ?s"
      by (simp add: sdo_kept_def)
    with Cons obtain later f now earlier where
      "past = later @ Ingest f now # earlier" "list_all (\<lambda>e. \<not> is_begin e) later" "rf_received_at f \<le> now"
      "sdo_accepts (remote_node_id c) (st_sdo_token (store_after c earlier)) f"
      "ob_sdo_result ?s = accepted_sdo (st_sdo_token (store_after c earlier)) f"
      by auto
    with begun same show ?thesis
      by (intro exI [of _ "e # later"]) auto
  next
    assume "\<exists>f now. e = Ingest f now \<and> sdo_accepts (st_remote_node_id ?s) (st_sdo_token ?s) f \<and>
       rf_received_at f \<le> now \<and> ob_sdo_result (apply_event e ?s) = accepted_sdo (st_sdo_token ?s) f \<and>
       \<not> tk_active (st_sdo_token (apply_event e ?s))"
    then show ?thesis
      using node by (intro exI [of _ "[]"]) auto
  qed
qed

text \<open>
  C6: A response that a reader sees as current answers the newest request.  In the history, it
  was received after that request and no other request was begun since; it is a standard frame
  of the remote node of eight bytes that repeats the index and the subindex of the request and
  carries either the abort command or the command of an expedited upload of exactly the
  expected size, and the record carries the generations of the request, the data or the abort
  code of the frame.
\<close>

theorem sdo_result_answers_newest_request:
  assumes "fo_current (sdo_frame (ob_sdo_result (take_snapshot now (store_after c events))))"
  shows "\<exists>later f at between r a i si n earlier.
    events = later @ Ingest f at # between @ Begin_sdo_upload r a i si n # earlier \<and>
    list_all (\<lambda>e. \<not> is_begin e) (later @ between) \<and> r \<noteq> 0 \<and> a \<noteq> 0 \<and> 1 \<le> n \<and> n \<le> 4 \<and>
    standard_frame (remote_node_id c) 0x580 f \<and> rf_dlc f = 8 \<and> rf_received_at f \<le> at \<and>
    rf_payload f ! 1 = ucast i \<and> rf_payload f ! 2 = ucast (drop_bit 8 i) \<and> rf_payload f ! 3 = si \<and>
    rf_payload f ! 0 \<in> {0x80, expected_command n} \<and>
    (let result = ob_sdo_result (take_snapshot now (store_after c events));
         abort = rf_payload f ! 0 = 0x80 in
     fo_raw (sdo_frame result) = f \<and> sdo_request_generation result = r \<and>
     sdo_attempt_generation result = a \<and> sdo_index result = i \<and> sdo_subindex result = si \<and>
     sdo_outcome result = (if abort then Sdo_abort else Sdo_expedited_upload) \<and>
     sdo_data_length result = (if abort then 0 else n) \<and>
     sdo_data result = take (unat (sdo_data_length result)) (drop 4 (rf_payload f)) @
       replicate (4 - unat (sdo_data_length result)) 0 \<and>
     sdo_abort_code result = (if abort then read_u32 (rf_payload f) 4 else 0))"
proof -
  let ?s = "store_after c events"
  have "fo_current (sdo_frame (ob_sdo_result ?s))"
    using assms by (simp add: take_snapshot_def Let_def observation_snapshot.defs still_valid_def)
  from current_result_origin [OF this] obtain later f at past where
    accepted: "events = later @ Ingest f at # past" "list_all (\<lambda>e. \<not> is_begin e) later"
      "rf_received_at f \<le> at" "sdo_accepts (remote_node_id c) (st_sdo_token (store_after c past)) f"
      "ob_sdo_result ?s = accepted_sdo (st_sdo_token (store_after c past)) f"
    by blast
  then have "tk_active (st_sdo_token (store_after c past))"
    by (simp add: sdo_accepts_def)
  from active_token_origin [OF this] obtain between r a i si n earlier where
    begun: "past = between @ Begin_sdo_upload r a i si n # earlier"
      "list_all (\<lambda>e. \<not> is_begin e) between"
      "st_sdo_token (store_after c past) = request_token (ob_generation (store_after c earlier)) r a i si n"
    by blast
  have snap: "ob_sdo_result (take_snapshot now ?s) = (ob_sdo_result ?s)
      \<lparr>sdo_frame := (sdo_frame (ob_sdo_result ?s))\<lparr>fo_current :=
        still_valid (sdo_frame (ob_sdo_result ?s)) (ob_generation ?s) now\<rparr>\<rparr>"
    by (simp add: take_snapshot_def Let_def observation_snapshot.defs)
  show ?thesis
    using accepted(2-4) begun(2,3)
    by (intro exI [of _ later] exI [of _ f] exI [of _ at] exI [of _ between] exI [of _ r]
        exI [of _ a] exI [of _ i] exI [of _ si] exI [of _ n] exI [of _ earlier])
      (simp add: accepted(1) begun(1) snap accepted(5) [unfolded begun(3)] sdo_accepts_def request_token_def
        accepted_sdo_def Let_def flip: accepted(1) begun(1))
qed

text \<open>Object 0x6041 subindex 0, two bytes, answered with 0x0637.\<close>

definition example_upload :: "store_event list" where
  "example_upload =
     [Ingest \<lparr>rf_identifier = 0x581, rf_dlc = 8, rf_payload = [0x4B, 0x41, 0x60, 0, 0x37, 0x06, 0, 0],
        rf_received_at = 2000, rf_generation = \<lparr>og_transport = 1, og_boot = 0\<rparr>\<rparr> 2000,
      Begin_sdo_upload 1 1 0x6041 0 2, Begin_transport]"

lemma example_upload_current:
  "fo_current (sdo_frame (ob_sdo_result (take_snapshot 5000 (store_after example_config example_upload))))"
  by code_simp

theorem sdo_result_answers_newest_request_witness:
  "\<exists>later f at between r a i si n earlier.
    example_upload = later @ Ingest f at # between @ Begin_sdo_upload r a i si n # earlier \<and>
    standard_frame 1 0x580 f \<and>
    sdo_index (ob_sdo_result (take_snapshot 5000 (store_after example_config example_upload))) = i"
proof -
  have "remote_node_id example_config = 1"
    by (simp add: example_config_def default_stack_config_def)
  with sdo_result_answers_newest_request [OF example_upload_current] show ?thesis
    unfolding Let_def by metis
qed

section \<open>The passage of time\<close>

lemma fresh_later:
  "fresh ob gen later timeout \<Longrightarrow> now \<le> later \<Longrightarrow> rf_received_at (fo_raw ob) \<le> now \<Longrightarrow>
   fresh ob gen now timeout"
  by (simp add: fresh_def)

lemma fresh_outdated [simp]:
  "\<not> fresh (outdated ob) gen now timeout"
  "\<not> fresh (ob\<lparr>fo_current := False\<rparr>) gen now timeout"
  by (simp_all add: fresh_def)

definition received_until :: "time_ns \<Rightarrow> observation_store \<Rightarrow> bool" where
  "received_until at s \<longleftrightarrow>
     list_all (\<lambda>ob. fo_current ob \<longrightarrow> rf_received_at (fo_raw ob) \<le> at)
       (nmt_as_frame (ob_nmt s) # hb_frame (ob_heartbeat s) # ob_tpdo s)"

lemma snapshot_advance_nmt:
  assumes "nmt_current (ob_nmt s) \<Longrightarrow> rf_received_at (nmt_raw (ob_nmt s)) \<le> at" and "at \<le> now"
  shows "take_snapshot now (snd (advance_nmt at s)) = take_snapshot now s"
proof (cases "fst (advance_nmt at s)")
  case True
  then have "nmt_current (ob_nmt s)"
    "\<not> fresh (nmt_as_frame (ob_nmt s)) (ob_generation s) at (st_heartbeat_timeout s)"
    by (auto simp: advance_nmt_def split: if_splits)
  with assms have "\<not> fresh (nmt_as_frame (ob_nmt s)) (ob_generation s) now (st_heartbeat_timeout s)"
    using fresh_later [of "nmt_as_frame (ob_nmt s)"] by (auto simp: nmt_as_frame_def)
  moreover have "\<not> fresh (nmt_as_frame ((ob_nmt s)\<lparr>nmt_current := False\<rparr>)) gen now timeout" for gen timeout
    by (simp add: fresh_def nmt_as_frame_def)
  ultimately show ?thesis
    by (simp add: advance_nmt_def outdate_nmt_def take_snapshot_def Let_def observation_snapshot.defs)
qed (auto simp: advance_nmt_def split: if_splits)

lemma snapshot_advance_heartbeat:
  assumes "fo_current (hb_frame (ob_heartbeat s)) \<Longrightarrow>
      rf_received_at (fo_raw (hb_frame (ob_heartbeat s))) \<le> at" and "at \<le> now"
  shows "take_snapshot now (snd (advance_heartbeat at s)) = take_snapshot now s"
proof (cases "fst (advance_heartbeat at s)")
  case True
  then have "fo_current (hb_frame (ob_heartbeat s))"
    "\<not> fresh (hb_frame (ob_heartbeat s)) (ob_generation s) at (st_heartbeat_timeout s)"
    by (auto simp: advance_heartbeat_def split: if_splits)
  with assms have "\<not> fresh (hb_frame (ob_heartbeat s)) (ob_generation s) now (st_heartbeat_timeout s)"
    using fresh_later [of "hb_frame (ob_heartbeat s)"] by auto
  then show ?thesis
    by (simp add: advance_heartbeat_def outdate_heartbeat_def take_snapshot_def Let_def
        observation_snapshot.defs outdated_def)
qed (auto simp: advance_heartbeat_def split: if_splits)

lemma snapshot_advance_tpdos:
  assumes "\<And>t. t \<in> set (ob_tpdo s) \<Longrightarrow> fo_current t \<Longrightarrow> rf_received_at (fo_raw t) \<le> at" and "at \<le> now"
  shows "take_snapshot now (snd (advance_tpdos at s)) = take_snapshot now s"
proof -
  have "\<not> fresh t (ob_generation s) now (st_tpdo_timeout s)"
    if "fresh (hb_frame (ob_heartbeat s)) (ob_generation s) now (st_heartbeat_timeout s)"
      "t \<in> set (ob_tpdo s)" "tpdo_expired at s t" for t
    using that assms fresh_later [of t] by (auto simp: tpdo_expired_def fresh_def)
  then show ?thesis
    by (auto simp: advance_tpdos_def take_snapshot_def Let_def observation_snapshot.defs outdated_def)
qed

lemma snapshot_bump:
  "take_snapshot now (bump_version s) = (take_snapshot now s)\<lparr>ob_version := ob_version (bump_version s)\<rparr>"
  by (simp add: bump_version_def take_snapshot_def Let_def observation_snapshot.defs)

lemma snapshot_version: "(take_snapshot now s)\<lparr>ob_version := ob_version s\<rparr> = take_snapshot now s"
  by (simp add: take_snapshot_def Let_def observation_snapshot.defs)

text \<open>
  Applying the timeouts in the owner changes nothing that a reader sees, except the version:
  a reader at a later instant gets the same snapshot whether or not the owner has advanced its
  clock to any earlier instant after the last reception.
\<close>

theorem advance_time_invisible:
  assumes "received_until at s" and "at \<le> now"
  shows "take_snapshot now (advance_time at s) =
    (take_snapshot now s)\<lparr>ob_version := ob_version (advance_time at s)\<rparr>"
proof -
  let ?s1 = "snd (advance_nmt at s)"
  let ?s2 = "snd (advance_heartbeat at ?s1)"
  let ?s3 = "snd (advance_tpdos at ?s2)"
  have slots: "ob_heartbeat ?s1 = ob_heartbeat s" "ob_tpdo ?s2 = ob_tpdo s"
    by (simp_all add: advance_nmt_def advance_heartbeat_def outdate_defs)
  have "take_snapshot now ?s1 = take_snapshot now s"
    using assms by (intro snapshot_advance_nmt) (auto simp: received_until_def nmt_as_frame_def)
  moreover have "take_snapshot now ?s2 = take_snapshot now ?s1"
    using assms slots(1) by (intro snapshot_advance_heartbeat) (auto simp: received_until_def)
  moreover have "take_snapshot now ?s3 = take_snapshot now ?s2"
    using assms slots(2) by (intro snapshot_advance_tpdos) (auto simp: received_until_def list_all_iff)
  moreover have "advance_time at s = ?s3 \<or> advance_time at s = bump_version ?s3"
    by (simp add: advance_time_def Let_def case_prod_beta)
  ultimately show ?thesis
    by (metis snapshot_bump snapshot_version)
qed

theorem advance_time_invisible_witness:
  "take_snapshot 1001003000 (advance_time 1001002000 (store_after example_config example_history)) =
    (take_snapshot 1001003000 (store_after example_config example_history))
      \<lparr>ob_version := ob_version (advance_time 1001002000 (store_after example_config example_history))\<rparr>"
proof -
  have "received_until 1001002000 (store_after example_config example_history)"
    unfolding received_until_def by code_simp
  from advance_time_invisible [OF this, of 1001003000] show ?thesis
    by simp
qed

end
