(* ===== verification/Canopen_Provenance.thy ===== *)
theory Canopen_Provenance
  imports Canopen_Observation
begin

text \<open>
  Where the frames in the records of the observation store come from: every operation of
  \<open>ObservationStore\<close> keeps the raw frames of the heartbeat and of the process data slots, or records
  the frame it was given.
\<close>

section \<open>Where recorded frames come from\<close>

text \<open>The raw frames of the heartbeat and of the process data slots.\<close>

definition frames_of :: "frame_observation set \<Rightarrow> raw_canopen_frame set" where
  "frames_of obs = {f. \<exists>ob \<in> obs. fo_present ob \<and> fo_raw ob = f}"

definition slot_frames :: "observation_store \<Rightarrow> raw_canopen_frame set" where
  "slot_frames s = frames_of (insert (hb_frame (ob_heartbeat s)) (set (ob_tpdo s)))"

lemma frames_of_insert [simp]:
  "frames_of (insert ob obs) = (if fo_present ob then insert (fo_raw ob) (frames_of obs) else frames_of obs)"
  by (auto simp: frames_of_def)

lemma frames_of_image:
  assumes "\<And>ob. fo_present (g ob) = fo_present ob" and "\<And>ob. fo_raw (g ob) = fo_raw ob"
  shows "frames_of (g ` obs) = frames_of obs"
  by (simp add: frames_of_def assms)

lemma frames_of_outdated [simp]: "frames_of (outdated ` obs) = frames_of obs"
  by (simp add: frames_of_image)

lemma frames_of_mono: "obs \<subseteq> obs' \<Longrightarrow> frames_of obs \<subseteq> frames_of obs'"
  by (auto simp: frames_of_def)

lemma slot_frames_outdate [simp]:
  "slot_frames (bump_version s) = slot_frames s"
  "slot_frames (outdate_nmt s) = slot_frames s"
  "slot_frames (outdate_emergency s) = slot_frames s"
  "slot_frames (outdate_sdo s) = slot_frames s"
  "slot_frames (drop_token s) = slot_frames s"
  "slot_frames (outdate_heartbeat s) = slot_frames s"
  "slot_frames (outdate_tpdos s) = slot_frames s"
  by (simp_all add: slot_frames_def outdate_defs)

lemma slot_frames_updates [simp]:
  "slot_frames (s\<lparr>ob_generation := gen\<rparr>) = slot_frames s"
  "slot_frames (s\<lparr>ob_boot_observed := b\<rparr>) = slot_frames s"
  "slot_frames (s\<lparr>ob_boot := ob\<rparr>) = slot_frames s"
  "slot_frames (s\<lparr>ob_nmt := nmt\<rparr>) = slot_frames s"
  "slot_frames (s\<lparr>ob_emergency := em\<rparr>) = slot_frames s"
  "slot_frames (s\<lparr>ob_sdo_result := sdo\<rparr>) = slot_frames s"
  "slot_frames (s\<lparr>ob_sdo_rejected := ob\<rparr>) = slot_frames s"
  "slot_frames (s\<lparr>ob_malformed := ob\<rparr>) = slot_frames s"
  "slot_frames (s\<lparr>ob_can_error := ob\<rparr>) = slot_frames s"
  "slot_frames (s\<lparr>ob_malformed_count := n\<rparr>) = slot_frames s"
  "slot_frames (s\<lparr>ob_future_timestamp_count := n\<rparr>) = slot_frames s"
  "slot_frames (s\<lparr>ob_replay_count := n\<rparr>) = slot_frames s"
  "slot_frames (s\<lparr>ob_sdo_rejection_count := n\<rparr>) = slot_frames s"
  "slot_frames (s\<lparr>st_sdo_token := tk\<rparr>) = slot_frames s"
  by (simp_all add: slot_frames_def)

lemma slot_frames_invalidate [simp]:
  "slot_frames (invalidate_remote s) = slot_frames s"
  "slot_frames (invalidate_heartbeat_dependents s) = slot_frames s"
  by (simp_all add: invalidate_remote_def invalidate_heartbeat_dependents_def)

lemma slot_frames_tpdo:
  "slot_frames (s\<lparr>ob_tpdo := (ob_tpdo s)[i := ob]\<rparr>) \<subseteq> insert (fo_raw ob) (slot_frames s)"
  using frames_of_mono [OF set_update_subset_insert [of "ob_tpdo s" i ob]]
  by (auto simp: slot_frames_def split: if_splits)

lemma slot_frames_outdated_tpdo:
  assumes "i < length (ob_tpdo s)"
  shows "slot_frames (s\<lparr>ob_tpdo := (ob_tpdo s)[i := outdated (ob_tpdo s ! i)]\<rparr>) \<subseteq> slot_frames s"
proof -
  have "frames_of (set (ob_tpdo s)) = frames_of (insert (ob_tpdo s ! i) (set (ob_tpdo s)))"
    using assms by (simp add: insert_absorb)
  then show ?thesis
    using frames_of_mono [OF set_update_subset_insert [of "ob_tpdo s" i "outdated (ob_tpdo s ! i)"]]
    by (auto simp: slot_frames_def split: if_splits)
qed

lemma slot_frames_malformed: "slot_frames (record_malformed f s) \<subseteq> slot_frames s"
  using slot_frames_outdated_tpdo [of _ "s\<lparr>ob_malformed := observed False f,
      ob_malformed_count := ob_malformed_count s + 1\<rparr>"]
  by (simp add: record_malformed_def invalidate_addressed_def Let_def)

lemma slot_frames_heartbeat:
  "slot_frames (s\<lparr>ob_heartbeat := (ob_heartbeat s)\<lparr>hb_frame := observed c f\<rparr>\<rparr>) \<subseteq> insert f (slot_frames s)"
  by (auto simp: slot_frames_def split: if_splits)

lemma slot_frames_ingest_heartbeat: "slot_frames (ingest_heartbeat f s) \<subseteq> insert f (slot_frames s)"
proof -
  have "slot_frames (s'\<lparr>ob_heartbeat := (ob_heartbeat s')\<lparr>hb_frame := observed c f\<rparr>, ob_nmt := n\<rparr>)
      \<subseteq> insert f (slot_frames s)"
    if "slot_frames s' = slot_frames s" for s' c n
    using slot_frames_heartbeat [where s = s' and c = c and f = f] that by (simp add: slot_frames_def)
  from this [where s' = s and c = True] this [where s' = "outdate_tpdos s" and c = True] slot_frames_heartbeat [where s = s and c = False and f = f]
  show ?thesis
    using slot_frames_malformed [of f s]
    by (auto simp: ingest_heartbeat_def Let_def)
qed

lemma slot_frames_ingest_tpdo: "slot_frames (ingest_tpdo i f s) \<subseteq> insert f (slot_frames s)"
  using slot_frames_malformed [of f s] slot_frames_tpdo [where s = s and i = i and ob = "observed (ob_boot_observed s) f"]
  by (auto simp: ingest_tpdo_def Let_def)

lemma slot_frames_ingest_sdo: "slot_frames (ingest_sdo f s) = slot_frames s"
  by (simp add: ingest_sdo_def reject_sdo_def Let_def)

lemma slot_frames_ingest_emergency: "slot_frames (ingest_emergency f s) \<subseteq> slot_frames s"
  using slot_frames_malformed [of f s] by (simp add: ingest_emergency_def Let_def)

lemma slot_frames_ingest: "slot_frames (ingest f now s) \<subseteq> insert f (slot_frames s)"
  using slot_frames_malformed [of f s]
    slot_frames_malformed [of f "s\<lparr>ob_future_timestamp_count := ob_future_timestamp_count s + 1\<rparr>"]
    slot_frames_ingest_heartbeat [of f s] slot_frames_ingest_tpdo [of _ f s]
    slot_frames_ingest_emergency [of f s]
  by (simp add: ingest_def Let_def slot_frames_ingest_sdo) blast

lemma slot_frames_advance: "slot_frames (advance_time now s) = slot_frames s"
proof -
  have "frames_of ((\<lambda>t. if P t then outdated t else t) ` obs) = frames_of obs" for P obs
    by (rule frames_of_image) simp_all
  then show ?thesis
    by (simp add: advance_time_def advance_nmt_def advance_heartbeat_def advance_tpdos_def Let_def
        case_prod_beta) (simp add: slot_frames_def outdate_defs)
qed

text \<open>The frames given to the store by a history, and the two records they end up in.\<close>

definition ingested :: "store_event list \<Rightarrow> raw_canopen_frame set" where
  "ingested events = {f. \<exists>now. Ingest f now \<in> set events}"

lemma slot_frames_apply: "slot_frames (apply_event e s) \<subseteq> slot_frames s \<union> ingested [e]"
proof (cases e)
  case (Ingest f now)
  then show ?thesis
    using slot_frames_ingest [of f now s] by (auto simp: ingested_def)
qed (simp_all add: begin_transport_def begin_sdo_upload_def cancel_sdo_upload_def slot_frames_advance)

lemma slot_frames_after: "slot_frames (store_after c events) \<subseteq> ingested events"
proof (induction events)
  case Nil
  show ?case
    by (simp add: observation_store_create_def slot_frames_def no_frame_def frames_of_def)
next
  case (Cons e past)
  then show ?case
    using slot_frames_apply [of e "store_after c past"] by (auto simp: ingested_def)
qed

lemma heartbeat_source:
  "fo_present (hb_frame (ob_heartbeat (store_after c events))) \<Longrightarrow>
   fo_raw (hb_frame (ob_heartbeat (store_after c events))) \<in> ingested events"
  using slot_frames_after [of c events] by (auto simp: slot_frames_def)

lemma tpdo_source:
  assumes "fo_present (ob_tpdo (store_after c events) ! i)" and "i < 4"
  shows "fo_raw (ob_tpdo (store_after c events) ! i) \<in> ingested events"
proof -
  have "ob_tpdo (store_after c events) ! i \<in> set (ob_tpdo (store_after c events))"
    using assms(2) store_inv_tpdos [OF store_inv_after] by simp
  with assms(1) slot_frames_after [of c events] show ?thesis
    by (auto simp: slot_frames_def frames_of_def)
qed

end
