(* ===== verification/Canopen_Lifecycle.thy ===== *)
theory Canopen_Lifecycle
  imports Canopen_Storage Canopen_Provenance
begin

text \<open>
  \<open>src/communication/canopen/lifecycle.{hpp,cpp}\<close>: the sole owner of the CAN connection.  It opens
  the interface through CANopenNode, feeds every received frame to the observation store, checks
  every 10 ms that the interface is up, and reopens the communication when the endpoint is lost,
  the interface is down or CANopenNode asks for a communication reset.

  CANopenNode, its epoll wrapper and the system calls are outside the program: what they answer
  is an argument (one record per reopening, one per turn of the loop), and the calls made are
  part of the result, in order.
\<close>

section \<open>What the outside answers\<close>

text \<open>A return code of CANopenNode; an error carries its number, which is only printed.\<close>

datatype co_return = Co_error_no | Co_error_out_of_memory int | Co_error_other int

fun co_number :: "co_return \<Rightarrow> int" where
  "co_number Co_error_no = 0"
| "co_number (Co_error_out_of_memory n) = n"
| "co_number (Co_error_other n) = n"

datatype co_reset = Co_reset_not | Co_reset_comm | Co_reset_app | Co_reset_quit

text \<open>A system call that returns nothing: \<open>None\<close>, or the error number it sets.\<close>

record reopen_answers =
  ra_index :: nat
  ra_index_errno :: int
  ra_can_init :: co_return
  ra_can_errno :: int
  ra_interfaces :: "int list"
  ra_flags :: "int + u16"
  ra_error_filter :: "int option"
  ra_open_init :: co_return
  ra_open_info :: u32
  ra_open_errno :: int
  ra_pdo_init :: co_return
  ra_pdo_info :: u32
  ra_pdo_errno :: int
  ra_normal :: bool
  ra_normal_errno :: int
  ra_filters :: "int option"
  ra_now :: time_ns

text \<open>
  One turn of the loop: the clock readings in order, the event that \<open>CO_epoll_wait\<close> leaves, the
  CAN module as read in this turn, and the answers of the calls it may make.
\<close>

record turn_answers =
  ta_start :: time_ns
  ta_epoll_new :: bool
  ta_event_fd :: int
  ta_events :: u32
  ta_signal :: "int outcome"
  ta_after_wait :: time_ns
  ta_interfaces :: "int list"
  ta_check_time :: time_ns
  ta_flags :: "int + u16"
  ta_receive_time :: time_ns
  ta_recv_count :: int
  ta_recv_errno :: int
  ta_peeked :: can_frame
  ta_rx_matched :: bool
  ta_rx_message :: can_frame
  ta_rx_index :: int
  ta_advance_time :: time_ns
  ta_reset :: co_reset
  ta_reopen :: reopen_answers

datatype lifecycle_call =
    Storage_call upstream_call
  | Epoll_create u32
  | Epoll_ctl_add int
  | Epoll_close
  | Name_to_index string
  | Can_init nat int u16
  | Get_flags int string
  | Set_error_filter int u32
  | Open_init u16 u8
  | Epoll_init_main
  | Open_init_pdo u8
  | Set_normal_mode
  | Set_filters int "(u32 \<times> u32) list"
  | Epoll_wait
  | Epoll_process_last
  | Epoll_process_rt
  | Epoll_process_main
  | Consume_signal
  | Recv_peek int
  | Rx_from_epoll

section \<open>State\<close>

datatype lifecycle_exit =
  Exit_deadline | Exit_sigint | Exit_sigterm | Exit_application_reset | Exit_quit

text \<open>
  The owner with the parts of \<open>CO_epoll_t\<close> that it reads, and the process-wide dictionary that its
  storage programs.
\<close>

record lifecycle =
  lc_storage :: stack_owner
  lc_observations :: observation_store
  lc_termination_fd :: int
  lc_epoll_fd :: int
  lc_event_fd :: int
  lc_timer_fd :: int
  lc_epoll_new :: bool
  lc_ev_fd :: int
  lc_ev_events :: u32
  lc_next_check :: time_ns
  lc_process :: od_process

definition ENODEV :: int where "ENODEV = 19"
definition EIO :: int where "EIO = 5"
definition EPROTO :: int where "EPROTO = 71"
definition ENETDOWN :: int where "ENETDOWN = 100"

lemmas lifecycle_errno_defs = ENODEV_def EIO_def EPROTO_def ENETDOWN_def ENOMEM_def

definition SIGINT :: int where "SIGINT = 2"
definition SIGTERM :: int where "SIGTERM = 15"
definition EPOLLIN :: u32 where "EPOLLIN = 1"
definition EPOLLERR :: u32 where "EPOLLERR = 8"
definition EPOLLHUP :: u32 where "EPOLLHUP = 16"
definition IFF_UP :: u16 where "IFF_UP = 1"
definition CAN_ERR_MASK :: u32 where "CAN_ERR_MASK = 0x1FFFFFFF"

definition process_interval_us :: u32 where "process_interval_us = 1000"
definition interface_check_interval :: time_ns where "interface_check_interval = 10000000"

definition exact_standard_filter_mask :: u32 where
  "exact_standard_filter_mask = CAN_SFF_MASK OR CAN_EFF_FLAG OR CAN_RTR_FLAG"

section \<open>Failures\<close>

definition lifecycle_context :: "stack_config \<Rightarrow> string" where
  "lifecycle_context c =
     ''interface='' @ interface_name c @ '' controller='' @ decimal (unat (controller_node_id c)) @
     '' remote='' @ decimal (unat (remote_node_id c))"

definition upstream_status :: "string \<Rightarrow> stack_config \<Rightarrow> co_return \<Rightarrow> u32 \<Rightarrow> int \<Rightarrow> status" where
  "upstream_status op c error info number =
     from_errno op
       (lifecycle_context c @ '' upstream='' @ decimal_int (co_number error) @
        '' err_info='' @ decimal (unat info))
       (if number = 0 then (case error of Co_error_out_of_memory n \<Rightarrow> ENOMEM | _ \<Rightarrow> EPROTO) else number)"

definition require_interface_up :: "int + u16 \<Rightarrow> stack_config \<Rightarrow> status" where
  "require_interface_up flags c =
     (case flags of
        Inl errno \<Rightarrow> from_errno ''ioctl(SIOCGIFFLAGS)'' (lifecycle_context c) errno
      | Inr fl \<Rightarrow>
          if fl AND IFF_UP = 0
          then from_errno ''ioctl(SIOCGIFFLAGS)'' (lifecycle_context c @ '' state=down'') ENETDOWN
          else success_status)"

definition observation_filters :: "stack_config \<Rightarrow> (u32 \<times> u32) list" where
  "observation_filters c =
     (let node = (ucast (remote_node_id c) :: u32) in
      (0, exact_standard_filter_mask) #
      map (\<lambda>base. (base + node, exact_standard_filter_mask))
        [0x080, 0x180, 0x280, 0x380, 0x480, 0x580, 0x700])"

section \<open>Opening the communication\<close>

definition lc_config :: "lifecycle \<Rightarrow> stack_config" where
  "lc_config s = owner_config (lc_storage s)"

definition lc_prepare :: "lifecycle \<Rightarrow> lifecycle_call list \<times> lifecycle" where
  "lc_prepare s =
     (let (calls, p) = prepare_communication_reset (lc_storage s) (lc_process s)
      in (map Storage_call calls, s\<lparr>lc_process := p\<rparr>))"

definition observe :: "(observation_store \<Rightarrow> observation_store) \<Rightarrow> lifecycle \<Rightarrow> lifecycle" where
  "observe f s = s\<lparr>lc_observations := f (lc_observations s)\<rparr>"

text \<open>The failure path of \<open>reopen\<close> after an upstream call: the communication is reset again.\<close>

definition abandon ::
  "status \<Rightarrow> lifecycle_call list \<Rightarrow> lifecycle \<Rightarrow> status \<times> lifecycle_call list \<times> lifecycle" where
  "abandon st calls s = (let (cs, s') = lc_prepare s in (st, calls @ cs, s'))"

definition reopen :: "reopen_answers \<Rightarrow> lifecycle \<Rightarrow> status \<times> lifecycle_call list \<times> lifecycle" where
  "reopen a s0 =
     (let (prepared, s) = lc_prepare (observe begin_transport s0);
          c = lc_config s; ctx = lifecycle_context c;
          calls = prepared @ [Name_to_index (interface_name c)]
      in if ra_index a = 0
      then (from_errno ''if_nametoindex'' (ctx @ '' upstream=not-called'')
              (if ra_index_errno a = 0 then ENODEV else ra_index_errno a), calls, s)
      else let calls = calls @ [Can_init (ra_index a) (lc_epoll_fd s) (bit_rate_kbit_s c)] in
      if ra_can_init a \<noteq> Co_error_no
      then abandon (upstream_status ''CO_CANinit'' c (ra_can_init a) 0 (ra_can_errno a)) calls s
      else if length (ra_interfaces a) \<noteq> 1
      then abandon (from_errno ''CO_CANinit'' (ctx @ '' interface_count'') EPROTO) calls s
      else let fd = hd (ra_interfaces a); interface_status = require_interface_up (ra_flags a) c;
               calls = calls @ [Get_flags fd (interface_name c)] in
      if \<not> status_ok interface_status then abandon interface_status calls s
      else let calls = calls @ [Set_error_filter fd CAN_ERR_MASK] in
      if ra_error_filter a \<noteq> None
      then abandon (from_errno ''setsockopt(CAN_RAW_ERR_FILTER)'' ctx (the (ra_error_filter a))) calls s
      else let calls = calls @ [Open_init (word_of_int (sdo_timeout c)) (controller_node_id c)] in
      if ra_open_init a \<noteq> Co_error_no
      then abandon (upstream_status ''CO_CANopenInit'' c (ra_open_init a) (ra_open_info a)
        (ra_open_errno a)) calls s
      else let calls = calls @ [Epoll_init_main, Open_init_pdo (controller_node_id c)] in
      if ra_pdo_init a \<noteq> Co_error_no
      then abandon (upstream_status ''CO_CANopenInitPDO'' c (ra_pdo_init a) (ra_pdo_info a)
        (ra_pdo_errno a)) calls s
      else let calls = calls @ [Set_normal_mode] in
      if \<not> ra_normal a
      then abandon (from_errno ''CO_CANsetNormalMode'' (ctx @ '' upstream=void'')
        (if ra_normal_errno a = 0 then EIO else ra_normal_errno a)) calls s
      else let calls = calls @ [Set_filters fd (observation_filters c)];
               filter_status = (case ra_filters a of None \<Rightarrow> success_status
                 | Some errno \<Rightarrow> from_errno ''setsockopt(CAN_RAW_FILTER)'' ctx errno) in
      if \<not> status_ok filter_status then abandon filter_status calls s
      else (success_status, calls, s\<lparr>lc_next_check := ra_now a + interface_check_interval\<rparr>))"

text \<open>The destructor, with the storage it owns.\<close>

definition lifecycle_destroy :: "lifecycle \<Rightarrow> lifecycle_call list \<times> od_process" where
  "lifecycle_destroy s =
     (let (prepared, s1) = lc_prepare s;
          closed = (if lc_epoll_fd s1 \<ge> 0 \<or> lc_event_fd s1 \<ge> 0 \<or> lc_timer_fd s1 \<ge> 0
                    then [Epoll_close] else []);
          (destroyed, p) = storage_destroy (lc_storage s1) (lc_process s1)
      in (prepared @ closed @ map Storage_call destroyed, p))"

record create_answers =
  ca_storage_allocated :: bool
  ca_co_new :: "co_config \<Rightarrow> nat option \<times> u32"
  ca_allocated :: bool
  ca_epoll :: co_return
  ca_epoll_errno :: int
  ca_epoll_fds :: "int \<times> int \<times> int"
  ca_epoll_ctl :: "int option"
  ca_reopen :: reopen_answers

text \<open>The private constructor.\<close>

definition new_lifecycle :: "stack_owner \<Rightarrow> int \<Rightarrow> od_process \<Rightarrow> lifecycle" where
  "new_lifecycle owner termination p =
     \<lparr>lc_storage = owner, lc_observations = observation_store_create (owner_config owner),
      lc_termination_fd = termination, lc_epoll_fd = -1, lc_event_fd = -1, lc_timer_fd = -1,
      lc_epoll_new = False, lc_ev_fd = 0, lc_ev_events = 0, lc_next_check = 0, lc_process = p\<rparr>"

definition discard ::
  "status \<Rightarrow> lifecycle_call list \<Rightarrow> lifecycle \<Rightarrow> lifecycle outcome \<times> lifecycle_call list \<times> od_process" where
  "discard st calls s = (let (cs, p) = lifecycle_destroy s in (outcome_failure st, calls @ cs, p))"

definition lifecycle_create ::
  "create_answers \<Rightarrow> stack_config \<Rightarrow> int \<Rightarrow> od_process \<Rightarrow>
     lifecycle outcome \<times> lifecycle_call list \<times> od_process" where
  "lifecycle_create a config termination p =
     (let (storage_result, created, p) = storage_create (ca_storage_allocated a) (ca_co_new a) config p;
          created = map Storage_call created
      in case outcome_value storage_result of
           None \<Rightarrow> (outcome_failure (outcome_status storage_result), created, p)
         | Some owner \<Rightarrow>
             let ctx = lifecycle_context (owner_config owner) in
             if \<not> ca_allocated a
             then let (destroyed, p) = storage_destroy owner p
               in (outcome_failure (from_errno ''allocate_canopen_lifecycle'' ctx ENOMEM),
                   created @ map Storage_call destroyed, p)
             else let (epoll, event, timer) = ca_epoll_fds a;
                      s = (new_lifecycle owner termination p)
                        \<lparr>lc_epoll_fd := epoll, lc_event_fd := event, lc_timer_fd := timer\<rparr>;
                      calls = created @ [Epoll_create process_interval_us]
               in if ca_epoll a \<noteq> Co_error_no
                  then discard (upstream_status ''CO_epoll_create'' (owner_config owner) (ca_epoll a) 0
                    (ca_epoll_errno a)) calls s
                  else let calls = calls @ [Epoll_ctl_add termination] in
                  if ca_epoll_ctl a \<noteq> None
                  then discard (from_errno ''epoll_ctl'' (ctx @ '' resource=termination_signalfd'')
                    (the (ca_epoll_ctl a))) calls s
                  else let (st, opened, s) = reopen (ca_reopen a) s in
                  if \<not> status_ok st then discard st (calls @ opened) s
                  else (outcome_success s, calls @ opened, lc_process s))"

section \<open>Processing\<close>

definition raw_frame :: "can_frame \<Rightarrow> time_ns \<Rightarrow> observation_generation \<Rightarrow> raw_canopen_frame" where
  "raw_frame f at gen =
     \<lparr>rf_identifier = can_id f, rf_dlc = can_len f, rf_payload = take 8 (can_data f),
      rf_received_at = at, rf_generation = gen\<rparr>"

definition same_frame :: "can_frame \<Rightarrow> can_frame \<Rightarrow> bool" where
  "same_frame peeked consumed \<longleftrightarrow>
     can_id consumed = can_id peeked \<and> can_len consumed = can_len peeked \<and>
     can_data consumed = can_data peeked"

definition from_interface :: "turn_answers \<Rightarrow> lifecycle \<Rightarrow> bool" where
  "from_interface t s \<longleftrightarrow>
     lc_epoll_new s \<and> length (ta_interfaces t) = 1 \<and> lc_ev_fd s = hd (ta_interfaces t)"

definition endpoint_lost :: "turn_answers \<Rightarrow> lifecycle \<Rightarrow> bool" where
  "endpoint_lost t s \<longleftrightarrow> from_interface t s \<and> lc_ev_events s AND (EPOLLERR OR EPOLLHUP) \<noteq> 0"

definition unset_index :: int where "unset_index = - (2 ^ 31)"

definition process_receive_event ::
  "turn_answers \<Rightarrow> lifecycle \<Rightarrow> status \<times> lifecycle_call list \<times> lifecycle" where
  "process_receive_event t s =
     (if \<not> from_interface t s \<or> lc_ev_events s AND EPOLLIN = 0 then (success_status, [], s)
      else let ctx = lifecycle_context (lc_config s); calls = [Recv_peek (lc_ev_fd s)] in
      if ta_recv_count t \<noteq> 16
      then (from_errno ''recv(MSG_PEEK)'' (ctx @ '' resource=can_frame'')
              (if ta_recv_count t < 0 then ta_recv_errno t else EIO), calls, s)
      else let calls = calls @ [Rx_from_epoll] in
      if \<not> ta_rx_matched t
      then (from_errno ''CO_CANrxFromEpoll'' (ctx @ '' event_fd_mismatch'') EPROTO, calls, s)
      else let s = s\<lparr>lc_epoll_new := False\<rparr>; is_error = can_id (ta_peeked t) AND CAN_ERR_FLAG \<noteq> 0 in
      if \<not> is_error \<and> ta_rx_index t = unset_index
      then (from_errno ''CO_CANrxFromEpoll'' (ctx @ '' receive_result_missing'') EIO, calls, s)
      else if \<not> is_error \<and> ta_rx_index t \<ge> 0 \<and> \<not> same_frame (ta_peeked t) (ta_rx_message t)
      then (from_errno ''CO_CANrxFromEpoll'' (ctx @ '' peek_consume_mismatch'') EPROTO, calls, s)
      else (success_status, calls,
        observe (ingest (raw_frame (ta_peeked t) (ta_receive_time t) (ob_generation (lc_observations s)))
          (ta_receive_time t)) s))"

text \<open>A step of the loop goes on or ends the run, with the calls it made.\<close>

type_synonym turn_result = "lifecycle_exit outcome option \<times> lifecycle_call list \<times> lifecycle"

definition finish :: "lifecycle_exit outcome \<Rightarrow> lifecycle_call list \<Rightarrow> lifecycle \<Rightarrow> turn_result" where
  "finish r calls s = (Some r, calls, s)"

definition reopen_or_fail :: "reopen_answers \<Rightarrow> lifecycle_call list \<Rightarrow> lifecycle \<Rightarrow> turn_result" where
  "reopen_or_fail a calls s =
     (let (st, opened, s') = reopen a s
      in if status_ok st then (None, calls @ opened, s')
         else finish (outcome_failure st) (calls @ opened) s')"

text \<open>From the receive event to the end of a turn.\<close>

definition turn_process :: "turn_answers \<Rightarrow> lifecycle_call list \<Rightarrow> lifecycle \<Rightarrow> turn_result" where
  "turn_process t calls s =
     (let (st, received, s) = process_receive_event t s; calls = calls @ received in
      if \<not> status_ok st then finish (outcome_failure st) (calls @ [Epoll_process_last]) s
      else let s = observe (advance_time (ta_advance_time t)) s;
               calls = calls @ [Epoll_process_rt, Epoll_process_main, Epoll_process_last] in
        (case ta_reset t of
           Co_reset_comm \<Rightarrow> reopen_or_fail (ta_reopen t) calls s
         | Co_reset_app \<Rightarrow> finish (outcome_success Exit_application_reset) calls s
         | Co_reset_quit \<Rightarrow> finish (outcome_success Exit_quit) calls s
         | Co_reset_not \<Rightarrow> (None, calls, s)))"

text \<open>From the second look at the clock on: lost endpoint, interface check, processing.\<close>

definition turn_check ::
  "time_ns \<Rightarrow> turn_answers \<Rightarrow> lifecycle_call list \<Rightarrow> lifecycle \<Rightarrow> turn_result" where
  "turn_check deadline t calls s =
     (if ta_after_wait t \<ge> deadline
      then finish (outcome_success Exit_deadline) (calls @ [Epoll_process_last]) s
      else if endpoint_lost t s
      then reopen_or_fail (ta_reopen t) (calls @ [Epoll_process_last]) (s\<lparr>lc_epoll_new := False\<rparr>)
      else if ta_check_time t \<ge> lc_next_check s
      then let s = s\<lparr>lc_next_check := ta_check_time t + interface_check_interval\<rparr>;
               calls = (if length (ta_interfaces t) = 1
                 then calls @ [Get_flags (hd (ta_interfaces t)) (interface_name (lc_config s))] else calls);
               st = (if length (ta_interfaces t) = 1 then require_interface_up (ta_flags t) (lc_config s)
                 else from_errno ''check_can_interface'' (lifecycle_context (lc_config s)) EPROTO) in
        if \<not> status_ok st
        then reopen_or_fail (ta_reopen t) (calls @ [Epoll_process_last]) (s\<lparr>lc_epoll_new := False\<rparr>)
        else turn_process t calls s
      else turn_process t calls s)"

definition run_turn :: "time_ns \<Rightarrow> turn_answers \<Rightarrow> lifecycle \<Rightarrow> turn_result" where
  "run_turn deadline t s =
     (if ta_start t \<ge> deadline then finish (outcome_success Exit_deadline) [] s
      else let s = s\<lparr>lc_epoll_new := ta_epoll_new t, lc_ev_fd := ta_event_fd t, lc_ev_events := ta_events t\<rparr>;
               calls = [Epoll_wait] in
        if lc_epoll_new s \<and> lc_ev_fd s = lc_termination_fd s
        then let s = s\<lparr>lc_epoll_new := False\<rparr>; calls = calls @ [Epoll_process_last, Consume_signal] in
          (case outcome_value (ta_signal t) of
             None \<Rightarrow> finish (outcome_failure (outcome_status (ta_signal t))) calls s
           | Some sig \<Rightarrow>
               if sig = SIGINT then finish (outcome_success Exit_sigint) calls s
               else if sig = SIGTERM then finish (outcome_success Exit_sigterm) calls s
               else turn_check deadline t calls s)
        else turn_check deadline t calls s)"

text \<open>
  \<open>run_until\<close> over the turns that the outside has answered so far: no result while the loop is
  still waiting for its next event.
\<close>

fun run_until :: "time_ns \<Rightarrow> turn_answers list \<Rightarrow> lifecycle \<Rightarrow> turn_result" where
  "run_until deadline [] s = (None, [], s)"
| "run_until deadline (t # ts) s =
     (let (r, calls, s') = run_turn deadline t s in
      if r \<noteq> None then (r, calls, s')
      else let (r', calls', s'') = run_until deadline ts s' in (r', calls @ calls', s''))"

section \<open>Reopening is all or nothing\<close>

text \<open>Whether the CAN module is left open by a sequence of calls.\<close>

fun communication_step :: "lifecycle_call \<Rightarrow> bool \<Rightarrow> bool" where
  "communication_step (Can_init i fd rate) b = True"
| "communication_step (Storage_call (Can_module_disable m)) b = False"
| "communication_step (Storage_call (Co_delete m)) b = False"
| "communication_step _ b = b"

definition communication_after :: "lifecycle_call list \<Rightarrow> bool \<Rightarrow> bool" where
  "communication_after calls b = fold communication_step calls b"

lemma communication_after_simps [simp]:
  "communication_after [] b = b"
  "communication_after (x # xs) b = communication_after xs (communication_step x b)"
  "communication_after (xs @ ys) b = communication_after ys (communication_after xs b)"
  by (simp_all add: communication_after_def)

text \<open>Failed system calls report a nonzero error number.\<close>

definition errno_reported :: "reopen_answers \<Rightarrow> bool" where
  "errno_reported a \<longleftrightarrow> ra_flags a \<noteq> Inl 0 \<and> ra_error_filter a \<noteq> Some 0 \<and> ra_filters a \<noteq> Some 0"

definition opening_succeeds :: "reopen_answers \<Rightarrow> bool" where
  "opening_succeeds a \<longleftrightarrow>
     ra_index a \<noteq> 0 \<and> ra_can_init a = Co_error_no \<and> length (ra_interfaces a) = 1 \<and>
     (case ra_flags a of Inl errno \<Rightarrow> False | Inr fl \<Rightarrow> fl AND IFF_UP \<noteq> 0) \<and>
     ra_error_filter a = None \<and> ra_open_init a = Co_error_no \<and> ra_pdo_init a = Co_error_no \<and>
     ra_normal a \<and> ra_filters a = None"

text \<open>The calls of a successful opening, in order.\<close>

definition opening_calls :: "reopen_answers \<Rightarrow> lifecycle \<Rightarrow> lifecycle_call list" where
  "opening_calls a s =
     (let c = lc_config s; fd = hd (ra_interfaces a) in
      [Storage_call (Can_module_disable (the (owner_stack (lc_storage s)))),
       Name_to_index (interface_name c), Can_init (ra_index a) (lc_epoll_fd s) (bit_rate_kbit_s c),
       Get_flags fd (interface_name c), Set_error_filter fd CAN_ERR_MASK,
       Open_init (word_of_int (sdo_timeout c)) (controller_node_id c), Epoll_init_main,
       Open_init_pdo (controller_node_id c), Set_normal_mode, Set_filters fd (observation_filters c)])"

text \<open>The owner between two calls of its methods.\<close>

definition lifecycle_ok :: "lifecycle \<Rightarrow> bool" where
  "lifecycle_ok s \<longleftrightarrow> owner_ok (lc_storage s) \<and> reset_source_ok (lc_process s)"

lemma owner_stack_Some: "lifecycle_ok s \<Longrightarrow> owner_stack (lc_storage s) = Some (the (owner_stack (lc_storage s)))"
  by (auto simp: lifecycle_ok_def owner_ok_def)

lemma observe_simps [simp]:
  "lc_storage (observe f s) = lc_storage s" "lc_process (observe f s) = lc_process s"
  "lc_observations (observe f s) = f (lc_observations s)" "lc_config (observe f s) = lc_config s"
  "lc_epoll_fd (observe f s) = lc_epoll_fd s" "lc_termination_fd (observe f s) = lc_termination_fd s"
  "lifecycle_ok (observe f s) = lifecycle_ok s"
  by (simp_all add: observe_def lc_config_def lifecycle_ok_def)

lemma lc_prepare_simps [simp]:
  "lc_storage (snd (lc_prepare s)) = lc_storage s"
  "lc_observations (snd (lc_prepare s)) = lc_observations s"
  "lc_config (snd (lc_prepare s)) = lc_config s"
  "lc_epoll_fd (snd (lc_prepare s)) = lc_epoll_fd s"
  "lc_termination_fd (snd (lc_prepare s)) = lc_termination_fd s"
  by (simp_all add: lc_prepare_def case_prod_beta lc_config_def)

lemma lc_prepare_ok:
  assumes "lifecycle_ok s"
  shows "fst (lc_prepare s) = [Storage_call (Can_module_disable (the (owner_stack (lc_storage s))))]"
    and "programmed (lc_config s) (lc_process (snd (lc_prepare s)))"
    and "lifecycle_ok (snd (lc_prepare s))"
  using assms reset_programs [of "lc_process s" "owner_config (lc_storage s)"] owner_stack_Some [OF assms]
  by (auto simp: lc_prepare_def case_prod_beta prepare_communication_reset_def lifecycle_ok_def lc_config_def
      split: option.splits)

text \<open>The result of an abandoned opening.\<close>

definition closed :: "lifecycle \<Rightarrow> status \<times> lifecycle_call list \<times> lifecycle \<Rightarrow> bool" where
  "closed s r \<longleftrightarrow>
     \<not> communication_after (fst (snd r)) False \<and> programmed (lc_config s) (lc_process (snd (snd r))) \<and>
     lc_observations (snd (snd r)) = begin_transport (lc_observations s) \<and>
     lc_storage (snd (snd r)) = lc_storage s \<and> lifecycle_ok (snd (snd r))"

lemma abandon_closed:
  assumes "lifecycle_ok s'" and "lc_storage s' = lc_storage s"
    and "lc_observations s' = begin_transport (lc_observations s)"
  shows "closed s (abandon st calls s')" and "fst (abandon st calls s') = st"
  using assms lc_prepare_ok [OF assms(1)]
  by (simp_all add: closed_def abandon_def case_prod_beta lc_config_def)

lemma upstream_status_ok [simp]: "\<not> status_ok (upstream_status op c e info n)"
  by (simp add: upstream_status_def lifecycle_errno_defs split: co_return.split)

lemma require_interface_up_ok:
  "flags \<noteq> Inl 0 \<Longrightarrow>
   status_ok (require_interface_up flags c) \<longleftrightarrow>
     (case flags of Inl errno \<Rightarrow> False | Inr fl \<Rightarrow> fl AND IFF_UP \<noteq> 0)"
  by (cases flags) (simp_all add: require_interface_up_def lifecycle_errno_defs)

lemma reopen_success:
  assumes "lifecycle_ok s" and "errno_reported a" and "opening_succeeds a"
  shows "reopen a s = (success_status, opening_calls a s,
    (snd (lc_prepare (observe begin_transport s)))\<lparr>lc_next_check := ra_now a + interface_check_interval\<rparr>)"
  using assms lc_prepare_ok(1) [of "observe begin_transport s"]
  by (simp add: reopen_def Let_def case_prod_beta opening_succeeds_def opening_calls_def
      errno_reported_def require_interface_up_ok)

lemma reopen_result:
  assumes "lifecycle_ok s" and "errno_reported a"
  shows "status_ok (fst (reopen a s)) = opening_succeeds a \<and>
    (if opening_succeeds a then fst (snd (reopen a s)) = opening_calls a s
     else \<not> communication_after (fst (snd (reopen a s))) False) \<and>
    programmed (lc_config s) (lc_process (snd (snd (reopen a s)))) \<and>
    lc_observations (snd (snd (reopen a s))) = begin_transport (lc_observations s) \<and>
    lc_storage (snd (snd (reopen a s))) = lc_storage s \<and> lifecycle_ok (snd (snd (reopen a s)))"
proof -
  let ?s = "observe begin_transport s"
  let ?s1 = "snd (lc_prepare ?s)"
  have ok: "lifecycle_ok ?s"
    using assms(1) by simp
  have s1: "lifecycle_ok ?s1" "lc_storage ?s1 = lc_storage s"
      "lc_observations ?s1 = begin_transport (lc_observations s)" "lc_config ?s1 = lc_config s"
      "programmed (lc_config s) (lc_process ?s1)"
    using lc_prepare_ok [OF ok] by simp_all
  have left: "closed s (abandon st calls ?s1)" "fst (abandon st calls ?s1) = st" for st calls
    using abandon_closed [OF s1(1-3)] by auto
  have unopened: "closed s (st, fst (lc_prepare ?s) @ [Name_to_index name], ?s1)" for st name
    using s1 lc_prepare_ok(1) [OF ok] by (simp add: closed_def)
  show ?thesis
  proof (cases "opening_succeeds a")
    case True
    then have "reopen a s = (success_status, opening_calls a s,
        ?s1\<lparr>lc_next_check := ra_now a + interface_check_interval\<rparr>)"
      by (rule reopen_success [OF assms])
    with True s1 show ?thesis
      by (simp add: lifecycle_ok_def)
  next
    case False
    have "closed s (reopen a s) \<and> \<not> status_ok (fst (reopen a s))"
    proof (cases "ra_index a = 0")
      case True
      then show ?thesis
        using unopened by (simp add: reopen_def Let_def case_prod_beta ENODEV_def)
    next
      case indexed: False
      then show ?thesis
        using False assms(2) left
        by (auto simp: reopen_def Let_def case_prod_beta opening_succeeds_def errno_reported_def
            require_interface_up_ok lifecycle_errno_defs split: option.splits)
    qed
    with False show ?thesis
      by (simp add: closed_def)
  qed
qed

text \<open>
  C17: Reopening is all or nothing.  It always begins a new transport generation, so that nothing
  observed before stays current, and leaves the dictionary programmed for the configured remote
  node.  It succeeds exactly when every step of the opening succeeds; then the calls are the
  ones of the sequence, the last one installing the receive filters of the remote node.  In any
  other case the CAN module is closed when it returns, whatever step failed.
\<close>

theorem reopen_all_or_nothing:
  assumes "lifecycle_ok s" and "errno_reported a"
  shows "status_ok (fst (reopen a s)) = opening_succeeds a \<and>
    (if opening_succeeds a then fst (snd (reopen a s)) = opening_calls a s
     else \<not> communication_after (fst (snd (reopen a s))) False) \<and>
    programmed (lc_config s) (lc_process (snd (snd (reopen a s)))) \<and>
    lc_observations (snd (snd (reopen a s))) = begin_transport (lc_observations s) \<and>
    lc_storage (snd (snd (reopen a s))) = lc_storage s \<and> lifecycle_ok (snd (snd (reopen a s)))"
  using assms by (rule reopen_result)

section \<open>The loop returns\<close>

text \<open>
  Every wait for events is concluded by \<open>CO_epoll_processLast\<close> before the next wait and before the
  run returns: the state tells whether a wait is open, and there is none after a wait inside a
  wait.
\<close>

fun wait_step :: "lifecycle_call \<Rightarrow> bool option \<Rightarrow> bool option" where
  "wait_step Epoll_wait b = (if b = Some False then Some True else None)"
| "wait_step Epoll_process_last b = (if b = None then None else Some False)"
| "wait_step _ b = b"

definition waits_after :: "lifecycle_call list \<Rightarrow> bool option \<Rightarrow> bool option" where
  "waits_after calls b = fold wait_step calls b"

lemma waits_after_simps [simp]:
  "waits_after [] b = b"
  "waits_after (x # xs) b = waits_after xs (wait_step x b)"
  "waits_after (xs @ ys) b = waits_after ys (waits_after xs b)"
  by (simp_all add: waits_after_def)

lemma lc_prepare_waits [simp]: "waits_after (fst (lc_prepare s)) b = b"
proof -
  have "waits_after (map Storage_call calls) b = b" for calls
    by (induction calls) simp_all
  then show ?thesis
    by (simp add: lc_prepare_def case_prod_beta)
qed

lemma abandon_waits [simp]: "waits_after (fst (snd (abandon st calls s))) b = waits_after calls b"
  by (simp add: abandon_def case_prod_beta)

lemma reopen_waits [simp]: "waits_after (fst (snd (reopen a s))) b = b"
  by (simp add: reopen_def Let_def case_prod_beta)

lemma reopen_or_fail_waits [simp]:
  "waits_after (fst (snd (reopen_or_fail a calls s))) b = waits_after calls b"
  by (simp add: reopen_or_fail_def Let_def case_prod_beta finish_def)

lemma receive_waits [simp]: "waits_after (fst (snd (process_receive_event t s))) b = b"
  by (simp add: process_receive_event_def Let_def)

lemma turn_process_waits:
  "waits_after calls b \<noteq> None \<Longrightarrow> waits_after (fst (snd (turn_process t calls s))) b = Some False"
  by (auto simp: turn_process_def Let_def case_prod_beta finish_def split: co_reset.split)

lemma turn_check_waits:
  "waits_after calls b \<noteq> None \<Longrightarrow> waits_after (fst (snd (turn_check deadline t calls s))) b = Some False"
  by (auto simp: turn_check_def Let_def finish_def turn_process_waits)

lemma run_turn_waits: "waits_after (fst (snd (run_turn deadline t s))) (Some False) = Some False"
  by (simp add: run_turn_def Let_def finish_def turn_check_waits split: option.split)

text \<open>How often a turn waits for events and lets CANopenNode process.\<close>

lemma lc_prepare_counts [simp]:
  "count_list (fst (lc_prepare s)) Epoll_wait = 0" "count_list (fst (lc_prepare s)) Epoll_process_main = 0"
proof -
  have "count_list (map Storage_call calls) Epoll_wait = 0 \<and>
      count_list (map Storage_call calls) Epoll_process_main = 0" for calls
    by (induction calls) simp_all
  then show "count_list (fst (lc_prepare s)) Epoll_wait = 0"
    "count_list (fst (lc_prepare s)) Epoll_process_main = 0"
    by (simp_all add: lc_prepare_def case_prod_beta)
qed

lemma abandon_counts [simp]:
  "count_list (fst (snd (abandon st calls s))) Epoll_wait = count_list calls Epoll_wait"
  "count_list (fst (snd (abandon st calls s))) Epoll_process_main = count_list calls Epoll_process_main"
  by (simp_all add: abandon_def case_prod_beta)

lemma reopen_counts [simp]:
  "count_list (fst (snd (reopen a s))) Epoll_wait = 0"
  "count_list (fst (snd (reopen a s))) Epoll_process_main = 0"
  by (simp_all add: reopen_def Let_def case_prod_beta)

lemma reopen_or_fail_counts [simp]:
  "count_list (fst (snd (reopen_or_fail a calls s))) Epoll_wait = count_list calls Epoll_wait"
  "count_list (fst (snd (reopen_or_fail a calls s))) Epoll_process_main = count_list calls Epoll_process_main"
  by (simp_all add: reopen_or_fail_def Let_def case_prod_beta finish_def)

lemma receive_counts [simp]:
  "count_list (fst (snd (process_receive_event t s))) Epoll_wait = 0"
  "count_list (fst (snd (process_receive_event t s))) Epoll_process_main = 0"
  by (simp_all add: process_receive_event_def Let_def)

lemma turn_process_waits_count [simp]:
  "count_list (fst (snd (turn_process t calls s))) Epoll_wait = count_list calls Epoll_wait"
  by (simp add: turn_process_def Let_def case_prod_beta finish_def split: co_reset.split)

lemma turn_process_main_count:
  "count_list calls Epoll_process_main = 0 \<Longrightarrow>
   count_list (fst (snd (turn_process t calls s))) Epoll_process_main \<le> Suc 0"
  by (simp add: turn_process_def Let_def case_prod_beta finish_def split: co_reset.split)

lemma turn_check_waits_count [simp]:
  "count_list (fst (snd (turn_check deadline t calls s))) Epoll_wait = count_list calls Epoll_wait"
  by (simp add: turn_check_def Let_def finish_def)

lemma turn_check_main_count:
  "count_list calls Epoll_process_main = 0 \<Longrightarrow>
   count_list (fst (snd (turn_check deadline t calls s))) Epoll_process_main \<le>
     (if ta_after_wait t < deadline then 1 else 0)"
  by (simp add: turn_check_def Let_def finish_def turn_process_main_count)

lemma run_turn_waits_count:
  "count_list (fst (snd (run_turn deadline t s))) Epoll_wait \<le> (if ta_start t < deadline then 1 else 0)"
  by (simp add: run_turn_def Let_def finish_def split: option.split)

lemma run_turn_main_count:
  "count_list (fst (snd (run_turn deadline t s))) Epoll_process_main \<le>
     (if ta_start t < deadline \<and> ta_after_wait t < deadline then 1 else 0)"
proof -
  have "count_list (fst (snd (turn_check deadline t [Epoll_wait, Epoll_process_last, Consume_signal] s'))) Epoll_process_main \<le>
      (if ta_after_wait t < deadline then 1 else 0)"
    "count_list (fst (snd (turn_check deadline t [Epoll_wait] s'))) Epoll_process_main \<le>
      (if ta_after_wait t < deadline then 1 else 0)" for s'
    by (rule turn_check_main_count; simp)+
  then show ?thesis
    by (cases "ta_after_wait t < deadline") (simp_all add: run_turn_def Let_def finish_def split: option.split)
qed

lemma turn_check_goes_on: "fst (turn_check deadline t calls s) = None \<Longrightarrow> ta_after_wait t < deadline"
  by (simp add: turn_check_def finish_def split: if_splits)

lemma run_turn_goes_on:
  "fst (run_turn deadline t s) = None \<Longrightarrow> ta_start t < deadline \<and> ta_after_wait t < deadline"
  by (auto simp: run_turn_def finish_def Let_def dest!: turn_check_goes_on split: if_splits option.splits)

text \<open>The descriptor of the termination signals does not change.\<close>

lemma abandon_termination [simp]:
  "lc_termination_fd (snd (snd (abandon st calls s))) = lc_termination_fd s"
  by (simp add: abandon_def case_prod_beta)

lemma reopen_termination [simp]: "lc_termination_fd (snd (snd (reopen a s))) = lc_termination_fd s"
  unfolding reopen_def Let_def case_prod_beta
  by (simp add: if_distrib [of snd] if_distrib [of lc_termination_fd] split del: if_split cong: if_cong)

lemma reopen_or_fail_termination [simp]:
  "lc_termination_fd (snd (snd (reopen_or_fail a calls s))) = lc_termination_fd s"
  by (simp add: reopen_or_fail_def Let_def case_prod_beta finish_def)

lemma receive_termination [simp]:
  "lc_termination_fd (snd (snd (process_receive_event t s))) = lc_termination_fd s"
  by (simp add: process_receive_event_def Let_def)

lemma turn_process_termination [simp]:
  "lc_termination_fd (snd (snd (turn_process t calls s))) = lc_termination_fd s"
  by (simp add: turn_process_def Let_def case_prod_beta finish_def split: co_reset.split)

lemma turn_check_termination [simp]:
  "lc_termination_fd (snd (snd (turn_check deadline t calls s))) = lc_termination_fd s"
  by (simp add: turn_check_def Let_def finish_def)

lemma run_turn_termination [simp]:
  "lc_termination_fd (snd (snd (run_turn deadline t s))) = lc_termination_fd s"
  by (simp add: run_turn_def Let_def finish_def split: option.split)

text \<open>Why a turn may end a run without an error: a signal was announced on its descriptor and consumed last.\<close>

definition signalled :: "int \<Rightarrow> turn_answers \<Rightarrow> lifecycle_call list \<Rightarrow> int \<Rightarrow> bool" where
  "signalled fd t calls sig \<longleftrightarrow>
     ta_epoll_new t \<and> ta_event_fd t = fd \<and> outcome_value (ta_signal t) = Some sig \<and>
     (\<exists>before. calls = before @ [Consume_signal])"

fun exit_reason :: "time_ns \<Rightarrow> int \<Rightarrow> turn_answers \<Rightarrow> lifecycle_call list \<Rightarrow> lifecycle_exit \<Rightarrow> bool" where
  "exit_reason deadline fd t calls Exit_deadline \<longleftrightarrow> deadline \<le> ta_start t \<or> deadline \<le> ta_after_wait t"
| "exit_reason deadline fd t calls Exit_sigint \<longleftrightarrow> signalled fd t calls SIGINT"
| "exit_reason deadline fd t calls Exit_sigterm \<longleftrightarrow> signalled fd t calls SIGTERM"
| "exit_reason deadline fd t calls Exit_application_reset \<longleftrightarrow>
     ta_after_wait t < deadline \<and> ta_reset t = Co_reset_app"
| "exit_reason deadline fd t calls Exit_quit \<longleftrightarrow> ta_after_wait t < deadline \<and> ta_reset t = Co_reset_quit"

lemma exit_reason_append: "exit_reason deadline fd t calls e \<Longrightarrow> exit_reason deadline fd t (earlier @ calls) e"
  by (cases e) (auto simp: signalled_def)

definition justified :: "time_ns \<Rightarrow> int \<Rightarrow> turn_answers \<Rightarrow> turn_result \<Rightarrow> bool" where
  "justified deadline fd t r \<longleftrightarrow>
     (case Option.bind (fst r) outcome_value of None \<Rightarrow> True
      | Some e \<Rightarrow> exit_reason deadline fd t (fst (snd r)) e)"

lemma justified_simps [simp]:
  "justified deadline fd t (None, calls, s)"
  "justified deadline fd t (Some (outcome_failure st), calls, s)"
  "justified deadline fd t (Some (outcome_success e), calls, s) = exit_reason deadline fd t calls e"
  by (simp_all add: justified_def)

lemma reopen_or_fail_justified [simp]: "justified deadline fd t (reopen_or_fail a calls s)"
  by (simp add: reopen_or_fail_def finish_def Let_def case_prod_beta)

lemma turn_process_justified: "ta_after_wait t < deadline \<Longrightarrow> justified deadline fd t (turn_process t calls s)"
  by (simp add: turn_process_def finish_def Let_def case_prod_beta split: co_reset.split)

lemma turn_check_justified: "justified deadline fd t (turn_check deadline t calls s)"
  by (simp add: turn_check_def turn_process_justified finish_def Let_def)

lemma run_turn_justified: "justified deadline (lc_termination_fd s) t (run_turn deadline t s)"
  by (auto simp: run_turn_def turn_check_justified finish_def signalled_def Let_def split: option.split)

lemma run_turn_deadline: "deadline \<le> ta_start t \<Longrightarrow> fst (run_turn deadline t s) \<noteq> None"
  by (simp add: run_turn_def finish_def)

text \<open>The turn that ends a run, after turns that did not.\<close>

definition ended_by :: "time_ns \<Rightarrow> turn_answers list \<Rightarrow> lifecycle \<Rightarrow> lifecycle_exit \<Rightarrow> bool" where
  "ended_by deadline turns s e \<longleftrightarrow>
     (\<exists>past t later. turns = past @ t # later \<and> fst (run_until deadline past s) = None \<and>
        exit_reason deadline (lc_termination_fd s) t (fst (snd (run_until deadline turns s))) e)"

lemma ended_by_Cons:
  assumes "fst (run_turn deadline t s) = None" and "ended_by deadline ts (snd (snd (run_turn deadline t s))) e"
  shows "ended_by deadline (t # ts) s e"
proof -
  from assms(2) obtain past t' later where
    "ts = past @ t' # later" "fst (run_until deadline past (snd (snd (run_turn deadline t s)))) = None"
    "exit_reason deadline (lc_termination_fd s) t'
      (fst (snd (run_until deadline ts (snd (snd (run_turn deadline t s)))))) e"
    unfolding ended_by_def by auto
  with assms(1) exit_reason_append show ?thesis
    unfolding ended_by_def
    by (intro exI [of _ "t # past"] exI [of _ t'] exI [of _ later]) (simp add: case_prod_beta Let_def)
qed

lemma run_until_reasons:
  "(list_ex (\<lambda>t. deadline \<le> ta_start t) turns \<longrightarrow> fst (run_until deadline turns s) \<noteq> None) \<and>
   (\<forall>r e. fst (run_until deadline turns s) = Some r \<longrightarrow> outcome_value r = Some e \<longrightarrow> ended_by deadline turns s e) \<and>
   waits_after (fst (snd (run_until deadline turns s))) (Some False) = Some False"
proof (induction turns arbitrary: s)
  case Nil
  show ?case
    by simp
next
  case (Cons t ts)
  let ?r = "run_turn deadline t s"
  show ?case
  proof (cases "fst ?r = None")
    case True
    then have "\<not> deadline \<le> ta_start t"
      using run_turn_deadline by blast
    with True Cons.IH [of "snd (snd ?r)"] ended_by_Cons [OF True] run_turn_waits [of deadline t s] show ?thesis
      by (simp add: case_prod_beta Let_def)
  next
    case False
    then have here: "run_until deadline (t # ts) s = ?r"
      by (simp add: case_prod_beta Let_def)
    have "ended_by deadline (t # ts) s e" if "fst ?r = Some r" "outcome_value r = Some e" for r e
      using run_turn_justified [of deadline s t] that
      unfolding ended_by_def here by (intro exI [of _ "[]"] exI [of _ t] exI [of _ ts]) (simp add: justified_def)
    with False run_turn_waits [of deadline t s] show ?thesis
      unfolding here by auto
  qed
qed

lemma run_until_counts:
  "count_list (fst (snd (run_until deadline turns s))) Epoll_wait \<le>
     length (takeWhile (\<lambda>t. ta_start t < deadline) turns)"
  "count_list (fst (snd (run_until deadline turns s))) Epoll_process_main \<le>
     length (takeWhile (\<lambda>t. ta_start t < deadline \<and> ta_after_wait t < deadline) turns)"
proof -
  have "count_list (fst (snd (run_until deadline turns s))) Epoll_wait \<le>
       length (takeWhile (\<lambda>t. ta_start t < deadline) turns) \<and>
     count_list (fst (snd (run_until deadline turns s))) Epoll_process_main \<le>
       length (takeWhile (\<lambda>t. ta_start t < deadline \<and> ta_after_wait t < deadline) turns)"
  proof (induction turns arbitrary: s)
    case (Cons t ts)
    note here = run_turn_waits_count [of deadline t s] run_turn_main_count [of deadline t s]
    show ?case
    proof (cases "fst (run_turn deadline t s) = None")
      case True
      with run_turn_goes_on [OF True] Cons.IH [of "snd (snd (run_turn deadline t s))"] here show ?thesis
        by (simp add: case_prod_beta Let_def)
    next
      case False
      then have "run_until deadline (t # ts) s = run_turn deadline t s"
        by (simp add: case_prod_beta Let_def)
      with here show ?thesis
        by (cases "ta_start t < deadline"; cases "ta_after_wait t < deadline") simp_all
    qed
  qed simp
  then show "count_list (fst (snd (run_until deadline turns s))) Epoll_wait \<le>
       length (takeWhile (\<lambda>t. ta_start t < deadline) turns)"
    "count_list (fst (snd (run_until deadline turns s))) Epoll_process_main \<le>
       length (takeWhile (\<lambda>t. ta_start t < deadline \<and> ta_after_wait t < deadline) turns)"
    by simp_all
qed

text \<open>
  C32: A run of the loop returns by its deadline.  As soon as a turn starts at or after the deadline it
  returns; it waits for events at most once in each turn up to the first that starts too late, and
  lets CANopenNode process at most once in each turn up to the first that starts or wakes up too
  late.  A run that returns without an error has a reason in the turn that ended it: the clock
  reached the deadline, a signal was announced on the descriptor of the termination event and its
  consumption was the last call, or CANopenNode asked for the reset before the deadline.  In
  every run, every wait for events is concluded before the next one and before the return.
\<close>

theorem run_until_returns:
  "(list_ex (\<lambda>t. deadline \<le> ta_start t) turns \<longrightarrow> fst (run_until deadline turns s) \<noteq> None) \<and>
   count_list (fst (snd (run_until deadline turns s))) Epoll_wait \<le>
     length (takeWhile (\<lambda>t. ta_start t < deadline) turns) \<and>
   count_list (fst (snd (run_until deadline turns s))) Epoll_process_main \<le>
     length (takeWhile (\<lambda>t. ta_start t < deadline \<and> ta_after_wait t < deadline) turns) \<and>
   (\<forall>r e. fst (run_until deadline turns s) = Some r \<longrightarrow> outcome_value r = Some e \<longrightarrow>
      (\<exists>past t later. turns = past @ t # later \<and> fst (run_until deadline past s) = None \<and>
         exit_reason deadline (lc_termination_fd s) t (fst (snd (run_until deadline turns s))) e)) \<and>
   waits_after (fst (snd (run_until deadline turns s))) (Some False) = Some False"
  using run_until_reasons [of deadline turns s] run_until_counts [of deadline turns s]
  unfolding ended_by_def by blast

section \<open>Where observations come from\<close>

text \<open>
  The receive event of a turn: the event is an input event of the one CAN socket, a whole frame was
  peeked, CANopenNode took its frame from this event, and what it took is the peeked frame, unless
  that is an error frame or matched none of its receive buffers.
\<close>

definition frame_taken :: "turn_answers \<Rightarrow> bool" where
  "frame_taken t \<longleftrightarrow>
     ta_epoll_new t \<and> length (ta_interfaces t) = 1 \<and> ta_event_fd t = hd (ta_interfaces t) \<and>
     ta_events t AND EPOLLIN \<noteq> 0 \<and> ta_recv_count t = 16 \<and> ta_rx_matched t \<and>
     (can_id (ta_peeked t) AND CAN_ERR_FLAG = 0 \<longrightarrow>
        ta_rx_index t \<noteq> unset_index \<and> (0 \<le> ta_rx_index t \<longrightarrow> same_frame (ta_peeked t) (ta_rx_message t)))"

definition turn_event :: "turn_answers \<Rightarrow> store_event \<Rightarrow> bool" where
  "turn_event t e \<longleftrightarrow>
     (case e of
        Begin_transport \<Rightarrow> True
      | Advance_time now \<Rightarrow> True
      | Ingest f at \<Rightarrow> frame_taken t \<and> at = ta_receive_time t \<and> f = raw_frame (ta_peeked t) at (rf_generation f)
      | _ \<Rightarrow> False)"

text \<open>The store of the second state has the history of the first, continued by events of these turns.\<close>

definition observes :: "turn_answers set \<Rightarrow> lifecycle \<Rightarrow> lifecycle \<Rightarrow> bool" where
  "observes turns s s' \<longleftrightarrow>
     (\<exists>events. lc_observations s' = foldr apply_event events (lc_observations s) \<and>
        (\<forall>e \<in> set events. \<exists>t \<in> turns. turn_event t e))"

lemma observes_same: "lc_observations s' = lc_observations s \<Longrightarrow> observes turns s s'"
  unfolding observes_def by (intro exI [of _ "[]"]) simp

lemma observes_event:
  "turn_event t e \<Longrightarrow> t \<in> turns \<Longrightarrow> lc_observations s' = apply_event e (lc_observations s) \<Longrightarrow>
   observes turns s s'"
  unfolding observes_def by (intro exI [of _ "[e]"]) auto

lemma observes_trans: "observes turns s s' \<Longrightarrow> observes turns s' s'' \<Longrightarrow> observes turns s s''"
proof -
  assume "observes turns s s'" "observes turns s' s''"
  then obtain es es' where
    "lc_observations s' = foldr apply_event es (lc_observations s)"
    "\<forall>e \<in> set es. \<exists>t \<in> turns. turn_event t e"
    "lc_observations s'' = foldr apply_event es' (lc_observations s')"
    "\<forall>e \<in> set es'. \<exists>t \<in> turns. turn_event t e"
    unfolding observes_def by blast
  then show "observes turns s s''"
    unfolding observes_def by (intro exI [of _ "es' @ es"]) auto
qed

lemma observes_mono: "observes turns s s' \<Longrightarrow> turns \<subseteq> turns' \<Longrightarrow> observes turns' s s'"
  unfolding observes_def by blast

lemma abandon_observations [simp]:
  "lc_observations (snd (snd (abandon st calls s))) = lc_observations s"
  by (simp add: abandon_def case_prod_beta)

lemma reopen_observations [simp]:
  "lc_observations (snd (snd (reopen a s))) = begin_transport (lc_observations s)"
  unfolding reopen_def Let_def case_prod_beta
  by (simp add: if_distrib [of snd] if_distrib [of lc_observations] split del: if_split cong: if_cong)

lemma reopen_or_fail_observes: "t \<in> turns \<Longrightarrow> observes turns s (snd (snd (reopen_or_fail a calls s)))"
  by (rule observes_event [of t Begin_transport])
    (simp_all add: turn_event_def reopen_or_fail_def case_prod_beta Let_def finish_def)

text \<open>The event that the state holds is the one of the turn, or has been dealt with.\<close>

definition event_of :: "turn_answers \<Rightarrow> lifecycle \<Rightarrow> bool" where
  "event_of t s \<longleftrightarrow>
     (lc_epoll_new s \<longrightarrow> ta_epoll_new t) \<and> lc_ev_fd s = ta_event_fd t \<and> lc_ev_events s = ta_events t"

lemma receive_observes:
  assumes "t \<in> turns" and "event_of t s"
  shows "observes turns s (snd (snd (process_receive_event t s)))"
proof -
  let ?f = "raw_frame (ta_peeked t) (ta_receive_time t) (ob_generation (lc_observations s))"
  have "lc_observations (snd (snd (process_receive_event t s))) = lc_observations s \<or>
      frame_taken t \<and> lc_observations (snd (snd (process_receive_event t s))) =
        apply_event (Ingest ?f (ta_receive_time t)) (lc_observations s)"
    using assms(2) by (auto simp: process_receive_event_def Let_def frame_taken_def from_interface_def event_of_def)
  moreover have "turn_event t (Ingest ?f (ta_receive_time t))" if "frame_taken t"
    using that by (simp add: turn_event_def raw_frame_def)
  ultimately show ?thesis
    using assms(1) observes_same observes_event by blast
qed

lemma turn_process_observes:
  assumes "t \<in> turns" and "event_of t s"
  shows "observes turns s (snd (snd (turn_process t calls s)))"
proof -
  let ?s1 = "snd (snd (process_receive_event t s))"
  let ?s2 = "observe (advance_time (ta_advance_time t)) ?s1"
  have "observes turns ?s1 ?s2"
    using assms(1) by (intro observes_event [of t "Advance_time (ta_advance_time t)"]) (simp_all add: turn_event_def)
  then have s2: "observes turns s ?s2"
    using receive_observes [OF assms] observes_trans by blast
  then have "observes turns s (snd (snd (reopen_or_fail (ta_reopen t) cs ?s2)))" for cs
    using reopen_or_fail_observes [OF assms(1)] observes_trans by blast
  with s2 receive_observes [OF assms] show ?thesis
    by (simp add: turn_process_def Let_def case_prod_beta finish_def split: co_reset.split)
qed

lemma observes_source:
  "lc_observations s0 = lc_observations s \<Longrightarrow> observes turns s0 s' = observes turns s s'"
  by (simp add: observes_def)

lemma turn_check_observes:
  assumes "t \<in> turns" and "event_of t s"
  shows "observes turns s (snd (snd (turn_check deadline t calls s)))"
proof -
  have "observes turns s (snd (snd (reopen_or_fail (ta_reopen t) cs s0)))"
    if "lc_observations s0 = lc_observations s" for cs s0
    using reopen_or_fail_observes [OF assms(1)] observes_source [OF that] by blast
  moreover have "observes turns s (snd (snd (turn_process t cs s0)))"
    if "lc_observations s0 = lc_observations s" "event_of t s0" for cs s0
    using turn_process_observes [OF assms(1) that(2)] observes_source [OF that(1)] by blast
  moreover have "event_of t (s\<lparr>lc_next_check := n\<rparr>)" for n
    using assms(2) by (simp add: event_of_def)
  moreover have "observes turns s s"
    by (rule observes_same) simp
  ultimately show ?thesis
    using assms(2) by (simp add: turn_check_def Let_def finish_def)
qed

lemma run_turn_observes:
  assumes "t \<in> turns"
  shows "observes turns s (snd (snd (run_turn deadline t s)))"
proof -
  have "observes turns s (snd (snd (turn_check deadline t cs s0)))"
    if "lc_observations s0 = lc_observations s" "event_of t s0" for cs s0
    using turn_check_observes [OF assms that(2)] observes_source [OF that(1)] by blast
  moreover have "observes turns s s0" if "lc_observations s0 = lc_observations s" for s0
    using observes_same [OF that] .
  ultimately show ?thesis
    by (simp add: run_turn_def Let_def finish_def event_of_def split: option.split)
qed

lemma run_until_observes: "observes (set turns) s (snd (snd (run_until deadline turns s)))"
proof (induction turns arbitrary: s)
  case Nil
  show ?case
    by (rule observes_same) simp
next
  case (Cons t ts)
  let ?s1 = "snd (snd (run_turn deadline t s))"
  have first: "observes (set (t # ts)) s ?s1"
    by (rule run_turn_observes) simp
  moreover have "observes (set (t # ts)) ?s1 (snd (snd (run_until deadline ts ?s1)))"
    using Cons.IH by (rule observes_mono) auto
  ultimately have "observes (set (t # ts)) s (snd (snd (run_until deadline ts ?s1)))"
    by (rule observes_trans)
  with first show ?case
    by (simp add: case_prod_beta Let_def)
qed

text \<open>Several runs, each with its deadline, on the same owner.\<close>

fun run_all :: "(time_ns \<times> turn_answers list) list \<Rightarrow> lifecycle \<Rightarrow> lifecycle" where
  "run_all [] s = s"
| "run_all ((deadline, turns) # rs) s = run_all rs (snd (snd (run_until deadline turns s)))"

definition all_turns :: "(time_ns \<times> turn_answers list) list \<Rightarrow> turn_answers set" where
  "all_turns runs = set (concat (map snd runs))"

lemma run_all_observes: "observes (all_turns runs) s (run_all runs s)"
proof (induction runs arbitrary: s)
  case Nil
  show ?case
    by (rule observes_same) simp
next
  case (Cons r rs)
  obtain deadline turns where r: "r = (deadline, turns)"
    by (cases r)
  let ?s1 = "snd (snd (run_until deadline turns s))"
  have "observes (all_turns (r # rs)) s ?s1"
    using run_until_observes by (rule observes_mono) (auto simp: r all_turns_def)
  moreover have "observes (all_turns (r # rs)) ?s1 (run_all rs ?s1)"
    using Cons.IH by (rule observes_mono) (auto simp: all_turns_def)
  ultimately show ?case
    using observes_trans by (simp add: r)
qed

section \<open>Creation\<close>

lemma opened_lifecycle_ok:
  "lifecycle_ok (s\<lparr>lc_epoll_fd := a, lc_event_fd := b, lc_timer_fd := d\<rparr>) = lifecycle_ok s"
  by (simp add: lifecycle_ok_def)

lemma new_lifecycle_simps [simp]:
  "lc_storage (new_lifecycle ow term p) = ow" "lc_process (new_lifecycle ow term p) = p"
  "lc_observations (new_lifecycle ow term p) = observation_store_create (owner_config ow)"
  "lc_config (new_lifecycle ow term p) = owner_config ow"
  by (simp_all add: new_lifecycle_def lc_config_def)

lemma storage_calls_closed: "communication_after (map Storage_call calls) False = False"
proof -
  have "\<not> communication_after (map Storage_call calls) False"
  proof (induction calls)
    case (Cons x xs)
    then show ?case
      by (cases x) simp_all
  qed simp
  then show ?thesis
    by simp
qed

lemma storage_destroy_process:
  "stack_claim (snd (storage_destroy ow p)) = False"
  by (simp add: storage_destroy_def)

lemma discard_closed:
  assumes "lifecycle_ok s"
  shows "fst (discard st calls s) = outcome_failure st"
    and "communication_after (fst (snd (discard st calls s))) b = False"
    and "\<not> stack_claim (snd (snd (discard st calls s)))"
  using assms owner_stack_Some [OF assms] lc_prepare_ok [OF assms]
  by (simp_all add: discard_def lifecycle_destroy_def Let_def case_prod_beta storage_destroy_def)

lemma lc_prepare_claim [simp]: "stack_claim (lc_process (snd (lc_prepare s))) = stack_claim (lc_process s)"
  by (simp add: lc_prepare_def case_prod_beta prepare_communication_reset_def
      apply_receive_configuration_def reset_generated_dictionary_def clear_extensions_def Let_def)

lemma reopen_claim: "stack_claim (lc_process (snd (snd (reopen a s)))) = stack_claim (lc_process s)"
  by (simp add: reopen_def abandon_def Let_def case_prod_beta)

lemma lifecycle_create_result:
  assumes "reset_source_ok p" and "errno_reported (ca_reopen a)" and "ca_epoll_ctl a \<noteq> Some 0"
    and "lifecycle_create a c termination p = (r, calls, p')"
  shows "(case outcome_value r of
       Some s \<Rightarrow> opening_succeeds (ca_reopen a) \<and> stack_claim p' \<and> \<not> stack_claim p \<and>
         lifecycle_ok s \<and> lc_config s = c \<and> lc_process s = p' \<and> programmed c p' \<and>
         lc_observations s = store_after c [Begin_transport]
     | None \<Rightarrow> \<not> communication_after calls False \<and>
         (if stack_claim p then p' = p else \<not> stack_claim p'))"
proof -
  obtain sr created p1 where sc:
    "storage_create (ca_storage_allocated a) (ca_co_new a) c p = (sr, created, p1)"
    by (cases "storage_create (ca_storage_allocated a) (ca_co_new a) c p") auto
  from sc assms(1) show ?thesis
  proof (cases rule: storage_create_cases)
    case refused
    with sc assms(4) show ?thesis
      by (auto simp: lifecycle_create_def Let_def)
  next
    case no_stack
    with sc assms(4) show ?thesis
      by (auto simp: lifecycle_create_def Let_def storage_calls_closed)
  next
    case (created owner)
    obtain epoll event timer where fds: "ca_epoll_fds a = (epoll, event, timer)"
      by (cases "ca_epoll_fds a")
    let ?s = "(new_lifecycle owner termination p1)
      \<lparr>lc_epoll_fd := epoll, lc_event_fd := event, lc_timer_fd := timer\<rparr>"
    let ?r = "reopen (ca_reopen a) ?s"
    have ok: "lifecycle_ok ?s"
      using created by (simp add: opened_lifecycle_ok lifecycle_ok_def)
    have cfg: "lc_config ?s = c"
      using created by (simp add: lc_config_def new_lifecycle_def)
    have opened: "status_ok (fst ?r) = opening_succeeds (ca_reopen a)"
        "programmed c (lc_process (snd (snd ?r)))" "lifecycle_ok (snd (snd ?r))"
        "lc_observations (snd (snd ?r)) = store_after c [Begin_transport]"
        "lc_config (snd (snd ?r)) = c"
      using reopen_result [OF ok assms(2)] cfg created by (simp_all add: lc_config_def)
    have failed: ?thesis
      if "(r, calls, p') = discard st cs s" "lifecycle_ok s" for st cs s
      using discard_closed [OF that(2), of st cs] that(1) created(2)
      by (metis (no_types, lifting) fst_conv option.simps(4) outcome_simps(4) snd_conv)
    show ?thesis
    proof (cases "ca_allocated a \<and> ca_epoll a = Co_error_no \<and> ca_epoll_ctl a = None \<and>
        opening_succeeds (ca_reopen a)")
      case True
      with sc created fds assms(4) opened(1)
      have "r = outcome_success (snd (snd ?r))" "p' = lc_process (snd (snd ?r))"
        by (auto simp: lifecycle_create_def Let_def case_prod_beta)
      moreover have "stack_claim (lc_process (snd (snd ?r)))"
        using created by (simp add: reopen_claim)
      ultimately show ?thesis
        using True created opened by simp
    next
      case False
      show ?thesis
      proof (cases "ca_allocated a")
        case True
        then have run: "lifecycle_create a c termination p =
            (let calls = map Storage_call created @ [Epoll_create process_interval_us] in
             if ca_epoll a \<noteq> Co_error_no
             then discard (upstream_status ''CO_epoll_create'' c (ca_epoll a) 0 (ca_epoll_errno a)) calls ?s
             else let calls = calls @ [Epoll_ctl_add termination] in
             if ca_epoll_ctl a \<noteq> None
             then discard (from_errno ''epoll_ctl'' (lifecycle_context c @ '' resource=termination_signalfd'')
               (the (ca_epoll_ctl a))) calls ?s
             else if opening_succeeds (ca_reopen a)
             then (outcome_success (snd (snd ?r)), calls @ fst (snd ?r), lc_process (snd (snd ?r)))
             else discard (fst ?r) (calls @ fst (snd ?r)) (snd (snd ?r)))"
          using sc created fds opened(1)
          by (simp add: lifecycle_create_def Let_def case_prod_beta)
        have discarded: "\<exists>st' cs' s'. discard st cs s = discard st' cs' s' \<and> lifecycle_ok s'"
          if "lifecycle_ok s" for st cs s
          using that by blast
        have "\<exists>st cs s. (r, calls, p') = discard st cs s \<and> lifecycle_ok s"
          unfolding assms(4) [symmetric] run Let_def
          using True False
          by (cases "ca_epoll a = Co_error_no"; cases "ca_epoll_ctl a = None")
            (simp_all add: discarded [OF ok] discarded [OF opened(3)])
        with failed show ?thesis
          by blast
      next
        case unallocated: False
        with sc created assms(4) show ?thesis
          by (auto simp: lifecycle_create_def Let_def case_prod_beta storage_destroy_def
              storage_calls_closed)
      qed
    qed
  qed
qed

text \<open>
  C33: Creating the owner is all or nothing too.  On success the communication was opened, the
  process-wide claim is held and the owner has observed nothing but the beginning of its
  transport.  On failure, whichever step failed, the CAN module is closed, and the claim is free
  unless another owner held it before, in which case the process is untouched.
\<close>

theorem lifecycle_create_all_or_nothing:
  assumes "reset_source_ok p" and "errno_reported (ca_reopen a)" and "ca_epoll_ctl a \<noteq> Some 0"
    and "lifecycle_create a c termination p = (r, calls, p')"
  shows "(case outcome_value r of
       Some s \<Rightarrow> opening_succeeds (ca_reopen a) \<and> stack_claim p' \<and> \<not> stack_claim p \<and>
         lifecycle_ok s \<and> lc_config s = c \<and> lc_process s = p' \<and> programmed c p' \<and>
         lc_observations s = store_after c [Begin_transport]
     | None \<Rightarrow> \<not> communication_after calls False \<and>
         (if stack_claim p then p' = p else \<not> stack_claim p'))"
  using assms by (rule lifecycle_create_result)

section \<open>What a reader of the owner may conclude\<close>

definition observation_snapshot_of :: "time_ns \<Rightarrow> lifecycle \<Rightarrow> observation_snapshot" where
  "observation_snapshot_of now s = take_snapshot now (lc_observations s)"

lemma store_after_append: "foldr apply_event events (store_after c past) = store_after c (events @ past)"
  by (induction events) simp_all

lemma run_all_history:
  assumes "lc_observations s = store_after c [Begin_transport]"
  shows "\<exists>events. lc_observations (run_all runs s) = store_after c events \<and>
    ingested events \<subseteq> {f. \<exists>t \<in> all_turns runs. frame_taken t \<and> f = raw_frame (ta_peeked t) (ta_receive_time t) (rf_generation f)}"
proof -
  obtain events where ev: "lc_observations (run_all runs s) = foldr apply_event events (lc_observations s)"
      "\<forall>e \<in> set events. \<exists>t \<in> all_turns runs. turn_event t e"
    using run_all_observes unfolding observes_def by blast
  have "ingested (events @ [Begin_transport]) \<subseteq>
      {f. \<exists>t \<in> all_turns runs. frame_taken t \<and> f = raw_frame (ta_peeked t) (ta_receive_time t) (rf_generation f)}"
  proof
    fix f
    assume "f \<in> ingested (events @ [Begin_transport])"
    then obtain now where "Ingest f now \<in> set events"
      by (auto simp: ingested_def)
    with ev(2) obtain t where "t \<in> all_turns runs" "turn_event t (Ingest f now)"
      by blast
    then show "f \<in> {f. \<exists>t \<in> all_turns runs. frame_taken t \<and> f = raw_frame (ta_peeked t) (ta_receive_time t) (rf_generation f)}"
      by (auto simp: turn_event_def)
  qed
  moreover have "lc_observations (run_all runs s) = store_after c (events @ [Begin_transport])"
    unfolding ev(1) assms by (rule store_after_append)
  ultimately show ?thesis
    by blast
qed

text \<open>A frame that a turn took from the socket, for a reader at an instant, under a timeout.\<close>

definition trusted :: "turn_answers set \<Rightarrow> u8 \<Rightarrow> u32 \<Rightarrow> u8 \<Rightarrow> int \<Rightarrow> time_ns \<Rightarrow> observation_generation \<Rightarrow>
    frame_observation \<Rightarrow> bool" where
  "trusted turns node base dlc timeout now gen ob \<longleftrightarrow>
     (\<exists>t \<in> turns. frame_taken t \<and> fo_raw ob = raw_frame (ta_peeked t) (ta_receive_time t) gen \<and>
        can_id (ta_peeked t) AND (CAN_EFF_FLAG OR CAN_RTR_FLAG) = 0 \<and>
        can_id (ta_peeked t) AND CAN_SFF_MASK = base + ucast node \<and> can_len (ta_peeked t) = dlc \<and>
        ta_receive_time t \<le> now \<and> now - ta_receive_time t \<le> ms_ns timeout)"

text \<open>
  C10: End to end, from the creation of the owner through any number of runs, with any answers of
  the kernel and of CANopenNode: a heartbeat or a process data object that a reader of the owner
  sees as current is a frame that some turn of the loop took from the socket: the turn had an input
  event of the one CAN socket, a whole frame was received, CANopenNode consumed it, and a frame
  that it stored is the same one.  The frame is from the configured remote node and has the expected
  length, it was received within its timeout before the reader's instant, in the generation the reader sees,
  and after the boot-up of the remote node; and no process data are current without a current
  heartbeat.
\<close>

theorem lifecycle_snapshot_trusted:
  fixes now :: time_ns and runs :: "(time_ns \<times> turn_answers list) list"
  assumes "reset_source_ok p" and "errno_reported (ca_reopen a)" and "ca_epoll_ctl a \<noteq> Some 0"
    and "lifecycle_create a c termination p = (outcome_success s, calls, p')"
  defines "v \<equiv> observation_snapshot_of now (run_all runs s)"
  shows "(fo_current (hb_frame (ob_heartbeat v)) \<longrightarrow>
       ob_boot_observed v \<and>
       trusted (all_turns runs) (remote_node_id c) 0x700 1 (heartbeat_timeout c) now (ob_generation v)
         (hb_frame (ob_heartbeat v))) \<and>
     (\<forall>i<4. fo_current (ob_tpdo v ! i) \<longrightarrow>
       fo_current (hb_frame (ob_heartbeat v)) \<and>
       trusted (all_turns runs) (remote_node_id c) (tpdo_bases ! i) (tpdo_expected_dlc c ! i)
         (tpdo_timeout c) now (ob_generation v) (ob_tpdo v ! i))"
proof -
  have "lc_observations s = store_after c [Begin_transport]"
    using lifecycle_create_result [OF assms(1-4)] by simp
  from run_all_history [OF this, of runs] obtain events where
    store: "lc_observations (run_all runs s) = store_after c events"
    and src: "ingested events \<subseteq>
      {f. \<exists>t \<in> all_turns runs. frame_taken t \<and> f = raw_frame (ta_peeked t) (ta_receive_time t) (rf_generation f)}"
    by blast
  let ?w = "take_snapshot now (store_after c events)" and ?s = "store_after c events"
  have v: "v = ?w"
    by (simp add: v_def observation_snapshot_of_def store)
  have trusted: "trusted (all_turns runs) (remote_node_id c) base dlc timeout now (ob_generation ?w) ob"
    if "fo_raw ob \<in> ingested events" "rf_generation (fo_raw ob) = ob_generation ?w"
      "standard_frame (remote_node_id c) base (fo_raw ob)" "rf_dlc (fo_raw ob) = dlc"
      "rf_received_at (fo_raw ob) \<le> now" "now - rf_received_at (fo_raw ob) \<le> ms_ns timeout"
    for base dlc timeout ob
  proof -
    from that(1,2) src obtain t where t: "t \<in> all_turns runs" "frame_taken t"
      "fo_raw ob = raw_frame (ta_peeked t) (ta_receive_time t) (ob_generation ?w)"
      by fastforce
    with that(3-6) show ?thesis
      unfolding trusted_def
      by (intro bexI [of _ t]) (simp_all add: raw_frame_def standard_frame_def standard_identifier_def)
  qed
  have hb: "fo_raw (hb_frame (ob_heartbeat ?w)) \<in> ingested events"
    if "fo_current (hb_frame (ob_heartbeat ?w))"
    using that heartbeat_source [of c events] by (simp add: fresh_def)
  have tpdo: "fo_raw (ob_tpdo ?w ! i) \<in> ingested events" if "i < 4" "fo_current (ob_tpdo ?w ! i)" for i
    using that tpdo_source [of c events i] store_inv_tpdos [OF store_inv_after, of c events]
    by (simp add: fresh_def)
  show ?thesis
    unfolding v
    by (intro conjI allI impI; (intro trusted)?)
      (use snapshot_current_facts [of now c events] hb tpdo in \<open>simp_all add: Let_def\<close>)
qed

section \<open>An example\<close>

definition example_opening :: reopen_answers where
  "example_opening =
     \<lparr>ra_index = 3, ra_index_errno = 0, ra_can_init = Co_error_no, ra_can_errno = 0, ra_interfaces = [7],
      ra_flags = Inr 1, ra_error_filter = None, ra_open_init = Co_error_no, ra_open_info = 0,
      ra_open_errno = 0, ra_pdo_init = Co_error_no, ra_pdo_info = 0, ra_pdo_errno = 0,
      ra_normal = True, ra_normal_errno = 0, ra_filters = None, ra_now = 0\<rparr>"

definition example_creation :: create_answers where
  "example_creation =
     \<lparr>ca_storage_allocated = True, ca_co_new = example_co_new, ca_allocated = True,
      ca_epoll = Co_error_no, ca_epoll_errno = 0, ca_epoll_fds = (4, 5, 6), ca_epoll_ctl = None,
      ca_reopen = example_opening\<rparr>"

lemma example_opening_ok: "errno_reported example_opening" "opening_succeeds example_opening"
  by (simp_all add: example_opening_def errno_reported_def opening_succeeds_def IFF_UP_def)

text \<open>The owner of the storage example, before it opens the communication.\<close>

definition example_unopened :: lifecycle where
  "example_unopened = (new_lifecycle (the (outcome_value (fst example_created))) 9 (snd (snd example_created)))
     \<lparr>lc_epoll_fd := 4, lc_event_fd := 5, lc_timer_fd := 6\<rparr>"

definition example_lifecycle :: lifecycle where
  "example_lifecycle = snd (snd (reopen example_opening example_unopened))"

lemma process_start_ok: "reset_source_ok process_start"
  by (simp add: reset_source_ok_def process_start_def od_list_without_extensions)

lemma example_unopened_ok:
  "lifecycle_ok example_unopened" "lc_config example_unopened = example_config"
proof -
  have "storage_create True example_co_new example_config process_start = example_created"
    by (simp add: example_created_def)
  then obtain r calls p where sc: "storage_create True example_co_new example_config process_start = (r, calls, p)"
      "example_created = (r, calls, p)"
    by (cases example_created) auto
  have "outcome_value r \<noteq> None"
    using example_created_value unfolding sc(2) by simp
  with sc(1) process_start_ok have "owner_ok (the (outcome_value r)) \<and> reset_source_ok p"
    by (auto elim: storage_create_cases)
  then show "lifecycle_ok example_unopened"
    by (simp add: example_unopened_def opened_lifecycle_ok lifecycle_ok_def sc(2))
  show "lc_config example_unopened = example_config"
    by (simp add: example_unopened_def new_lifecycle_def lc_config_def example_created_value)
qed

lemma example_lifecycle_created:
  "\<exists>calls. lifecycle_create example_creation example_config 9 process_start =
     (outcome_success example_lifecycle, calls, lc_process example_lifecycle)"
proof -
  have sc: "storage_create True example_co_new example_config process_start = example_created"
    by (simp add: example_created_def)
  have "status_ok (fst (reopen example_opening example_unopened))"
    using reopen_result [OF example_unopened_ok(1) example_opening_ok(1)] example_opening_ok(2) by simp
  then show ?thesis
    by (simp add: lifecycle_create_def example_creation_def sc case_prod_beta example_created_value
        example_lifecycle_def Let_def) (simp add: example_unopened_def example_created_value)
qed

theorem reopen_all_or_nothing_witness:
  "status_ok (fst (reopen example_opening example_unopened)) \<and>
   fst (snd (reopen example_opening example_unopened)) = opening_calls example_opening example_unopened \<and>
   programmed example_config (lc_process (snd (snd (reopen example_opening example_unopened))))"
  using reopen_all_or_nothing [OF example_unopened_ok(1) example_opening_ok(1)] example_opening_ok(2)
    example_unopened_ok(2) by simp

lemma example_creation_simps:
  "ca_epoll_ctl example_creation = None" "ca_reopen example_creation = example_opening"
  by (simp_all add: example_creation_def)

theorem lifecycle_create_all_or_nothing_witness:
  "lc_observations example_lifecycle = store_after example_config [Begin_transport] \<and>
   programmed example_config (lc_process example_lifecycle)"
proof -
  from example_lifecycle_created obtain calls where
    "lifecycle_create example_creation example_config 9 process_start =
       (outcome_success example_lifecycle, calls, lc_process example_lifecycle)"
    by blast
  from lifecycle_create_all_or_nothing [OF process_start_ok _ _ this] show ?thesis
    using example_opening_ok by (simp add: example_creation_simps)
qed

text \<open>A turn that receives one frame and asks for nothing.\<close>

definition example_turn :: "time_ns \<Rightarrow> can_frame \<Rightarrow> turn_answers" where
  "example_turn now f =
     \<lparr>ta_start = now, ta_epoll_new = True, ta_event_fd = 7, ta_events = EPOLLIN,
      ta_signal = outcome_success 0, ta_after_wait = now, ta_interfaces = [7], ta_check_time = now,
      ta_flags = Inr 1, ta_receive_time = now, ta_recv_count = 16, ta_recv_errno = 0, ta_peeked = f,
      ta_rx_matched = True, ta_rx_message = f, ta_rx_index = 0, ta_advance_time = now,
      ta_reset = Co_reset_not, ta_reopen = example_opening\<rparr>"

lemma example_turn_runs:
  assumes "now < deadline" and "now < lc_next_check s" and "lc_termination_fd s \<noteq> 7"
  shows "fst (run_turn deadline (example_turn now f) s) = None \<and>
    lc_next_check (snd (snd (run_turn deadline (example_turn now f) s))) = lc_next_check s \<and>
    lc_termination_fd (snd (snd (run_turn deadline (example_turn now f) s))) = lc_termination_fd s \<and>
    lc_observations (snd (snd (run_turn deadline (example_turn now f) s))) =
      advance_time now (ingest (raw_frame f now (ob_generation (lc_observations s))) now (lc_observations s))"
  using assms
  by (simp add: run_turn_def turn_check_def endpoint_lost_def turn_process_def process_receive_event_def
      from_interface_def example_turn_def Let_def same_frame_def unset_index_def observe_def
      EPOLLIN_def EPOLLERR_def EPOLLHUP_def)

text \<open>The boot-up and a heartbeat of node 1.\<close>

definition example_turns :: "turn_answers list" where
  "example_turns =
     [example_turn 1000 \<lparr>can_id = 0x701, can_len = 1, can_len8_dlc = 0, can_data = replicate 8 0\<rparr>,
      example_turn 2000 \<lparr>can_id = 0x701, can_len = 1, can_len8_dlc = 0, can_data = 5 # replicate 7 0\<rparr>]"

definition example_store :: observation_store where
  "example_store =
     store_after example_config
       [Advance_time 2000, Ingest (example_frame 0x701 1 5 2000 \<lparr>og_transport = 1, og_boot = 1\<rparr>) 2000,
        Advance_time 1000, Ingest (example_frame 0x701 1 0 1000 \<lparr>og_transport = 1, og_boot = 0\<rparr>) 1000,
        Begin_transport]"

lemma example_store_current: "fo_current (hb_frame (ob_heartbeat (take_snapshot 5000 example_store)))"
  by code_simp

lemma example_generations:
  "ob_generation (store_after example_config [Begin_transport]) = \<lparr>og_transport = 1, og_boot = 0\<rparr> \<and>
   ob_generation (store_after example_config [Advance_time 1000,
     Ingest (example_frame 0x701 1 0 1000 \<lparr>og_transport = 1, og_boot = 0\<rparr>) 1000, Begin_transport]) =
     \<lparr>og_transport = 1, og_boot = 1\<rparr>"
  by code_simp

lemma example_lifecycle_simps:
  "lc_next_check example_lifecycle = 10000000" "lc_termination_fd example_lifecycle = 9"
  "lc_observations example_lifecycle = store_after example_config [Begin_transport]"
proof -
  note r = reopen_success [OF example_unopened_ok(1) example_opening_ok]
  show "lc_next_check example_lifecycle = 10000000" "lc_termination_fd example_lifecycle = 9"
    unfolding example_lifecycle_def r
    by (simp_all add: example_opening_def interface_check_interval_def example_unopened_def new_lifecycle_def)
  show "lc_observations example_lifecycle = store_after example_config [Begin_transport]"
    by (simp add: example_lifecycle_def example_unopened_def new_lifecycle_def example_created_value)
qed

lemma example_run:
  "lc_observations (run_all [(3000, example_turns)] example_lifecycle) = example_store"
  "lc_next_check (run_all [(3000, example_turns)] example_lifecycle) = 10000000"
  "lc_termination_fd (run_all [(3000, example_turns)] example_lifecycle) = 9"
proof -
  let ?boot = "\<lparr>can_id = 0x701, can_len = 1, can_len8_dlc = 0, can_data = replicate 8 0\<rparr>"
  let ?s1 = "snd (snd (run_turn 3000 (example_turn 1000 ?boot) example_lifecycle))"
  have s1: "fst (run_turn 3000 (example_turn 1000 ?boot) example_lifecycle) = None"
    "lc_next_check ?s1 = 10000000" "lc_termination_fd ?s1 = 9"
    "lc_observations ?s1 = store_after example_config [Advance_time 1000,
       Ingest (example_frame 0x701 1 0 1000 \<lparr>og_transport = 1, og_boot = 0\<rparr>) 1000, Begin_transport]"
    using example_turn_runs [of 1000 3000 example_lifecycle ?boot] example_generations
    by (simp_all add: example_lifecycle_simps raw_frame_def example_frame_def flip: replicate_Suc)
  show "lc_observations (run_all [(3000, example_turns)] example_lifecycle) = example_store"
    "lc_next_check (run_all [(3000, example_turns)] example_lifecycle) = 10000000"
    "lc_termination_fd (run_all [(3000, example_turns)] example_lifecycle) = 9"
    using example_turn_runs [of 2000 3000 ?s1] s1 example_generations
    by (simp_all add: example_turns_def case_prod_beta Let_def example_store_def raw_frame_def example_frame_def)
qed

theorem lifecycle_snapshot_trusted_witness:
  "trusted (all_turns [(3000, example_turns)]) 1 0x700 1 1000 5000
     (ob_generation (observation_snapshot_of 5000 (run_all [(3000, example_turns)] example_lifecycle)))
     (hb_frame (ob_heartbeat (observation_snapshot_of 5000 (run_all [(3000, example_turns)] example_lifecycle))))"
proof -
  from example_lifecycle_created obtain calls where
    "lifecycle_create example_creation example_config 9 process_start =
       (outcome_success example_lifecycle, calls, lc_process example_lifecycle)"
    by blast
  from lifecycle_snapshot_trusted [OF process_start_ok _ _ this, where now = 5000
      and runs = "[(3000, example_turns)]"] show ?thesis
    using example_opening_ok example_store_current
    by (simp add: example_creation_simps observation_snapshot_of_def example_run example_config_def
        default_stack_config_def del: snapshot_heartbeat_current snapshot_simps run_all.simps)
qed

theorem run_until_returns_witness:
  "fst (run_until 1500 example_turns example_lifecycle) \<noteq> None \<and>
   count_list (fst (snd (run_until 1500 example_turns example_lifecycle))) Epoll_wait \<le> 1 \<and>
   waits_after (fst (snd (run_until 1500 example_turns example_lifecycle))) (Some False) = Some False"
  using run_until_returns [of 1500 example_turns example_lifecycle]
  by (simp add: example_turns_def example_turn_def)

end
