(* ===== verification/Canopen_Commissioning.thy ===== *)
theory Canopen_Commissioning
  imports Canopen_Gate Canopen_Lifecycle
begin

text \<open>
  \<open>src/communication/canopen/commissioning.{hpp,cpp}\<close>: NMT commands and SDO uploads to node 1, one at
  a time, on top of the owner of the CAN connection, the observation store and the transmit gate.
  The SDO client of CANopenNode is outside the program: its answers, and the frames it hands to
  the gate while it runs, are arguments.  Every call it makes of the gate goes through
  \<open>commissioning_transmit\<close>; the responses are logged.  The lemmas show that only the reviewed
  request leaves the program, that no authorization outlives an operation, and that a returned
  response is the answer of the remote node to this request.
\<close>

section \<open>State and answers\<close>

datatype sdo_return = Sdo_in_progress | Sdo_communication_end | Sdo_server_abort | Sdo_error

datatype session_call = Sdo_initiate u16 u8 u16 | Sdo_step u32 | Sdo_close | Nmt_send u8 u8

type_synonym gate_call = "transmit_request \<times> send_outcome"

text \<open>
  The session, the owner it refers to, and the thread's authorization; \<open>se_sent\<close> logs the responses
  of the gate and \<open>se_calls\<close> the calls of CANopenNode.
\<close>

record session =
  se_lifecycle :: lifecycle
  se_request_generation :: u64
  se_attempt_generation :: u64
  se_authorization :: authorization
  se_sent :: "transmit_response list"
  se_calls :: "session_call list"

text \<open>One turn of the loop of \<open>upload\<close>.\<close>

record upload_step =
  us_deadline_base :: time_ns
  us_turns :: "turn_answers list"
  us_run_gate :: "gate_call list"
  us_now :: time_ns
  us_result :: sdo_return
  us_abort_timeout :: bool
  us_gate :: "gate_call list"

record upload_attempt =
  ua_now :: time_ns
  ua_initiated :: bool
  ua_start :: time_ns
  ua_result :: sdo_return
  ua_abort_timeout :: bool
  ua_gate :: "gate_call list"
  ua_steps :: "upload_step list"
  ua_snapshot_time :: time_ns
  ua_quarantine_base :: time_ns
  ua_quarantine_turns :: "turn_answers list"
  ua_quarantine_gate :: "gate_call list"

definition ENOTCONN :: int where "ENOTCONN = 107"
definition ECANCELED :: int where "ECANCELED = 125"
definition ETIMEDOUT :: int where "ETIMEDOUT = 110"

definition increment_nonzero :: "u64 \<Rightarrow> u64" where
  "increment_nonzero v = (if v + 1 = 0 then 1 else v + 1)"

definition se_config :: "session \<Rightarrow> stack_config" where
  "se_config s = lc_config (se_lifecycle s)"

definition session_failure :: "string \<Rightarrow> session \<Rightarrow> int \<Rightarrow> status" where
  "session_failure op s number =
     from_errno op
       (''interface='' @ interface_name (se_config s) @ '' remote='' @
        decimal (unat (remote_node_id (se_config s)))) number"

text \<open>Frames that CANopenNode hands to the gate meanwhile.\<close>

definition through_gate :: "gate_call list \<Rightarrow> session \<Rightarrow> session" where
  "through_gate calls s =
     s\<lparr>se_authorization := run_state commissioning_transmit (se_authorization s) calls,
       se_sent := se_sent s @ run_outputs commissioning_transmit (se_authorization s) calls\<rparr>"

definition client_call :: "session_call \<Rightarrow> session \<Rightarrow> session" where
  "client_call c s = s\<lparr>se_calls := se_calls s @ [c]\<rparr>"

definition on_observations :: "(observation_store \<Rightarrow> observation_store) \<Rightarrow> session \<Rightarrow> session" where
  "on_observations f s = s\<lparr>se_lifecycle := observe f (se_lifecycle s)\<rparr>"

definition drop_authorization :: "session \<Rightarrow> session" where
  "drop_authorization s = s\<lparr>se_authorization := clear_authorization\<rparr>"

section \<open>Operations\<close>

definition require_fresh_remote :: "time_ns \<Rightarrow> session \<Rightarrow> status" where
  "require_fresh_remote now s =
     (if remote_node_id (se_config s) \<noteq> 1 then session_failure ''commissioning_precondition'' s EACCES
      else let v = observation_snapshot_of now (se_lifecycle s) in
        if \<not> ob_boot_observed v \<or> og_boot (ob_generation v) = 0 \<or> \<not> fo_current (hb_frame (ob_heartbeat v))
        then session_failure ''commissioning_precondition'' s ENOTCONN
        else success_status)"

datatype commissioning_nmt = Nmt_stopped | Nmt_pre_operational

fun nmt_command_value :: "commissioning_nmt \<Rightarrow> u8" where
  "nmt_command_value Nmt_stopped = 0x02"
| "nmt_command_value Nmt_pre_operational = 0x80"

definition send_nmt ::
  "commissioning_nmt \<Rightarrow> time_ns \<Rightarrow> gate_call list \<Rightarrow> bool \<Rightarrow> session \<Rightarrow> status \<times> session" where
  "send_nmt command now gate sent_ok s =
     (let ready = require_fresh_remote now s in
      if \<not> status_ok ready then (ready, s)
      else let (authorized, auth) = authorize_nmt (nmt_command_value command) (se_authorization s);
               s = s\<lparr>se_authorization := auth\<rparr> in
        if \<not> authorized then (session_failure ''authorize_nmt'' s EACCES, s)
        else let s = drop_authorization (through_gate gate (client_call
                   (Nmt_send (nmt_command_value command) (remote_node_id (se_config s))) s))
          in (if sent_ok then success_status else session_failure ''CO_NMT_sendCommand'' s EIO, s))"

text \<open>
  Running the owner: no result while the turns answered so far do not return; otherwise None for a
  run that reached its deadline, or the failure of any other end.
\<close>

definition run_to_deadline ::
  "string \<Rightarrow> time_ns \<Rightarrow> turn_answers list \<Rightarrow> gate_call list \<Rightarrow> session \<Rightarrow> status option option \<times> session" where
  "run_to_deadline op deadline turns gate s =
     (let (r, calls, l) = run_until deadline turns (se_lifecycle s);
          s = through_gate gate (s\<lparr>se_lifecycle := l\<rparr>) in
      (case r of
         None \<Rightarrow> (None, s)
       | Some r \<Rightarrow>
           (case outcome_value r of
              None \<Rightarrow> (Some (Some (outcome_status r)), s)
            | Some e \<Rightarrow>
                (Some (if e = Exit_deadline then None else Some (session_failure op s ECANCELED)), s))))"

text \<open>
  The loop of \<open>upload\<close>: no result while it is still going on, otherwise the failure of a run of the
  owner, or the last result of the SDO client and whether its abort code is the timeout.
\<close>

fun upload_loop ::
  "upload_step list \<Rightarrow> time_ns \<Rightarrow> sdo_return \<Rightarrow> bool \<Rightarrow> session \<Rightarrow>
     (status + sdo_return \<times> bool) option \<times> session" where
  "upload_loop [] previous result timeout s =
     (if result = Sdo_in_progress then None else Some (Inr (result, timeout)), s)"
| "upload_loop (u # us) previous result timeout s =
     (if result \<noteq> Sdo_in_progress then (Some (Inr (result, timeout)), s)
      else let (run, s) = run_to_deadline ''commissioning_owner_exit'' (us_deadline_base u + 1000000)
                 (us_turns u) (us_run_gate u) s in
        (case run of
           None \<Rightarrow> (None, s)
         | Some (Some failed) \<Rightarrow>
             (Some (Inl failed),
              drop_authorization (client_call Sdo_close (on_observations cancel_sdo_upload s)))
         | Some None \<Rightarrow>
             let elapsed = (us_now u - previous) div 1000;
                 clamped = (word_of_int (max 0 (min elapsed (2 ^ 32 - 1))) :: u32)
             in upload_loop us (us_now u) (us_result u) (us_abort_timeout u)
                  (through_gate (us_gate u) (client_call (Sdo_step clamped) s))))"

text \<open>What an attempt comes to: not ended, a result, or another attempt after the quarantine.\<close>

datatype attempt_end = Attempt_pending | Attempt_result "sdo_observation outcome" | Attempt_again

definition upload_answer ::
  "time_ns \<Rightarrow> session \<Rightarrow> sdo_observation outcome \<times> session" where
  "upload_answer now s =
     (let v = ob_sdo_result (observation_snapshot_of now (se_lifecycle s));
          s = client_call Sdo_close s in
      if \<not> fo_current (sdo_frame v) \<or> sdo_request_generation v \<noteq> se_request_generation s \<or>
         sdo_attempt_generation v \<noteq> se_attempt_generation s
      then (outcome_failure (session_failure ''correlate_sdo_upload'' s EPROTO),
            on_observations cancel_sdo_upload s)
      else (outcome_success v, s))"

text \<open>From the new attempt generation to the authorization of the request.\<close>

definition begin_attempt :: "bool \<Rightarrow> u16 \<Rightarrow> u8 \<Rightarrow> u8 \<Rightarrow> session \<Rightarrow> bool \<times> session" where
  "begin_attempt initiated index subindex expected_size s =
     (let s = s\<lparr>se_attempt_generation := increment_nonzero (se_attempt_generation s)\<rparr>;
          s = on_observations (begin_sdo_upload (se_request_generation s) (se_attempt_generation s)
                index subindex expected_size) s;
          s = client_call (Sdo_initiate index subindex (word_of_int (sdo_timeout (se_config s)))) s in
      if \<not> initiated then (False, s)
      else let (authorized, auth) = authorize_sdo_upload (sdo_object.make index subindex) (se_authorization s)
        in (authorized, s\<lparr>se_authorization := auth\<rparr>))"

text \<open>What follows the loop of an attempt.\<close>

definition conclude_attempt ::
  "upload_attempt \<Rightarrow> bool \<Rightarrow> (status + sdo_return \<times> bool) option \<Rightarrow> session \<Rightarrow> attempt_end \<times> session" where
  "conclude_attempt a final looped s =
     (case looped of
        None \<Rightarrow> (Attempt_pending, s)
      | Some (Inl failed) \<Rightarrow> (Attempt_result (outcome_failure failed), s)
      | Some (Inr (result, timeout)) \<Rightarrow>
          let s = drop_authorization s in
          if result = Sdo_communication_end \<or> result = Sdo_server_abort
          then let (r, s) = upload_answer (ua_snapshot_time a) s in (Attempt_result r, s)
          else let s = on_observations cancel_sdo_upload (client_call Sdo_close s) in
            if final \<or> \<not> timeout
            then (Attempt_result (outcome_failure (session_failure ''CO_SDOclientUpload'' s
                    (if timeout then ETIMEDOUT else EPROTO))), s)
            else let (run, s) = run_to_deadline ''commissioning_quarantine''
                       (ua_quarantine_base a + ms_ns (sdo_timeout (se_config s)))
                       (ua_quarantine_turns a) (ua_quarantine_gate a) s in
              (case run of
                 None \<Rightarrow> (Attempt_pending, s)
               | Some (Some failed) \<Rightarrow> (Attempt_result (outcome_failure failed), s)
               | Some None \<Rightarrow> (Attempt_again, s)))"

definition attempt_upload ::
  "upload_attempt \<Rightarrow> u16 \<Rightarrow> u8 \<Rightarrow> u8 \<Rightarrow> bool \<Rightarrow> session \<Rightarrow> attempt_end \<times> session" where
  "attempt_upload a index subindex expected_size final s =
     (let ready = require_fresh_remote (ua_now a) s in
      if \<not> status_ok ready then (Attempt_result (outcome_failure ready), s)
      else let (begun, s) = begin_attempt (ua_initiated a) index subindex expected_size s in
        if \<not> begun
        then (Attempt_result (outcome_failure (session_failure ''CO_SDOclientUploadInitiate'' s EPROTO)),
              client_call Sdo_close (on_observations cancel_sdo_upload s))
        else let s = through_gate (ua_gate a) (client_call (Sdo_step 0) s);
                 (looped, s) = upload_loop (ua_steps a) (ua_start a) (ua_result a) (ua_abort_timeout a) s
          in conclude_attempt a final looped s)"

text \<open>The attempts; the second one is made only for \<open>retry_once\<close>.\<close>

definition upload ::
  "upload_attempt \<Rightarrow> upload_attempt \<Rightarrow> u16 \<Rightarrow> u8 \<Rightarrow> bool \<Rightarrow> session \<Rightarrow>
     sdo_observation outcome option \<times> session" where
  "upload first second index subindex retry_once s =
     (let expected_size = sdo_upload_size (sdo_object.make index subindex) in
      if expected_size = 0
      then (Some (outcome_failure (session_failure ''authorize_sdo_upload'' s EACCES)), s)
      else let s = s\<lparr>se_request_generation := increment_nonzero (se_request_generation s)\<rparr>;
               (r1, s) = attempt_upload first index subindex expected_size (\<not> retry_once) s in
        (case r1 of
           Attempt_pending \<Rightarrow> (None, s)
         | Attempt_result r \<Rightarrow> (Some r, s)
         | Attempt_again \<Rightarrow>
             let (r2, s) = attempt_upload second index subindex expected_size True s in
             (case r2 of
                Attempt_pending \<Rightarrow> (None, s)
              | Attempt_result r \<Rightarrow> (Some r, s)
              | Attempt_again \<Rightarrow>
                  (Some (outcome_failure (session_failure ''commissioning_upload'' s EPROTO)), s))))"

section \<open>What leaves the program\<close>

text \<open>
  From one state to a later one, the gate sent only frames that satisfy \<open>P\<close>, and at most \<open>n\<close> sends
  succeeded, counting an authorization that is still open.
\<close>

definition budget :: "session \<Rightarrow> nat" where
  "budget s = (if auth_active (se_authorization s) then 1 else 0)"

definition sends_only :: "(Canopen_Gate.can_frame \<Rightarrow> bool) \<Rightarrow> nat \<Rightarrow> session \<Rightarrow> session \<Rightarrow> bool" where
  "sends_only P n s s' \<longleftrightarrow>
     (\<exists>new. se_sent s' = se_sent s @ new \<and> (\<forall>r \<in> set new. \<forall>f. tx_sent r = Some f \<longrightarrow> P f) \<and>
        length (filter sent_successfully new) + budget s' \<le> n + budget s) \<and>
     (\<forall>f. gate_lets_through (se_authorization s') f \<longrightarrow> P f)"

definition lets_only :: "(Canopen_Gate.can_frame \<Rightarrow> bool) \<Rightarrow> session \<Rightarrow> bool" where
  "lets_only P s \<longleftrightarrow> (\<forall>f. gate_lets_through (se_authorization s) f \<longrightarrow> P f)"

lemma sends_only_lets: "sends_only P n s s' \<Longrightarrow> lets_only P s'"
  by (simp add: sends_only_def lets_only_def)

lemma sends_only_same:
  "lets_only P s \<Longrightarrow> se_authorization s' = se_authorization s \<Longrightarrow> se_sent s' = se_sent s \<Longrightarrow>
   sends_only P 0 s s'"
  by (simp add: sends_only_def lets_only_def budget_def)

lemma sends_only_cleared:
  "se_authorization s' = clear_authorization \<Longrightarrow> se_sent s' = se_sent s \<Longrightarrow> sends_only P 0 s s'"
  by (simp add: sends_only_def budget_def)

lemma sends_only_trans:
  assumes "sends_only P n s s'" and "sends_only P m s' s''"
  shows "sends_only P (n + m) s s''"
proof -
  from assms obtain new new' where
    "se_sent s' = se_sent s @ new" "\<forall>r \<in> set new. \<forall>f. tx_sent r = Some f \<longrightarrow> P f"
    "length (filter sent_successfully new) + budget s' \<le> n + budget s"
    "se_sent s'' = se_sent s' @ new'" "\<forall>r \<in> set new'. \<forall>f. tx_sent r = Some f \<longrightarrow> P f"
    "length (filter sent_successfully new') + budget s'' \<le> m + budget s'"
    unfolding sends_only_def by blast
  with assms(2) show ?thesis
    unfolding sends_only_def by (intro conjI exI [of _ "new @ new'"]) auto
qed

lemma sends_only_trans0: "sends_only P n s s' \<Longrightarrow> sends_only P 0 s' s'' \<Longrightarrow> sends_only P n s s''"
  using sends_only_trans by fastforce

lemma gate_budget:
  "length (filter sent_successfully (run_outputs commissioning_transmit a calls)) +
     (if auth_active (run_state commissioning_transmit a calls) then 1 else 0)
   \<le> (if auth_active a then 1 else (0::nat))"
proof (induction calls arbitrary: a)
  case Nil
  show ?case
    by simp
next
  case (Cons c calls)
  show ?case
  proof (cases rule: commissioning_transmit_cases [of a c])
    case refused
    with Cons.IH [of clear_authorization] show ?thesis
      by simp
  next
    case (consumed f)
    with Cons.IH [of clear_authorization] show ?thesis
      by (simp add: gate_lets_through_def)
  next
    case (retained f)
    with Cons.IH [of a] show ?thesis
      by simp
  qed
qed

lemma through_gate_sends:
  assumes "lets_only P s"
  shows "sends_only P 0 s (through_gate calls s)"
proof -
  let ?new = "run_outputs commissioning_transmit (se_authorization s) calls"
  have "P f" if "r \<in> set ?new" "tx_sent r = Some f" for r f
    using commissioning.run_sends_let_through [OF that] assms by (simp add: lets_only_def)
  moreover have "P f" if "gate_lets_through (run_state commissioning_transmit (se_authorization s) calls) f" for f
    using commissioning.run_adds_none [OF that] assms by (simp add: lets_only_def)
  ultimately show ?thesis
    using gate_budget [of "se_authorization s" calls]
    by (auto simp: sends_only_def through_gate_def budget_def)
qed

lemma session_frame [simp]:
  "se_authorization (client_call c s) = se_authorization s" "se_sent (client_call c s) = se_sent s"
  "se_authorization (on_observations f s) = se_authorization s" "se_sent (on_observations f s) = se_sent s"
  "se_lifecycle (client_call c s) = se_lifecycle s" "se_config (client_call c s) = se_config s"
  "se_lifecycle (on_observations f s) = observe f (se_lifecycle s)"
  "se_config (on_observations f s) = se_config s"
  "se_authorization (drop_authorization s) = clear_authorization" "se_sent (drop_authorization s) = se_sent s"
  "se_lifecycle (drop_authorization s) = se_lifecycle s"
  "se_lifecycle (through_gate calls s) = se_lifecycle s" "se_config (through_gate calls s) = se_config s"
  by (simp_all add: client_call_def on_observations_def drop_authorization_def through_gate_def se_config_def)

lemma sends_only_source:
  "se_authorization s0 = se_authorization s \<Longrightarrow> se_sent s0 = se_sent s \<Longrightarrow>
   sends_only P n s0 s' = sends_only P n s s'"
  by (simp add: sends_only_def budget_def)

lemma run_to_deadline_state:
  "snd (run_to_deadline op deadline turns gate s) =
   through_gate gate (s\<lparr>se_lifecycle := snd (snd (run_until deadline turns (se_lifecycle s)))\<rparr>)"
  by (simp add: run_to_deadline_def Let_def case_prod_beta split: option.split)

lemma run_to_deadline_sends:
  assumes "lets_only P s"
  shows "sends_only P 0 s (snd (run_to_deadline op deadline turns gate s))"
proof -
  let ?s = "s\<lparr>se_lifecycle := snd (snd (run_until deadline turns (se_lifecycle s)))\<rparr>"
  have "sends_only P 0 ?s (through_gate gate ?s)"
    using assms by (intro through_gate_sends) (simp add: lets_only_def)
  then show ?thesis
    by (simp add: run_to_deadline_state sends_only_source [of ?s s])
qed

lemma upload_loop_sends:
  "lets_only P s \<Longrightarrow> sends_only P 0 s (snd (upload_loop us prev result timeout s))"
proof (induction us arbitrary: prev result timeout s)
  case Nil
  then show ?case
    by (simp add: sends_only_same)
next
  case (Cons u us)
  let ?r = "run_to_deadline ''commissioning_owner_exit'' (us_deadline_base u + 1000000) (us_turns u)
    (us_run_gate u) s"
  let ?s = "snd ?r"
  have run: "sends_only P 0 s ?s"
    using Cons.prems by (rule run_to_deadline_sends)
  have "sends_only P 0 ?s (through_gate (us_gate u) (client_call c ?s))" for c
    using sends_only_lets [OF run] through_gate_sends [of P "client_call c ?s"]
    by (simp add: lets_only_def sends_only_source [of "client_call c ?s" ?s])
  then have step: "sends_only P 0 s (through_gate (us_gate u) (client_call c ?s))" for c
    using run sends_only_trans0 by blast
  then have "sends_only P 0 s (snd (upload_loop us (us_now u) res tmo
      (through_gate (us_gate u) (client_call c ?s))))" for res tmo c
    using Cons.IH sends_only_lets sends_only_trans0 by blast
  moreover have "sends_only P 0 s (drop_authorization (client_call Sdo_close
      (on_observations cancel_sdo_upload ?s)))"
    by (rule sends_only_trans0 [OF run]) (simp add: sends_only_cleared)
  ultimately show ?case
    using run sends_only_same [OF Cons.prems]
    by (simp add: Let_def case_prod_beta split: option.split)
qed

text \<open>The request for an object, as the gate compares it.\<close>

definition upload_request :: "u16 \<Rightarrow> u8 \<Rightarrow> Canopen_Gate.can_frame \<Rightarrow> bool" where
  "upload_request index subindex f \<longleftrightarrow>
     Canopen_Gate.can_id f = 0x601 \<and> can_dlc f = 8 \<and>
     Canopen_Gate.can_data f = [0x40, ucast index, ucast (drop_bit 8 index), subindex, 0, 0, 0, 0]"

lemma inactive_lets_only: "\<not> auth_active (se_authorization s) \<Longrightarrow> lets_only P s"
  by (simp add: lets_only_def gate_lets_through_def)

lemma begin_attempt_sends:
  assumes "\<not> auth_active (se_authorization s)"
  shows "sends_only (upload_request index subindex) 1 s (snd (begin_attempt initiated index subindex n s))"
  using assms
  by (auto simp: begin_attempt_def Let_def case_prod_beta sends_only_def budget_def gate_lets_through_def
      authorize_sdo_upload_eq frame_matches_def upload_request_def upload_request_data_def
      sdo_object.make_def)

lemma begin_attempt_refused:
  "\<not> auth_active (se_authorization s) \<Longrightarrow> \<not> fst (begin_attempt initiated index subindex n s) \<Longrightarrow>
   \<not> auth_active (se_authorization (snd (begin_attempt initiated index subindex n s)))"
  by (auto simp: begin_attempt_def Let_def case_prod_beta authorize_sdo_upload_eq split: if_splits)

lemma upload_answer_state [simp]:
  "se_authorization (snd (upload_answer now s)) = se_authorization s"
  "se_sent (snd (upload_answer now s)) = se_sent s"
  by (simp_all add: upload_answer_def Let_def)

lemma upload_loop_failed:
  "fst (upload_loop us prev result timeout s) = Some (Inl st) \<Longrightarrow>
   se_authorization (snd (upload_loop us prev result timeout s)) = clear_authorization"
  by (induction us arbitrary: prev result timeout s)
    (auto simp: Let_def case_prod_beta split: if_splits option.splits)

lemma through_gate_inactive:
  "\<not> auth_active (se_authorization s) \<Longrightarrow> \<not> auth_active (se_authorization (through_gate calls s))"
  using gate_budget [of "se_authorization s" calls] by (simp add: through_gate_def split: if_splits)

lemma conclude_attempt_sends:
  assumes "lets_only P s"
    and "\<And>st. looped = Some (Inl st) \<Longrightarrow> se_authorization s = clear_authorization"
  shows "sends_only P 0 s (snd (conclude_attempt a final looped s)) \<and>
    (fst (conclude_attempt a final looped s) \<noteq> Attempt_pending \<longrightarrow>
       \<not> auth_active (se_authorization (snd (conclude_attempt a final looped s))))"
proof (cases looped)
  case None
  with assms(1) show ?thesis
    by (simp add: conclude_attempt_def sends_only_same)
next
  case (Some x)
  show ?thesis
  proof (cases x)
    case (Inl st)
    with Some assms show ?thesis
      by (simp add: conclude_attempt_def sends_only_same)
  next
    case (Inr y)
    obtain result timeout where y: "y = (result, timeout)"
      by (cases y)
    let ?s = "on_observations cancel_sdo_upload (client_call Sdo_close (drop_authorization s))"
    have s: "sends_only P 0 s ?s" "lets_only P ?s"
      by (simp_all add: sends_only_cleared inactive_lets_only)
    have run: "sends_only P 0 s (snd (run_to_deadline op d ts g ?s))"
      "\<not> auth_active (se_authorization (snd (run_to_deadline op d ts g ?s)))" for op d ts g
      using sends_only_trans0 [OF s(1) run_to_deadline_sends [OF s(2)]]
      by (simp_all add: run_to_deadline_state through_gate_inactive)
    show ?thesis
      using s(1) run unfolding Some Inr y conclude_attempt_def
      by (auto simp: Let_def case_prod_beta sends_only_cleared split: option.splits)
  qed
qed

lemma attempt_upload_sends:
  assumes "\<not> auth_active (se_authorization s)"
  shows "sends_only (upload_request index subindex) 1 s (snd (attempt_upload a index subindex n final s)) \<and>
    (fst (attempt_upload a index subindex n final s) \<noteq> Attempt_pending \<longrightarrow>
       \<not> auth_active (se_authorization (snd (attempt_upload a index subindex n final s))))"
proof -
  let ?P = "upload_request index subindex"
  let ?s1 = "snd (begin_attempt (ua_initiated a) index subindex n s)"
  let ?s2 = "through_gate (ua_gate a) (client_call (Sdo_step 0) ?s1)"
  let ?l = "upload_loop (ua_steps a) (ua_start a) (ua_result a) (ua_abort_timeout a) ?s2"
  let ?c = "conclude_attempt a final (fst ?l) (snd ?l)"
  have ready: "sends_only ?P 1 s s"
    using assms by (simp add: sends_only_def budget_def gate_lets_through_def)
  have s1: "sends_only ?P 1 s ?s1"
    using assms by (rule begin_attempt_sends)
  have refused: "sends_only ?P 1 s (client_call Sdo_close (on_observations cancel_sdo_upload ?s1))"
    by (rule sends_only_trans0 [OF s1]) (simp add: sends_only_same sends_only_lets [OF s1])
  have "sends_only ?P 0 ?s1 ?s2"
    using through_gate_sends [of ?P "client_call (Sdo_step 0) ?s1"] sends_only_lets [OF s1]
    by (simp add: lets_only_def sends_only_source [of "client_call (Sdo_step 0) ?s1" ?s1])
  with s1 have s2: "sends_only ?P 1 s ?s2"
    by (rule sends_only_trans0)
  then have l: "sends_only ?P 1 s (snd ?l)"
    using upload_loop_sends [OF sends_only_lets [OF s2]] sends_only_trans0 by blast
  have c: "sends_only ?P 0 (snd ?l) (snd ?c) \<and>
      (fst ?c \<noteq> Attempt_pending \<longrightarrow> \<not> auth_active (se_authorization (snd ?c)))"
    using conclude_attempt_sends [OF sends_only_lets [OF l]] upload_loop_failed by blast
  with l have "sends_only ?P 1 s (snd ?c)"
    using sends_only_trans0 by blast
  with ready refused c begin_attempt_refused [OF assms] assms show ?thesis
    by (simp add: attempt_upload_def Let_def case_prod_beta)
qed

lemma upload_sends:
  assumes "\<not> auth_active (se_authorization s)"
    and "upload first second index subindex retry_once s = (r, s')"
  shows "sends_only (upload_request index subindex) (if retry_once then 2 else 1) s s' \<and>
    (r \<noteq> None \<longrightarrow> \<not> auth_active (se_authorization s'))"
proof -
  let ?P = "upload_request index subindex" and ?n = "sdo_upload_size (sdo_object.make index subindex)"
  let ?s = "s\<lparr>se_request_generation := increment_nonzero (se_request_generation s)\<rparr>"
  let ?a = "attempt_upload first index subindex ?n (\<not> retry_once) ?s"
  let ?b = "attempt_upload second index subindex ?n True (snd ?a)"
  have start: "sends_only ?P 0 s ?s" "\<not> auth_active (se_authorization ?s)"
    using assms(1) by (simp_all add: sends_only_same inactive_lets_only)
  note first = attempt_upload_sends [OF start(2), of index subindex first ?n "\<not> retry_once"]
  have a: "sends_only ?P 1 s (snd ?a)"
    using sends_only_trans [OF start(1)] first by fastforce
  have again: "fst ?a = Attempt_again \<Longrightarrow> retry_once"
    by (auto simp: attempt_upload_def conclude_attempt_def Let_def case_prod_beta
        split: if_splits option.splits sum.splits)
  have b: "sends_only ?P 2 s (snd ?b) \<and>
      (fst ?b \<noteq> Attempt_pending \<longrightarrow> \<not> auth_active (se_authorization (snd ?b)))"
    if "fst ?a \<noteq> Attempt_pending"
  proof -
    have "\<not> auth_active (se_authorization (snd ?a))"
      using first that by blast
    from attempt_upload_sends [OF this, of index subindex second ?n True] show ?thesis
      using sends_only_trans [OF a, of 1] by (simp add: numeral_2_eq_2)
  qed
  have weaker: "sends_only ?P (if retry_once then 2 else 1) s x" if "sends_only ?P 1 s x" for x
    using that by (auto simp: sends_only_def)
  have none: "sends_only ?P 1 s s"
    using assms(1) by (simp add: sends_only_def budget_def gate_lets_through_def)
  consider (unknown) "s' = s" "r \<noteq> None" | (pending) "s' = snd ?a" "fst ?a = Attempt_pending" "r = None"
    | (ended) "s' = snd ?a" "fst ?a \<noteq> Attempt_pending"
    | (retried) "s' = snd ?b" "fst ?a = Attempt_again" "r = None \<longleftrightarrow> fst ?b = Attempt_pending"
    using assms(2)
    by (cases "fst ?a"; cases "fst ?b") (auto simp: upload_def Let_def case_prod_beta split: if_splits)
  then show ?thesis
  proof cases
    case unknown
    then show ?thesis
      using weaker [OF none] assms(1) by simp
  next
    case pending
    then show ?thesis
      using weaker [OF a] by simp
  next
    case ended
    then show ?thesis
      using weaker [OF a] first by simp
  next
    case retried
    then show ?thesis
      using b again by auto
  qed
qed

text \<open>The same, about the responses of the gate that were added.\<close>

lemma sends_only_new:
  assumes "sends_only P n s s'" and "\<not> auth_active (se_authorization s)"
  shows "\<exists>new. se_sent s' = se_sent s @ new \<and>
    list_all (\<lambda>response. case tx_sent response of None \<Rightarrow> True | Some f \<Rightarrow> P f) new \<and>
    length (filter sent_successfully new) \<le> n"
  using assms by (fastforce simp: sends_only_def list_all_iff budget_def split: option.split)

text \<open>
  C12: Whatever CANopenNode hands to the gate during an SDO upload, the only frame that is sent is
  the request for exactly this object of node 1; at most one send succeeds, or two when the
  upload may be retried; and when the upload returns, no authorization is left.
\<close>

theorem upload_sends_only_its_request:
  assumes "\<not> auth_active (se_authorization s)"
    and "upload first second index subindex retry_once s = (r, s')"
  shows "\<exists>new. se_sent s' = se_sent s @ new \<and>
    list_all (\<lambda>response. case tx_sent response of None \<Rightarrow> True | Some f \<Rightarrow> upload_request index subindex f) new \<and>
    length (filter sent_successfully new) \<le> (if retry_once then 2 else 1) \<and>
    (r \<noteq> None \<longrightarrow> \<not> auth_active (se_authorization s'))"
  using upload_sends [OF assms] sends_only_new [OF _ assms(1)] by blast

definition nmt_request :: "commissioning_nmt \<Rightarrow> Canopen_Gate.can_frame \<Rightarrow> bool" where
  "nmt_request command f \<longleftrightarrow>
     Canopen_Gate.can_id f = 0 \<and> can_dlc f = 2 \<and>
     Canopen_Gate.can_data f = [nmt_command_value command, 1, 0, 0, 0, 0, 0, 0]"

lemma send_nmt_sends:
  assumes "\<not> auth_active (se_authorization s)" and "send_nmt command now gate sent_ok s = (st, s')"
  shows "sends_only (nmt_request command) 1 s s' \<and> \<not> auth_active (se_authorization s')"
proof (cases "status_ok (require_fresh_remote now s)")
  case False
  with assms show ?thesis
    by (auto simp: send_nmt_def Let_def sends_only_def budget_def gate_lets_through_def)
next
  case True
  let ?auth = "snd (authorize_nmt (nmt_command_value command) (se_authorization s))"
  let ?s1 = "client_call (Nmt_send (nmt_command_value command) (remote_node_id (se_config s)))
    (s\<lparr>se_authorization := ?auth\<rparr>)"
  have auth: "fst (authorize_nmt (nmt_command_value command) (se_authorization s))" "auth_active ?auth"
      "gate_lets_through ?auth f \<Longrightarrow> nmt_request command f" for f
    by (cases command; simp add: authorize_nmt_eq gate_lets_through_def frame_matches_def nmt_request_def
        nmt_frame_data_def zero_frame_def)+
  have "sends_only (nmt_request command) 0 ?s1 (through_gate gate ?s1)"
    by (rule through_gate_sends) (auto simp: lets_only_def auth(3))
  then have "sends_only (nmt_request command) 1 s (drop_authorization (through_gate gate ?s1))"
    using assms(1) auth(2)
    by (fastforce simp: sends_only_def budget_def drop_authorization_def gate_lets_through_def split: if_splits)
  moreover have "s' = drop_authorization (through_gate gate ?s1)"
    using assms(2) True auth(1) by (simp add: send_nmt_def Let_def case_prod_beta se_config_def)
  ultimately show ?thesis
    by (simp add: drop_authorization_def)
qed

lemma send_nmt_unready:
  "send_nmt command now gate sent_ok s = (st, s') \<Longrightarrow> \<not> status_ok (require_fresh_remote now s) \<Longrightarrow> s' = s"
  by (simp add: send_nmt_def Let_def)

text \<open>
  An NMT command of the commissioning tool sends, at most once, the Stopped or Pre-operational
  command for node 1 and nothing else, only when the boot-up and a current heartbeat of node 1 were
  observed, and leaves no authorization behind.
\<close>

theorem nmt_sends_only_its_command:
  assumes "\<not> auth_active (se_authorization s)" and "send_nmt command now gate sent_ok s = (st, s')"
  shows "\<exists>new. se_sent s' = se_sent s @ new \<and>
    list_all (\<lambda>response. case tx_sent response of None \<Rightarrow> True | Some f \<Rightarrow> nmt_request command f) new \<and>
    length (filter sent_successfully new) \<le> 1 \<and> \<not> auth_active (se_authorization s') \<and>
    (let v = observation_snapshot_of now (se_lifecycle s) in
     new = [] \<or> remote_node_id (se_config s) = 1 \<and> ob_boot_observed v \<and> fo_current (hb_frame (ob_heartbeat v)))"
proof (cases "status_ok (require_fresh_remote now s)")
  case False
  with send_nmt_unready [OF assms(2)] assms(1) show ?thesis
    by (intro exI [of _ "[]"]) (simp add: Let_def)
next
  case True
  then have "remote_node_id (se_config s) = 1 \<and> ob_boot_observed (observation_snapshot_of now (se_lifecycle s)) \<and>
      fo_current (hb_frame (ob_heartbeat (observation_snapshot_of now (se_lifecycle s))))"
    by (auto simp: require_fresh_remote_def session_failure_def EACCES_def ENOTCONN_def Let_def split: if_splits)
  with send_nmt_sends [OF assms] sends_only_new [OF _ assms(1)] show ?thesis
    by (simp add: Let_def)
qed

section \<open>Whose answer an upload returns\<close>

text \<open>After a request was begun, and while no other one is, a current response answers it.\<close>

lemma accepted_after_begin:
  fixes r a :: u64 and i :: u16 and si n :: u8
  defines "tk \<equiv> \<lambda>st. request_token (ob_generation st) r a i si n"
  assumes "list_all (\<lambda>e. \<not> is_begin e) events"
  shows "(let s = foldr apply_event events (begin_sdo_upload r a i si n st) in
    st_remote_node_id s = st_remote_node_id st \<and>
    (tk_active (st_sdo_token s) \<longrightarrow> st_sdo_token s = tk st) \<and>
    (fo_current (sdo_frame (ob_sdo_result s)) \<longrightarrow>
       (\<exists>f at. Ingest f at \<in> set events \<and> sdo_accepts (st_remote_node_id st) (tk st) f \<and>
          ob_sdo_result s = accepted_sdo (tk st) f)))"
  using assms(2)
proof (induction events)
  case Nil
  show ?case
    using store_setup_apply [of "Begin_sdo_upload r a i si n" st]
    by (simp add: begin_sdo_upload_token tk_def store_setup_def)
next
  case (Cons e events)
  let ?s = "foldr apply_event events (begin_sdo_upload r a i si n st)"
  have ih: "st_remote_node_id ?s = st_remote_node_id st"
      "tk_active (st_sdo_token ?s) \<longrightarrow> st_sdo_token ?s = tk st"
      "fo_current (sdo_frame (ob_sdo_result ?s)) \<longrightarrow>
        (\<exists>f at. Ingest f at \<in> set events \<and> sdo_accepts (st_remote_node_id st) (tk st) f \<and>
           ob_sdo_result ?s = accepted_sdo (tk st) f)"
    using Cons by (simp_all add: Let_def)
  have node: "st_remote_node_id (apply_event e ?s) = st_remote_node_id st"
    using ih(1) store_setup_apply [of e ?s] by (simp add: store_setup_def)
  have "\<not> is_begin e"
    using Cons.prems by simp
  from apply_event_sdo [OF this, of ?s] show ?case
  proof
    assume "sdo_kept ?s (apply_event e ?s)"
    with ih node show ?thesis
      by (auto simp: sdo_kept_def Let_def)
  next
    assume "\<exists>f now. e = Ingest f now \<and> sdo_accepts (st_remote_node_id ?s) (st_sdo_token ?s) f \<and>
       rf_received_at f \<le> now \<and> ob_sdo_result (apply_event e ?s) = accepted_sdo (st_sdo_token ?s) f \<and>
       \<not> tk_active (st_sdo_token (apply_event e ?s))"
    then obtain f now where acc: "e = Ingest f now" "sdo_accepts (st_remote_node_id ?s) (st_sdo_token ?s) f"
      "ob_sdo_result (apply_event e ?s) = accepted_sdo (st_sdo_token ?s) f"
      "\<not> tk_active (st_sdo_token (apply_event e ?s))"
      by blast
    then have "st_sdo_token ?s = tk st"
      using ih(2) by (simp add: sdo_accepts_def)
    with acc ih(1) node show ?thesis
      by (auto simp: Let_def)
  qed
qed

lemma turn_event_no_begin: "turn_event t e \<Longrightarrow> \<not> is_begin e"
  by (cases e) (simp_all add: turn_event_def)

definition step_turns :: "upload_step list \<Rightarrow> turn_answers set" where
  "step_turns us = (\<Union>u \<in> set us. set (us_turns u))"

lemma run_to_deadline_lifecycle [simp]:
  "se_lifecycle (snd (run_to_deadline op deadline turns gate s)) =
   snd (snd (run_until deadline turns (se_lifecycle s)))"
  by (simp add: run_to_deadline_state)

lemma upload_loop_observes:
  "fst (upload_loop us prev result timeout s) = Some (Inr x) \<Longrightarrow>
   observes (step_turns us) (se_lifecycle s) (se_lifecycle (snd (upload_loop us prev result timeout s)))"
proof (induction us arbitrary: prev result timeout s)
  case Nil
  show ?case
    by (rule observes_same) simp
next
  case (Cons u us)
  let ?r = "run_to_deadline ''commissioning_owner_exit'' (us_deadline_base u + 1000000) (us_turns u)
    (us_run_gate u) s"
  have run: "observes (step_turns (u # us)) (se_lifecycle s) (se_lifecycle (snd ?r))"
    using run_until_observes by (auto simp: step_turns_def intro: observes_mono)
  show ?case
  proof (cases "result = Sdo_in_progress")
    case False
    then show ?thesis
      by (simp add: observes_same)
  next
    case True
    with Cons.prems obtain c where again: "fst ?r = Some None"
      "upload_loop (u # us) prev result timeout s =
        upload_loop us (us_now u) (us_result u) (us_abort_timeout u)
          (through_gate (us_gate u) (client_call c (snd ?r)))"
      by (auto simp: Let_def case_prod_beta split: option.splits)
    let ?s = "through_gate (us_gate u) (client_call c (snd ?r))"
    have "observes (step_turns us) (se_lifecycle ?s)
        (se_lifecycle (snd (upload_loop us (us_now u) (us_result u) (us_abort_timeout u) ?s)))"
      using Cons.prems unfolding again(2) by (rule Cons.IH)
    then have "observes (step_turns (u # us)) (se_lifecycle ?s)
        (se_lifecycle (snd (upload_loop us (us_now u) (us_result u) (us_abort_timeout u) ?s)))"
      by (rule observes_mono) (auto simp: step_turns_def)
    moreover have "observes (step_turns (u # us)) (se_lifecycle s) (se_lifecycle ?s)"
      using run by simp
    ultimately show ?thesis
      unfolding again(2) by (rule observes_trans [rotated])
  qed
qed

text \<open>An answer to a request for an object, as one turn took it from the socket.\<close>

definition answers_request ::
  "turn_answers \<Rightarrow> u8 \<Rightarrow> u16 \<Rightarrow> u8 \<Rightarrow> u8 \<Rightarrow> sdo_observation \<Rightarrow> bool" where
  "answers_request t node index subindex expected_size v \<longleftrightarrow>
     (let f = ta_peeked t; bytes = take 8 (can_data f); abort = bytes ! 0 = 0x80 in
      frame_taken t \<and> can_id f AND (CAN_EFF_FLAG OR CAN_RTR_FLAG) = 0 \<and> can_id f AND CAN_SFF_MASK = 0x580 + ucast node \<and>
      can_len f = 8 \<and> bytes ! 1 = ucast index \<and> bytes ! 2 = ucast (drop_bit 8 index) \<and>
      bytes ! 3 = subindex \<and> bytes ! 0 \<in> {0x80, expected_command expected_size} \<and>
      fo_raw (sdo_frame v) = raw_frame f (ta_receive_time t) (rf_generation (fo_raw (sdo_frame v))) \<and>
      Canopen_Observation.sdo_index v = index \<and> Canopen_Observation.sdo_subindex v = subindex \<and>
      (if abort then sdo_outcome v = Sdo_abort \<and> sdo_abort_code v = read_u32 bytes 4
       else sdo_outcome v = Sdo_expedited_upload \<and> sdo_data_length v = expected_size \<and>
         sdo_data v = take (unat expected_size) (drop 4 bytes) @ replicate (4 - unat expected_size) 0))"

lemma accepted_answers:
  assumes "sdo_accepts node (request_token gen r a i si n) f" and "turn_event t (Ingest f at)"
    and "v = (accepted_sdo (request_token gen r a i si n) f)
      \<lparr>sdo_frame := (sdo_frame (accepted_sdo (request_token gen r a i si n) f))\<lparr>fo_current := b\<rparr>\<rparr>"
  shows "answers_request t node i si n v"
proof -
  have taken: "frame_taken t" and te: "at = ta_receive_time t \<and> f = raw_frame (ta_peeked t) at (rf_generation f)"
    using assms(2) unfolding turn_event_def store_event.case by blast+
  have f: "f = raw_frame (ta_peeked t) (ta_receive_time t) (rf_generation f)"
    by (rule te [THEN conjunct2, unfolded te [THEN conjunct1]])
  have raw: "rf_identifier f = can_id (ta_peeked t)" "rf_dlc f = can_len (ta_peeked t)"
    "rf_payload f = take 8 (can_data (ta_peeked t))"
    by (subst f, simp add: raw_frame_def)+
  have payload: "rf_payload (raw_frame c now g) = take 8 (can_data c)" for c now g
    by (simp add: raw_frame_def)
  have acc: "sdo_accepts node (request_token gen r a i si n) f"
    by (rule assms(1))
  have "fo_raw (sdo_frame v) = f"
    by (simp add: assms(3) accepted_sdo_def Let_def)
  then have "fo_raw (sdo_frame v) = raw_frame (ta_peeked t) (ta_receive_time t) (rf_generation (fo_raw (sdo_frame v)))"
    using f by simp
  moreover have "Canopen_Observation.sdo_index v = i" "Canopen_Observation.sdo_subindex v = si"
    by (simp_all add: assms(3) accepted_sdo_def request_token_def Let_def)
  ultimately show ?thesis
    using acc taken
    by (auto simp: answers_request_def sdo_accepts_def standard_frame_def standard_identifier_def
        raw payload request_token_def accepted_sdo_def Let_def assms(3))
qed

text \<open>The configuration of the owner and the node its store listens to do not change.\<close>

definition listens :: "u8 \<Rightarrow> session \<Rightarrow> bool" where
  "listens node s \<longleftrightarrow>
     st_remote_node_id (lc_observations (se_lifecycle s)) = node \<and> remote_node_id (se_config s) = node"

lemma foldr_events_node:
  "st_remote_node_id (foldr apply_event events st) = st_remote_node_id st"
  using store_setup_apply by (induction events) (simp_all add: store_setup_def)

lemma observes_node:
  "observes turns s s' \<Longrightarrow> st_remote_node_id (lc_observations s') = st_remote_node_id (lc_observations s)"
  by (auto simp: observes_def foldr_events_node)

lemma abandon_storage [simp]: "lc_storage (snd (snd (abandon st calls s))) = lc_storage s"
  by (simp add: abandon_def case_prod_beta)

lemma reopen_storage [simp]: "lc_storage (snd (snd (reopen a s))) = lc_storage s"
  unfolding reopen_def Let_def case_prod_beta
  by (simp add: if_distrib [of snd] if_distrib [of lc_storage] split del: if_split cong: if_cong)

lemma reopen_or_fail_storage [simp]: "lc_storage (snd (snd (reopen_or_fail a calls s))) = lc_storage s"
  by (simp add: reopen_or_fail_def Let_def case_prod_beta finish_def)

lemma receive_storage [simp]: "lc_storage (snd (snd (process_receive_event t s))) = lc_storage s"
  by (simp add: process_receive_event_def Let_def)

lemma turn_process_storage [simp]: "lc_storage (snd (snd (turn_process t calls s))) = lc_storage s"
  by (simp add: turn_process_def Let_def case_prod_beta finish_def split: co_reset.split)

lemma turn_check_storage [simp]: "lc_storage (snd (snd (turn_check deadline t calls s))) = lc_storage s"
  by (simp add: turn_check_def Let_def finish_def)

lemma run_turn_storage [simp]: "lc_storage (snd (snd (run_turn deadline t s))) = lc_storage s"
  by (simp add: run_turn_def Let_def finish_def split: option.split)

lemma run_until_storage [simp]: "lc_storage (snd (snd (run_until deadline ts s))) = lc_storage s"
  by (induction ts arbitrary: s) (simp_all add: Let_def case_prod_beta)

lemma run_until_listens:
  "listens node s \<Longrightarrow>
   listens node (s\<lparr>se_lifecycle := snd (snd (run_until deadline turns (se_lifecycle s)))\<rparr>)"
  using observes_node [OF run_until_observes, of deadline turns "se_lifecycle s"]
  by (simp add: listens_def se_config_def lc_config_def)

lemma listens_simps [simp]:
  "listens node (through_gate calls s) = listens node s"
  "listens node (client_call c s) = listens node s"
  "listens node (drop_authorization s) = listens node s"
  "listens node (s\<lparr>se_authorization := auth\<rparr>) = listens node s"
  "listens node (s\<lparr>se_attempt_generation := g\<rparr>) = listens node s"
  "listens node (s\<lparr>se_request_generation := g\<rparr>) = listens node s"
  "listens node (on_observations cancel_sdo_upload s) = listens node s"
  "listens node (on_observations (begin_sdo_upload r a i si n) s) = listens node s"
  using store_setup_apply [of Cancel_sdo_upload] store_setup_apply [of "Begin_sdo_upload r a i si n"]
  by (simp_all add: listens_def se_config_def through_gate_def client_call_def drop_authorization_def
      on_observations_def store_setup_def)

lemma run_to_deadline_listens:
  "listens node s \<Longrightarrow> listens node (snd (run_to_deadline op deadline turns gate s))"
  by (simp add: run_to_deadline_state run_until_listens)

lemma upload_loop_listens:
  "listens node s \<Longrightarrow> listens node (snd (upload_loop us prev result timeout s))"
  by (induction us arbitrary: prev result timeout s)
    (auto simp: Let_def case_prod_beta run_to_deadline_listens split: option.split)

lemma attempt_upload_listens:
  "listens node s \<Longrightarrow> listens node (snd (attempt_upload a index subindex n final s))"
  by (auto simp: attempt_upload_def begin_attempt_def conclude_attempt_def upload_answer_def Let_def
      case_prod_beta upload_loop_listens run_to_deadline_listens split: option.split sum.split)

lemma snapshot_sdo:
  "ob_sdo_result (take_snapshot now st) = (ob_sdo_result st)
     \<lparr>sdo_frame := (sdo_frame (ob_sdo_result st))
        \<lparr>fo_current := still_valid (sdo_frame (ob_sdo_result st)) (ob_generation st) now\<rparr>\<rparr>"
  by (simp add: take_snapshot_def Let_def observation_snapshot.defs)

lemma require_fresh_node: "status_ok (require_fresh_remote now s) \<Longrightarrow> remote_node_id (se_config s) = 1"
  by (simp add: require_fresh_remote_def session_failure_def EACCES_def split: if_splits)

lemma begin_attempt_observations:
  "lc_observations (se_lifecycle (snd (begin_attempt initiated index subindex n s))) =
   begin_sdo_upload (se_request_generation s) (increment_nonzero (se_attempt_generation s)) index subindex n
     (lc_observations (se_lifecycle s))"
  by (simp add: begin_attempt_def Let_def case_prod_beta observe_def on_observations_def client_call_def)

lemma conclude_attempt_answer:
  assumes "conclude_attempt a final looped s = (Attempt_result r, s')" and "outcome_value r = Some v"
  shows "\<exists>x. looped = Some (Inr x) \<and> fo_current (sdo_frame v) \<and>
    v = ob_sdo_result (take_snapshot (ua_snapshot_time a) (lc_observations (se_lifecycle s)))"
  using assms
  by (auto simp: conclude_attempt_def upload_answer_def observation_snapshot_of_def Let_def case_prod_beta
      split: option.splits sum.splits if_splits)

lemma attempt_upload_answer:
  assumes node: "listens node s" and run: "attempt_upload a index subindex n final s = (Attempt_result r, s')"
    and v: "outcome_value r = Some v"
  shows "node = 1 \<and> (\<exists>t \<in> step_turns (ua_steps a). answers_request t 1 index subindex n v)"
proof -
  let ?s1 = "snd (begin_attempt (ua_initiated a) index subindex n s)"
  let ?s2 = "through_gate (ua_gate a) (client_call (Sdo_step 0) ?s1)"
  let ?l = "upload_loop (ua_steps a) (ua_start a) (ua_result a) (ua_abort_timeout a) ?s2"
  let ?st = "lc_observations (se_lifecycle (snd ?l))"
  have ready: "status_ok (require_fresh_remote (ua_now a) s)"
    and concluded: "conclude_attempt a final (fst ?l) (snd ?l) = (Attempt_result r, s')"
    using run v by (auto simp: attempt_upload_def Let_def case_prod_beta split: if_splits)
  from require_fresh_node [OF ready] node have one: "node = 1"
      "st_remote_node_id (lc_observations (se_lifecycle s)) = 1"
    by (simp_all add: listens_def)
  from conclude_attempt_answer [OF concluded v] obtain x where looped: "fst ?l = Some (Inr x)"
      "fo_current (sdo_frame v)" "v = ob_sdo_result (take_snapshot (ua_snapshot_time a) ?st)"
    by blast
  obtain events where events: "?st = foldr apply_event events (lc_observations (se_lifecycle ?s2))"
      "\<forall>e \<in> set events. \<exists>t \<in> step_turns (ua_steps a). turn_event t e"
    using upload_loop_observes [OF looped(1)] unfolding observes_def by blast
  have current: "fo_current (sdo_frame (ob_sdo_result ?st))"
    using looped(2) by (simp add: looped(3) snapshot_sdo still_valid_def)
  let ?tk = "request_token (ob_generation (lc_observations (se_lifecycle s))) (se_request_generation s)
    (increment_nonzero (se_attempt_generation s)) index subindex n"
  have "list_all (\<lambda>e. \<not> is_begin e) events"
    using events(2) turn_event_no_begin by (auto simp: list_all_iff)
  from accepted_after_begin [OF this, where st = "lc_observations (se_lifecycle s)"]
  have "fo_current (sdo_frame (ob_sdo_result ?st)) \<longrightarrow>
      (\<exists>f at. Ingest f at \<in> set events \<and> sdo_accepts 1 ?tk f \<and> ob_sdo_result ?st = accepted_sdo ?tk f)"
    by (simp add: events(1) begin_attempt_observations one(2) Let_def)
  with current obtain f at where f: "Ingest f at \<in> set events" "sdo_accepts 1 ?tk f"
      "ob_sdo_result ?st = accepted_sdo ?tk f"
    by blast
  from events(2) f(1) obtain t where t: "t \<in> step_turns (ua_steps a)" "turn_event t (Ingest f at)"
    by blast
  have "answers_request t 1 index subindex n v"
    by (rule accepted_answers [OF f(2) t(2)]) (simp add: looped(3) snapshot_sdo f(3))
  with one t(1) show ?thesis
    by blast
qed

lemma upload_answered:
  assumes "listens node s"
    and "upload first second index subindex retry_once s = (Some r, s')" and "outcome_value r = Some v"
  shows "node = 1 \<and> (\<exists>t \<in> step_turns (ua_steps first @ ua_steps second).
    answers_request t 1 index subindex (sdo_upload_size (sdo_object.make index subindex)) v)"
proof -
  let ?n = "sdo_upload_size (sdo_object.make index subindex)"
  let ?s = "s\<lparr>se_request_generation := increment_nonzero (se_request_generation s)\<rparr>"
  let ?a = "attempt_upload first index subindex ?n (\<not> retry_once) ?s"
  let ?b = "attempt_upload second index subindex ?n True (snd ?a)"
  have first: "listens node ?s"
    using assms(1) by simp
  consider "?a = (Attempt_result r, s')" | "?b = (Attempt_result r, s')"
    using assms(2,3)
    by (cases "fst ?a"; cases "fst ?b") (auto simp: upload_def Let_def case_prod_beta prod_eq_iff split: if_splits)
  then show ?thesis
  proof cases
    case 1
    from attempt_upload_answer [OF first this assms(3)] show ?thesis
      by (auto simp: step_turns_def)
  next
    case 2
    from attempt_upload_answer [OF attempt_upload_listens [OF first] this assms(3)] show ?thesis
      by (auto simp: step_turns_def)
  qed
qed

text \<open>
  C11: The value an upload returns comes from a frame that the owner received while this upload ran:
  a response of node 1 that names this object, with the data or the abort code of that frame.
\<close>

theorem upload_returns_the_answer:
  assumes "listens node s"
    and "upload first second index subindex retry_once s = (Some r, s')" and "outcome_value r = Some v"
  shows "node = 1 \<and> (\<exists>t \<in> step_turns (ua_steps first @ ua_steps second).
    answers_request t 1 index subindex (sdo_upload_size (sdo_object.make index subindex)) v)"
  using assms by (rule upload_answered)

section \<open>An upload of the status word\<close>

definition example_upload_answer :: Platform_Can.can_frame where
  "example_upload_answer =
     \<lparr>can_id = 0x581, can_len = 8, can_len8_dlc = 0, can_data = [0x43, 0x41, 0x60, 0, 0x37, 0x06, 0, 0]\<rparr>"

definition example_upload_turns :: "turn_answers list" where
  "example_upload_turns = [example_turn 6000 example_upload_answer, example_turn 2000000 example_upload_answer]"

definition example_step :: upload_step where
  "example_step =
     \<lparr>us_deadline_base = 1000000, us_turns = example_upload_turns, us_run_gate = [],
      us_now = 2000000, us_result = Sdo_communication_end, us_abort_timeout = False, us_gate = []\<rparr>"

definition example_attempt :: upload_attempt where
  "example_attempt =
     \<lparr>ua_now = 5000, ua_initiated = True, ua_start = 5000, ua_result = Sdo_in_progress,
      ua_abort_timeout = False,
      ua_gate = [(well_formed_request example_request_frame 5, \<lparr>so_result = 16, so_errno = 0\<rparr>)],
      ua_steps = [example_step], ua_snapshot_time = 2000000, ua_quarantine_base = 0,
      ua_quarantine_turns = [], ua_quarantine_gate = []\<rparr>"

definition example_session :: session where
  "example_session =
     \<lparr>se_lifecycle = run_all [(3000, example_turns)] example_lifecycle, se_request_generation = 0,
      se_attempt_generation = 0, se_authorization = clear_authorization, se_sent = [], se_calls = []\<rparr>"

definition example_upload_store :: observation_store where
  "example_upload_store =
     advance_time 6000 (ingest (raw_frame example_upload_answer 6000 \<lparr>og_transport = 1, og_boot = 1\<rparr>) 6000
       (begin_sdo_upload 1 1 0x6041 0 4 example_store))"

definition example_value :: sdo_observation where
  "example_value = ob_sdo_result (take_snapshot 2000000 example_upload_store)"

lemma example_value_current:
  "fo_current (sdo_frame example_value) \<and> sdo_request_generation example_value = 1 \<and>
   sdo_attempt_generation example_value = 1 \<and> sdo_data example_value = [0x37, 0x06, 0, 0]"
  unfolding example_value_def example_upload_store_def by code_simp

lemma example_store_ready:
  "ob_boot_observed example_store" "ob_generation example_store = \<lparr>og_transport = 1, og_boot = 1\<rparr>"
  "st_remote_node_id example_store = 1"
  "ob_generation (begin_sdo_upload 1 1 0x6041 0 4 example_store) = \<lparr>og_transport = 1, og_boot = 1\<rparr>"
  by code_simp+

lemma run_until_config [simp]: "lc_config (snd (snd (run_until deadline ts s))) = lc_config s"
  by (simp add: lc_config_def)

lemma example_lifecycle_config: "lc_config example_lifecycle = example_config"
  using example_unopened_ok(2) by (simp add: example_lifecycle_def lc_config_def)

abbreviation example_owner :: lifecycle where
  "example_owner \<equiv> run_all [(3000, example_turns)] example_lifecycle"

lemma example_owner_config: "lc_config example_owner = example_config"
  by (simp add: example_lifecycle_config)

lemma example_session_ready: "status_ok (require_fresh_remote 5000 s)"
  if "se_lifecycle s = example_owner" for s
proof -
  have "remote_node_id example_config = 1"
    by (simp add: example_config_def default_stack_config_def)
  with that show ?thesis
    using example_store_current
    by (simp add: require_fresh_remote_def se_config_def observation_snapshot_of_def example_owner_config
        example_run example_store_ready Let_def
        del: run_all.simps snapshot_heartbeat_current)
qed

text \<open>The loop: the owner receives the answer, then reaches its deadline.\<close>

lemma example_upload_loop:
  assumes "lc_observations (se_lifecycle s) = begin_sdo_upload 1 1 0x6041 0 4 example_store"
    and "lc_next_check (se_lifecycle s) = 10000000" and "lc_termination_fd (se_lifecycle s) = 9"
  shows "fst (upload_loop [example_step] prev Sdo_in_progress timeout s) = Some (Inr (Sdo_communication_end, False)) \<and>
    lc_observations (se_lifecycle (snd (upload_loop [example_step] prev Sdo_in_progress timeout s))) = example_upload_store"
proof -
  let ?r = "run_until 2000000 example_upload_turns (se_lifecycle s)"
  have last_turn: "run_turn 2000000 (example_turn 2000000 f) l = (Some (outcome_success Exit_deadline), [], l)" for f l
    by (simp add: run_turn_def finish_def example_turn_def)
  have "fst ?r = Some (outcome_success Exit_deadline) \<and> lc_observations (snd (snd ?r)) = example_upload_store"
    using example_turn_runs [of 6000 2000000 "se_lifecycle s" example_upload_answer] assms
    by (simp add: example_upload_turns_def case_prod_beta Let_def last_turn
        example_upload_store_def example_store_ready)
  then show ?thesis
    by (simp add: example_step_def run_to_deadline_def case_prod_beta Let_def through_gate_def client_call_def)
qed

lemma generations_kept [simp]:
  "se_request_generation (through_gate calls s) = se_request_generation s"
  "se_attempt_generation (through_gate calls s) = se_attempt_generation s"
  "se_request_generation (client_call c s) = se_request_generation s"
  "se_attempt_generation (client_call c s) = se_attempt_generation s"
  "se_request_generation (drop_authorization s) = se_request_generation s"
  "se_attempt_generation (drop_authorization s) = se_attempt_generation s"
  "se_request_generation (on_observations f s) = se_request_generation s"
  "se_attempt_generation (on_observations f s) = se_attempt_generation s"
  "se_request_generation (snd (run_to_deadline op deadline ts gate s)) = se_request_generation s"
  "se_attempt_generation (snd (run_to_deadline op deadline ts gate s)) = se_attempt_generation s"
  by (simp_all add: through_gate_def client_call_def drop_authorization_def on_observations_def
      run_to_deadline_state)

lemma upload_loop_generations [simp]:
  "se_request_generation (snd (upload_loop us prev result timeout s)) = se_request_generation s \<and>
   se_attempt_generation (snd (upload_loop us prev result timeout s)) = se_attempt_generation s"
  by (induction us arbitrary: prev result timeout s) (simp_all add: Let_def case_prod_beta split: option.split)

lemma example_uploaded:
  "\<exists>s'. upload example_attempt a2 0x6041 0 retry example_session = (Some (outcome_success example_value), s')"
proof -
  let ?s = "example_session\<lparr>se_request_generation := 1\<rparr>"
  let ?b = "begin_attempt True 0x6041 0 4 ?s"
  let ?s2 = "through_gate (ua_gate example_attempt) (client_call (Sdo_step 0) (snd ?b))"
  let ?l = "upload_loop [example_step] 5000 Sdo_in_progress False ?s2"
  have b: "fst ?b" "lc_observations (se_lifecycle ?s2) = begin_sdo_upload 1 1 0x6041 0 4 example_store"
      "lc_next_check (se_lifecycle ?s2) = 10000000" "lc_termination_fd (se_lifecycle ?s2) = 9"
      "se_request_generation ?s2 = 1" "se_attempt_generation ?s2 = 1"
    using example_run
    by (simp_all add: begin_attempt_def begin_attempt_observations Let_def case_prod_beta example_session_def
        increment_nonzero_def authorize_sdo_upload_eq sdo_upload_size_def sdo_object.make_def
        through_gate_def client_call_def on_observations_def observe_def del: run_all.simps)
  note l = example_upload_loop [OF b(2,3,4), of 5000 False]
  have answer: "upload_answer 2000000 s = (outcome_success example_value, client_call Sdo_close s)"
    if "lc_observations (se_lifecycle s) = example_upload_store" "se_request_generation s = 1"
      "se_attempt_generation s = 1" for s
    using that example_value_current
    by (simp add: upload_answer_def observation_snapshot_of_def example_value_def Let_def)
  have snapshot_time: "ua_snapshot_time example_attempt = 2000000"
    by (simp add: example_attempt_def)
  have "fst (conclude_attempt example_attempt final (fst ?l) (snd ?l)) =
      Attempt_result (outcome_success example_value)" for final
    using l b(5,6) by (simp add: conclude_attempt_def Let_def answer snapshot_time del: upload_loop.simps)
  moreover have "status_ok (require_fresh_remote 5000 ?s)"
    by (rule example_session_ready) (simp add: example_session_def)
  ultimately have "fst (attempt_upload example_attempt 0x6041 0 4 final ?s) =
      Attempt_result (outcome_success example_value)" for final
    using b(1) by (simp add: attempt_upload_def Let_def case_prod_beta example_attempt_def del: upload_loop.simps)
  then show ?thesis
    by (simp add: upload_def sdo_upload_size_def sdo_object.make_def Let_def case_prod_beta
        increment_nonzero_def example_session_def)
qed

theorem nmt_sends_only_its_command_witness:
  "length (filter sent_successfully (se_sent (snd (send_nmt Nmt_stopped 5000
     [(well_formed_request (zero_frame\<lparr>can_dlc := 2, Canopen_Gate.can_data := [2, 1, 0, 0, 0, 0, 0, 0]\<rparr>) 5,
       \<lparr>so_result = 16, so_errno = 0\<rparr>)] True example_session)))) \<le> 1 \<and>
   \<not> auth_active (se_authorization (snd (send_nmt Nmt_stopped 5000
     [(well_formed_request (zero_frame\<lparr>can_dlc := 2, Canopen_Gate.can_data := [2, 1, 0, 0, 0, 0, 0, 0]\<rparr>) 5,
       \<lparr>so_result = 16, so_errno = 0\<rparr>)] True example_session)))"
proof -
  have start: "\<not> auth_active (se_authorization example_session)" "se_sent example_session = []"
    by (simp_all add: example_session_def)
  show ?thesis
    using nmt_sends_only_its_command [OF start(1) surjective_pairing] start(2) by force
qed

theorem upload_sends_only_its_request_witness:
  "\<exists>r s'. upload example_attempt example_attempt 0x6041 0 False example_session = (r, s') \<and>
     r \<noteq> None \<and> length (filter sent_successfully (se_sent s')) \<le> 1 \<and> \<not> auth_active (se_authorization s')"
proof -
  from example_uploaded obtain s' where
    up: "upload example_attempt example_attempt 0x6041 0 False example_session = (Some (outcome_success example_value), s')"
    by blast
  have start: "\<not> auth_active (se_authorization example_session)" "se_sent example_session = []"
    by (simp_all add: example_session_def)
  from upload_sends_only_its_request [OF start(1) up] up start(2) show ?thesis
    by auto
qed

theorem upload_returns_the_answer_witness:
  "\<exists>t \<in> set example_upload_turns. answers_request t 1 0x6041 0 4 example_value"
proof -
  from example_uploaded obtain s' where
    up: "upload example_attempt example_attempt 0x6041 0 False example_session = (Some (outcome_success example_value), s')"
    by blast
  have "listens 1 example_session"
    using example_run(1) example_owner_config
    by (simp add: listens_def example_session_def se_config_def example_store_ready example_config_def
        default_stack_config_def del: run_all.simps)
  from upload_returns_the_answer [OF this up] show ?thesis
    by (simp add: step_turns_def example_attempt_def example_step_def sdo_upload_size_def sdo_object.make_def)
qed

end
