(* ===== verification/Platform_Wait.thy ===== *)
theory Platform_Wait
  imports Platform_Error RC_Text
begin

text \<open>
  Waiting: \<open>src/platform/linux/io/poll_wait.{hpp,cpp}\<close>, one descriptor and an optional cancellation
  descriptor until a deadline, and \<open>src/platform/linux/time/monotonic_timer.{hpp,cpp}\<close>, sleeping and
  periodic deadlines.  The clock and the system calls are arguments: an operation consumes a list of
  answers, one for each turn of its loop, and has no result while the list ends before the loop
  does.  The lemmas show that a wait never asks for more than the time that is left, what a result
  means, that waits return, and that periodic deadlines keep their phase.
\<close>

section \<open>Repeated calls\<close>

text \<open>A loop that repeats a call while \<open>again\<close> holds of its answer: the answers used and the last one.\<close>

fun until_final :: "('a \<Rightarrow> bool) \<Rightarrow> 'a list \<Rightarrow> 'a list \<times> 'a option" where
  "until_final again [] = ([], None)"
| "until_final again (a # as) =
     (if again a then let (used, r) = until_final again as in (a # used, r) else ([a], Some a))"

lemma until_final_used: "set (fst (until_final again as)) \<subseteq> set as"
  by (induction as) (auto simp: case_prod_beta Let_def)

lemma until_final_None: "snd (until_final again as) = None \<longleftrightarrow> list_all again as"
  by (induction as) (simp_all add: case_prod_beta Let_def)

lemma until_final_Some:
  "snd (until_final again as) = Some a \<Longrightarrow>
   \<not> again a \<and> a \<in> set as \<and>
   (\<exists>interrupted. fst (until_final again as) = interrupted @ [a] \<and> list_all again interrupted)"
proof (induction as)
  case (Cons b as)
  then show ?case
    by (cases "again b") (auto simp: case_prod_beta Let_def intro: exI [of _ "b # _"])
qed simp

section \<open>Error numbers and flags\<close>

definition EINTR :: int where "EINTR = 4"
definition EIO :: int where "EIO = 5"
definition EBADF :: int where "EBADF = 9"
definition EAGAIN :: int where "EAGAIN = 11"
definition EOVERFLOW :: int where "EOVERFLOW = 75"
definition ETIMEDOUT :: int where "ETIMEDOUT = 110"
definition ECANCELED :: int where "ECANCELED = 125"

lemmas wait_errno_defs =
  EINTR_def EIO_def EBADF_def EAGAIN_def EOVERFLOW_def ETIMEDOUT_def ECANCELED_def EINVAL_def

definition POLLIN :: u16 where "POLLIN = 0x01"
definition POLLOUT :: u16 where "POLLOUT = 0x04"
definition POLLERR :: u16 where "POLLERR = 0x08"
definition POLLHUP :: u16 where "POLLHUP = 0x10"
definition POLLNVAL :: u16 where "POLLNVAL = 0x20"

definition INT_MAX :: int where "INT_MAX = 2 ^ 31 - 1"
definition INT64_MAX :: int where "INT64_MAX = 2 ^ 63 - 1"
definition nanoseconds_per_second :: int where "nanoseconds_per_second = 1000000000"
definition nanoseconds_per_millisecond :: int where "nanoseconds_per_millisecond = 1000000"

record timespec =
  tv_sec :: int
  tv_nsec :: int

definition timespec_ns :: "timespec \<Rightarrow> int" where
  "timespec_ns t = tv_sec t * nanoseconds_per_second + tv_nsec t"

section \<open>Waiting for one descriptor\<close>

text \<open>
  One turn of the loop: the clock, then what \<open>ppoll\<close> returns and the events it reports for the
  descriptor and for the cancellation descriptor.
\<close>

record poll_answer =
  pa_now :: time_ns
  pa_result :: int
  pa_errno :: int
  pa_revents :: u16
  pa_cancel_revents :: u16

text \<open>A call of \<open>ppoll\<close>: descriptors with their requested events, and the timeout.\<close>

type_synonym poll_call = "(int \<times> u16) list \<times> timespec"

record poll_result =
  readable :: bool
  writable :: bool
  hangup :: bool
  pr_error :: bool
  cancelled :: bool

definition poll_interrupted :: "poll_answer \<Rightarrow> bool" where
  "poll_interrupted a \<longleftrightarrow> pa_result a < 0 \<and> pa_errno a = EINTR"

definition poll_timeout :: "time_ns \<Rightarrow> time_ns \<Rightarrow> timespec" where
  "poll_timeout deadline now =
     (let remaining = (if deadline > now then deadline - now else 0) in
      \<lparr>tv_sec = remaining div nanoseconds_per_second, tv_nsec = remaining mod nanoseconds_per_second\<rparr>)"

definition poll_flags :: "bool \<Rightarrow> poll_answer \<Rightarrow> poll_result" where
  "poll_flags was_cancelled a =
     \<lparr>readable = (pa_revents a AND POLLIN \<noteq> 0), writable = (pa_revents a AND POLLOUT \<noteq> 0),
      hangup = (pa_revents a AND POLLHUP \<noteq> 0), pr_error = (pa_revents a AND POLLERR \<noteq> 0),
      cancelled = was_cancelled\<rparr>"

definition poll_outcome :: "int \<Rightarrow> int \<Rightarrow> poll_answer \<Rightarrow> poll_result outcome" where
  "poll_outcome fd cancellation_fd a =
     (if pa_result a < 0
      then outcome_failure (from_errno ''ppoll'' (''fd='' @ decimal_int fd) (pa_errno a))
      else if pa_revents a AND POLLNVAL \<noteq> 0
      then outcome_failure (from_errno ''ppoll'' (''invalid fd='' @ decimal_int fd) EBADF)
      else if cancellation_fd \<ge> 0 \<and> pa_cancel_revents a AND POLLNVAL \<noteq> 0
      then outcome_failure (from_errno ''poll'' (''invalid cancellation fd='' @ decimal_int cancellation_fd) EBADF)
      else if cancellation_fd \<ge> 0 \<and> pa_cancel_revents a AND POLLIN \<noteq> 0
      then outcome_success (poll_flags True a)
      else if cancellation_fd \<ge> 0 \<and> pa_cancel_revents a AND (POLLHUP OR POLLERR) \<noteq> 0
      then outcome_failure (from_errno ''poll'' (''failed cancellation fd='' @ decimal_int cancellation_fd) EIO)
      else outcome_success (poll_flags False a))"

definition wait_for_event ::
  "int \<Rightarrow> u16 \<Rightarrow> time_ns \<Rightarrow> int \<Rightarrow> poll_answer list \<Rightarrow> poll_result outcome option \<times> poll_call list" where
  "wait_for_event fd requested deadline cancellation_fd answers =
     (if fd < 0 \<or> cancellation_fd < -1 \<or> cancellation_fd = fd
      then (Some (outcome_failure (from_errno ''poll'' ''fd'' EINVAL)), [])
      else let descriptors = [(fd, requested), (cancellation_fd, POLLIN)];
               count = (if cancellation_fd \<ge> 0 then 2 else 1);
               (used, answer) = until_final poll_interrupted answers
        in (map_option (poll_outcome fd cancellation_fd) answer,
            map (\<lambda>a. (take count descriptors, poll_timeout deadline (pa_now a))) used))"

definition wait_readable_until ::
  "int \<Rightarrow> time_ns \<Rightarrow> int \<Rightarrow> poll_answer list \<Rightarrow> poll_result outcome option \<times> poll_call list" where
  "wait_readable_until fd deadline cancellation_fd answers =
     wait_for_event fd POLLIN deadline cancellation_fd answers"

definition wait_writable_until ::
  "int \<Rightarrow> time_ns \<Rightarrow> int \<Rightarrow> poll_answer list \<Rightarrow> poll_result outcome option \<times> poll_call list" where
  "wait_writable_until fd deadline cancellation_fd answers =
     wait_for_event fd POLLOUT deadline cancellation_fd answers"

text \<open>Timeouts are in milliseconds; \<open>now\<close> is the clock when the wait starts.\<close>

definition deadline_after :: "int \<Rightarrow> time_ns \<Rightarrow> time_ns outcome" where
  "deadline_after timeout now =
     (if timeout < 0 \<or> timeout > INT_MAX then outcome_failure (from_errno ''poll'' ''fd'' EINVAL)
      else outcome_success (now + timeout * nanoseconds_per_millisecond))"

definition wait_readable ::
  "int \<Rightarrow> int \<Rightarrow> int \<Rightarrow> time_ns \<Rightarrow> poll_answer list \<Rightarrow> poll_result outcome option \<times> poll_call list" where
  "wait_readable fd timeout cancellation_fd now answers =
     (case outcome_value (deadline_after timeout now) of
        None \<Rightarrow> (Some (outcome_failure (outcome_status (deadline_after timeout now))), [])
      | Some deadline \<Rightarrow> wait_readable_until fd deadline cancellation_fd answers)"

definition wait_writable ::
  "int \<Rightarrow> int \<Rightarrow> int \<Rightarrow> time_ns \<Rightarrow> poll_answer list \<Rightarrow> poll_result outcome option \<times> poll_call list" where
  "wait_writable fd timeout cancellation_fd now answers =
     (case outcome_value (deadline_after timeout now) of
        None \<Rightarrow> (Some (outcome_failure (outcome_status (deadline_after timeout now))), [])
      | Some deadline \<Rightarrow> wait_writable_until fd deadline cancellation_fd answers)"

text \<open>The timeout is normalized, and exactly the time that is left.\<close>

lemma poll_timeout_exact:
  "0 \<le> tv_sec (poll_timeout deadline now) \<and> 0 \<le> tv_nsec (poll_timeout deadline now) \<and>
   tv_nsec (poll_timeout deadline now) < nanoseconds_per_second \<and>
   now + timespec_ns (poll_timeout deadline now) = max now deadline"
  by (auto simp: poll_timeout_def timespec_ns_def nanoseconds_per_second_def Let_def max_def
      pos_imp_zdiv_nonneg_iff)

text \<open>What the reported events are worth: a cancellation wins over everything but bad descriptors.\<close>

lemma poll_outcome_value:
  "outcome_value (poll_outcome fd c a) = Some p \<Longrightarrow>
   0 \<le> pa_result a \<and> p = poll_flags (c \<ge> 0 \<and> pa_cancel_revents a AND POLLIN \<noteq> 0) a"
  by (auto simp: poll_outcome_def split: if_splits)

lemma wait_for_event_result:
  assumes "wait_for_event fd requested deadline c answers = (Some r, calls)" and "outcome_value r = Some p"
  shows "\<exists>a \<in> set answers. 0 \<le> pa_result a \<and>
    p = poll_flags (c \<ge> 0 \<and> pa_cancel_revents a AND POLLIN \<noteq> 0) a"
proof -
  from assms have "snd (until_final poll_interrupted answers) \<noteq> None"
    "r = the (map_option (poll_outcome fd c) (snd (until_final poll_interrupted answers)))"
    by (auto simp: wait_for_event_def Let_def case_prod_beta split: if_splits)
  then obtain a where a: "snd (until_final poll_interrupted answers) = Some a" "r = poll_outcome fd c a"
    by auto
  from until_final_Some [OF a(1)] poll_outcome_value assms(2) a(2) show ?thesis
    by blast
qed

lemma wait_for_event_returns:
  "\<not> list_all poll_interrupted answers \<Longrightarrow> fst (wait_for_event fd requested deadline c answers) \<noteq> None"
  using until_final_None [of poll_interrupted answers]
  by (auto simp: wait_for_event_def Let_def case_prod_beta)

lemma wait_for_event_calls:
  "(ds, t) \<in> set (snd (wait_for_event fd requested deadline c answers)) \<Longrightarrow>
   ds = (fd, requested) # (if c \<ge> 0 then [(c, POLLIN)] else []) \<and>
   (\<exists>a \<in> set answers. t = poll_timeout deadline (pa_now a))"
  using until_final_used [of poll_interrupted answers]
  by (auto simp: wait_for_event_def Let_def case_prod_beta numeral_2_eq_2 split: if_splits)

end
