(* ===== verification/Platform_Timer.thy ===== *)
theory Platform_Timer
  imports Platform_Wait
begin

text \<open>
  \<open>src/platform/linux/time/monotonic_timer.{hpp,cpp}\<close>: the monotonic clock, sleeping until an
  absolute time with and without a cancellation descriptor, and \<open>PeriodicDeadline\<close>.  The answers of
  the system calls are arguments; a sleep has no result while its list of answers ends before the
  loop does.  The lemmas show that a periodic deadline keeps its phase over any number of waits,
  however late they end, that it counts what it missed, and that a failed wait changes nothing.
\<close>

section \<open>Clock and sleeping\<close>

text \<open>\<open>clock_gettime\<close>: the time, or an error number.\<close>

type_synonym clock_answer = "int + timespec"

definition clock_now :: "clock_answer \<Rightarrow> time_ns outcome" where
  "clock_now a =
     (case a of
        Inl errno \<Rightarrow> outcome_failure (from_errno ''clock_gettime'' ''CLOCK_MONOTONIC'' errno)
      | Inr t \<Rightarrow> outcome_success (timespec_ns t))"

definition to_timespec :: "time_ns \<Rightarrow> timespec" where
  "to_timespec v =
     \<lparr>tv_sec = v div nanoseconds_per_second, tv_nsec = v mod nanoseconds_per_second\<rparr>"

text \<open>The results of \<open>clock_nanosleep\<close>, one for each turn; the calls are the targets.\<close>

definition sleep_until :: "time_ns \<Rightarrow> int list \<Rightarrow> status option \<times> timespec list" where
  "sleep_until deadline answers =
     (if deadline < 0 then (Some (from_errno ''clock_nanosleep'' ''negative deadline'' EINVAL), [])
      else let (used, answer) = until_final (\<lambda>r. r = EINTR) answers in
        (map_option (\<lambda>r. if r \<noteq> 0 then from_errno ''clock_nanosleep'' ''CLOCK_MONOTONIC'' r
                         else success_status) answer,
         map (\<lambda>_. to_timespec deadline) used))"

text \<open>One turn of the cancellable sleep.\<close>

record sleep_turn =
  st_clock :: clock_answer
  st_result :: int
  st_errno :: int
  st_revents :: u16

fun sleep_until_cancel :: "time_ns \<Rightarrow> int \<Rightarrow> sleep_turn list \<Rightarrow> status option \<times> timespec list" where
  "sleep_until_cancel deadline cancellation_fd [] =
     (if deadline < 0 \<or> cancellation_fd < 0
      then Some (from_errno ''ppoll'' ''invalid deadline or cancellation fd'' EINVAL) else None, [])"
| "sleep_until_cancel deadline cancellation_fd (t # ts) =
     (if deadline < 0 \<or> cancellation_fd < 0
      then (Some (from_errno ''ppoll'' ''invalid deadline or cancellation fd'' EINVAL), [])
      else case outcome_value (clock_now (st_clock t)) of
        None \<Rightarrow> (Some (outcome_status (clock_now (st_clock t))), [])
      | Some current \<Rightarrow>
          if current \<ge> deadline then (Some success_status, [])
          else let timeout = to_timespec (deadline - current); events = st_revents t in
            if st_result t > 0
            then (Some (if events AND POLLNVAL \<noteq> 0 then from_errno ''ppoll'' ''invalid cancellation fd'' EBADF
                        else if events AND (POLLHUP OR POLLERR) \<noteq> 0
                        then from_errno ''ppoll'' ''failed cancellation fd'' EIO
                        else if events AND POLLIN \<noteq> 0 then from_errno ''ppoll'' ''cancelled'' ECANCELED
                        else from_errno ''ppoll'' ''unexpected cancellation event'' EIO), [timeout])
            else if st_result t = 0 then (Some success_status, [timeout])
            else if st_errno t \<noteq> EINTR
            then (Some (from_errno ''ppoll'' ''cancellation fd'' (st_errno t)), [timeout])
            else let (r, calls) = sleep_until_cancel deadline cancellation_fd ts in (r, timeout # calls))"

section \<open>Periodic deadlines\<close>

record periodic_deadline =
  pd_next :: time_ns
  pd_period :: time_ns

definition periodic_deadline_create :: "time_ns \<Rightarrow> time_ns \<Rightarrow> periodic_deadline" where
  "periodic_deadline_create first_deadline period = \<lparr>pd_next = first_deadline, pd_period = period\<rparr>"

definition invalid_deadline :: status where
  "invalid_deadline = from_errno ''periodic_wait'' ''invalid deadline or period'' EINVAL"

definition advance_after_wake ::
  "clock_answer \<Rightarrow> periodic_deadline \<Rightarrow> u64 outcome \<times> periodic_deadline" where
  "advance_after_wake clock d =
     (if pd_period d \<le> 0 \<or> pd_next d < 0 then (outcome_failure invalid_deadline, d)
      else case outcome_value (clock_now clock) of
        None \<Rightarrow> (outcome_failure (outcome_status (clock_now clock)), d)
      | Some wake \<Rightarrow>
          if wake < pd_next d
          then (outcome_failure (from_errno ''periodic_wait'' ''clock moved backwards'' EIO), d)
          else let delta = wake - pd_next d; period = pd_period d; missed = delta div period;
                   remainder = delta mod period; increment = period - remainder
            in if wake > INT64_MAX - increment
               then (outcome_failure (from_errno ''periodic_wait'' ''deadline overflow'' EOVERFLOW), d)
               else (outcome_success (word_of_int missed), d\<lparr>pd_next := wake + increment\<rparr>))"

text \<open>Both forms of \<open>wait_next\<close>, with the clock that is read after the sleep.\<close>

definition wait_next ::
  "int list \<Rightarrow> clock_answer \<Rightarrow> periodic_deadline \<Rightarrow> u64 outcome option \<times> periodic_deadline" where
  "wait_next sleeps clock d =
     (if pd_period d \<le> 0 \<or> pd_next d < 0 then (Some (outcome_failure invalid_deadline), d)
      else case fst (sleep_until (pd_next d) sleeps) of
        None \<Rightarrow> (None, d)
      | Some st \<Rightarrow>
          if \<not> status_ok st then (Some (outcome_failure st), d)
          else let (r, d) = advance_after_wake clock d in (Some r, d))"

definition wait_next_cancel ::
  "int \<Rightarrow> sleep_turn list \<Rightarrow> clock_answer \<Rightarrow> periodic_deadline \<Rightarrow>
     u64 outcome option \<times> periodic_deadline" where
  "wait_next_cancel cancellation_fd turns clock d =
     (if pd_period d \<le> 0 \<or> pd_next d < 0 then (Some (outcome_failure invalid_deadline), d)
      else case fst (sleep_until_cancel (pd_next d) cancellation_fd turns) of
        None \<Rightarrow> (None, d)
      | Some st \<Rightarrow>
          if \<not> status_ok st then (Some (outcome_failure st), d)
          else let (r, d) = advance_after_wake clock d in (Some r, d))"

section \<open>Phase and missed deadlines\<close>

lemma advance_after_wake_success:
  assumes "advance_after_wake clock d = (r, d')" and "outcome_value r = Some missed"
  shows "\<exists>t. clock = Inr t \<and> pd_period d' = pd_period d \<and> 0 < pd_period d \<and> 0 \<le> pd_next d \<and>
    pd_next d \<le> timespec_ns t \<and> timespec_ns t < pd_next d' \<and> pd_next d' \<le> timespec_ns t + pd_period d \<and>
    pd_next d' \<le> INT64_MAX \<and> pd_next d' = pd_next d + (uint missed + 1) * pd_period d"
proof -
  from assms obtain t where t: "clock = Inr t" "0 < pd_period d" "0 \<le> pd_next d" "pd_next d \<le> timespec_ns t"
    by (auto simp: advance_after_wake_def clock_now_def Let_def split: if_splits sum.splits)
  let ?w = "timespec_ns t" and ?p = "pd_period d"
  let ?delta = "?w - pd_next d"
  let ?inc = "?p - ?delta mod ?p"
  from assms t have r: "?w + ?inc \<le> INT64_MAX" "missed = word_of_int (?delta div ?p)" "d' = d\<lparr>pd_next := ?w + ?inc\<rparr>"
    by (auto simp: advance_after_wake_def clock_now_def Let_def split: if_splits)
  have inc: "0 < ?inc" "?inc \<le> ?p"
    using t(2) by simp_all
  have "?delta div ?p \<le> ?delta"
    using t zdiv_mono2 [of ?delta 1 ?p] by simp
  moreover have "?w < 2 ^ 63"
    using r(1) inc(1) by (simp add: INT64_MAX_def)
  ultimately have "0 \<le> ?delta div ?p" "?delta div ?p < 2 ^ 64"
    using t by (simp_all add: pos_imp_zdiv_nonneg_iff)
  then have missed: "uint missed = ?delta div ?p"
    by (simp add: r(2) uint_word_of_int)
  have "?delta = ?p * (?delta div ?p) + ?delta mod ?p"
    by simp
  then have "?w + ?inc = pd_next d + (?delta div ?p + 1) * ?p"
    by (simp add: algebra_simps)
  with t r inc missed show ?thesis
    by simp
qed

lemma advance_after_wake_failure:
  "advance_after_wake clock d = (r, d') \<Longrightarrow> outcome_value r = None \<Longrightarrow> d' = d"
  by (auto simp: advance_after_wake_def Let_def split: if_splits option.splits)

text \<open>One wait of either form, as its user sees it: a pending or failed wait, or the advance.\<close>

inductive waits :: "periodic_deadline \<Rightarrow> u64 outcome option \<Rightarrow> periodic_deadline \<Rightarrow> bool" where
  sleeping: "wait_next sleeps clock d = (r, d') \<Longrightarrow> waits d r d'"
| cancellable: "wait_next_cancel fd turns clock d = (r, d') \<Longrightarrow> waits d r d'"

inductive_cases waitsE: "waits d r d'"

lemma waits_cases:
  assumes "waits d r d'"
  obtains (kept) "d' = d" "Option.bind r outcome_value = None"
  | (advanced) clock x where "r = Some x" "advance_after_wake clock d = (x, d')"
  using assms
  by (elim waitsE)
    (auto simp: wait_next_def wait_next_cancel_def case_prod_beta prod_eq_iff split: if_splits option.splits)

text \<open>
  A sequence of waits, given by its results; a failed wait may be repeated.  The total counts the
  deadlines that were reached or missed.
\<close>

inductive wait_run :: "periodic_deadline \<Rightarrow> u64 outcome list \<Rightarrow> periodic_deadline \<Rightarrow> bool" where
  start: "wait_run d [] d"
| step: "wait_run d rs d' \<Longrightarrow> waits d' (Some r) d'' \<Longrightarrow> wait_run d (rs @ [r]) d''"

definition deadlines_passed :: "u64 outcome list \<Rightarrow> int" where
  "deadlines_passed rs = (\<Sum>r\<leftarrow>rs. case outcome_value r of None \<Rightarrow> 0 | Some missed \<Rightarrow> uint missed + 1)"

lemma deadlines_passed_simps [simp]:
  "deadlines_passed [] = 0"
  "deadlines_passed (rs @ [r]) =
     deadlines_passed rs + (case outcome_value r of None \<Rightarrow> 0 | Some missed \<Rightarrow> uint missed + 1)"
  by (simp_all add: deadlines_passed_def)

text \<open>
  C30: Periodic deadlines do not drift: over any sequence of waits, successful, failed or
  cancelled and however late, the next deadline is the first one plus the period times the number
  of deadlines that were reached or reported as missed.
\<close>

theorem periodic_deadlines_keep_phase:
  assumes "wait_run d rs d'"
  shows "pd_period d' = pd_period d \<and> pd_next d' = pd_next d + deadlines_passed rs * pd_period d"
  using assms
proof induction
  case (step d rs d' r d'')
  from step.hyps(2) show ?case
  proof (cases rule: waits_cases)
    case kept
    with step.IH show ?thesis
      by simp
  next
    case (advanced clock x)
    show ?thesis
    proof (cases "outcome_value r")
      case None
      with advanced step.IH advance_after_wake_failure show ?thesis
        by auto
    next
      case (Some missed)
      with advanced step.IH advance_after_wake_success [OF advanced(2)] show ?thesis
        by (auto simp: algebra_simps)
    qed
  qed
qed simp

text \<open>
  A wait for a periodic deadline that succeeds ends at or after the deadline, and moves it to
  the first multiple of the period that lies in the future of the wake-up, reporting how many were
  skipped; every other wait leaves the deadline as it was.
\<close>

theorem periodic_wait_exact:
  assumes "waits d r d'"
  shows "if Option.bind r outcome_value = None then d' = d
    else \<exists>wake missed. Option.bind r outcome_value = Some missed \<and> pd_next d \<le> wake \<and> wake < pd_next d' \<and>
      pd_next d' \<le> wake + pd_period d \<and> pd_next d' = pd_next d + (uint missed + 1) * pd_period d"
  using assms
proof (cases rule: waits_cases)
  case kept
  then show ?thesis
    by simp
next
  case (advanced clock x)
  show ?thesis
  proof (cases "outcome_value x")
    case None
    with advanced advance_after_wake_failure show ?thesis
      by simp
  next
    case (Some missed)
    with advance_after_wake_success [OF advanced(2)] advanced(1) show ?thesis
      by auto
  qed
qed

section \<open>Sleeping\<close>

text \<open>A sleep succeeds only when the deadline was seen to have passed, or the kernel said so.\<close>

lemma sleep_until_returns: "\<not> list_all (\<lambda>r. r = EINTR) answers \<Longrightarrow> fst (sleep_until deadline answers) \<noteq> None"
  using until_final_None [of "\<lambda>r. r = EINTR" answers] by (simp add: sleep_until_def case_prod_beta)

lemma sleep_until_cancel_success:
  "fst (sleep_until_cancel deadline fd turns) = Some st \<Longrightarrow> status_ok st \<Longrightarrow>
   (\<forall>t \<in> set turns. st_result t < 0 \<longrightarrow> st_errno t \<noteq> 0) \<Longrightarrow>
   (\<forall>t \<in> set turns. \<forall>n. st_clock t = Inl n \<longrightarrow> n \<noteq> 0) \<Longrightarrow>
   \<exists>t \<in> set turns. \<exists>c. st_clock t = Inr c \<and> (deadline \<le> timespec_ns c \<or> st_result t = 0)"
proof (induction turns)
  case Nil
  then show ?case
    by (auto simp: EINVAL_def split: if_splits)
next
  case (Cons t ts)
  then show ?case
    by (cases "st_clock t")
      (auto simp: clock_now_def Let_def case_prod_beta wait_errno_defs not_less split: if_splits)
qed

lemma sleep_until_cancel_returns:
  "(\<exists>t \<in> set turns. 0 \<le> st_result t \<or> st_errno t \<noteq> EINTR) \<Longrightarrow>
   fst (sleep_until_cancel deadline fd turns) \<noteq> None"
  by (induction turns) (auto simp: Let_def case_prod_beta split: option.split)

text \<open>The timeouts of the cancellable sleep reach the deadline, and not further.\<close>

lemma to_timespec_exact: "timespec_ns (to_timespec v) = v"
  by (simp add: to_timespec_def timespec_ns_def)

lemma sleep_until_cancel_timeouts:
  "x \<in> set (snd (sleep_until_cancel deadline fd turns)) \<Longrightarrow>
   \<exists>t \<in> set turns. \<exists>c. st_clock t = Inr c \<and> timespec_ns c + timespec_ns x = deadline \<and> 0 < timespec_ns x"
proof (induction turns)
  case (Cons t ts)
  then show ?case
    by (cases "st_clock t")
      (auto simp: clock_now_def Let_def case_prod_beta to_timespec_exact split: if_splits)
qed (simp split: if_splits)

section \<open>A run\<close>

definition example_deadline :: periodic_deadline where
  "example_deadline = periodic_deadline_create 1000 500"

text \<open>A wait that is interrupted once and ends 1,200 nanoseconds late, then a cancelled one.\<close>

lemma example_late_wait:
  "wait_next [4, 0] (Inr \<lparr>tv_sec = 0, tv_nsec = 2200\<rparr>) example_deadline =
   (Some (outcome_success 2), \<lparr>pd_next = 2500, pd_period = 500\<rparr>)"
  by (simp add: wait_next_def example_deadline_def periodic_deadline_create_def sleep_until_def EINTR_def
      advance_after_wake_def clock_now_def timespec_ns_def nanoseconds_per_second_def INT64_MAX_def Let_def)

lemma example_cancelled_wait:
  "wait_next_cancel 7 [\<lparr>st_clock = Inr \<lparr>tv_sec = 0, tv_nsec = 2300\<rparr>, st_result = 1, st_errno = 0, st_revents = 1\<rparr>]
     clock \<lparr>pd_next = 2500, pd_period = 500\<rparr> =
   (Some (outcome_failure (from_errno ''ppoll'' ''cancelled'' ECANCELED)), \<lparr>pd_next = 2500, pd_period = 500\<rparr>)"
  by (simp add: wait_next_cancel_def clock_now_def timespec_ns_def Let_def POLLNVAL_def POLLHUP_def POLLERR_def
      POLLIN_def ECANCELED_def)

lemma example_wait_run:
  "wait_run example_deadline [outcome_success 2, outcome_failure (from_errno ''ppoll'' ''cancelled'' ECANCELED)]
     \<lparr>pd_next = 2500, pd_period = 500\<rparr>"
  using wait_run.step [OF wait_run.step [OF wait_run.start waits.sleeping [OF example_late_wait]]
      waits.cancellable [OF example_cancelled_wait]]
  by simp

theorem periodic_deadlines_keep_phase_witness:
  "(2500 :: int) = 1000 + deadlines_passed [outcome_success 2,
     outcome_failure (from_errno ''ppoll'' ''cancelled'' ECANCELED)] * 500"
  using periodic_deadlines_keep_phase [OF example_wait_run]
  by (simp add: example_deadline_def periodic_deadline_create_def)

theorem periodic_wait_exact_witness:
  "\<exists>wake. 1000 \<le> wake \<and> wake < 2500 \<and> (2500 :: int) \<le> wake + 500"
  using periodic_wait_exact [OF waits.sleeping [OF example_late_wait]]
  by (auto simp: example_deadline_def periodic_deadline_create_def)

end
