(* ===== verification/Platform_Socket.thy ===== *)
theory Platform_Socket
  imports Platform_Wait Platform_Can
begin

text \<open>
  \<open>src/platform/linux/can/socket.{hpp,cpp}\<close> and the owner of a descriptor, \<open>unique_fd.hpp\<close>:
  opening a raw CAN socket, sending one frame and receiving one frame before a deadline.  What the
  kernel answers is an argument, one record for each turn of a loop, and the calls made are
  results.  The lemmas show that a failed opening closes the descriptor it got, that a successful
  send has written the encoded frame exactly once and no other frame, that a received frame is
  the decoded frame of the kernel with the metadata of the same message, and that both return.
\<close>

section \<open>Descriptors and configuration\<close>

text \<open>\<open>UniqueFd\<close>: the descriptor it owns, or -1; the operations return what is closed.\<close>

type_synonym unique_fd = int

definition unique_fd_owns :: "unique_fd \<Rightarrow> bool" where
  "unique_fd_owns fd \<longleftrightarrow> fd \<ge> 0"

definition unique_fd_release :: "unique_fd \<Rightarrow> int \<times> unique_fd" where
  "unique_fd_release fd = (fd, -1)"

definition unique_fd_reset :: "int \<Rightarrow> unique_fd \<Rightarrow> int list \<times> unique_fd" where
  "unique_fd_reset replacement fd = (if fd \<ge> 0 then [fd] else [], replacement)"

text \<open>\<open>close\<close> with the error number of the system call, if it fails.\<close>

definition unique_fd_close :: "int option \<Rightarrow> unique_fd \<Rightarrow> status \<times> int list \<times> unique_fd" where
  "unique_fd_close answer fd =
     (let (descriptor, fd') = unique_fd_release fd in
      if descriptor < 0 then (success_status, [], fd')
      else (case answer of
              None \<Rightarrow> success_status
            | Some errno \<Rightarrow> from_errno ''close'' (''fd='' @ decimal_int descriptor) errno,
            [descriptor], fd'))"

definition IFNAMSIZ :: nat where "IFNAMSIZ = 16"
definition CAN_MTU :: int where "CAN_MTU = 16"

type_synonym can_filter = "u32 \<times> u32"

record can_socket_config =
  cc_filters :: "can_filter list option"
  cc_error_mask :: u32
  cc_receive_timestamp :: bool
  cc_receive_queue_overflow :: bool

definition default_socket_config :: can_socket_config where
  "default_socket_config =
     \<lparr>cc_filters = None, cc_error_mask = 0, cc_receive_timestamp = False, cc_receive_queue_overflow = False\<rparr>"

text \<open>The largest \<open>socklen_t\<close>, divided by the size of a \<open>can_filter\<close>.\<close>

definition maximum_filter_count :: nat where
  "maximum_filter_count = (2 ^ 32 - 1) div 8"

record can_socket =
  cs_fd :: unique_fd
  cs_interface_name :: string
  cs_interface_index :: u32

text \<open>The constructor for a closed owner.\<close>

definition closed_socket :: can_socket where
  "closed_socket = \<lparr>cs_fd = -1, cs_interface_name = [], cs_interface_index = 0\<rparr>"

section \<open>Opening\<close>

text \<open>The answers; a call that returns nothing answers None or its error number.\<close>

record open_answers =
  oa_socket :: int
  oa_socket_errno :: int
  oa_index :: u32
  oa_index_errno :: int
  oa_filter :: "int option"
  oa_error_filter :: "int option"
  oa_timestamp :: "int option"
  oa_overflow :: "int option"
  oa_bind :: "int option"

datatype socket_call =
    Socket_open
  | Socket_close int
  | Interface_index string
  | Set_filter int "can_filter list"
  | Set_error_mask int u32
  | Set_timestamp int
  | Set_overflow int
  | Bind_can int u32

definition socket_context :: "string \<Rightarrow> string" where
  "socket_context name = ''interface='' @ name"

text \<open>An optional \<open>setsockopt\<close> or \<open>bind\<close>: the call if it is made, and the failure if it fails.\<close>

definition checked_call ::
  "bool \<Rightarrow> socket_call \<Rightarrow> string \<Rightarrow> string \<Rightarrow> int option \<Rightarrow> socket_call list \<times> status option" where
  "checked_call made call op context answer =
     (if made then ([call], map_option (from_errno op context) answer) else ([], None))"

text \<open>The calls on the open descriptor in order, up to the first failure.\<close>

fun call_sequence ::
  "(socket_call list \<times> status option) list \<Rightarrow> socket_call list \<times> status option" where
  "call_sequence [] = ([], None)"
| "call_sequence ((calls, failed) # rest) =
     (if failed \<noteq> None then (calls, failed)
      else let (calls', failed') = call_sequence rest in (calls @ calls', failed'))"

definition configure_socket ::
  "int \<Rightarrow> string \<Rightarrow> can_socket_config \<Rightarrow> open_answers \<Rightarrow> socket_call list \<times> status option" where
  "configure_socket fd name config a =
     (let context = socket_context name in
      call_sequence
        [checked_call True (Interface_index name) ''if_nametoindex'' context
           (if oa_index a = 0 then Some (oa_index_errno a) else None),
         (case cc_filters config of
            None \<Rightarrow> ([], None)
          | Some fs \<Rightarrow>
              if length fs > maximum_filter_count
              then ([], Some (from_errno ''setsockopt(CAN_RAW_FILTER)'' context EOVERFLOW))
              else checked_call True (Set_filter fd fs) ''setsockopt(CAN_RAW_FILTER)'' context (oa_filter a)),
         checked_call True (Set_error_mask fd (cc_error_mask config)) ''setsockopt(CAN_RAW_ERR_FILTER)'' context
           (oa_error_filter a),
         checked_call (cc_receive_timestamp config) (Set_timestamp fd) ''setsockopt(SO_TIMESTAMPNS)'' context
           (oa_timestamp a),
         checked_call (cc_receive_queue_overflow config) (Set_overflow fd) ''setsockopt(SO_RXQ_OVFL)'' context
           (oa_overflow a),
         checked_call True (Bind_can fd (oa_index a)) ''bind'' context (oa_bind a)])"

definition can_socket_open ::
  "string \<Rightarrow> can_socket_config \<Rightarrow> open_answers \<Rightarrow> can_socket outcome \<times> socket_call list" where
  "can_socket_open name config a =
     (let context = socket_context name in
      if name = [] then (outcome_failure (from_errno ''validate_interface_name'' context EINVAL), [])
      else if length name \<ge> IFNAMSIZ
      then (outcome_failure (from_errno ''validate_interface_name'' context ENAMETOOLONG), [])
      else if oa_socket a < 0
      then (outcome_failure (from_errno ''socket'' context (oa_socket_errno a)), [Socket_open])
      else let fd = oa_socket a; (calls, failed) = configure_socket fd name config a in
          (case failed of
             Some st \<Rightarrow>
               (outcome_failure st, Socket_open # calls @ map Socket_close (fst (unique_fd_reset (-1) fd)))
           | None \<Rightarrow>
               (outcome_success \<lparr>cs_fd = fd, cs_interface_name = name, cs_interface_index = oa_index a\<rparr>,
                Socket_open # calls)))"

section \<open>Sending\<close>

definition with_interface_context :: "status \<Rightarrow> string \<Rightarrow> status" where
  "with_interface_context st interface_context =
     from_errno (operation st)
       (if status_context st \<noteq> [] then interface_context @ '' '' @ status_context st else interface_context)
       (error_code st)"

definition io_deadline :: "int \<Rightarrow> string \<Rightarrow> string \<Rightarrow> time_ns \<Rightarrow> time_ns outcome" where
  "io_deadline timeout op interface_context now =
     (if timeout < 0 then outcome_failure (from_errno op (interface_context @ '' negative timeout'') EINVAL)
      else if timeout > (INT64_MAX - now) div nanoseconds_per_millisecond
      then outcome_failure (from_errno op (interface_context @ '' timeout overflow'') EOVERFLOW)
      else outcome_success (now + timeout * nanoseconds_per_millisecond))"

text \<open>Whether a failed \<open>write\<close> or \<open>recvmsg\<close> is repeated; \<open>EWOULDBLOCK\<close> is \<open>EAGAIN\<close>.\<close>

definition transient :: "int \<Rightarrow> int \<Rightarrow> bool" where
  "transient count errno \<longleftrightarrow> count < 0 \<and> (errno = EINTR \<or> errno = EAGAIN)"

record send_turn =
  sn_polls :: "poll_answer list"
  sn_count :: int
  sn_errno :: int

definition short_count :: "string \<Rightarrow> int \<Rightarrow> string" where
  "short_count context count =
     context @ '' expected='' @ decimal_int CAN_MTU @ '' actual='' @ decimal_int count"

fun send_loop ::
  "send_turn list \<Rightarrow> int \<Rightarrow> can_frame \<Rightarrow> string \<Rightarrow> time_ns \<Rightarrow> int \<Rightarrow> status option \<times> can_frame list" where
  "send_loop [] fd frame context deadline cancellation_fd = (None, [])"
| "send_loop (t # ts) fd frame context deadline cancellation_fd =
     (case fst (wait_writable_until fd deadline cancellation_fd (sn_polls t)) of
        None \<Rightarrow> (None, [])
      | Some event \<Rightarrow>
          (case outcome_value event of
             None \<Rightarrow> (Some (with_interface_context (outcome_status event) context), [])
           | Some p \<Rightarrow>
               if cancelled p then (Some (from_errno ''send'' (context @ '' cancelled'') ECANCELED), [])
               else if \<not> writable p
               then (Some (if pr_error p \<or> hangup p
                           then from_errno ''poll'' (context @ '' socket failure'') EIO
                           else from_errno ''send'' (context @ '' timeout'') ETIMEDOUT), [])
               else if sn_count t = CAN_MTU then (Some success_status, [frame])
               else if transient (sn_count t) (sn_errno t)
               then let (r, written) = send_loop ts fd frame context deadline cancellation_fd in
                 (r, frame # written)
               else if sn_count t < 0 then (Some (from_errno ''write'' context (sn_errno t)), [frame])
               else (Some (from_errno ''write'' (short_count context (sn_count t)) EIO), [frame])))"

text \<open>The result, and the frame that each call of \<open>write\<close> was given.\<close>

definition can_socket_send ::
  "classic_can_frame \<Rightarrow> int \<Rightarrow> int \<Rightarrow> time_ns \<Rightarrow> send_turn list \<Rightarrow> can_socket \<Rightarrow>
     status option \<times> can_frame list" where
  "can_socket_send frame timeout cancellation_fd now turns s =
     (let context = socket_context (cs_interface_name s); encoded = encode_classic_frame frame in
      case outcome_value encoded of
        None \<Rightarrow> (Some (with_interface_context (outcome_status encoded) context), [])
      | Some k \<Rightarrow>
          let deadline = io_deadline timeout ''send'' context now in
          (case outcome_value deadline of
             None \<Rightarrow> (Some (outcome_status deadline), [])
           | Some d \<Rightarrow>
               if cs_fd s < 0 then (Some (from_errno ''send'' context EBADF), [])
               else send_loop turns (cs_fd s) k context d cancellation_fd))"

section \<open>Receiving\<close>

text \<open>A control message as the kernel delivers it, with the sizes of a 64-bit Linux.\<close>

record control_message =
  cm_level :: int
  cm_type :: int
  cm_len :: nat
  cm_data :: "u8 list"

definition SOL_SOCKET :: int where "SOL_SOCKET = 1"
definition SCM_TIMESTAMPNS :: int where "SCM_TIMESTAMPNS = 35"
definition SO_RXQ_OVFL :: int where "SO_RXQ_OVFL = 40"
definition MSG_TRUNC :: u32 where "MSG_TRUNC = 0x20"
definition MSG_CTRUNC :: u32 where "MSG_CTRUNC = 0x08"

definition CMSG_LEN :: "nat \<Rightarrow> nat" where
  "CMSG_LEN size_of = 16 + size_of"

text \<open>Integers of the host are little-endian.\<close>

fun le_value :: "u8 list \<Rightarrow> nat" where
  "le_value [] = 0"
| "le_value (b # bs) = unat b + 256 * le_value bs"

definition read_timespec :: "u8 list \<Rightarrow> timespec" where
  "read_timespec bytes =
     \<lparr>tv_sec = sint (word_of_nat (le_value (take 8 bytes)) :: u64),
      tv_nsec = sint (word_of_nat (le_value (take 8 (drop 8 bytes))) :: u64)\<rparr>"

definition read_counter :: "u8 list \<Rightarrow> u32" where
  "read_counter bytes = word_of_nat (le_value (take 4 bytes))"

record can_receive_observation =
  ro_frame :: classic_can_frame
  ro_kernel_timestamp :: "timespec option"
  ro_rx_queue_overflow :: "u32 option"

text \<open>The loop over the control messages, with what it has found so far.\<close>

fun parse_control ::
  "string \<Rightarrow> control_message list \<Rightarrow> timespec option \<Rightarrow> u32 option \<Rightarrow>
     status + timespec option \<times> u32 option" where
  "parse_control context [] timestamp overflow = Inr (timestamp, overflow)"
| "parse_control context (m # ms) timestamp overflow =
     (if cm_level m \<noteq> SOL_SOCKET then parse_control context ms timestamp overflow
      else if cm_type m = SCM_TIMESTAMPNS
      then (if cm_len m < CMSG_LEN 16 then Inl (from_errno ''parse_cmsg(SCM_TIMESTAMPNS)'' context EIO)
            else parse_control context ms (Some (read_timespec (cm_data m))) overflow)
      else if cm_type m = SO_RXQ_OVFL
      then (if cm_len m < CMSG_LEN 4 then Inl (from_errno ''parse_cmsg(SO_RXQ_OVFL)'' context EIO)
            else parse_control context ms timestamp (Some (read_counter (cm_data m))))
      else parse_control context ms timestamp overflow)"

record receive_turn =
  rc_polls :: "poll_answer list"
  rc_count :: int
  rc_errno :: int
  rc_msg_flags :: u32
  rc_frame :: can_frame
  rc_control :: "control_message list"

text \<open>What one complete message comes to.\<close>

definition received_message :: "string \<Rightarrow> receive_turn \<Rightarrow> can_receive_observation option outcome" where
  "received_message context t =
     (if rc_msg_flags t AND (MSG_TRUNC OR MSG_CTRUNC) \<noteq> 0
      then outcome_failure (from_errno ''recvmsg'' (context @ '' truncated message'') EIO)
      else case parse_control context (rc_control t) None None of
        Inl st \<Rightarrow> outcome_failure st
      | Inr (timestamp, overflow) \<Rightarrow>
          let decoded = decode_classic_frame (rc_frame t) in
          (case outcome_value decoded of
             None \<Rightarrow> outcome_failure (with_interface_context (outcome_status decoded) context)
           | Some f \<Rightarrow> outcome_success (Some
               \<lparr>ro_frame = f, ro_kernel_timestamp = timestamp, ro_rx_queue_overflow = overflow\<rparr>)))"

fun receive_loop ::
  "receive_turn list \<Rightarrow> int \<Rightarrow> string \<Rightarrow> time_ns \<Rightarrow> int \<Rightarrow> can_receive_observation option outcome option" where
  "receive_loop [] fd context deadline cancellation_fd = None"
| "receive_loop (t # ts) fd context deadline cancellation_fd =
     (case fst (wait_readable_until fd deadline cancellation_fd (rc_polls t)) of
        None \<Rightarrow> None
      | Some event \<Rightarrow>
          (case outcome_value event of
             None \<Rightarrow> Some (outcome_failure (with_interface_context (outcome_status event) context))
           | Some p \<Rightarrow>
               if cancelled p
               then Some (outcome_failure (from_errno ''receive'' (context @ '' cancelled'') ECANCELED))
               else if \<not> readable p
               then Some (if pr_error p \<or> hangup p
                          then outcome_failure (from_errno ''poll'' (context @ '' socket failure'') EIO)
                          else outcome_success None)
               else if rc_count t = CAN_MTU then Some (received_message context t)
               else if transient (rc_count t) (rc_errno t)
               then receive_loop ts fd context deadline cancellation_fd
               else Some (outcome_failure
                 (if rc_count t < 0 then from_errno ''recvmsg'' context (rc_errno t)
                  else from_errno ''recvmsg'' (short_count context (rc_count t)) EIO))))"

definition can_socket_receive ::
  "int \<Rightarrow> int \<Rightarrow> time_ns \<Rightarrow> receive_turn list \<Rightarrow> can_socket \<Rightarrow>
     can_receive_observation option outcome option" where
  "can_socket_receive timeout cancellation_fd now turns s =
     (let context = socket_context (cs_interface_name s);
          deadline = io_deadline timeout ''receive'' context now in
      case outcome_value deadline of
        None \<Rightarrow> Some (outcome_failure (outcome_status deadline))
      | Some d \<Rightarrow>
          if cs_fd s < 0 then Some (outcome_failure (from_errno ''receive'' context EBADF))
          else receive_loop turns (cs_fd s) context d cancellation_fd)"

section \<open>No descriptor is leaked\<close>

text \<open>The descriptors that a sequence of calls leaves open, when \<open>socket\<close> answers \<open>fd\<close>.\<close>

fun left_open :: "int \<Rightarrow> socket_call list \<Rightarrow> int set" where
  "left_open fd [] = {}"
| "left_open fd (c # cs) =
     left_open fd cs \<union>
     (if c = Socket_open \<and> fd \<ge> 0 \<and> Socket_close fd \<notin> set cs then {fd} else {})"

definition opening_succeeds :: "string \<Rightarrow> can_socket_config \<Rightarrow> open_answers \<Rightarrow> bool" where
  "opening_succeeds name config a \<longleftrightarrow>
     name \<noteq> [] \<and> length name < 16 \<and> oa_socket a \<ge> 0 \<and> oa_index a \<noteq> 0 \<and>
     (case cc_filters config of None \<Rightarrow> True
      | Some fs \<Rightarrow> length fs \<le> maximum_filter_count \<and> oa_filter a = None) \<and>
     oa_error_filter a = None \<and> (cc_receive_timestamp config \<longrightarrow> oa_timestamp a = None) \<and>
     (cc_receive_queue_overflow config \<longrightarrow> oa_overflow a = None) \<and> oa_bind a = None"

lemma configure_socket_ok:
  "snd (configure_socket fd name config a) = None \<longleftrightarrow>
   oa_index a \<noteq> 0 \<and>
   (case cc_filters config of None \<Rightarrow> True
    | Some fs \<Rightarrow> length fs \<le> maximum_filter_count \<and> oa_filter a = None) \<and>
   oa_error_filter a = None \<and> (cc_receive_timestamp config \<longrightarrow> oa_timestamp a = None) \<and>
   (cc_receive_queue_overflow config \<longrightarrow> oa_overflow a = None) \<and> oa_bind a = None"
  unfolding configure_socket_def checked_call_def Let_def case_prod_beta
  by (cases "cc_filters config"; cases "oa_error_filter a"; cases "oa_bind a"; cases "oa_timestamp a";
      cases "oa_overflow a") simp_all

text \<open>The calls between opening and closing.\<close>

lemma configure_socket_calls:
  "c \<in> set (fst (configure_socket fd name config a)) \<Longrightarrow> c \<noteq> Socket_open \<and> (\<forall>n. c \<noteq> Socket_close n)"
  by (auto simp: configure_socket_def checked_call_def Let_def case_prod_beta split: option.splits if_splits)

lemma left_open_none: "Socket_open \<notin> set cs \<Longrightarrow> left_open fd cs = {}"
  by (induction cs) auto

text \<open>
  The calls of an opening that succeeds: the receive filters and the options that were asked
  for, all of them before the socket is bound.
\<close>

definition configured_before_bind :: "int \<Rightarrow> string \<Rightarrow> can_socket_config \<Rightarrow> u32 \<Rightarrow> socket_call list" where
  "configured_before_bind fd name config index =
     [Socket_open, Interface_index name] @
     (case cc_filters config of None \<Rightarrow> [] | Some fs \<Rightarrow> [Set_filter fd fs]) @
     [Set_error_mask fd (cc_error_mask config)] @
     (if cc_receive_timestamp config then [Set_timestamp fd] else []) @
     (if cc_receive_queue_overflow config then [Set_overflow fd] else []) @
     [Bind_can fd index]"

lemma configure_socket_all_calls:
  "snd (configure_socket fd name config a) = None \<Longrightarrow>
    Socket_open # fst (configure_socket fd name config a) =
      configured_before_bind fd name config (oa_index a)"
  by (auto simp: configure_socket_def checked_call_def configured_before_bind_def Let_def
      split: option.splits if_splits)

text \<open>
  C40: Opening a CAN socket succeeds exactly when the interface name is usable and every
  call answers success. Then the calls set the filters and options of the configuration,
  in their order and with their values, and last bind the socket to the index of the named
  interface, and the only descriptor left open is the one the new owner holds.  When it fails, at
  any of the calls, no descriptor is left open and no owner is returned.
\<close>

theorem can_socket_open_leaks_nothing:
  "if opening_succeeds name config a
   then outcome_value (fst (can_socket_open name config a)) =
       Some \<lparr>cs_fd = oa_socket a, cs_interface_name = name, cs_interface_index = oa_index a\<rparr> \<and>
     snd (can_socket_open name config a) =
       configured_before_bind (oa_socket a) name config (oa_index a) \<and>
     left_open (oa_socket a) (snd (can_socket_open name config a)) = {oa_socket a}
   else outcome_value (fst (can_socket_open name config a)) = None \<and>
     left_open (oa_socket a) (snd (can_socket_open name config a)) = {}"
proof -
  let ?c = "configure_socket (oa_socket a) name config a"
  have "Socket_open \<notin> set (fst ?c)" "Socket_close n \<notin> set (fst ?c)" for n
    using configure_socket_calls by blast+
  then have "left_open (oa_socket a) (fst ?c) = {}" "left_open (oa_socket a) (fst ?c @ [Socket_close n]) = {}" for n
    by (simp_all add: left_open_none)
  moreover have "opening_succeeds name config a \<longleftrightarrow>
      name \<noteq> [] \<and> length name < 16 \<and> oa_socket a \<ge> 0 \<and> snd ?c = None"
    unfolding opening_succeeds_def configure_socket_ok by blast
  ultimately have l: "left_open (oa_socket a) (snd (can_socket_open name config a)) =
        (if opening_succeeds name config a then {oa_socket a} else {})"
    and o: "outcome_value (fst (can_socket_open name config a)) =
        (if opening_succeeds name config a
         then Some \<lparr>cs_fd = oa_socket a, cs_interface_name = name, cs_interface_index = oa_index a\<rparr>
         else None)"
    and c: "opening_succeeds name config a \<Longrightarrow>
        snd (can_socket_open name config a) = Socket_open # fst ?c \<and> snd ?c = None"
    using \<open>Socket_close (oa_socket a) \<notin> set (fst ?c)\<close>
    by (cases "snd ?c";
        auto simp: can_socket_open_def IFNAMSIZ_def Let_def case_prod_beta unique_fd_reset_def)+
  show ?thesis
  proof (cases "opening_succeeds name config a")
    case True
    with c configure_socket_all_calls
    have "snd (can_socket_open name config a) =
        configured_before_bind (oa_socket a) name config (oa_index a)"
      by metis
    with True l o show ?thesis by simp
  next
    case False
    with l o show ?thesis by simp
  qed
qed

section \<open>Whole frames\<close>

text \<open>Failed system calls report a nonzero error number.\<close>

definition polls_report :: "poll_answer list \<Rightarrow> bool" where
  "polls_report = list_all (\<lambda>a. pa_result a < 0 \<longrightarrow> pa_errno a \<noteq> 0)"

definition send_reports :: "send_turn list \<Rightarrow> bool" where
  "send_reports = list_all (\<lambda>t. (sn_count t < 0 \<longrightarrow> sn_errno t \<noteq> 0) \<and> polls_report (sn_polls t))"

lemma with_interface_context_ok [simp]: "status_ok (with_interface_context st c) = status_ok st"
  by (simp add: with_interface_context_def status_ok_def from_errno_def)

lemma poll_outcome_failure:
  "outcome_value (poll_outcome fd c a) = None \<Longrightarrow> (pa_result a < 0 \<longrightarrow> pa_errno a \<noteq> 0) \<Longrightarrow>
   \<not> status_ok (outcome_status (poll_outcome fd c a))"
  unfolding poll_outcome_def EBADF_def EIO_def by (simp split: if_splits)

lemma wait_failure:
  assumes "polls_report answers" and "fst (wait_for_event fd requested deadline c answers) = Some r"
    and "outcome_value r = None"
  shows "\<not> status_ok (outcome_status r)"
proof (cases "snd (until_final poll_interrupted answers)")
  case None
  with assms(2) have "r = outcome_failure (from_errno ''poll'' ''fd'' EINVAL)"
    by (simp add: wait_for_event_def Let_def case_prod_beta split: if_splits)
  then show ?thesis
    by (simp add: EINVAL_def)
next
  case (Some a)
  from until_final_Some [OF Some] have "a \<in> set answers"
    by simp
  with assms(1) have "pa_result a < 0 \<longrightarrow> pa_errno a \<noteq> 0"
    by (simp add: polls_report_def list_all_iff)
  moreover have "r = poll_outcome fd c a \<or> r = outcome_failure (from_errno ''poll'' ''fd'' EINVAL)"
    using Some assms(2) by (simp add: wait_for_event_def Let_def case_prod_beta split: if_splits)
  ultimately show ?thesis
    using assms(3) poll_outcome_failure [of fd c a] by (auto simp: EINVAL_def)
qed

text \<open>The frames that the kernel took: the turns whose \<open>write\<close> returned the size of a frame.\<close>

definition frames_taken :: "send_turn list \<Rightarrow> can_frame list \<Rightarrow> can_frame list" where
  "frames_taken turns written = map snd (filter (\<lambda>(t, f). sn_count t = CAN_MTU) (zip turns written))"

lemma frames_taken_simps [simp]:
  "frames_taken turns [] = []"
  "frames_taken (t # turns) (f # written) =
     (if sn_count t = CAN_MTU then [f] else []) @ frames_taken turns written"
  by (simp_all add: frames_taken_def)

lemma send_loop_result:
  "send_loop turns fd k context deadline c = (Some st, written) \<Longrightarrow> send_reports turns \<Longrightarrow>
   set written \<subseteq> {k} \<and> frames_taken turns written = (if status_ok st then [k] else [])"
proof (induction turns arbitrary: st written)
  case (Cons t ts)
  let ?w = "wait_writable_until fd deadline c (sn_polls t)"
  from Cons.prems(1) obtain event where event: "fst ?w = Some event"
    by (auto split: option.splits)
  show ?case
  proof (cases "outcome_value event")
    case None
    with Cons.prems event wait_failure [of "sn_polls t" fd POLLOUT deadline c event] show ?thesis
      by (auto simp: send_reports_def wait_writable_until_def)
  next
    case (Some p)
    consider (not_ready) "cancelled p \<or> \<not> writable p"
      | (taken) "\<not> cancelled p" "writable p" "sn_count t = CAN_MTU"
      | (again) "\<not> cancelled p" "writable p" "sn_count t \<noteq> CAN_MTU" "transient (sn_count t) (sn_errno t)"
      | (failed) "\<not> cancelled p" "writable p" "sn_count t \<noteq> CAN_MTU" "\<not> transient (sn_count t) (sn_errno t)"
      by blast
    then show ?thesis
    proof cases
      case again
      with Cons.prems event Some obtain written' where
        "send_loop ts fd k context deadline c = (Some st, written')" "written = k # written'"
        by (auto simp: case_prod_beta prod_eq_iff CAN_MTU_def transient_def)
      with Cons.IH Cons.prems(2) again show ?thesis
        by (auto simp: send_reports_def)
    next
      case failed
      with Cons.prems event Some show ?thesis
        by (auto simp: send_reports_def wait_errno_defs split: if_splits)
    qed (use Cons.prems event Some in \<open>auto simp: wait_errno_defs split: if_splits\<close>)
  qed
qed simp

lemma send_loop_returns:
  "list_all (\<lambda>t. \<not> list_all poll_interrupted (sn_polls t)) turns \<Longrightarrow>
   \<not> list_all (\<lambda>t. transient (sn_count t) (sn_errno t)) turns \<Longrightarrow>
   fst (send_loop turns fd k context deadline c) \<noteq> None"
proof (induction turns)
  case (Cons t ts)
  from Cons.prems(1) wait_for_event_returns obtain event where
    "fst (wait_writable_until fd deadline c (sn_polls t)) = Some event"
    by (fastforce simp: wait_writable_until_def)
  with Cons show ?case
    by (auto simp: case_prod_beta split: option.split)
qed simp

text \<open>
  C28: Sending a frame on a CAN socket hands the kernel no frame but the encoding of this one, and
  succeeds exactly when the kernel took it once as a whole; after any failure it took none.
\<close>

theorem can_send_takes_one_frame:
  assumes "send_reports turns" and "can_socket_send frame timeout c now turns s = (Some st, written)"
  shows "(\<forall>k \<in> set written. outcome_value (encode_classic_frame frame) = Some k) \<and>
    length (frames_taken turns written) = (if status_ok st then 1 else 0)"
proof (cases "outcome_value (encode_classic_frame frame)")
  case None
  then have "\<not> status_ok (outcome_status (encode_classic_frame frame))"
    by (simp add: encode_classic_frame_def Let_def split: if_splits)
  with None assms(2) show ?thesis
    by (auto simp: can_socket_send_def Let_def)
next
  case (Some k)
  let ?ctx = "socket_context (cs_interface_name s)"
  let ?d = "io_deadline timeout ''send'' ?ctx now"
  show ?thesis
  proof (cases "outcome_value ?d = None \<or> cs_fd s < 0")
    case True
    with Some assms(2) show ?thesis
      by (auto simp: can_socket_send_def Let_def io_deadline_def wait_errno_defs split: if_splits)
  next
    case False
    then obtain d where d: "outcome_value ?d = Some d"
      by auto
    with False Some assms(2) have "send_loop turns (cs_fd s) k ?ctx d c = (Some st, written)"
      by (simp add: can_socket_send_def Let_def)
    from send_loop_result [OF this assms(1)] Some show ?thesis
      by auto
  qed
qed

lemma can_send_returns:
  assumes "list_all (\<lambda>t. \<not> list_all poll_interrupted (sn_polls t)) turns"
    and "\<not> list_all (\<lambda>t. transient (sn_count t) (sn_errno t)) turns"
  shows "fst (can_socket_send frame timeout c now turns s) \<noteq> None"
  using send_loop_returns [OF assms] by (simp add: can_socket_send_def Let_def split: option.split)

section \<open>Received messages\<close>

text \<open>The last value that a control message of a type carries.\<close>

definition last_control :: "int \<Rightarrow> (u8 list \<Rightarrow> 'a) \<Rightarrow> control_message list \<Rightarrow> 'a option" where
  "last_control type read ms =
     fold (\<lambda>m found. if cm_level m = SOL_SOCKET \<and> cm_type m = type then Some (read (cm_data m)) else found)
       ms None"

lemma parse_control_result:
  "parse_control context ms timestamp overflow = Inr (timestamp', overflow') \<Longrightarrow>
   timestamp' = fold (\<lambda>m found. if cm_level m = SOL_SOCKET \<and> cm_type m = SCM_TIMESTAMPNS
     then Some (read_timespec (cm_data m)) else found) ms timestamp \<and>
   overflow' = fold (\<lambda>m found. if cm_level m = SOL_SOCKET \<and> cm_type m = SO_RXQ_OVFL
     then Some (read_counter (cm_data m)) else found) ms overflow"
  by (induction ms arbitrary: timestamp overflow)
    (auto simp: SCM_TIMESTAMPNS_def SO_RXQ_OVFL_def split: if_splits)

lemma received_message_value:
  assumes "outcome_value (received_message context t) = Some x"
  shows "rc_msg_flags t AND (MSG_TRUNC OR MSG_CTRUNC) = 0 \<and>
    (\<exists>f. outcome_value (decode_classic_frame (rc_frame t)) = Some f \<and>
       x = Some \<lparr>ro_frame = f, ro_kernel_timestamp = last_control SCM_TIMESTAMPNS read_timespec (rc_control t),
         ro_rx_queue_overflow = last_control SO_RXQ_OVFL read_counter (rc_control t)\<rparr>)"
  using assms
  by (auto simp: received_message_def last_control_def Let_def split: if_splits sum.splits option.splits
      dest!: parse_control_result)

text \<open>What made a call return without a message: the descriptor was neither readable nor broken.\<close>

definition quiet :: "int \<Rightarrow> poll_answer \<Rightarrow> bool" where
  "quiet c a \<longleftrightarrow> 0 \<le> pa_result a \<and> pa_revents a AND POLLIN = 0 \<and> pa_revents a AND POLLERR = 0 \<and>
     pa_revents a AND POLLHUP = 0 \<and> \<not> (c \<ge> 0 \<and> pa_cancel_revents a AND POLLIN \<noteq> 0)"

lemma receive_loop_result:
  "receive_loop turns fd context deadline c = Some r \<Longrightarrow> outcome_value r = Some x \<Longrightarrow>
   (\<exists>t \<in> set turns. case x of
      None \<Rightarrow> \<exists>a \<in> set (rc_polls t). quiet c a
    | Some obs \<Rightarrow> rc_count t = CAN_MTU \<and> outcome_value (received_message context t) = Some x)"
proof (induction turns)
  case (Cons t ts)
  let ?w = "wait_readable_until fd deadline c (rc_polls t)"
  from Cons.prems obtain event p where event: "fst ?w = Some event" "outcome_value event = Some p"
    by (auto split: option.splits)
  have quiet: "\<exists>a \<in> set (rc_polls t). quiet c a"
    if "\<not> cancelled p" "\<not> readable p" "\<not> pr_error p" "\<not> hangup p"
  proof -
    have "wait_for_event fd POLLIN deadline c (rc_polls t) = (Some event, snd ?w)"
      using event(1) by (simp add: wait_readable_until_def prod_eq_iff)
    from wait_for_event_result [OF this event(2)] that show ?thesis
      by (auto simp: quiet_def poll_flags_def)
  qed
  have some: "x \<noteq> None" if "outcome_value (received_message context t) = Some x"
    using received_message_value [OF that] by auto
  from Cons.prems event Cons.IH quiet some show ?case
    by (auto split: if_splits option.split)
qed simp

lemma receive_loop_returns:
  "list_all (\<lambda>t. \<not> list_all poll_interrupted (rc_polls t)) turns \<Longrightarrow>
   \<not> list_all (\<lambda>t. transient (rc_count t) (rc_errno t)) turns \<Longrightarrow>
   receive_loop turns fd context deadline c \<noteq> None"
proof (induction turns)
  case (Cons t ts)
  from Cons.prems(1) wait_for_event_returns obtain event where
    "fst (wait_readable_until fd deadline c (rc_polls t)) = Some event"
    by (fastforce simp: wait_readable_until_def)
  with Cons show ?case
    by (auto split: option.split)
qed simp

lemma can_receive_result:
  assumes "can_socket_receive timeout c now turns s = Some r" and "outcome_value r = Some x"
  shows "\<exists>t \<in> set turns. case x of
      None \<Rightarrow> \<exists>a \<in> set (rc_polls t). quiet c a
    | Some obs \<Rightarrow> rc_count t = CAN_MTU \<and>
        outcome_value (received_message (socket_context (cs_interface_name s)) t) = Some x"
proof -
  from assms obtain d where "receive_loop turns (cs_fd s) (socket_context (cs_interface_name s)) d c = Some r"
    by (auto simp: can_socket_receive_def Let_def split: option.splits if_splits)
  from receive_loop_result [OF this assms(2)] show ?thesis .
qed

text \<open>
  C25: A frame that one socket sent successfully arrives unchanged: when another socket receives a
  message and the kernel delivers to it only what it took from the sender, the received frame is
  the sent one with the bytes it does not carry zeroed, and its timestamp and drop counter are
  those of the last control messages that came with it, in a message that was not truncated.
\<close>

theorem can_loopback_roundtrip:
  assumes "length (frame_data f) = 8" and "send_reports turns"
    and "can_socket_send f timeout c now turns s = (Some st, written)"
    and "can_socket_receive timeout' c' now' turns' s' = Some r" and "outcome_value r = Some (Some obs)"
    and "\<forall>t \<in> set turns'. rc_frame t \<in> set (frames_taken turns written)"
  shows "ro_frame obs = f\<lparr>frame_data := carried (raw_can_id f) (payload_length f) (frame_data f)\<rparr> \<and>
    (\<exists>t \<in> set turns'. rc_msg_flags t AND (MSG_TRUNC OR MSG_CTRUNC) = 0 \<and>
       ro_kernel_timestamp obs = last_control SCM_TIMESTAMPNS read_timespec (rc_control t) \<and>
       ro_rx_queue_overflow obs = last_control SO_RXQ_OVFL read_counter (rc_control t))"
proof -
  from can_receive_result [OF assms(4,5)] obtain t where t: "t \<in> set turns'"
      "outcome_value (received_message (socket_context (cs_interface_name s')) t) = Some (Some obs)"
    by auto
  have "set (frames_taken turns written) \<subseteq> set written"
    by (auto simp: frames_taken_def dest: set_zip_rightD)
  with assms(6) t(1) can_send_takes_one_frame [OF assms(2,3)]
  have "outcome_value (encode_classic_frame f) = Some (rc_frame t)"
    by blast
  from decode_encoded [OF assms(1) this] received_message_value [OF t(2)] t(1) show ?thesis
    by auto
qed

section \<open>A frame on its way\<close>

definition example_sent :: classic_can_frame where
  "example_sent =
     \<lparr>raw_can_id = 0x181, payload_length = 2, len8_dlc = 0, frame_data = [0x37, 0x06, 0, 0, 0, 0, 0, 0]\<rparr>"

definition example_kernel_frame :: can_frame where
  "example_kernel_frame =
     \<lparr>can_id = 0x181, can_len = 2, can_len8_dlc = 0, can_data = [0x37, 0x06, 0, 0, 0, 0, 0, 0]\<rparr>"

definition example_poll :: "time_ns \<Rightarrow> u16 \<Rightarrow> poll_answer" where
  "example_poll now events =
     \<lparr>pa_now = now, pa_result = 1, pa_errno = 0, pa_revents = events, pa_cancel_revents = 0\<rparr>"

definition example_socket :: can_socket where
  "example_socket = \<lparr>cs_fd = 5, cs_interface_name = ''can0'', cs_interface_index = 3\<rparr>"

text \<open>The first attempt finds the queue full; the message comes with a drop counter of 7.\<close>

definition example_send_turns :: "send_turn list" where
  "example_send_turns =
     [\<lparr>sn_polls = [example_poll 100 POLLOUT], sn_count = -1, sn_errno = EAGAIN\<rparr>,
      \<lparr>sn_polls = [example_poll 200 POLLOUT], sn_count = 16, sn_errno = 0\<rparr>]"

definition example_receive_turns :: "receive_turn list" where
  "example_receive_turns =
     [\<lparr>rc_polls = [example_poll 300 POLLIN], rc_count = 16, rc_errno = 0, rc_msg_flags = 0,
       rc_frame = example_kernel_frame,
       rc_control = [\<lparr>cm_level = SOL_SOCKET, cm_type = SO_RXQ_OVFL, cm_len = 20, cm_data = [7, 0, 0, 0]\<rparr>]\<rparr>]"

lemma example_transfer:
  "send_reports example_send_turns"
  "can_socket_send example_sent 10 (-1) 0 example_send_turns example_socket =
     (Some success_status, [example_kernel_frame, example_kernel_frame])"
  "can_socket_receive 10 (-1) 0 example_receive_turns example_socket = Some (outcome_success (Some
     \<lparr>ro_frame = example_sent, ro_kernel_timestamp = None, ro_rx_queue_overflow = Some 7\<rparr>))"
  by code_simp+

theorem can_send_takes_one_frame_witness:
  "length (frames_taken example_send_turns [example_kernel_frame, example_kernel_frame]) = 1"
  using can_send_takes_one_frame [OF example_transfer(1,2)] by simp

theorem can_loopback_roundtrip_witness:
  "\<exists>t \<in> set example_receive_turns. last_control SO_RXQ_OVFL read_counter (rc_control t) = Some 7"
proof -
  have "length (frame_data example_sent) = 8"
    by (simp add: example_sent_def)
  moreover have "frames_taken example_send_turns [example_kernel_frame, example_kernel_frame] = [example_kernel_frame]"
    by (simp add: example_send_turns_def CAN_MTU_def)
  then have "\<forall>t \<in> set example_receive_turns. rc_frame t \<in>
      set (frames_taken example_send_turns [example_kernel_frame, example_kernel_frame])"
    by (simp add: example_receive_turns_def)
  ultimately show ?thesis
    using can_loopback_roundtrip [OF _ example_transfer(1,2,3)] by fastforce
qed

end
