(* ===== verification/Platform_Serial.thy ===== *)
theory Platform_Serial
  imports Platform_Wait
begin

text \<open>
  \<open>src/platform/linux/uart/serial_port.{hpp,cpp}\<close>, the serial line of the remote control, and
  \<open>src/platform/linux/process/termination_event.{hpp,cpp}\<close>, the descriptor on which termination
  signals arrive.  What the kernel answers is an argument, one record for each turn of a loop.  The
  lemmas show that opening leaves a raw line with exactly the configured framing and no descriptor
  after a failure, that a read returns the bytes of one \<open>read\<close> and treats an end of file as an error,
  and that creating the termination event blocks the signals if and only if it succeeds.
\<close>

section \<open>Opening a serial line\<close>

datatype baud_rate = Baud_9600 | Baud_19200 | Baud_38400 | Baud_57600 | Baud_115200

record serial_config =
  sc_baud_rate :: baud_rate
  sc_two_stop_bits :: bool
  sc_even_parity :: bool

definition default_serial_config :: serial_config where
  "default_serial_config =
     \<lparr>sc_baud_rate = Baud_115200, sc_two_stop_bits = False, sc_even_parity = False\<rparr>"

text \<open>The constants of \<open>termios.h\<close> on Linux.\<close>

definition CSIZE :: u32 where "CSIZE = 0x30"
definition CS8 :: u32 where "CS8 = 0x30"
definition CSTOPB :: u32 where "CSTOPB = 0x40"
definition CREAD :: u32 where "CREAD = 0x80"
definition PARENB :: u32 where "PARENB = 0x100"
definition PARODD :: u32 where "PARODD = 0x200"
definition CLOCAL :: u32 where "CLOCAL = 0x800"
definition raw_input_flags :: u32 where "raw_input_flags = 0x5EB"
definition OPOST :: u32 where "OPOST = 0x1"
definition raw_local_flags :: u32 where "raw_local_flags = 0x804B"

lemmas termios_defs =
  CSIZE_def CS8_def CSTOPB_def CREAD_def PARENB_def PARODD_def CLOCAL_def raw_input_flags_def OPOST_def
  raw_local_flags_def

record termios =
  c_iflag :: u32
  c_oflag :: u32
  c_cflag :: u32
  c_lflag :: u32
  c_vmin :: u8
  c_vtime :: u8
  c_ispeed :: u32
  c_ospeed :: u32

definition termios_speed :: "baud_rate \<Rightarrow> u32" where
  "termios_speed rate =
     (case rate of Baud_9600 \<Rightarrow> 13 | Baud_19200 \<Rightarrow> 14 | Baud_38400 \<Rightarrow> 15 | Baud_57600 \<Rightarrow> 4097 | Baud_115200 \<Rightarrow> 4098)"

text \<open>\<open>cfmakeraw\<close> of the C library, as its manual describes it.\<close>

definition cfmakeraw :: "termios \<Rightarrow> termios" where
  "cfmakeraw t =
     t\<lparr>c_iflag := c_iflag t AND NOT raw_input_flags, c_oflag := c_oflag t AND NOT OPOST,
       c_lflag := c_lflag t AND NOT raw_local_flags,
       c_cflag := (c_cflag t AND NOT (CSIZE OR PARENB)) OR CS8, c_vmin := 1, c_vtime := 0\<rparr>"

text \<open>The attributes between \<open>tcgetattr\<close> and the speed.\<close>

definition framed :: "serial_config \<Rightarrow> termios \<Rightarrow> termios" where
  "framed config attributes =
     (let t = cfmakeraw attributes;
          t = t\<lparr>c_cflag := c_cflag t OR (CLOCAL OR CREAD)\<rparr>;
          t = (if sc_two_stop_bits config then t\<lparr>c_cflag := c_cflag t OR CSTOPB\<rparr>
               else t\<lparr>c_cflag := c_cflag t AND NOT CSTOPB\<rparr>)
      in if sc_even_parity config
         then t\<lparr>c_cflag := (c_cflag t OR PARENB) AND NOT PARODD\<rparr>
         else t\<lparr>c_cflag := c_cflag t AND NOT PARENB\<rparr>)"

text \<open>The answers; \<open>cfsetispeed\<close> and \<open>cfsetospeed\<close> store the speed or fail with an error number.\<close>

record serial_answers =
  sa_open :: int
  sa_open_errno :: int
  sa_getattr :: "int + termios"
  sa_ispeed :: "int option"
  sa_ospeed :: "int option"
  sa_setattr :: "int option"

datatype serial_call =
    Serial_open string
  | Serial_close int
  | Get_attributes int
  | Set_attributes int termios

record serial_port =
  sp_fd :: int
  sp_path :: string

definition serial_open ::
  "string \<Rightarrow> serial_config \<Rightarrow> serial_answers \<Rightarrow> serial_port outcome \<times> serial_call list" where
  "serial_open path config a =
     (if sa_open a < 0 then (outcome_failure (from_errno ''open'' path (sa_open_errno a)), [Serial_open path])
      else let fd = sa_open a;
               failed = (\<lambda>op errno calls. (outcome_failure (from_errno op path errno),
                 Serial_open path # calls @ [Serial_close fd]))
        in case sa_getattr a of
             Inl errno \<Rightarrow> failed ''tcgetattr'' errno [Get_attributes fd]
           | Inr attributes \<Rightarrow>
               let t = framed config attributes; speed = termios_speed (sc_baud_rate config) in
               if speed = 0 then failed ''cfsetspeed'' EINVAL [Get_attributes fd]
               else (case sa_ispeed a of
                  Some errno \<Rightarrow> failed ''cfsetispeed'' errno [Get_attributes fd]
                | None \<Rightarrow>
                    let t = t\<lparr>c_ispeed := speed\<rparr> in
                    (case sa_ospeed a of
                       Some errno \<Rightarrow> failed ''cfsetospeed'' errno [Get_attributes fd]
                     | None \<Rightarrow>
                         let t = t\<lparr>c_ospeed := speed\<rparr> in
                         (case sa_setattr a of
                            Some errno \<Rightarrow> failed ''tcsetattr'' errno [Get_attributes fd, Set_attributes fd t]
                          | None \<Rightarrow> (outcome_success \<lparr>sp_fd = fd, sp_path = path\<rparr>,
                              [Serial_open path, Get_attributes fd, Set_attributes fd t])))))"

section \<open>Reading\<close>

text \<open>
  One turn of the loop of \<open>read_some\<close>: the clock, the wait (its own clock and answers), the results of
  \<open>read\<close> with what was stored by the one that succeeds, and the clock after an empty read.
\<close>

record read_turn =
  rd_now :: time_ns
  rd_wait_now :: time_ns
  rd_polls :: "poll_answer list"
  rd_reads :: "(int \<times> int) list"
  rd_bytes :: "u8 list"
  rd_later :: time_ns

text \<open>\<open>std::chrono::ceil\<close> to milliseconds of a positive duration.\<close>

definition ceil_ms :: "int \<Rightarrow> int" where
  "ceil_ms d = (d + nanoseconds_per_millisecond - 1) div nanoseconds_per_millisecond"

text \<open>A count, and the buffer after the call.\<close>

fun read_loop ::
  "read_turn list \<Rightarrow> serial_port \<Rightarrow> u8 list \<Rightarrow> time_ns \<Rightarrow> int \<Rightarrow> nat outcome option \<times> u8 list" where
  "read_loop [] port destination deadline cancellation_fd = (None, destination)"
| "read_loop (t # ts) port destination deadline cancellation_fd =
     (let remaining = deadline - rd_now t;
          bounded = (if remaining > 0 then ceil_ms remaining else 0);
          fail = (\<lambda>op context errno. (Some (outcome_failure (from_errno op context errno)), destination))
      in case fst (wait_readable (sp_fd port) bounded cancellation_fd (rd_wait_now t) (rd_polls t)) of
        None \<Rightarrow> (None, destination)
      | Some event \<Rightarrow>
          (case outcome_value event of
             None \<Rightarrow> (Some (outcome_failure (outcome_status event)), destination)
           | Some p \<Rightarrow>
               if cancelled p then fail ''read'' (sp_path port @ '' cancelled'') ECANCELED
               else if pr_error p then fail ''poll'' (sp_path port) EIO
               else if \<not> readable p
               then (if hangup p then fail ''read'' (sp_path port @ '' disconnected'') EIO
                     else (Some (outcome_success 0), destination))
               else (case snd (until_final (\<lambda>(count, errno). count < 0 \<and> errno = EINTR) (rd_reads t)) of
                  None \<Rightarrow> (None, destination)
                | Some (count, errno) \<Rightarrow>
                    if count < 0 \<and> errno = EAGAIN
                    then (if rd_later t \<ge> deadline then (Some (outcome_success 0), destination)
                          else read_loop ts port destination deadline cancellation_fd)
                    else if count < 0 then fail ''read'' (sp_path port) errno
                    else if count = 0 then fail ''read'' (sp_path port @ '' end-of-file'') EIO
                    else let n = nat count in
                      (Some (outcome_success n), take n (rd_bytes t) @ drop n destination))))"

definition read_some ::
  "u8 list \<Rightarrow> int \<Rightarrow> int \<Rightarrow> time_ns \<Rightarrow> read_turn list \<Rightarrow> serial_port \<Rightarrow> nat outcome option \<times> u8 list" where
  "read_some destination timeout cancellation_fd start turns port =
     (let fail = (\<lambda>context errno. (Some (outcome_failure (from_errno ''read'' context errno)), destination)) in
      if destination = [] then fail (sp_path port) EINVAL
      else if timeout < 0 then fail (sp_path port @ '' negative timeout'') EINVAL
      else if timeout > (INT64_MAX - start) div nanoseconds_per_millisecond
      then fail (sp_path port @ '' timeout overflow'') EOVERFLOW
      else read_loop turns port destination (start + timeout * nanoseconds_per_millisecond) cancellation_fd)"

section \<open>The termination event\<close>

definition SIGINT :: int where "SIGINT = 2"
definition SIGTERM :: int where "SIGTERM = 15"

text \<open>
  The signals blocked in the calling thread, the answers of \<open>create\<close> (None when the call succeeds),
  and the descriptor that \<open>signalfd\<close> returns.
\<close>

record termination_answers =
  te_set :: "int option"
  te_block :: "int option"
  te_signalfd :: int
  te_signalfd_errno :: int
  te_restore :: "int option"

definition termination_create ::
  "termination_answers \<Rightarrow> int set \<Rightarrow> int outcome \<times> int set" where
  "termination_create a blocked =
     (case te_set a of
        Some errno \<Rightarrow> (outcome_failure (from_errno ''signal set'' ''SIGINT,SIGTERM'' errno), blocked)
      | None \<Rightarrow>
          (case te_block a of
             Some errno \<Rightarrow> (outcome_failure (from_errno ''pthread_sigmask'' ''SIGINT,SIGTERM'' errno), blocked)
           | None \<Rightarrow>
               let old = blocked; blocked = blocked \<union> {SIGINT, SIGTERM} in
               if te_signalfd a < 0
               then (case te_restore a of
                  Some errno \<Rightarrow>
                    (outcome_failure (from_errno ''pthread_sigmask'' ''rollback after signalfd failure'' errno), blocked)
                | None \<Rightarrow>
                    (outcome_failure (from_errno ''signalfd'' ''SIGINT,SIGTERM'' (te_signalfd_errno a)), old))
               else (outcome_success (te_signalfd a), blocked)))"

text \<open>\<open>consume\<close>: the results of \<open>read\<close> with their error numbers, and the signal in the record.\<close>

definition signalfd_siginfo_size :: int where "signalfd_siginfo_size = 128"

definition termination_consume :: "(int \<times> int) list \<Rightarrow> u32 \<Rightarrow> int outcome option" where
  "termination_consume reads signo =
     (case snd (until_final (\<lambda>(count, errno). count < 0 \<and> errno = EINTR) reads) of
        None \<Rightarrow> None
      | Some (count, errno) \<Rightarrow>
          Some (if count < 0 \<and> errno = EAGAIN then outcome_success 0
                else if count < 0 then outcome_failure (from_errno ''read'' ''termination signalfd'' errno)
                else if count \<noteq> signalfd_siginfo_size
                then outcome_failure (from_errno ''read'' ''short signalfd record'' EIO)
                else outcome_success (sint signo)))"

section \<open>The configured line\<close>

definition raw_line :: "serial_config \<Rightarrow> termios \<Rightarrow> bool" where
  "raw_line config t \<longleftrightarrow>
     c_cflag t AND CSIZE = CS8 \<and> c_cflag t AND CREAD \<noteq> 0 \<and> c_cflag t AND CLOCAL \<noteq> 0 \<and>
     (c_cflag t AND CSTOPB \<noteq> 0 \<longleftrightarrow> sc_two_stop_bits config) \<and>
     (c_cflag t AND PARENB \<noteq> 0 \<longleftrightarrow> sc_even_parity config) \<and>
     (sc_even_parity config \<longrightarrow> c_cflag t AND PARODD = 0) \<and>
     c_iflag t AND raw_input_flags = 0 \<and> c_oflag t AND OPOST = 0 \<and> c_lflag t AND raw_local_flags = 0 \<and>
     c_vmin t = 1 \<and> c_vtime t = 0 \<and>
     c_ispeed t = termios_speed (sc_baud_rate config) \<and> c_ospeed t = termios_speed (sc_baud_rate config)"

text \<open>Setting and clearing flags, seen through a mask that they meet or miss.\<close>

lemma and_not_self [simp]: "(w AND NOT m) AND m = 0" for w m :: "'a::len word"
  by (auto simp: bit_eq_iff bit_simps)

lemma masked_or: "(w OR a) AND m = (w AND m) OR (a AND m)" for w a m :: "'a::len word"
  by (rule bit.conj_disj_distrib2)

lemma masked_and_not: "(w AND NOT a) AND m = (w AND m) AND NOT (a AND m)" for w a m :: "'a::len word"
  by (auto simp: bit_eq_iff bit_simps)

lemma framed_flags:
  "c_cflag (framed config t) AND CSIZE = CS8"
  "c_cflag (framed config t) AND CREAD \<noteq> 0" "c_cflag (framed config t) AND CLOCAL \<noteq> 0"
  "c_cflag (framed config t) AND CSTOPB \<noteq> 0 \<longleftrightarrow> sc_two_stop_bits config"
  "c_cflag (framed config t) AND PARENB \<noteq> 0 \<longleftrightarrow> sc_even_parity config"
  "sc_even_parity config \<Longrightarrow> c_cflag (framed config t) AND PARODD = 0"
  by (simp_all add: framed_def cfmakeraw_def Let_def masked_or masked_and_not termios_defs and.assoc)

lemma framed_raw:
  "c_iflag (framed config t) AND raw_input_flags = 0" "c_oflag (framed config t) AND OPOST = 0"
  "c_lflag (framed config t) AND raw_local_flags = 0" "c_vmin (framed config t) = 1" "c_vtime (framed config t) = 0"
  by (simp_all add: framed_def cfmakeraw_def Let_def)

lemma framed_raw_line:
  "raw_line config ((framed config t)
     \<lparr>c_ispeed := termios_speed (sc_baud_rate config), c_ospeed := termios_speed (sc_baud_rate config)\<rparr>)"
  by (simp add: raw_line_def framed_flags framed_raw)

text \<open>
  Opening a serial line succeeds exactly when every call succeeds; then the line is raw,
  with 8 data bits and exactly the configured speed, stop bits and parity, and the port owns its
  descriptor.  When it fails after the device was opened, the last call closes the descriptor.
\<close>

theorem serial_open_configures_or_closes:
  "case serial_open path config a of (r, calls) \<Rightarrow>
     (case outcome_value r of
        Some port \<Rightarrow>
          port = \<lparr>sp_fd = sa_open a, sp_path = path\<rparr> \<and>
          (\<exists>t. calls = [Serial_open path, Get_attributes (sa_open a), Set_attributes (sa_open a) t] \<and>
             raw_line config t)
      | None \<Rightarrow> sa_open a < 0 \<or> last calls = Serial_close (sa_open a)) \<and>
     (outcome_ok r \<longleftrightarrow> sa_open a \<ge> 0 \<and> (\<exists>t. sa_getattr a = Inr t) \<and> sa_ispeed a = None \<and>
        sa_ospeed a = None \<and> sa_setattr a = None)"
proof -
  have "termios_speed b \<noteq> 0" for b
    by (simp add: termios_speed_def split: baud_rate.split)
  then show ?thesis
    by (simp add: serial_open_def Let_def framed_raw_line split: sum.split option.split)
qed

section \<open>What a read returns\<close>

text \<open>The kernel stores no more than it was offered room for.\<close>

definition reads_fit :: "nat \<Rightarrow> read_turn list \<Rightarrow> bool" where
  "reads_fit capacity = list_all (\<lambda>t. list_all (\<lambda>(count, errno).
     count \<le> int capacity \<and> nat count \<le> length (rd_bytes t)) (rd_reads t))"

definition delivers :: "u8 list \<Rightarrow> read_turn list \<Rightarrow> nat \<Rightarrow> u8 list \<Rightarrow> bool" where
  "delivers destination turns n destination' \<longleftrightarrow>
     (if n = 0 then destination' = destination
      else \<exists>t \<in> set turns. int n \<in> fst ` set (rd_reads t) \<and>
        destination' = take n (rd_bytes t) @ drop n destination)"

lemma delivers_zero [simp]: "delivers destination turns 0 d' \<longleftrightarrow> d' = destination"
  by (simp add: delivers_def)

lemma delivers_later: "delivers destination ts n d' \<Longrightarrow> delivers destination (t # ts) n d'"
  by (auto simp: delivers_def split: if_splits)

lemma read_loop_result:
  "read_loop turns port destination deadline c = (r, destination') \<Longrightarrow>
   (case Option.bind r outcome_value of
      None \<Rightarrow> destination' = destination
    | Some n \<Rightarrow> delivers destination turns n destination')"
proof (induction turns arbitrary: r destination')
  case (Cons t ts)
  let ?w = "fst (wait_readable (sp_fd port)
    (if deadline - rd_now t > 0 then ceil_ms (deadline - rd_now t) else 0) c (rd_wait_now t) (rd_polls t))"
  let ?read = "snd (until_final (\<lambda>(count, errno). count < 0 \<and> errno = EINTR) (rd_reads t))"
  show ?case
  proof (cases "?w = None \<or> outcome_value (the ?w) = None \<or> ?read = None")
    case True
    with Cons.prems show ?thesis
      by (auto simp: Let_def delivers_def split: option.splits if_splits prod.splits)
  next
    case False
    then obtain event p count errno where e: "?w = Some event" "outcome_value event = Some p"
        "?read = Some (count, errno)"
      by auto
    from until_final_Some [OF e(3)] have read: "count \<in> fst ` set (rd_reads t)"
      by force
    have later: "case Option.bind r outcome_value of None \<Rightarrow> destination' = destination
        | Some n \<Rightarrow> delivers destination (t # ts) n destination'"
      if "read_loop ts port destination deadline c = (r, destination')"
      using Cons.IH [OF that] by (auto intro: delivers_later split: option.split)
    have stored: "delivers destination (t # ts) (nat count) (take (nat count) (rd_bytes t) @ drop (nat count) destination)"
      if "0 < count"
      using that read by (auto simp: delivers_def)
    from Cons.prems e later stored show ?thesis
      by (auto simp: Let_def split: if_splits)
  qed
qed simp

text \<open>
  A read of the serial line that reports bytes has stored exactly the bytes of one \<open>read\<close> of
  the kernel at the start of the buffer and kept the rest; a timeout or a failure (an end of file and a lost
  device among them) leaves the buffer as it was.
\<close>

theorem serial_read_delivers_one_read:
  assumes "read_some destination timeout c start turns port = (Some r, destination')"
    and "reads_fit (length destination) turns"
  shows "length destination' = length destination \<and>
    (case outcome_value r of
       None \<Rightarrow> destination' = destination
     | Some n \<Rightarrow> n \<le> length destination \<and> delivers destination turns n destination')"
proof -
  have "case outcome_value r of None \<Rightarrow> destination' = destination
      | Some n \<Rightarrow> delivers destination turns n destination'"
    using assms(1) read_loop_result [of turns port destination _ c "Some r" destination']
    by (auto simp: read_some_def Let_def split: if_splits)
  moreover have "n \<le> length destination \<and> length destination' = length destination"
    if d: "delivers destination turns n destination'" for n
  proof (cases "n = 0")
    case False
    with d obtain t count errno where "t \<in> set turns" "(count, errno) \<in> set (rd_reads t)" "count = int n"
        "destination' = take n (rd_bytes t) @ drop n destination"
      by (auto simp: delivers_def)
    moreover from this assms(2) have "n \<le> length destination \<and> n \<le> length (rd_bytes t)"
      by (fastforce simp: reads_fit_def list_all_iff)
    ultimately show ?thesis
      by simp
  qed (use d in simp)
  ultimately show ?thesis
    by (cases "outcome_value r") auto
qed

text \<open>
  The waits inside a read refuse a timeout of more than \<open>INT_MAX\<close> milliseconds, although the check
  at its start lets every timeout pass that the clock can represent.
\<close>

lemma read_some_refuses_long_timeouts:
  assumes "destination \<noteq> []" and "0 \<le> timeout"
    and "timeout \<le> (INT64_MAX - start) div nanoseconds_per_millisecond"
    and "ceil_ms (start + timeout * nanoseconds_per_millisecond - rd_now t) > INT_MAX"
    and "rd_now t < start + timeout * nanoseconds_per_millisecond"
  shows "read_some destination timeout c start (t # ts) port =
    (Some (outcome_failure (from_errno ''poll'' ''fd'' EINVAL)), destination)"
  using assms
  by (simp add: read_some_def Let_def wait_readable_def deadline_after_def algebra_simps)

lemma read_some_refuses_long_timeouts_example:
  "read_some [0] 2200000000 (-1) 0 (t\<lparr>rd_now := 500\<rparr> # ts) port =
   (Some (outcome_failure (from_errno ''poll'' ''fd'' EINVAL)), [0])"
  by (rule read_some_refuses_long_timeouts)
    (simp_all add: ceil_ms_def INT_MAX_def INT64_MAX_def nanoseconds_per_millisecond_def)

lemma read_loop_returns:
  assumes "list_all (\<lambda>t. \<not> list_all poll_interrupted (rd_polls t) \<and>
      \<not> list_all (\<lambda>(count, errno). count < 0 \<and> errno = EINTR) (rd_reads t)) turns"
    and "list_ex (\<lambda>t. deadline \<le> rd_later t) turns"
  shows "fst (read_loop turns port destination deadline c) \<noteq> None"
  using assms
proof (induction turns)
  case (Cons t ts)
  from Cons.prems(1) have polls: "\<not> list_all poll_interrupted (rd_polls t)"
    and reads: "snd (until_final (\<lambda>(count, errno). count < 0 \<and> errno = EINTR) (rd_reads t)) \<noteq> None"
    by (simp_all add: until_final_None)
  have wait: "fst (wait_readable (sp_fd port) timeout c now (rd_polls t)) \<noteq> None" for timeout now
    using wait_for_event_returns [OF polls]
    by (simp add: wait_readable_def wait_readable_until_def split: option.split)
  obtain event where "fst (wait_readable (sp_fd port)
      (if deadline - rd_now t > 0 then ceil_ms (deadline - rd_now t) else 0) c (rd_wait_now t) (rd_polls t)) = Some event"
    using wait by fastforce
  moreover from reads obtain count errno where
    "snd (until_final (\<lambda>(count, errno). count < 0 \<and> errno = EINTR) (rd_reads t)) = Some (count, errno)"
    by auto
  moreover have "\<not> deadline \<le> rd_later t \<longrightarrow> fst (read_loop ts port destination deadline c) \<noteq> None"
    using Cons by auto
  ultimately show ?case
    unfolding read_loop.simps Let_def by (simp split: option.split)
qed simp

section \<open>Termination signals\<close>

text \<open>
  Creating the termination event blocks both signals when it succeeds, and changes nothing when it
  fails, unless the rollback fails too; then the failure says so.
\<close>

lemma termination_create_blocks:
  "termination_create a blocked = (r, blocked') \<Longrightarrow>
   (outcome_ok r \<longrightarrow> blocked' = blocked \<union> {SIGINT, SIGTERM} \<and> r = outcome_success (te_signalfd a)) \<and>
   (\<not> outcome_ok r \<longrightarrow>
      (if status_context (outcome_status r) = ''rollback after signalfd failure''
       then blocked' = blocked \<union> {SIGINT, SIGTERM} else blocked' = blocked))"
  by (auto simp: termination_create_def Let_def from_errno_def split: option.splits if_splits)

lemma termination_consume_signal:
  "termination_consume reads signo = Some r \<Longrightarrow> outcome_value r = Some n \<Longrightarrow> n \<noteq> 0 \<Longrightarrow>
   n = sint signo \<and> signalfd_siginfo_size \<in> fst ` set reads"
  using until_final_Some [of "\<lambda>(count, errno). count < 0 \<and> errno = EINTR" reads]
  by (force simp: termination_consume_def split: option.splits prod.splits if_splits)

section \<open>An example\<close>

definition example_line :: serial_port where
  "example_line = \<lparr>sp_fd = 4, sp_path = ''/dev/ttyS0''\<rparr>"

text \<open>A first look finds nothing to read after all, a second one three bytes.\<close>

definition example_reads :: "read_turn list" where
  "example_reads =
     [\<lparr>rd_now = 10, rd_wait_now = 11,
       rd_polls = [\<lparr>pa_now = 12, pa_result = 1, pa_errno = 0, pa_revents = POLLIN, pa_cancel_revents = 0\<rparr>],
       rd_reads = [(-1, EINTR), (-1, EAGAIN)], rd_bytes = [], rd_later = 20\<rparr>,
      \<lparr>rd_now = 21, rd_wait_now = 22,
       rd_polls = [\<lparr>pa_now = 23, pa_result = 1, pa_errno = 0, pa_revents = POLLIN, pa_cancel_revents = 0\<rparr>],
       rd_reads = [(3, 0)], rd_bytes = [0x0F, 0xE0, 0x03], rd_later = 30\<rparr>]"

lemma example_read:
  "read_some [0, 0, 0, 0] 5 (-1) 0 example_reads example_line =
     (Some (outcome_success 3), [0x0F, 0xE0, 0x03, 0])"
  "reads_fit (length ([0, 0, 0, 0] :: u8 list)) example_reads"
  by code_simp+

theorem serial_read_delivers_one_read_witness:
  "delivers [0, 0, 0, 0] example_reads 3 [0x0F, 0xE0, 0x03, 0]"
  using serial_read_delivers_one_read [OF example_read] by simp

end
