(* ===== verification/Elog_Config.thy ===== *)
theory Elog_Config
  imports RC_Prelude
begin

text \<open>
  The compile-time configuration of EasyLogger as a record: \<open>elog_cfg.h\<close> of the component
  (\<open>components/EasyLogger/easylogger/inc\<close>) and the one the service layer builds with
  (\<open>service/logging/easylogger_config\<close>), with the constants of \<open>elog.h\<close> that the modules share.
  Every definition that depends on a macro takes the record as an argument.
\<close>

section \<open>Levels and formats\<close>

text \<open>Levels are small natural numbers (\<open>uint8_t\<close> in the code); higher is more verbose.\<close>

definition ELOG_LVL_ASSERT :: nat where "ELOG_LVL_ASSERT = 0"
definition ELOG_LVL_ERROR :: nat where "ELOG_LVL_ERROR = 1"
definition ELOG_LVL_WARN :: nat where "ELOG_LVL_WARN = 2"
definition ELOG_LVL_INFO :: nat where "ELOG_LVL_INFO = 3"
definition ELOG_LVL_DEBUG :: nat where "ELOG_LVL_DEBUG = 4"
definition ELOG_LVL_VERBOSE :: nat where "ELOG_LVL_VERBOSE = 5"
definition ELOG_LVL_TOTAL_NUM :: nat where "ELOG_LVL_TOTAL_NUM = 6"
definition ELOG_FILTER_LVL_SILENT :: nat where "ELOG_FILTER_LVL_SILENT = ELOG_LVL_ASSERT"
definition ELOG_FILTER_LVL_ALL :: nat where "ELOG_FILTER_LVL_ALL = ELOG_LVL_VERBOSE"

lemmas elog_levels =
  ELOG_LVL_ASSERT_def ELOG_LVL_ERROR_def ELOG_LVL_WARN_def ELOG_LVL_INFO_def
  ELOG_LVL_DEBUG_def ELOG_LVL_VERBOSE_def ELOG_LVL_TOTAL_NUM_def
  ELOG_FILTER_LVL_SILENT_def ELOG_FILTER_LVL_ALL_def

definition ELOG_FMT_LVL :: u64 where "ELOG_FMT_LVL = push_bit 0 1"
definition ELOG_FMT_TAG :: u64 where "ELOG_FMT_TAG = push_bit 1 1"
definition ELOG_FMT_TIME :: u64 where "ELOG_FMT_TIME = push_bit 2 1"
definition ELOG_FMT_P_INFO :: u64 where "ELOG_FMT_P_INFO = push_bit 3 1"
definition ELOG_FMT_T_INFO :: u64 where "ELOG_FMT_T_INFO = push_bit 4 1"
definition ELOG_FMT_DIR :: u64 where "ELOG_FMT_DIR = push_bit 5 1"
definition ELOG_FMT_FUNC :: u64 where "ELOG_FMT_FUNC = push_bit 6 1"
definition ELOG_FMT_LINE :: u64 where "ELOG_FMT_LINE = push_bit 7 1"

definition ELOG_FMT_ALL :: u64 where
  "ELOG_FMT_ALL = ELOG_FMT_LVL OR ELOG_FMT_TAG OR ELOG_FMT_TIME OR ELOG_FMT_P_INFO OR
     ELOG_FMT_T_INFO OR ELOG_FMT_DIR OR ELOG_FMT_FUNC OR ELOG_FMT_LINE"

section \<open>Configurations\<close>

datatype output_mode = Output_direct | Output_buffered | Output_async

record elog_cfg =
  LINE_BUF_SIZE :: nat
  LINE_NUM_MAX_LEN :: nat
  FILTER_TAG_MAX_LEN :: nat
  FILTER_KW_MAX_LEN :: nat
  FILTER_TAG_LVL_MAX_NUM :: nat
  NEWLINE_SIGN :: string
  COLOR_ENABLE :: bool
  OUTPUT_MODE :: output_mode
  ASYNC_OUTPUT_LVL :: nat
  ASYNC_OUTPUT_BUF_SIZE :: nat
  ASYNC_LINE_OUTPUT :: bool
  BUF_OUTPUT_BUF_SIZE :: nat

text \<open>The component's own configuration: asynchronous output takes precedence over buffered.\<close>

definition default_cfg :: elog_cfg where
  "default_cfg =
     \<lparr>LINE_BUF_SIZE = 1024, LINE_NUM_MAX_LEN = 5, FILTER_TAG_MAX_LEN = 30,
      FILTER_KW_MAX_LEN = 16, FILTER_TAG_LVL_MAX_NUM = 5, NEWLINE_SIGN = [CHR 0x0A],
      COLOR_ENABLE = True, OUTPUT_MODE = Output_async, ASYNC_OUTPUT_LVL = ELOG_LVL_ASSERT,
      ASYNC_OUTPUT_BUF_SIZE = 1024 * 10, ASYNC_LINE_OUTPUT = True,
      BUF_OUTPUT_BUF_SIZE = 1024 * 10\<rparr>"

definition service_cfg :: elog_cfg where
  "service_cfg =
     \<lparr>LINE_BUF_SIZE = 512, LINE_NUM_MAX_LEN = 20, FILTER_TAG_MAX_LEN = 16,
      FILTER_KW_MAX_LEN = 16, FILTER_TAG_LVL_MAX_NUM = 5, NEWLINE_SIGN = [CHR 0x0D, CHR 0x0A],
      COLOR_ENABLE = True, OUTPUT_MODE = Output_direct, ASYNC_OUTPUT_LVL = ELOG_LVL_ASSERT,
      ASYNC_OUTPUT_BUF_SIZE = 512 * 10, ASYNC_LINE_OUTPUT = False,
      BUF_OUTPUT_BUF_SIZE = 512 * 10\<rparr>"

section \<open>Character memory\<close>

abbreviation NUL :: char where "NUL \<equiv> CHR 0x00"

text \<open>
  Arrays of characters are lists of their declared length; reads and writes are guarded, so
  an access outside the array is the value \<open>None\<close>. A C string is the part before the first
  NUL.
\<close>

definition c_str :: "char list \<Rightarrow> string" where
  "c_str arr = takeWhile (\<lambda>c. c \<noteq> NUL) arr"

definition overwrite :: "char list \<Rightarrow> nat \<Rightarrow> char list \<Rightarrow> char list" where
  "overwrite buf pos xs = take pos buf @ xs @ drop (pos + length xs) buf"

definition mem_write :: "char list \<Rightarrow> nat \<Rightarrow> char list \<Rightarrow> char list option" where
  "mem_write buf pos xs =
     (if pos + length xs \<le> length buf then Some (overwrite buf pos xs) else None)"

definition mem_read :: "char list \<Rightarrow> nat \<Rightarrow> nat \<Rightarrow> char list option" where
  "mem_read buf pos n = (if pos + n \<le> length buf then Some (take n (drop pos buf)) else None)"

lemma length_overwrite [simp]:
  "pos + length xs \<le> length buf \<Longrightarrow> length (overwrite buf pos xs) = length buf"
  by (simp add: overwrite_def)

lemma overwrite_Nil [simp]: "overwrite buf pos [] = buf"
  by (simp add: overwrite_def)

lemma take_overwrite [simp]:
  "pos \<le> length buf \<Longrightarrow> take (pos + length xs) (overwrite buf pos xs) = take pos buf @ xs"
  by (simp add: overwrite_def)

lemma take_overwrite_below [simp]:
  "n \<le> pos \<Longrightarrow> pos \<le> length buf \<Longrightarrow> take n (overwrite buf pos xs) = take n buf"
  by (simp add: overwrite_def)

lemma drop_overwrite_above [simp]:
  "pos + length xs \<le> n \<Longrightarrow> pos \<le> length buf \<Longrightarrow> drop n (overwrite buf pos xs) = drop n buf"
  by (simp add: overwrite_def)

lemma overwrite_append:
  "pos + length xs \<le> length buf \<Longrightarrow>
   overwrite (overwrite buf pos xs) (pos + length xs) ys = overwrite buf pos (xs @ ys)"
  by (simp add: overwrite_def ac_simps)

lemma c_str_no_NUL: "NUL \<notin> set (c_str arr)"
  by (auto simp: c_str_def dest: set_takeWhileD)

lemma c_str_append_NUL [simp]: "NUL \<notin> set s \<Longrightarrow> c_str (s @ NUL # rest) = s"
  by (induction s) (auto simp: c_str_def)

lemma c_str_replicate [simp]: "c_str (replicate n NUL) = []"
  by (cases n) (simp_all add: c_str_def)

end
