(* ===== verification/Elog_Lock.thy ===== *)
theory Elog_Lock
  imports Elog_Config
begin

text \<open>
  The switchable lock of EasyLogger. \<open>elog.c\<close> (around the output port) and \<open>elog_flash.c\<close>
  (around the flash buffer) carry the same three functions: lock, unlock, and enabling or
  disabling the lock, with two flags that remember what happened while the other setting was
  in force. The port's mutex is not modelled as memory but through the calls it receives, a
  list of \<open>port_event\<close>s, and what a non-recursive mutex makes of them.
\<close>

section \<open>Calls of the port\<close>

datatype port_event = Port_lock | Port_unlock | Port_output "char list"

text \<open>
  Running calls against a non-recursive mutex: locking it twice from one thread never returns,
  and unlocking it while free is an error; both are \<open>None\<close>. The flag tells whether it is held.
\<close>

fun mutex_run :: "bool \<Rightarrow> port_event list \<Rightarrow> bool option" where
  "mutex_run h [] = Some h"
| "mutex_run h (Port_lock # evs) = (if h then None else mutex_run True evs)"
| "mutex_run h (Port_unlock # evs) = (if h then mutex_run False evs else None)"
| "mutex_run h (Port_output log # evs) = mutex_run h evs"

text \<open>Outputs that are made while the mutex is free.\<close>

fun unguarded_outputs :: "bool \<Rightarrow> port_event list \<Rightarrow> char list list" where
  "unguarded_outputs h [] = []"
| "unguarded_outputs h (Port_lock # evs) = unguarded_outputs True evs"
| "unguarded_outputs h (Port_unlock # evs) = unguarded_outputs False evs"
| "unguarded_outputs h (Port_output log # evs) =
     (if h then [] else [log]) @ unguarded_outputs h evs"

definition serialized :: "port_event list \<Rightarrow> bool" where
  "serialized evs \<longleftrightarrow> mutex_run False evs = Some False \<and> unguarded_outputs False evs = []"

lemma mutex_run_append:
  "mutex_run h (evs @ evs') = (case mutex_run h evs of None \<Rightarrow> None | Some h' \<Rightarrow> mutex_run h' evs')"
  by (induction h evs rule: mutex_run.induct) auto

lemma unguarded_append:
  "mutex_run h evs = Some h' \<Longrightarrow>
   unguarded_outputs h (evs @ evs') = unguarded_outputs h evs @ unguarded_outputs h' evs'"
  by (induction h evs rule: mutex_run.induct) (auto split: if_splits)

lemma serialized_Nil [simp]: "serialized []"
  by (simp add: serialized_def)

lemma serialized_append: "serialized evs \<Longrightarrow> serialized evs' \<Longrightarrow> serialized (evs @ evs')"
  by (auto simp: serialized_def mutex_run_append unguarded_append [of False evs False])

lemma serialized_concat: "list_all serialized evss \<Longrightarrow> serialized (concat evss)"
  by (induction evss) (auto intro: serialized_append)

definition is_output :: "port_event \<Rightarrow> bool" where
  "is_output ev = (case ev of Port_output _ \<Rightarrow> True | _ \<Rightarrow> False)"

lemma outputs_only_run:
  "list_all is_output evs \<Longrightarrow> mutex_run h evs = Some h"
  by (induction h evs rule: mutex_run.induct) (auto simp: is_output_def)

lemma outputs_only_guarded:
  "list_all is_output evs \<Longrightarrow> unguarded_outputs True evs = []"
  by (induction evs) (auto simp: is_output_def split: port_event.splits)

lemma critical_section_serialized:
  "list_all is_output evs \<Longrightarrow> serialized (Port_lock # evs @ [Port_unlock])"
  by (simp add: serialized_def mutex_run_append outputs_only_run unguarded_append
      outputs_only_guarded [of evs] unguarded_append [OF outputs_only_run])

section \<open>The lock\<close>

record lock_state =
  lock_enabled :: bool
  locked_before_enable :: bool
  locked_before_disable :: bool

definition lock_initial :: lock_state where
  "lock_initial = \<lparr>lock_enabled = False, locked_before_enable = False, locked_before_disable = False\<rparr>"

definition output_lock :: "lock_state \<Rightarrow> port_event list \<times> lock_state" where
  "output_lock l =
     (if lock_enabled l then ([Port_lock], l\<lparr>locked_before_disable := True\<rparr>)
      else ([], l\<lparr>locked_before_enable := True\<rparr>))"

definition output_unlock :: "lock_state \<Rightarrow> port_event list \<times> lock_state" where
  "output_unlock l =
     (if lock_enabled l then ([Port_unlock], l\<lparr>locked_before_disable := False\<rparr>)
      else ([], l\<lparr>locked_before_enable := False\<rparr>))"

definition output_lock_enabled :: "bool \<Rightarrow> lock_state \<Rightarrow> port_event list \<times> lock_state" where
  "output_lock_enabled enabled l0 =
     (let l = l0\<lparr>lock_enabled := enabled\<rparr> in
      (if lock_enabled l
       then if \<not> locked_before_disable l \<and> locked_before_enable l then [Port_lock]
            else if locked_before_disable l \<and> \<not> locked_before_enable l then [Port_unlock]
            else []
       else [], l))"

section \<open>The interface of a critical section\<close>

text \<open>
  What a caller relies on: an enabled lock passes each call to the port, a disabled one passes
  none, and neither call changes the setting.
\<close>

locale section_lock =
  fixes acquire :: "'l \<Rightarrow> port_event list \<times> 'l"
    and release :: "'l \<Rightarrow> port_event list \<times> 'l"
    and active :: "'l \<Rightarrow> bool"
  assumes acquire_events: "fst (acquire l) = (if active l then [Port_lock] else [])"
    and release_events: "fst (release l) = (if active l then [Port_unlock] else [])"
    and acquire_active: "active (snd (acquire l)) = active l"
    and release_active: "active (snd (release l)) = active l"
begin

lemma section_events:
  assumes "active l2 = active l"
  shows "fst (acquire l) @ evs @ fst (release l2) =
    (if active l then Port_lock # evs @ [Port_unlock] else evs)"
  using assms by (simp add: acquire_events release_events)

lemma section_serialized:
  assumes "active l" "active l2" "list_all is_output evs"
  shows "serialized (fst (acquire l) @ evs @ fst (release l2))"
  using assms by (simp add: section_events critical_section_serialized)

lemma empty_section_serialized: "serialized (fst (acquire l) @ fst (release (snd (acquire l))))"
  using section_events [of "snd (acquire l)" l "[]"] critical_section_serialized [of "[]"]
  by (simp add: acquire_active)

end

interpretation elog_lock: section_lock output_lock output_unlock lock_enabled
  by unfold_locales (simp_all add: output_lock_def output_unlock_def)

text \<open>
  The copy of the lock in \<open>elog_flash.c\<close>, with its own flags; it starts enabled.
\<close>

record flash_lock =
  log_buf_lock_enabled :: bool
  log_buf_is_locked_before_enable :: bool
  log_buf_is_locked_before_disable :: bool

definition flash_lock_initial :: flash_lock where
  "flash_lock_initial = \<lparr>log_buf_lock_enabled = True, log_buf_is_locked_before_enable = False,
     log_buf_is_locked_before_disable = False\<rparr>"

definition log_buf_lock :: "flash_lock \<Rightarrow> port_event list \<times> flash_lock" where
  "log_buf_lock l =
     (if log_buf_lock_enabled l then ([Port_lock], l\<lparr>log_buf_is_locked_before_disable := True\<rparr>)
      else ([], l\<lparr>log_buf_is_locked_before_enable := True\<rparr>))"

definition log_buf_unlock :: "flash_lock \<Rightarrow> port_event list \<times> flash_lock" where
  "log_buf_unlock l =
     (if log_buf_lock_enabled l then ([Port_unlock], l\<lparr>log_buf_is_locked_before_disable := False\<rparr>)
      else ([], l\<lparr>log_buf_is_locked_before_enable := False\<rparr>))"

definition flash_lock_enabled :: "bool \<Rightarrow> flash_lock \<Rightarrow> port_event list \<times> flash_lock" where
  "flash_lock_enabled enabled l0 =
     (let l = l0\<lparr>log_buf_lock_enabled := enabled\<rparr> in
      (if log_buf_lock_enabled l
       then if \<not> log_buf_is_locked_before_disable l \<and> log_buf_is_locked_before_enable l
            then [Port_lock]
            else if log_buf_is_locked_before_disable l \<and> \<not> log_buf_is_locked_before_enable l
            then [Port_unlock]
            else []
       else [], l))"

interpretation flash_lock: section_lock log_buf_lock log_buf_unlock log_buf_lock_enabled
  by unfold_locales (simp_all add: log_buf_lock_def log_buf_unlock_def)

section \<open>Switching the lock\<close>

text \<open>
  The state of the lock agrees with the mutex: while enabled the flag of the enabled setting
  tells whether the mutex is held.
\<close>

definition lock_agrees :: "bool \<Rightarrow> lock_state \<Rightarrow> bool" where
  "lock_agrees h l \<longleftrightarrow> lock_enabled l \<and> locked_before_disable l = h"

text \<open>
  A window in which the lock is disabled: entered with the mutex free, it runs a sequence of
  lock and unlock calls (\<open>True\<close> is lock) and is left again.
\<close>

fun lock_calls :: "bool list \<Rightarrow> lock_state \<Rightarrow> port_event list \<times> lock_state" where
  "lock_calls [] l = ([], l)"
| "lock_calls (b # bs) l =
     (let (e1, l1) = (if b then output_lock l else output_unlock l);
          (e2, l2) = lock_calls bs l1
      in (e1 @ e2, l2))"

definition disabled_window :: "bool list \<Rightarrow> lock_state \<Rightarrow> port_event list \<times> lock_state" where
  "disabled_window bs l =
     (let (e1, l1) = output_lock_enabled False l;
          (e2, l2) = lock_calls bs l1;
          (e3, l3) = output_lock_enabled True l2
      in (e1 @ e2 @ e3, l3))"

lemma lock_calls_disabled:
  "\<not> lock_enabled l \<Longrightarrow> lock_calls bs l =
     ([], if bs = [] then l else l\<lparr>locked_before_enable := last bs\<rparr>)"
  by (induction bs arbitrary: l) (auto simp: output_lock_def output_unlock_def Let_def)

lemma disabled_window_eq:
  assumes "bs \<noteq> []"
  shows "disabled_window bs l =
    (if locked_before_disable l = last bs then [] else if last bs then [Port_lock] else [Port_unlock],
     l\<lparr>lock_enabled := True, locked_before_enable := last bs\<rparr>)"
  using assms
  by (auto simp: disabled_window_def output_lock_enabled_def lock_calls_disabled Let_def)

text \<open>
  Disabling the output lock, running any lock and unlock calls and enabling it again
  reaches the mutex with what is needed to bring it into the state of the last call: the
  sequence never locks a held mutex or unlocks a free one.
\<close>

theorem disabled_window_resynchronizes:
  assumes "lock_agrees h l" and "bs \<noteq> []"
  shows "mutex_run h (fst (disabled_window bs l)) = Some (last bs)"
  using assms by (simp add: disabled_window_eq lock_agrees_def)

lemma disabled_window_resynchronizes_witness:
  "mutex_run False (fst (disabled_window [True, False, True]
     \<lparr>lock_enabled = True, locked_before_enable = False, locked_before_disable = False\<rparr>)) = Some True"
  using disabled_window_resynchronizes [of False
      "\<lparr>lock_enabled = True, locked_before_enable = False, locked_before_disable = False\<rparr>"
      "[True, False, True]"]
  by (simp add: lock_agrees_def)

text \<open>
  Enabling the lock leaves the flag of the enabled setting as it was, so a second window after
  a window that released the mutex releases it again: the lock is taken, disabled, released
  while disabled and enabled (which unlocks), and a second window unlocks the free mutex.
\<close>

lemma second_window_unlocks_twice:
  "mutex_run False
     (let (e1, l1) = output_lock \<lparr>lock_enabled = True, locked_before_enable = False,
            locked_before_disable = False\<rparr>;
          (e2, l2) = disabled_window [False] l1;
          (e3, l3) = disabled_window [True, False] l2
      in e1 @ e2 @ e3) = None"
  by code_simp

end
