(* ===== verification/Elog_Utils.thy ===== *)
theory Elog_Utils
  imports Elog_Config "HOL-Library.Monad_Syntax" "HOL-Library.Sublist"
begin

text \<open>
  \<open>elog_utils.c\<close> and the string functions of the C library that EasyLogger relies on. The main
  result is that a run of \<open>elog_strcpy\<close> calls builds the concatenation of its sources, cut at
  the line buffer's size, without a write outside the buffer.
\<close>

section \<open>String functions of the C library\<close>

definition strncpy :: "char list \<Rightarrow> string \<Rightarrow> nat \<Rightarrow> char list" where
  "strncpy dst src n = take n (src @ replicate n NUL) @ drop n dst"

definition strncmp_eq :: "string \<Rightarrow> string \<Rightarrow> nat \<Rightarrow> bool" where
  "strncmp_eq s t n \<longleftrightarrow> take n s = take n t"

definition strstr :: "string \<Rightarrow> string \<Rightarrow> bool" where
  "strstr haystack needle \<longleftrightarrow> sublist needle haystack"

lemma length_strncpy [simp]: "n \<le> length dst \<Longrightarrow> length (strncpy dst src n) = length dst"
  by (simp add: strncpy_def)

lemma strstr_Nil [simp]: "strstr s []"
  by (simp add: strstr_def)

text \<open>An array of \<open>n + 1\<close> characters that ends with NUL holds at most \<open>n\<close> characters of string.\<close>

lemma c_str_strncpy:
  assumes "NUL \<notin> set src" "length dst = n + 1" "dst ! n = NUL"
  shows "c_str (strncpy dst src n) = take n src" and "strncpy dst src n ! n = NUL"
proof -
  have "drop n dst = [NUL]"
    using assms(2,3) by (metis Cons_nth_drop_Suc Suc_eq_plus1 drop_all le_refl lessI)
  then have eq: "strncpy dst src n = take n src @ replicate (n - length src) NUL @ [NUL]"
    by (simp add: strncpy_def)
  have no: "NUL \<notin> set (take n src)" using assms(1) by (meson in_set_takeD)
  have "replicate (n - length src) NUL @ [NUL] = NUL # replicate (n - length src) NUL"
    by (simp add: replicate_append_same)
  with no eq show "c_str (strncpy dst src n) = take n src" by simp
  have "length (take n src @ replicate (n - length src) NUL) = n" by simp
  then show "strncpy dst src n ! n = NUL"
    unfolding eq append_assoc [symmetric] by (metis nth_append_length)
qed

section \<open>elog_strcpy\<close>

text \<open>
  \<open>dst\<close> of the code is the address \<open>buf + pos\<close>; the call returns the number of characters
  copied and the memory after the call.
\<close>

fun elog_strcpy :: "elog_cfg \<Rightarrow> nat \<Rightarrow> char list \<Rightarrow> nat \<Rightarrow> string \<Rightarrow> (nat \<times> char list) option" where
  "elog_strcpy cfg cur_len buf pos [] = Some (0, buf)"
| "elog_strcpy cfg cur_len buf pos (c # src) =
     (if cur_len < LINE_BUF_SIZE cfg
      then do {
        buf' \<leftarrow> mem_write buf pos [c];
        (n, buf'') \<leftarrow> elog_strcpy cfg (cur_len + 1) buf' (pos + 1) src;
        Some (n + 1, buf'')
      }
      else Some (0, buf))"

lemma elog_strcpy_eq:
  "cur_len \<le> LINE_BUF_SIZE cfg \<Longrightarrow> length buf = LINE_BUF_SIZE cfg \<Longrightarrow>
   elog_strcpy cfg cur_len buf cur_len src =
     (let s = take (LINE_BUF_SIZE cfg - cur_len) src
      in Some (length s, overwrite buf cur_len s))"
proof (induction src arbitrary: cur_len buf)
  case Nil
  show ?case by simp
next
  case (Cons c src)
  show ?case
  proof (cases "cur_len < LINE_BUF_SIZE cfg")
    case True
    let ?b = "overwrite buf cur_len [c]"
    have "elog_strcpy cfg (cur_len + 1) ?b (cur_len + 1) src =
        (let s = take (LINE_BUF_SIZE cfg - (cur_len + 1)) src
         in Some (length s, overwrite ?b (cur_len + 1) s))"
      by (rule Cons.IH) (use True Cons.prems in simp_all)
    moreover have "take (LINE_BUF_SIZE cfg - cur_len) (c # src) =
        c # take (LINE_BUF_SIZE cfg - (cur_len + 1)) src"
      using True by (simp add: take_Cons')
    moreover have "overwrite ?b (cur_len + 1) s = overwrite buf cur_len (c # s)" for s
      using overwrite_append [of cur_len "[c]" buf s] True Cons.prems by simp
    ultimately show ?thesis
      using True Cons.prems by (simp add: mem_write_def Let_def)
  next
    case False
    with Cons.prems show ?thesis by simp
  qed
qed

text \<open>
  A line under construction: the buffer and the length so far. Its text is what has been
  built; appending through \<open>elog_strcpy\<close> appends to the text and cuts at the buffer's size.
\<close>

type_synonym line = "nat \<times> char list"

definition line_ok :: "elog_cfg \<Rightarrow> line \<Rightarrow> bool" where
  "line_ok cfg l \<longleftrightarrow> fst l \<le> LINE_BUF_SIZE cfg \<and> length (snd l) = LINE_BUF_SIZE cfg"

definition line_text :: "line \<Rightarrow> string" where
  "line_text l = take (fst l) (snd l)"

definition line_put :: "elog_cfg \<Rightarrow> string \<Rightarrow> line \<Rightarrow> line option" where
  "line_put cfg src l =
     do { (n, buf) \<leftarrow> elog_strcpy cfg (fst l) (snd l) (fst l) src; Some (fst l + n, buf) }"

lemma length_line_text: "line_ok cfg l \<Longrightarrow> length (line_text l) = fst l"
  by (simp add: line_ok_def line_text_def)

lemma line_put_refines:
  assumes "line_ok cfg l"
  obtains l' where "line_put cfg src l = Some l'" "line_ok cfg l'"
    "line_text l' = take (LINE_BUF_SIZE cfg) (line_text l @ src)"
proof -
  obtain n buf where l: "l = (n, buf)" by (cases l)
  let ?s = "take (LINE_BUF_SIZE cfg - n) src"
  have ok: "n \<le> LINE_BUF_SIZE cfg" "length buf = LINE_BUF_SIZE cfg"
    using assms by (simp_all add: line_ok_def l)
  have "line_put cfg src l = Some (n + length ?s, overwrite buf n ?s)"
    using ok by (simp add: line_put_def l elog_strcpy_eq Let_def)
  moreover have "line_ok cfg (n + length ?s, overwrite buf n ?s)"
    using ok by (simp add: line_ok_def)
  moreover have "line_text (n + length ?s, overwrite buf n ?s) =
      take (LINE_BUF_SIZE cfg) (line_text l @ src)"
    using ok take_overwrite [of n buf ?s] by (simp add: line_text_def l)
  ultimately show thesis using that by blast
qed

text \<open>A sequence of appends, in order.\<close>

fun line_puts :: "elog_cfg \<Rightarrow> string list \<Rightarrow> line \<Rightarrow> line option" where
  "line_puts cfg [] l = Some l"
| "line_puts cfg (s # ss) l = do { l' \<leftarrow> line_put cfg s l; line_puts cfg ss l' }"

lemma line_puts_append:
  "line_puts cfg (ss @ ts) l = do { l' \<leftarrow> line_puts cfg ss l; line_puts cfg ts l' }"
  by (induction ss arbitrary: l) (auto split: bind_splits)

lemma line_puts_refines:
  assumes "line_ok cfg l"
  shows "\<exists>l'. line_puts cfg ss l = Some l' \<and> line_ok cfg l' \<and>
    line_text l' = take (LINE_BUF_SIZE cfg) (line_text l @ concat ss)"
  using assms
proof (induction ss arbitrary: l)
  case Nil
  then show ?case by (auto simp: length_line_text line_ok_def line_text_def)
next
  case (Cons s ss)
  from line_put_refines [OF Cons.prems, of s] obtain l1 where l1:
    "line_put cfg s l = Some l1" "line_ok cfg l1"
    "line_text l1 = take (LINE_BUF_SIZE cfg) (line_text l @ s)" by blast
  from Cons.IH [OF l1(2)] l1 show ?case by (auto simp: min_def)
qed

section \<open>elog_cpyln and elog_memcpy\<close>

text \<open>
  The copy loop of \<open>elog_cpyln\<close>; \<open>copied\<close> is what the earlier turns have copied and the source
  is the region of \<open>len\<close> characters. The call returns the characters copied.
\<close>

fun cpyln_loop :: "string \<Rightarrow> char list \<Rightarrow> char list \<Rightarrow> char list" where
  "cpyln_loop newline copied [] = copied"
| "cpyln_loop newline copied (c # log) =
     (let copied' = copied @ [c] in
      if length newline \<le> length copied' \<and>
         drop (length copied' - length newline) copied' = newline
      then copied' else cpyln_loop newline copied' log)"

definition elog_cpyln :: "elog_cfg \<Rightarrow> char list \<Rightarrow> char list" where
  "elog_cpyln cfg log = cpyln_loop (NEWLINE_SIGN cfg) [] log"

lemma cpyln_loop_prefix:
  "\<exists>k \<le> length log. cpyln_loop nl copied log = copied @ take k log"
proof (induction log arbitrary: copied)
  case Nil
  show ?case by simp
next
  case (Cons c log)
  from Cons.IH [of "copied @ [c]"] obtain k where
    "k \<le> length log" "cpyln_loop nl (copied @ [c]) log = (copied @ [c]) @ take k log" by blast
  then show ?case
    by (auto simp: Let_def intro: exI [of _ "Suc k"] exI [of _ "Suc 0"])
qed

lemma cpyln_loop_progress: "log \<noteq> [] \<Longrightarrow> length copied < length (cpyln_loop nl copied log)"
proof (induction log arbitrary: copied)
  case Nil
  then show ?case by simp
next
  case (Cons c log)
  show ?case
  proof (cases "log = []")
    case True
    then show ?thesis by (simp add: Let_def)
  next
    case False
    from Cons.IH [OF this, of "copied @ [c]"] show ?thesis by (simp add: Let_def)
  qed
qed

lemma elog_cpyln_prefix: "\<exists>k \<le> length log. elog_cpyln cfg log = take k log"
  using cpyln_loop_prefix [of log "NEWLINE_SIGN cfg" "[]"] by (simp add: elog_cpyln_def)

lemma length_elog_cpyln: "length (elog_cpyln cfg log) \<le> length log"
  using elog_cpyln_prefix [of log cfg] by auto

lemma elog_cpyln_take: "elog_cpyln cfg log = take (length (elog_cpyln cfg log)) log"
  using elog_cpyln_prefix [of log cfg] by (auto simp: min_def)

lemma elog_cpyln_nonempty: "log \<noteq> [] \<Longrightarrow> elog_cpyln cfg log \<noteq> []"
  using cpyln_loop_progress [of log "[]" "NEWLINE_SIGN cfg"] by (auto simp: elog_cpyln_def)

fun elog_memcpy :: "char list \<Rightarrow> nat \<Rightarrow> char list \<Rightarrow> char list option" where
  "elog_memcpy dst pos [] = Some dst"
| "elog_memcpy dst pos (c # src) = do { dst' \<leftarrow> mem_write dst pos [c]; elog_memcpy dst' (pos + 1) src }"

lemma elog_memcpy_overwrite:
  "pos + length src \<le> length dst \<Longrightarrow> elog_memcpy dst pos src = Some (overwrite dst pos src)"
proof (induction src arbitrary: dst pos)
  case Nil
  show ?case by simp
next
  case (Cons c src)
  then have "elog_memcpy (overwrite dst pos [c]) (pos + 1) src =
      Some (overwrite (overwrite dst pos [c]) (pos + 1) src)" by simp
  with Cons.prems overwrite_append [of pos "[c]" dst src] show ?case
    by (simp add: mem_write_def)
qed

text \<open>The first line of a text: everything up to and including the first newline sign.\<close>

definition ends_line :: "elog_cfg \<Rightarrow> string \<Rightarrow> bool" where
  "ends_line cfg s \<longleftrightarrow> suffix (NEWLINE_SIGN cfg) s"

lemma cpyln_step_iff:
  "(length nl \<le> length s \<and> drop (length s - length nl) s = nl) \<longleftrightarrow> suffix nl s"
  by (metis suffix_drop suffix_length_le suffix_take append_take_drop_id same_append_eq)

lemma cpyln_loop_Cons:
  "cpyln_loop nl copied (c # log) =
     (if suffix nl (copied @ [c]) then copied @ [c] else cpyln_loop nl (copied @ [c]) log)"
  by (simp only: cpyln_loop.simps Let_def cpyln_step_iff)

lemma cpyln_loop_first_line:
  "(\<forall>k. length copied < k \<and> k < length (cpyln_loop nl copied log) \<longrightarrow>
      \<not> suffix nl (take k (copied @ log))) \<and>
   (length (cpyln_loop nl copied log) < length (copied @ log) \<longrightarrow>
      suffix nl (cpyln_loop nl copied log))"
proof (induction log arbitrary: copied)
  case Nil
  show ?case by auto
next
  case (Cons c log)
  let ?c = "copied @ [c]"
  show ?case
  proof (cases "suffix nl ?c")
    case True
    then have "cpyln_loop nl copied (c # log) = ?c" by (simp only: cpyln_loop_Cons if_True)
    with True show ?thesis by auto
  next
    case False
    then have eq: "cpyln_loop nl copied (c # log) = cpyln_loop nl ?c log"
      by (simp only: cpyln_loop_Cons if_False)
    have "\<not> suffix nl (take k (copied @ c # log))"
      if "length copied < k" "k < length (cpyln_loop nl ?c log)" for k
    proof (cases "k = length ?c")
      case True
      then have "take k (copied @ c # log) = ?c" by simp
      with False show ?thesis by simp
    next
      case other: False
      with that Cons.IH [of ?c] show ?thesis by simp
    qed
    with Cons.IH [of ?c] eq show ?thesis by simp
  qed
qed

end
