(* ===== verification/Elog_Buf.thy ===== *)
theory Elog_Buf
  imports Elog_Utils Elog_Lock
begin

text \<open>
  Buffered output, \<open>elog_buf.c\<close>: records are collected in a buffer that is printed when it is
  full, or on demand.
\<close>

section \<open>State and operations\<close>

record buf_state =
  bf_log_buf :: "char list"
  bf_write_size :: nat
  bf_is_enabled :: bool

definition buf_initial :: "elog_cfg \<Rightarrow> buf_state" where
  "buf_initial cfg = \<lparr>bf_log_buf = replicate (BUF_OUTPUT_BUF_SIZE cfg) NUL, bf_write_size = 0,
     bf_is_enabled = False\<rparr>"

text \<open>
  The loop of \<open>elog_buf_output\<close>; \<open>log\<close> is what is left of the record. It returns what it prints;
  \<open>None\<close> stands for a write outside the buffer and for the loop that never ends when the buffer
  has no room at all.
\<close>

function buf_output_loop :: "buf_state \<Rightarrow> char list \<Rightarrow> (char list list \<times> buf_state) option" where
  "buf_output_loop b log =
     (if length (bf_log_buf b) < bf_write_size b \<or> length (bf_log_buf b) = 0 \<and> log \<noteq> [] then None
      else if length (bf_log_buf b) < bf_write_size b + length log
      then case mem_write (bf_log_buf b) (bf_write_size b)
                  (take (length (bf_log_buf b) - bf_write_size b) log) of
             None \<Rightarrow> None
           | Some buf \<Rightarrow>
               (case buf_output_loop (b\<lparr>bf_log_buf := buf, bf_write_size := 0\<rparr>)
                       (drop (length (bf_log_buf b) - bf_write_size b) log) of
                  None \<Rightarrow> None
                | Some (outs, b') \<Rightarrow> Some (buf # outs, b'))
      else case mem_write (bf_log_buf b) (bf_write_size b) log of
             None \<Rightarrow> None
           | Some buf \<Rightarrow>
               Some ([], b\<lparr>bf_log_buf := buf, bf_write_size := bf_write_size b + length log\<rparr>))"
  by pat_completeness auto
termination
  by (relation "measure (\<lambda>(b, log). length log + bf_write_size b)")
    (auto simp: length_greater_0_conv [symmetric] simp del: length_greater_0_conv)

declare buf_output_loop.simps [simp del]

definition buf_output :: "char list \<Rightarrow> buf_state \<Rightarrow> (char list list \<times> buf_state) option" where
  "buf_output log b = (if \<not> bf_is_enabled b then Some ([log], b) else buf_output_loop b log)"

text \<open>\<open>elog_flush\<close> between its lock and unlock calls.\<close>

definition buf_flush :: "buf_state \<Rightarrow> char list list \<times> buf_state" where
  "buf_flush b = ([take (bf_write_size b) (bf_log_buf b)], b\<lparr>bf_write_size := 0\<rparr>)"

definition buf_enabled :: "bool \<Rightarrow> buf_state \<Rightarrow> buf_state" where
  "buf_enabled enabled b = b\<lparr>bf_is_enabled := enabled\<rparr>"

section \<open>Correctness\<close>

definition buf_ok :: "buf_state \<Rightarrow> bool" where
  "buf_ok b \<longleftrightarrow> 0 < length (bf_log_buf b) \<and> bf_write_size b \<le> length (bf_log_buf b)"

definition buffered :: "buf_state \<Rightarrow> char list" where
  "buffered b = take (bf_write_size b) (bf_log_buf b)"

lemma buf_output_loop_ok:
  "buf_ok b \<Longrightarrow> \<exists>outs b'. buf_output_loop b log = Some (outs, b') \<and> buf_ok b' \<and>
     concat outs @ buffered b' = buffered b @ log \<and>
     length (bf_log_buf b') = length (bf_log_buf b) \<and> bf_is_enabled b' = bf_is_enabled b \<and>
     (\<forall>out \<in> set outs. length out = length (bf_log_buf b))"
proof (induction b log rule: buf_output_loop.induct)
  case (1 b log)
  let ?S = "length (bf_log_buf b)" and ?w = "bf_write_size b"
  have ok: "0 < ?S" "?w \<le> ?S" using 1(2) by (simp_all add: buf_ok_def)
  show ?case
  proof (cases "?S < ?w + length log")
    case True
    let ?xs = "take (?S - ?w) log" and ?rest = "drop (?S - ?w) log"
    let ?buf = "overwrite (bf_log_buf b) ?w ?xs"
    have lx: "length ?xs = ?S - ?w" using True by simp
    have fit: "?w + length ?xs \<le> length (bf_log_buf b)" using lx ok by simp
    then have mw: "mem_write (bf_log_buf b) ?w ?xs = Some ?buf" by (simp only: mem_write_def if_True)
    have lb: "length ?buf = ?S" using fit by (rule length_overwrite)
    have full: "?buf = buffered b @ ?xs"
      using ok lx by (simp add: overwrite_def buffered_def)
    let ?b1 = "b\<lparr>bf_log_buf := ?buf, bf_write_size := 0\<rparr>"
    have "buf_ok ?b1" using ok lb by (simp add: buf_ok_def)
    from 1(1) [OF _ True mw this] ok obtain outs b' where
      ih: "buf_output_loop ?b1 ?rest = Some (outs, b')" "buf_ok b'"
        "concat outs @ buffered b' = buffered ?b1 @ ?rest"
        "length (bf_log_buf b') = ?S" "bf_is_enabled b' = bf_is_enabled b"
        "\<forall>out \<in> set outs. length out = ?S"
      using lb by auto
    have "buf_output_loop b log = Some (?buf # outs, b')"
      using ok True mw ih(1) by (subst buf_output_loop.simps) simp
    moreover have "concat (?buf # outs) @ buffered b' = buffered b @ log"
      using ih(3) full by (simp add: buffered_def)
    ultimately show ?thesis using ih lb by auto
  next
    case False
    then have fit: "?w + length log \<le> length (bf_log_buf b)" by simp
    let ?b1 = "b\<lparr>bf_log_buf := overwrite (bf_log_buf b) ?w log, bf_write_size := ?w + length log\<rparr>"
    have "buf_output_loop b log = Some ([], ?b1)"
      using ok False fit by (subst buf_output_loop.simps) (simp add: mem_write_def)
    moreover have "buf_ok ?b1" using ok fit by (simp add: buf_ok_def)
    moreover have "buffered ?b1 = buffered b @ log"
      using ok by (simp add: buffered_def)
    ultimately show ?thesis using fit by auto
  qed
qed

datatype buf_op = Op_output "char list" | Op_flush

definition buf_step :: "buf_op \<Rightarrow> buf_state \<Rightarrow> (char list list \<times> buf_state) option" where
  "buf_step op b = (case op of Op_output log \<Rightarrow> buf_output log b | Op_flush \<Rightarrow> Some (buf_flush b))"

fun buf_run :: "buf_op list \<Rightarrow> buf_state \<Rightarrow> (char list list \<times> buf_state) option" where
  "buf_run [] b = Some ([], b)"
| "buf_run (op # ops) b =
     do { (outs, b1) \<leftarrow> buf_step op b; (outs', b2) \<leftarrow> buf_run ops b1; Some (outs @ outs', b2) }"

definition logged :: "buf_op list \<Rightarrow> char list" where
  "logged ops = concat (map (\<lambda>op. case op of Op_output log \<Rightarrow> log | Op_flush \<Rightarrow> []) ops)"

lemma buf_step_ok:
  assumes "buf_ok b" "bf_is_enabled b"
  shows "\<exists>outs b'. buf_step op b = Some (outs, b') \<and> buf_ok b' \<and> bf_is_enabled b' \<and>
    length (bf_log_buf b') = length (bf_log_buf b) \<and>
    concat outs @ buffered b' = buffered b @ logged [op] \<and>
    (\<forall>out \<in> set outs. length out \<le> length (bf_log_buf b))"
proof (cases op)
  case (Op_output log)
  with assms buf_output_loop_ok [OF assms(1), of log] show ?thesis
    by (fastforce simp: buf_step_def buf_output_def logged_def)
next
  case Op_flush
  with assms show ?thesis
    by (auto simp: buf_step_def buf_flush_def logged_def buf_ok_def buffered_def)
qed

lemma buf_run_ok:
  "buf_ok b \<Longrightarrow> bf_is_enabled b \<Longrightarrow>
   \<exists>outs b'. buf_run ops b = Some (outs, b') \<and> buf_ok b' \<and>
     concat outs @ buffered b' = buffered b @ logged ops \<and>
     (\<forall>out \<in> set outs. length out \<le> length (bf_log_buf b))"
proof (induction ops arbitrary: b)
  case Nil
  then show ?case by (simp add: logged_def)
next
  case (Cons op ops)
  from buf_step_ok [OF Cons.prems, of op] obtain outs b1 where
    s: "buf_step op b = Some (outs, b1)" "buf_ok b1" "bf_is_enabled b1"
      "length (bf_log_buf b1) = length (bf_log_buf b)"
      "concat outs @ buffered b1 = buffered b @ logged [op]"
      "\<forall>out \<in> set outs. length out \<le> length (bf_log_buf b)" by blast
  from Cons.IH [OF s(2,3)] obtain outs' b2 where
    r: "buf_run ops b1 = Some (outs', b2)" "buf_ok b2"
      "concat outs' @ buffered b2 = buffered b1 @ logged ops"
      "\<forall>out \<in> set outs'. length out \<le> length (bf_log_buf b1)" by blast
  have "concat (outs @ outs') @ buffered b2 = (concat outs @ buffered b1) @ logged ops"
    using r(3) by simp
  also have "\<dots> = buffered b @ logged (op # ops)" using s(5) by (simp add: logged_def)
  finally show ?case using s r by auto
qed

text \<open>
  C35: with buffering enabled, from initialisation and over any sequence of records and
  flushes, every operation returns, no write leaves the buffer, no piece printed is longer
  than the buffer, and the printed pieces followed by the buffered rest are exactly the
  records in order.
\<close>

theorem buffered_output_lossless:
  assumes "0 < BUF_OUTPUT_BUF_SIZE cfg"
  shows "\<exists>outs b'. buf_run ops (buf_enabled True (buf_initial cfg)) = Some (outs, b') \<and>
           concat outs @ buffered b' = logged ops \<and>
           (\<forall>out \<in> set outs. length out \<le> BUF_OUTPUT_BUF_SIZE cfg)"
  using buf_run_ok [of "buf_enabled True (buf_initial cfg)" ops] assms
  by (fastforce simp: buf_ok_def buf_enabled_def buf_initial_def buffered_def)

lemma buffered_output_lossless_witness:
  "\<exists>outs b'. buf_run [Op_output ''abc'', Op_flush] (buf_enabled True (buf_initial default_cfg)) = Some (outs, b') \<and>
       concat outs @ buffered b' = logged [Op_output ''abc'', Op_flush]"
  using buffered_output_lossless [of default_cfg "[Op_output ''abc'', Op_flush]"]
  by (auto simp: default_cfg_def)

text \<open>Disabling the mode without a flush lets later records overtake the buffered ones.\<close>

lemma disabling_reorders:
  assumes "buf_ok b" "0 < bf_write_size b"
  shows "buf_output log (buf_enabled False b) = Some ([log], buf_enabled False b) \<and>
    buffered (buf_enabled False b) = buffered b"
  by (simp add: buf_output_def buf_enabled_def buffered_def)

end
