(* ===== verification/Elog_Async.thy ===== *)
theory Elog_Async
  imports Elog_Utils
begin

text \<open>
  Asynchronous output, \<open>elog_async.c\<close>: the ring buffer between the logging threads and the
  output thread, its two read functions, the output thread and the semaphore that wakes it.
  The interface \<open>log_queue\<close> states what a read function promises; both read functions provide
  it, and draining and losslessness are proved from it once. The interleaving of the threads
  is the step relation \<open>async_step\<close>.
\<close>

section \<open>State\<close>

record async_state =
  ring_buf :: "char list"
  write_index :: nat
  read_index :: nat
  buf_is_full :: bool
  buf_is_empty :: bool
  async_is_enabled :: bool
  async_init_ok :: bool
  output_notice :: nat

definition async_initial :: "elog_cfg \<Rightarrow> async_state" where
  "async_initial cfg =
     \<lparr>ring_buf = replicate (ASYNC_OUTPUT_BUF_SIZE cfg) NUL, write_index = 0, read_index = 0,
      buf_is_full = False, buf_is_empty = True, async_is_enabled = False,
      async_init_ok = False, output_notice = 0\<rparr>"

text \<open>\<open>OUTPUT_BUF_SIZE\<close> of the code is the declared length of the array.\<close>

abbreviation ring_size :: "async_state \<Rightarrow> nat" where
  "ring_size a \<equiv> length (ring_buf a)"

section \<open>Operations\<close>

definition async_get_buf_used :: "async_state \<Rightarrow> nat" where
  "async_get_buf_used a =
     (if write_index a > read_index a then write_index a - read_index a
      else if \<not> buf_is_full a \<and> \<not> buf_is_empty a
      then ring_size a - (read_index a - write_index a)
      else if buf_is_full a then ring_size a
      else 0)"

definition async_get_buf_space :: "async_state \<Rightarrow> nat" where
  "async_get_buf_space a = ring_size a - async_get_buf_used a"

definition async_put_log :: "async_state \<Rightarrow> char list \<Rightarrow> (nat \<times> async_state) option" where
  "async_put_log a log =
     (let space = async_get_buf_space a in
      if space = 0 then Some (0, a)
      else let size = (if space \<le> length log then space else length log);
               a1 = (if space \<le> length log then a\<lparr>buf_is_full := True\<rparr> else a);
               w = write_index a
      in if w + size < ring_size a
      then do {
        buf \<leftarrow> mem_write (ring_buf a) w (take size log);
        Some (size, a1\<lparr>ring_buf := buf, write_index := w + size, buf_is_empty := False\<rparr>)
      }
      else do {
        buf \<leftarrow> mem_write (ring_buf a) w (take (ring_size a - w) log);
        buf \<leftarrow> mem_write buf 0 (take (size - (ring_size a - w)) (drop (ring_size a - w) log));
        Some (size, a1\<lparr>ring_buf := buf, write_index := w + size - ring_size a,
                       buf_is_empty := False\<rparr>)
      })"

definition async_get_line_log ::
  "elog_cfg \<Rightarrow> nat \<Rightarrow> async_state \<Rightarrow> (char list \<times> async_state) option" where
  "async_get_line_log cfg size0 a =
     (let used = async_get_buf_used a in
      if used = 0 \<or> size0 = 0 then Some ([], a)
      else let size = (if used \<le> size0 then used else size0);
               r = read_index a
      in do {
        (log, r') \<leftarrow>
          (if r + size < ring_size a
           then do {
             src \<leftarrow> mem_read (ring_buf a) r size;
             let log = elog_cpyln cfg src;
             Some (log, r + length log)
           }
           else do {
             src \<leftarrow> mem_read (ring_buf a) r (ring_size a - r);
             let log = elog_cpyln cfg src;
             if length log = ring_size a - r
             then do {
               src2 \<leftarrow> mem_read (ring_buf a) 0 (size - length log);
               let log2 = log @ elog_cpyln cfg src2;
               Some (log2, r + length log2 - ring_size a)
             }
             else Some (log, r + length log)
           });
        Some (log, a\<lparr>read_index := r',
                     buf_is_empty := (if used = length log then True else buf_is_empty a),
                     buf_is_full := (if log \<noteq> [] then False else buf_is_full a)\<rparr>)
      })"

definition async_get_log :: "nat \<Rightarrow> async_state \<Rightarrow> (char list \<times> async_state) option" where
  "async_get_log size0 a =
     (let used = async_get_buf_used a in
      if used = 0 \<or> size0 = 0 then Some ([], a)
      else let size = (if used \<le> size0 then used else size0);
               a1 = (if used \<le> size0 then a\<lparr>buf_is_empty := True\<rparr> else a);
               r = read_index a
      in do {
        (log, r') \<leftarrow>
          (if r + size < ring_size a
           then do { src \<leftarrow> mem_read (ring_buf a) r size; Some (src, r + size) }
           else do {
             src \<leftarrow> mem_read (ring_buf a) r (ring_size a - r);
             src2 \<leftarrow> mem_read (ring_buf a) 0 (size - (ring_size a - r));
             Some (src @ src2, r + size - ring_size a)
           });
        Some (log, a1\<lparr>read_index := r', buf_is_full := False\<rparr>)
      })"

definition async_enabled :: "bool \<Rightarrow> async_state \<Rightarrow> async_state" where
  "async_enabled b a = a\<lparr>async_is_enabled := b\<rparr>"

text \<open>\<open>elog_async_init\<close> without the thread attributes: the semaphore starts at zero.\<close>

definition async_init :: "async_state \<Rightarrow> async_state" where
  "async_init a = (if async_init_ok a then a else a\<lparr>output_notice := 0, async_init_ok := True\<rparr>)"

definition async_output_notice :: "async_state \<Rightarrow> async_state" where
  "async_output_notice a = a\<lparr>output_notice := output_notice a + 1\<rparr>"

text \<open>\<open>elog_async_output\<close>: the second component is what goes straight to the port.\<close>

definition async_output ::
  "elog_cfg \<Rightarrow> nat \<Rightarrow> char list \<Rightarrow> async_state \<Rightarrow> (char list option \<times> async_state) option" where
  "async_output cfg level log a =
     (if async_is_enabled a
      then if level \<ge> ASYNC_OUTPUT_LVL cfg
           then do {
             (put_size, a1) \<leftarrow> async_put_log a log;
             Some (None, if put_size > 0 then async_output_notice a1 else a1)
           }
           else Some (Some log, a)
      else Some (Some log, a))"

section \<open>The ring as a queue of characters\<close>

definition ring_ok :: "async_state \<Rightarrow> bool" where
  "ring_ok a \<longleftrightarrow>
     write_index a < ring_size a \<and> read_index a < ring_size a \<and>
     \<not> (buf_is_full a \<and> buf_is_empty a) \<and>
     (write_index a = read_index a \<longleftrightarrow> buf_is_full a \<or> buf_is_empty a)"

definition ring_contents :: "async_state \<Rightarrow> char list" where
  "ring_contents a = take (async_get_buf_used a) (rotate (read_index a) (ring_buf a))"

lemma ring_ok_init: "0 < ASYNC_OUTPUT_BUF_SIZE cfg \<Longrightarrow> ring_ok (async_initial cfg)"
  by (simp add: ring_ok_def async_initial_def)

lemma used_bound: "ring_ok a \<Longrightarrow> async_get_buf_used a \<le> ring_size a"
  by (auto simp: ring_ok_def async_get_buf_used_def)

lemma used_zero_iff: "ring_ok a \<Longrightarrow> async_get_buf_used a = 0 \<longleftrightarrow> buf_is_empty a"
  by (auto simp: ring_ok_def async_get_buf_used_def)

lemma used_full_iff: "ring_ok a \<Longrightarrow> async_get_buf_used a = ring_size a \<longleftrightarrow> buf_is_full a"
  by (auto simp: ring_ok_def async_get_buf_used_def)

lemma length_ring_contents [simp]: "ring_ok a \<Longrightarrow> length (ring_contents a) = async_get_buf_used a"
  by (simp add: ring_contents_def used_bound)

lemma write_index_used:
  assumes "ring_ok a"
  shows "write_index a = (read_index a + async_get_buf_used a) mod ring_size a"
proof (cases "write_index a > read_index a")
  case True
  with assms show ?thesis by (simp add: ring_ok_def async_get_buf_used_def)
next
  case False
  then have le: "write_index a \<le> read_index a" by simp
  have r: "read_index a < ring_size a" using assms by (simp add: ring_ok_def)
  consider (full) "buf_is_full a" | (empty) "\<not> buf_is_full a" "buf_is_empty a"
    | (wrap) "\<not> buf_is_full a" "\<not> buf_is_empty a" by blast
  then show ?thesis
  proof cases
    case wrap
    with le have "async_get_buf_used a = ring_size a - (read_index a - write_index a)"
      by (simp add: async_get_buf_used_def)
    with le r have "read_index a + async_get_buf_used a = write_index a + ring_size a" by simp
    moreover have "write_index a < ring_size a" using le r by simp
    ultimately show ?thesis by simp
  qed (use assms le in \<open>auto simp: ring_ok_def async_get_buf_used_def\<close>)
qed

lemma rotate_split: "n \<le> length xs \<Longrightarrow> rotate n xs = drop n xs @ take n xs"
  by (cases "n = length xs") (simp_all add: rotate_drop_take)

lemma rotate_mod: "rotate (n mod length xs) xs = rotate n xs"
  by (rule rotate_conv_mod [symmetric])

lemma rotate_write_index:
  assumes "ring_ok a" "length buf = ring_size a"
  shows "rotate (write_index a) buf =
     drop (async_get_buf_used a) (rotate (read_index a) buf) @
     take (async_get_buf_used a) (rotate (read_index a) buf)"
proof -
  have "rotate (write_index a) buf = rotate (async_get_buf_used a + read_index a) buf"
    using rotate_mod [of "read_index a + async_get_buf_used a" buf] assms(2)
    by (simp add: write_index_used [OF assms(1)] add.commute)
  also have "\<dots> = rotate (async_get_buf_used a) (rotate (read_index a) buf)"
    by (simp add: rotate_rotate)
  finally show ?thesis
    using used_bound [OF assms(1)] assms(2) by (simp add: rotate_split)
qed

text \<open>Both branches of the write store the characters at the write index, around the end.\<close>

definition ring_store :: "char list \<Rightarrow> nat \<Rightarrow> char list \<Rightarrow> char list" where
  "ring_store buf w xs =
     (if w + length xs < length buf then overwrite buf w xs
      else overwrite (overwrite buf w (take (length buf - w) xs)) 0 (drop (length buf - w) xs))"

lemma ring_store_rotate:
  assumes "w < length buf" "length xs \<le> length buf"
  shows "length (ring_store buf w xs) = length buf"
    and "rotate w (ring_store buf w xs) = xs @ drop (length xs) (rotate w buf)"
proof -
  show len: "length (ring_store buf w xs) = length buf"
    using assms by (simp add: ring_store_def)
  have "drop w (ring_store buf w xs) @ take w (ring_store buf w xs) =
      xs @ drop (length xs) (drop w buf @ take w buf)"
    using assms
    by (auto simp: ring_store_def overwrite_def min_def add.commute not_less)
  then show "rotate w (ring_store buf w xs) = xs @ drop (length xs) (rotate w buf)"
    using assms len by (simp add: rotate_split)
qed

text \<open>The write of \<open>async_put_log\<close> never leaves the array, and stores the accepted part.\<close>

lemma ring_store_inside:
  "w + length xs < length buf \<Longrightarrow> mem_write buf w xs = Some (ring_store buf w xs)"
  by (simp add: mem_write_def ring_store_def)

lemma ring_store_wrap:
  assumes "w < length buf" "length xs \<le> length buf" "length buf \<le> w + length xs"
  shows "do { b \<leftarrow> mem_write buf w (take (length buf - w) xs);
              mem_write b 0 (drop (length buf - w) xs) } = Some (ring_store buf w xs)"
  using assms by (simp add: mem_write_def ring_store_def)

lemma async_put_log_eq:
  assumes "ring_ok a" "async_get_buf_space a \<noteq> 0"
    and n: "n = min (async_get_buf_space a) (length log)"
  shows "async_put_log a log =
     Some (n,
       a\<lparr>ring_buf := ring_store (ring_buf a) (write_index a) (take n log),
         write_index := (if write_index a + n < ring_size a then write_index a + n
                         else write_index a + n - ring_size a),
         buf_is_full := (async_get_buf_space a \<le> length log \<or> buf_is_full a),
         buf_is_empty := False\<rparr>)"
proof -
  let ?w = "write_index a" and ?S = "ring_size a"
  have w: "?w < ?S" using assms(1) by (simp add: ring_ok_def)
  have s: "n \<le> ?S" "n \<le> length log" by (simp_all add: n async_get_buf_space_def)
  have lx: "length (take n log) = n" using s by simp
  have size_if: "(if async_get_buf_space a \<le> length log then async_get_buf_space a else length log) = n"
    by (simp add: n min_def)
  show ?thesis
  proof (cases "?w + n < ?S")
    case True
    have "mem_write (ring_buf a) ?w (take n log) =
        Some (ring_store (ring_buf a) ?w (take n log))"
      by (rule ring_store_inside) (simp only: lx True)
    with True assms(2) show ?thesis
      unfolding async_put_log_def Let_def size_if by simp
  next
    case False
    have le: "?S - ?w \<le> n" using False by simp
    have e1: "take (n - (?S - ?w)) (drop (?S - ?w) log) = drop (?S - ?w) (take n log)"
      by (simp only: drop_take)
    have e2: "take (?S - ?w) log = take (?S - ?w) (take n log)"
      using le by (simp only: take_take min_absorb1)
    have "do { b \<leftarrow> mem_write (ring_buf a) ?w (take (?S - ?w) log);
        mem_write b 0 (take (n - (?S - ?w)) (drop (?S - ?w) log)) } =
        Some (ring_store (ring_buf a) ?w (take n log))"
      unfolding e1 e2 by (rule ring_store_wrap) (use w s lx False in simp_all)
    then show ?thesis
      using False assms(2)
      unfolding async_put_log_def Let_def size_if
      by (auto split: bind_splits)
  qed
qed

lemma async_put_log_full: "async_get_buf_space a = 0 \<Longrightarrow> async_put_log a log = Some (0, a)"
  by (simp add: async_put_log_def)

lemma used_after_put:
  fixes r w u n S :: nat
  assumes "r < S" "w < S" "0 < n" "u + n \<le> S"
    and "(w = r + u \<and> r + u < S) \<or> w + S = r + u"
    and "w' = (if w + n < S then w + n else w + n - S)"
  shows "w' < S" "r < w' \<Longrightarrow> w' - r = u + n" "\<not> r < w' \<Longrightarrow> S - (r - w') = u + n"
    "w' = r \<longleftrightarrow> u + n = S"
  using assms by (auto split: if_splits)

text \<open>The state after a write of so many characters.\<close>

definition ring_put :: "nat \<Rightarrow> char list \<Rightarrow> bool \<Rightarrow> async_state \<Rightarrow> async_state" where
  "ring_put n buf full a =
     a\<lparr>ring_buf := buf,
       write_index := (if write_index a + n < ring_size a then write_index a + n else write_index a + n - ring_size a),
       buf_is_full := full, buf_is_empty := False\<rparr>"

lemma ring_put_used:
  assumes "ring_ok a" and n: "0 < n" "async_get_buf_used a + n \<le> ring_size a"
    and len: "length buf = ring_size a" and full: "full \<longleftrightarrow> async_get_buf_used a + n = ring_size a"
  shows "async_get_buf_used (ring_put n buf full a) = async_get_buf_used a + n \<and> ring_ok (ring_put n buf full a)"
proof -
  let ?u = "async_get_buf_used a" and ?S = "ring_size a" and ?a = "ring_put n buf full a"
  have wr: "write_index a < ?S" "read_index a < ?S" using assms(1) by (simp_all add: ring_ok_def)
  have w: "write_index a = (read_index a + ?u) mod ?S" by (rule write_index_used [OF assms(1)])
  have cases: "write_index a = read_index a + ?u \<and> read_index a + ?u < ?S \<or>
      write_index a + ?S = read_index a + ?u"
  proof (cases "read_index a + ?u < ?S")
    case True
    with w show ?thesis by simp
  next
    case False
    then have "(read_index a + ?u) mod ?S = read_index a + ?u - ?S"
      using wr used_bound [OF assms(1)] by (simp add: le_mod_geq)
    with w False show ?thesis by simp
  qed
  obtain w' where w': "w' = (if write_index a + n < ?S then write_index a + n else write_index a + n - ?S)"
    by blast
  note u = used_after_put [OF wr(2,1) n cases w']
  have fields: "write_index ?a = w'" "read_index ?a = read_index a" "ring_size ?a = ?S"
    "buf_is_full ?a \<longleftrightarrow> ?u + n = ?S" "\<not> buf_is_empty ?a"
    using full len by (simp_all add: ring_put_def w')
  have "async_get_buf_used ?a = ?u + n"
  proof (cases "read_index a < w'")
    case True
    with u(2) show ?thesis by (simp only: async_get_buf_used_def fields if_True)
  next
    case False
    with u(3,4) show ?thesis
      by (simp only: async_get_buf_used_def fields if_False) simp
  qed
  moreover have "ring_ok ?a"
    unfolding ring_ok_def fields using u(1,4) wr(2) fields(5) by simp
  ultimately show ?thesis ..
qed

lemma ring_store_appends:
  assumes "ring_ok a" and fits: "async_get_buf_used a + length xs \<le> ring_size a"
  shows "take (async_get_buf_used a + length xs) (rotate (read_index a) (ring_store (ring_buf a) (write_index a) xs)) =
      ring_contents a @ xs"
    and "length (ring_store (ring_buf a) (write_index a) xs) = ring_size a"
proof -
  let ?u = "async_get_buf_used a" and ?S = "ring_size a" and ?buf = "ring_store (ring_buf a) (write_index a) xs"
  have wr: "write_index a < ?S" using assms(1) by (simp add: ring_ok_def)
  have xS: "length xs \<le> ?S" using fits by simp
  show len: "length ?buf = ?S" using ring_store_rotate(1) [OF wr xS] by simp
  let ?R = "rotate (read_index a) (ring_buf a)" and ?R' = "rotate (read_index a) ?buf"
  have lR: "length ?R = ?S" "length ?R' = ?S" by (simp_all add: len)
  have "drop ?u ?R' @ take ?u ?R' = xs @ drop (length xs) (drop ?u ?R @ take ?u ?R)"
    using ring_store_rotate(2) [OF wr xS]
    unfolding rotate_write_index [OF assms(1) len] rotate_write_index [OF assms(1) refl] .
  also have "\<dots> = (xs @ drop (length xs) (drop ?u ?R)) @ take ?u ?R" using fits lR by simp
  finally have "drop ?u ?R' = xs @ drop (length xs) (drop ?u ?R) \<and> take ?u ?R' = take ?u ?R"
    using lR fits by (subst (asm) append_eq_append_conv) simp_all
  then show "take (?u + length xs) ?R' = ring_contents a @ xs"
    by (simp add: take_add ring_contents_def)
qed

lemma async_put_log_refines:
  assumes "ring_ok a" "log \<noteq> []"
  obtains n a' where "async_put_log a log = Some (n, a')" "ring_ok a'"
    "n = min (async_get_buf_space a) (length log)"
    "ring_contents a' = ring_contents a @ take n log" "ring_size a' = ring_size a"
    "async_is_enabled a' = async_is_enabled a" "output_notice a' = output_notice a"
proof (cases "async_get_buf_space a = 0")
  case True
  with assms(1) show thesis by (intro that [of 0 a]) (simp_all add: async_put_log_full)
next
  case False
  let ?n = "min (async_get_buf_space a) (length log)"
  let ?buf = "ring_store (ring_buf a) (write_index a) (take ?n log)"
  let ?full = "async_get_buf_space a \<le> length log \<or> buf_is_full a"
  have n: "0 < ?n" "async_get_buf_used a + ?n \<le> ring_size a"
    using False assms(2) used_bound [OF assms(1)] by (simp_all add: async_get_buf_space_def)
  have "\<not> buf_is_full a"
    using False used_full_iff [OF assms(1)] by (simp add: async_get_buf_space_def)
  then have full: "?full \<longleftrightarrow> async_get_buf_used a + ?n = ring_size a"
    using used_bound [OF assms(1)] by (auto simp: async_get_buf_space_def min_def)
  have stored: "take (async_get_buf_used a + ?n) (rotate (read_index a) ?buf) = ring_contents a @ take ?n log"
      "length ?buf = ring_size a"
    using ring_store_appends [OF assms(1), of "take ?n log"] n(2) by (simp_all add: min_absorb1)
  note put = ring_put_used [OF assms(1) n stored(2) full]
  have "ring_contents (ring_put ?n ?buf ?full a) = ring_contents a @ take ?n log"
    using stored(1) put by (simp add: ring_contents_def ring_put_def)
  then show thesis
    using put async_put_log_eq [OF assms(1) False refl, of log] stored(2)
    by (intro that [of ?n "ring_put ?n ?buf ?full a"]) (simp_all add: ring_put_def Let_def)
qed

section \<open>Taking characters out\<close>

text \<open>The state after \<open>k\<close> characters have been read, as both read functions leave it.\<close>

definition ring_advance :: "nat \<Rightarrow> async_state \<Rightarrow> async_state" where
  "ring_advance k a =
     a\<lparr>read_index := (if read_index a + k < ring_size a then read_index a + k
                     else read_index a + k - ring_size a),
       buf_is_empty := (async_get_buf_used a = k),
       buf_is_full := False\<rparr>"

lemma used_after_get:
  fixes r w u k S :: nat
  assumes "r < S" "w < S" "0 < k" "k \<le> u" "u \<le> S"
    and "(w = r + u \<and> r + u < S) \<or> w + S = r + u"
    and "r' = (if r + k < S then r + k else r + k - S)"
  shows "r' < S" "r' < w \<Longrightarrow> w - r' = u - k" "\<not> r' < w \<Longrightarrow> k < u \<Longrightarrow> S - (r' - w) = u - k"
    "w = r' \<longleftrightarrow> u = k" "r' < w \<Longrightarrow> k < u"
  using assms by (auto split: if_splits)

lemma write_index_cases:
  assumes "ring_ok a"
  shows "write_index a = read_index a + async_get_buf_used a \<and>
           read_index a + async_get_buf_used a < ring_size a \<or>
         write_index a + ring_size a = read_index a + async_get_buf_used a"
proof (cases "read_index a + async_get_buf_used a < ring_size a")
  case True
  with write_index_used [OF assms] show ?thesis by simp
next
  case False
  have "read_index a < ring_size a" using assms by (simp add: ring_ok_def)
  with False have "(read_index a + async_get_buf_used a) mod ring_size a =
      read_index a + async_get_buf_used a - ring_size a"
    using used_bound [OF assms] by (simp add: le_mod_geq)
  with write_index_used [OF assms] False show ?thesis by simp
qed

lemma ring_advance_used:
  assumes "ring_ok a" "0 < k" "k \<le> async_get_buf_used a"
  shows "ring_ok (ring_advance k a)"
    and "async_get_buf_used (ring_advance k a) = async_get_buf_used a - k"
proof -
  let ?a = "ring_advance k a" and ?u = "async_get_buf_used a" and ?S = "ring_size a"
  have wr: "write_index a < ?S" "read_index a < ?S" using assms(1) by (simp_all add: ring_ok_def)
  define r where "r = read_index ?a"
  have r: "r = (if read_index a + k < ?S then read_index a + k else read_index a + k - ?S)"
    by (simp add: r_def ring_advance_def)
  note u = used_after_get [OF wr(2,1) assms(2,3) used_bound [OF assms(1)] write_index_cases [OF assms(1)] r]
  have fields: "read_index ?a = r" "write_index ?a = write_index a" "ring_size ?a = ?S"
    "\<not> buf_is_full ?a" "buf_is_empty ?a \<longleftrightarrow> ?u = k"
    by (simp_all add: r ring_advance_def)
  show "ring_ok ?a"
    unfolding ring_ok_def fields using u(1,4) wr(1) fields(4) by auto
  show "async_get_buf_used ?a = ?u - k"
  proof (cases "r < write_index a")
    case True
    with u(2) show ?thesis by (simp only: async_get_buf_used_def fields if_True)
  next
    case False
    show ?thesis
    proof (cases "?u = k")
      case True
      with False fields(4) show ?thesis by (simp add: async_get_buf_used_def fields(1,2,5))
    next
      case ne: False
      with assms(3) have "k < ?u" by simp
      with u(3) [OF False] show ?thesis
        using ne fields(4) False by (simp add: async_get_buf_used_def fields(1-3,5))
    qed
  qed
qed

lemma ring_advance_contents:
  assumes "ring_ok a" "0 < k" "k \<le> async_get_buf_used a"
  shows "ring_contents (ring_advance k a) = drop k (ring_contents a)"
proof -
  let ?u = "async_get_buf_used a" and ?R = "rotate (read_index a) (ring_buf a)"
  have kS: "k \<le> ring_size a" "?u \<le> ring_size a" using used_bound [OF assms(1)] assms(3) by simp_all
  have "read_index (ring_advance k a) mod ring_size a = (k + read_index a) mod ring_size a"
    by (simp add: ring_advance_def le_mod_geq add.commute)
  then have "rotate (read_index (ring_advance k a)) (ring_buf a) = rotate k ?R"
    by (metis rotate_mod rotate_rotate)
  also have "\<dots> = drop k ?R @ take k ?R" using kS by (simp add: rotate_split)
  finally have "ring_contents (ring_advance k a) = take (?u - k) (drop k ?R @ take k ?R)"
    using ring_advance_used(2) [OF assms] by (simp add: ring_contents_def ring_advance_def)
  also have "\<dots> = drop k (take ?u ?R)" using kS by (simp add: drop_take)
  finally show ?thesis by (simp add: ring_contents_def)
qed

lemma ring_read_inside:
  assumes "r + n < length buf"
  shows "mem_read buf r n = Some (take n (rotate r buf))"
  using assms by (simp add: mem_read_def rotate_split)

lemma ring_read_around:
  assumes "r < length buf" "n \<le> length buf" "length buf \<le> r + n"
  shows "mem_read buf r (length buf - r) = Some (take (length buf - r) (rotate r buf))"
    and "mem_read buf 0 (n - (length buf - r)) =
           Some (drop (length buf - r) (take n (rotate r buf)))"
  using assms by (auto simp: mem_read_def rotate_split min_def)

lemma async_get_empty:
  assumes "async_get_buf_used a = 0 \<or> n = 0"
  shows "async_get_log n a = Some ([], a)" "async_get_line_log cfg n a = Some ([], a)"
  using assms by (auto simp: async_get_log_def async_get_line_log_def)

lemma async_get_log_eq:
  assumes "ring_ok a" "async_get_buf_used a \<noteq> 0" "n0 \<noteq> 0"
    and n: "n = min (async_get_buf_used a) n0"
  shows "async_get_log n0 a = Some (take n (ring_contents a), ring_advance n a)"
proof -
  let ?R = "rotate (read_index a) (ring_buf a)" and ?u = "async_get_buf_used a"
  let ?S = "ring_size a" and ?r = "read_index a"
  have r: "?r < ?S" using assms(1) by (simp add: ring_ok_def)
  have nu: "n \<le> ?u" "n \<le> ?S" using used_bound [OF assms(1)] by (simp_all add: n)
  have size_if: "(if ?u \<le> n0 then ?u else n0) = n" by (simp add: n min_def)
  have eqt: "take n (ring_contents a) = take n ?R" using nu by (simp add: ring_contents_def)
  have ne: "\<not> buf_is_empty a" using used_zero_iff [OF assms(1)] assms(2) by simp
  have un: "?u = n \<longleftrightarrow> ?u \<le> n0" by (auto simp: n)
  show ?thesis
  proof (cases "?r + n < ?S")
    case True
    from ring_read_inside [OF True] True assms(2,3) ne un show ?thesis
      unfolding async_get_log_def Let_def size_if eqt ring_advance_def by simp
  next
    case False
    then have le: "?S \<le> ?r + n" by simp
    have "take (?S - ?r) ?R @ drop (?S - ?r) (take n ?R) = take n ?R"
    proof -
      have "take (?S - ?r) ?R = take (?S - ?r) (take n ?R)" using le by (simp add: min_absorb1)
      then show ?thesis by (simp only: append_take_drop_id)
    qed
    with ring_read_around [OF r nu(2) le] False assms(2,3) ne un show ?thesis
      unfolding async_get_log_def Let_def size_if eqt ring_advance_def by simp
  qed
qed

text \<open>
  A read of a line takes some of the first characters of the ring: when the part that is looked at
  does not reach the end of the buffer, when the line ends before that end, and when it goes on at
  the start of the buffer.
\<close>

definition line_read_ok :: "elog_cfg \<Rightarrow> nat \<Rightarrow> async_state \<Rightarrow> bool" where
  "line_read_ok cfg n0 a \<longleftrightarrow>
     (\<exists>k. 0 < k \<and> k \<le> async_get_buf_used a \<and> k \<le> n0 \<and>
        async_get_line_log cfg n0 a = Some (take k (rotate (read_index a) (ring_buf a)), ring_advance k a))"

lemma line_read_okI:
  "async_get_line_log cfg n0 a = Some (take k (rotate (read_index a) (ring_buf a)), ring_advance k a) \<Longrightarrow>
   0 < k \<Longrightarrow> k \<le> async_get_buf_used a \<Longrightarrow> k \<le> n0 \<Longrightarrow> line_read_ok cfg n0 a"
  unfolding line_read_ok_def by blast

lemma looked_at:
  assumes "ring_ok a" "async_get_buf_used a \<noteq> 0" "n0 \<noteq> 0" "n = min (async_get_buf_used a) n0"
  shows "read_index a < ring_size a" "n \<le> async_get_buf_used a" "n \<le> ring_size a" "0 < n" "n \<le> n0"
    "(if async_get_buf_used a \<le> n0 then async_get_buf_used a else n0) = n" "\<not> buf_is_empty a"
  using used_bound [OF assms(1)] used_zero_iff [OF assms(1)] assms by (simp_all add: ring_ok_def min_def)

lemma line_read_inside:
  assumes a: "ring_ok a" "async_get_buf_used a \<noteq> 0" "n0 \<noteq> 0" "n = min (async_get_buf_used a) n0"
    and inside: "read_index a + n < ring_size a"
  shows "line_read_ok cfg n0 a"
proof -
  let ?R = "rotate (read_index a) (ring_buf a)"
  note n = looked_at [OF a]
  let ?k = "length (elog_cpyln cfg (take n ?R))"
  have ln: "length (take n ?R) = n" using n by simp
  with n(4) have "take n ?R \<noteq> []" by (metis length_0_conv less_irrefl)
  from elog_cpyln_nonempty [OF this, of cfg] have k: "0 < ?k" "?k \<le> n"
    using length_elog_cpyln [of cfg "take n ?R"] ln by simp_all
  have cp: "elog_cpyln cfg (take n ?R) = take ?k ?R"
    using elog_cpyln_take [of cfg "take n ?R"] k(2) by (simp add: min_absorb1)
  have lk: "length (take ?k ?R) = ?k" using k n by simp
  have kS: "read_index a + ?k < ring_size a" using k inside by simp
  have "async_get_line_log cfg n0 a = Some (take ?k ?R, ring_advance ?k a)"
    using inside kS k a(2,3) n(7) ring_read_inside [OF inside] cp lk
    unfolding async_get_line_log_def Let_def n(6) ring_advance_def
    by (auto split: if_splits)
  with k n show ?thesis by (intro line_read_okI [of cfg n0 a ?k]) simp_all
qed

lemma line_read_over_end:
  assumes a: "ring_ok a" "async_get_buf_used a \<noteq> 0" "n0 \<noteq> 0" "n = min (async_get_buf_used a) n0"
    and around: "ring_size a \<le> read_index a + n"
    and line: "elog_cpyln cfg (take (ring_size a - read_index a) (rotate (read_index a) (ring_buf a))) =
      take (ring_size a - read_index a) (rotate (read_index a) (ring_buf a))"
  shows "line_read_ok cfg n0 a"
proof -
  let ?R = "rotate (read_index a) (ring_buf a)" and ?e = "ring_size a - read_index a"
  note n = looked_at [OF a]
  let ?t2 = "drop ?e (take n ?R)"
  let ?m = "length (elog_cpyln cfg ?t2)"
  have m: "?m \<le> n - ?e" "elog_cpyln cfg ?t2 = take ?m ?t2"
    using length_elog_cpyln [of cfg ?t2] elog_cpyln_take [of cfg ?t2] n by simp_all
  let ?k = "?e + ?m"
  have kn: "?k \<le> n" "?k \<le> async_get_buf_used a" "0 < ?k" using m(1) around n by simp_all
  have "take ?m ?t2 = take ?m (drop ?e ?R)" using m(1) by (simp add: drop_take min_absorb1)
  then have join: "take ?e ?R @ take ?m ?t2 = take ?k ?R" by (simp add: take_add)
  have end_bound: "?e \<le> n" "read_index a + ?e = ring_size a"
    using around n by simp_all
  have "async_get_line_log cfg n0 a = Some (xs @ ys, ring_advance (?e + length ys) a)"
    if xs: "mem_read (ring_buf a) (read_index a) ?e = Some xs" "elog_cpyln cfg xs = xs" "length xs = ?e"
      and ys: "mem_read (ring_buf a) 0 (n - ?e) = Some t2" "elog_cpyln cfg t2 = ys" for xs ys t2
  proof -
    have "xs \<noteq> []"
      using xs(3) n(1) by auto
    then show ?thesis
      using a(2,3) n(7) around xs ys end_bound unfolding async_get_line_log_def Let_def n(6) ring_advance_def
      by (simp add: add.assoc [symmetric])
  qed
  from this [OF ring_read_around(1) [OF n(1,3) around] line _ ring_read_around(2) [OF n(1,3) around] refl]
  have "async_get_line_log cfg n0 a = Some (take ?k ?R, ring_advance ?k a)"
    using join m(2) n(1) by simp
  with kn n show ?thesis by (intro line_read_okI [of cfg n0 a ?k]) simp_all
qed

lemma line_read_before_end:
  assumes a: "ring_ok a" "async_get_buf_used a \<noteq> 0" "n0 \<noteq> 0" "n = min (async_get_buf_used a) n0"
    and around: "ring_size a \<le> read_index a + n"
    and line: "elog_cpyln cfg (take (ring_size a - read_index a) (rotate (read_index a) (ring_buf a))) =
      take c (rotate (read_index a) (ring_buf a))"
    and c: "0 < c" "c < ring_size a - read_index a"
  shows "line_read_ok cfg n0 a"
proof -
  let ?R = "rotate (read_index a) (ring_buf a)"
  note n = looked_at [OF a]
  have lc: "c \<le> async_get_buf_used a" "c \<le> n0" "read_index a + c < ring_size a" using c around n by simp_all
  have lk: "length (take c ?R) = c" using c by simp
  have "async_get_line_log cfg n0 a = Some (take c ?R, ring_advance c a)"
    using around a(2,3) n(7) ring_read_around(1) [OF n(1,3) around] line lk lc c
    unfolding async_get_line_log_def Let_def n(6) ring_advance_def
    by auto
  with lc c show ?thesis by (intro line_read_okI [of cfg n0 a c]) simp_all
qed

lemma async_get_line_log_eq:
  assumes "ring_ok a" "async_get_buf_used a \<noteq> 0" "n0 \<noteq> 0"
  obtains k where "0 < k" "k \<le> async_get_buf_used a" "k \<le> n0"
    "async_get_line_log cfg n0 a = Some (take k (ring_contents a), ring_advance k a)"
proof -
  let ?R = "rotate (read_index a) (ring_buf a)"
  let ?t = "take (ring_size a - read_index a) ?R" and ?n = "min (async_get_buf_used a) n0"
  let ?c = "length (elog_cpyln cfg ?t)"
  have "?t \<noteq> []"
    using looked_at(1) [OF assms refl] by auto
  then have c: "0 < ?c" "?c \<le> ring_size a - read_index a" "elog_cpyln cfg ?t = take ?c ?t"
    using elog_cpyln_nonempty [of ?t cfg] length_elog_cpyln [of cfg ?t] elog_cpyln_take [of cfg ?t] by simp_all
  consider (inside) "read_index a + ?n < ring_size a"
    | (over) "ring_size a \<le> read_index a + ?n" "?c = ring_size a - read_index a"
    | (before) "ring_size a \<le> read_index a + ?n" "?c < ring_size a - read_index a"
    using c(2) by linarith
  then have "line_read_ok cfg n0 a"
  proof cases
    case inside
    then show ?thesis by (rule line_read_inside [OF assms refl])
  next
    case over
    then show ?thesis
      using c(3) by (intro line_read_over_end [OF assms refl]) simp_all
  next
    case before
    then show ?thesis
      using c by (intro line_read_before_end [OF assms refl, of cfg ?c]) (simp_all add: min_absorb1)
  qed
  then show thesis
    using that unfolding line_read_ok_def ring_contents_def by (auto simp: min_absorb1)
qed

section \<open>The interface of a log queue\<close>

text \<open>
  A read takes a prefix of the queued characters, at most as many as asked for, and at least
  one when some are queued and asked for.
\<close>

locale log_queue =
  fixes get :: "nat \<Rightarrow> 'q \<Rightarrow> (char list \<times> 'q) option"
    and queued :: "'q \<Rightarrow> char list"
    and ok :: "'q \<Rightarrow> bool"
  assumes get_ok: "ok q \<Longrightarrow> \<exists>out q'. get n q = Some (out, q') \<and> ok q' \<and>
      queued q = out @ queued q' \<and> length out \<le> n"
    and get_progress: "ok q \<Longrightarrow> 0 < n \<Longrightarrow> queued q \<noteq> [] \<Longrightarrow> get n q = Some (out, q') \<Longrightarrow> out \<noteq> []"

text \<open>
  The polling loop of the output thread (the inner \<open>while\<close> of \<open>async_output\<close>): it reads until a
  read returns nothing; the fuel bounds the turns and \<open>None\<close> is its exhaustion or a fault.
\<close>

fun poll_drain ::
  "(nat \<Rightarrow> 'q \<Rightarrow> (char list \<times> 'q) option) \<Rightarrow> nat \<Rightarrow> nat \<Rightarrow> 'q \<Rightarrow> (char list list \<times> 'q) option" where
  "poll_drain get n 0 q = None"
| "poll_drain get n (Suc fuel) q =
     do {
       (out, q') \<leftarrow> get n q;
       if out \<noteq> []
       then do { (outs, q'') \<leftarrow> poll_drain get n fuel q'; Some (out # outs, q'') }
       else Some ([], q')
     }"

context log_queue
begin

lemma get_keeps: "ok q \<Longrightarrow> get n q = Some (out, q') \<Longrightarrow> ok q' \<and> queued q = out @ queued q'"
  using get_ok [of q n] by auto

lemma get_empty: "ok q \<Longrightarrow> queued q = [] \<Longrightarrow> get n q = Some (out, q') \<Longrightarrow> out = []"
  using get_ok [of q n] by auto

lemma drain_all:
  assumes "ok q" "0 < n" "length (queued q) < fuel"
  shows "\<exists>outs q'. poll_drain get n fuel q = Some (outs, q') \<and> concat outs = queued q \<and>
    queued q' = [] \<and> ok q' \<and> (\<forall>out \<in> set outs. out \<noteq> [] \<and> length out \<le> n)"
  using assms(1,3)
proof (induction fuel arbitrary: q)
  case 0
  then show ?case by simp
next
  case (Suc fuel)
  from get_ok [OF Suc.prems(1), of n] obtain out q' where
    g: "get n q = Some (out, q')" "ok q'" "queued q = out @ queued q'" "length out \<le> n" by blast
  show ?case
  proof (cases "out = []")
    case True
    with g(1) get_progress [OF Suc.prems(1) assms(2) _ g(1)] have "queued q = []" by blast
    with True g show ?thesis by simp
  next
    case False
    then have "length (queued q') < fuel" using Suc.prems(2) g(3) by (cases out) auto
    from Suc.IH [OF g(2) this] obtain outs q'' where
      "poll_drain get n fuel q' = Some (outs, q'')" "concat outs = queued q'"
      "queued q'' = []" "ok q''" "\<forall>out \<in> set outs. out \<noteq> [] \<and> length out \<le> n" by blast
    with g False show ?thesis by auto
  qed
qed

end

lemma ring_advance_queue:
  assumes "ring_ok a" "0 < k" "k \<le> async_get_buf_used a"
  shows "ring_ok (ring_advance k a) \<and>
    ring_contents a = take k (ring_contents a) @ ring_contents (ring_advance k a)"
  using ring_advance_used(1) [OF assms] ring_advance_contents [OF assms] by simp

lemma contents_empty_iff: "ring_ok a \<Longrightarrow> ring_contents a = [] \<longleftrightarrow> async_get_buf_used a = 0"
  using length_ring_contents [of a] by (metis length_0_conv)

interpretation plain_queue: log_queue async_get_log ring_contents ring_ok
proof
  fix a n
  assume ok: "ring_ok a"
  show "\<exists>out a'. async_get_log n a = Some (out, a') \<and> ring_ok a' \<and>
      ring_contents a = out @ ring_contents a' \<and> length out \<le> n"
  proof (cases "async_get_buf_used a = 0 \<or> n = 0")
    case True
    with ok show ?thesis by (simp add: async_get_empty)
  next
    case False
    define k where "k = min (async_get_buf_used a) n"
    have k: "0 < k" "k \<le> async_get_buf_used a" "k \<le> n" using False by (auto simp: k_def)
    from async_get_log_eq [OF ok _ _ k_def] False ring_advance_queue [OF ok k(1,2)] k(3)
    show ?thesis by auto
  qed
next
  fix a n out a'
  assume ok: "ring_ok a" and n: "0 < n" and ne: "ring_contents a \<noteq> []"
    and g: "async_get_log n a = Some (out, a')"
  have u: "async_get_buf_used a \<noteq> 0" using ok ne contents_empty_iff by blast
  with async_get_log_eq [OF ok u _ refl, of n] g n ne show "out \<noteq> []" by auto
qed

interpretation line_queue: log_queue "async_get_line_log cfg" ring_contents ring_ok for cfg
proof
  fix a n
  assume ok: "ring_ok a"
  show "\<exists>out a'. async_get_line_log cfg n a = Some (out, a') \<and> ring_ok a' \<and>
      ring_contents a = out @ ring_contents a' \<and> length out \<le> n"
  proof (cases "async_get_buf_used a = 0 \<or> n = 0")
    case True
    with ok show ?thesis by (simp add: async_get_empty)
  next
    case False
    then have u: "async_get_buf_used a \<noteq> 0" "n \<noteq> 0" by simp_all
    from async_get_line_log_eq [OF ok u, of cfg] obtain k where
      k: "0 < k" "k \<le> async_get_buf_used a" "k \<le> n"
        "async_get_line_log cfg n a = Some (take k (ring_contents a), ring_advance k a)" by blast
    with ring_advance_queue [OF ok k(1,2)] show ?thesis by auto
  qed
next
  fix a n out a'
  assume ok: "ring_ok a" and n: "0 < n" and ne: "ring_contents a \<noteq> []"
    and g: "async_get_line_log cfg n a = Some (out, a')"
  have u: "async_get_buf_used a \<noteq> 0" "n \<noteq> 0" using ok ne n contents_empty_iff by blast+
  from async_get_line_log_eq [OF ok u, of cfg] obtain k where
    "0 < k" "async_get_line_log cfg n a = Some (take k (ring_contents a), ring_advance k a)" by blast
  with g ne show "out \<noteq> []" by auto
qed

text \<open>The read function the output thread is compiled with, and the size it asks for.\<close>

definition async_get :: "elog_cfg \<Rightarrow> nat \<Rightarrow> async_state \<Rightarrow> (char list \<times> async_state) option" where
  "async_get cfg = (if ASYNC_LINE_OUTPUT cfg then async_get_line_log cfg else async_get_log)"

definition poll_get_size :: "elog_cfg \<Rightarrow> nat" where
  "poll_get_size cfg = LINE_BUF_SIZE cfg - 4"

interpretation thread_queue: log_queue "async_get cfg" ring_contents ring_ok for cfg
  unfolding async_get_def
  by (cases "ASYNC_LINE_OUTPUT cfg") (simp_all add: plain_queue.log_queue_axioms line_queue.log_queue_axioms)

section \<open>The buffer's contract\<close>

text \<open>
  On a well-formed ring buffer a record of at least one character is appended to the
  queued text as far as there is room, the rest is dropped, no write leaves the array, and the
  ring stays well formed; a record is kept whole exactly when it fits.
\<close>

theorem async_put_log_appends:
  assumes "ring_ok a" and "log \<noteq> []"
  shows "\<exists>n a'. async_put_log a log = Some (n, a') \<and> ring_ok a' \<and>
           n = min (ring_size a - length (ring_contents a)) (length log) \<and>
           ring_contents a' = ring_contents a @ take n log"
proof -
  from async_put_log_refines [OF assms] obtain n a' where
    "async_put_log a log = Some (n, a')" "ring_ok a'"
    "n = min (async_get_buf_space a) (length log)" "ring_contents a' = ring_contents a @ take n log"
    by blast
  with assms(1) show ?thesis by (simp add: async_get_buf_space_def)
qed

definition small_ring :: async_state where
  "small_ring = \<lparr>ring_buf = ''abcd'', write_index = 1, read_index = 3, buf_is_full = False,
     buf_is_empty = False, async_is_enabled = True, async_init_ok = True, output_notice = 1\<rparr>"

lemma small_ring_ok: "ring_ok small_ring"
  by (simp add: ring_ok_def small_ring_def)

lemma async_put_log_appends_witness:
  "\<exists>n a'. async_put_log small_ring ''xyz'' = Some (n, a') \<and> ring_ok a' \<and>
      n = min (ring_size small_ring - length (ring_contents small_ring)) (length ''xyz'') \<and>
      ring_contents a' = ring_contents small_ring @ take n ''xyz''"
  by (rule async_put_log_appends [OF small_ring_ok]) simp

text \<open>
  C34: whichever read function the output thread is built with, one pass of its polling loop
  over a well-formed ring ends, prints exactly the queued characters in order and in nonempty
  pieces that fit its buffer, and leaves the ring empty.
\<close>

theorem output_thread_drains:
  assumes "ring_ok a" and "4 < LINE_BUF_SIZE cfg" and "ring_size a < fuel"
  shows "\<exists>outs a'. poll_drain (async_get cfg) (poll_get_size cfg) fuel a = Some (outs, a') \<and>
           concat outs = ring_contents a \<and> ring_contents a' = [] \<and> ring_ok a' \<and>
           (\<forall>out \<in> set outs. out \<noteq> [] \<and> length out \<le> poll_get_size cfg)"
  using assms used_bound [OF assms(1)]
  by (intro thread_queue.drain_all) (simp_all add: poll_get_size_def)

lemma output_thread_drains_witness:
  "\<exists>outs a'. poll_drain (async_get default_cfg) (poll_get_size default_cfg) 5 small_ring = Some (outs, a') \<and>
           concat outs = ring_contents small_ring \<and> ring_contents a' = [] \<and> ring_ok a'"
  using output_thread_drains [OF small_ring_ok, of default_cfg 5]
  by (auto simp: default_cfg_def small_ring_def)

section \<open>The logging threads and the output thread\<close>

text \<open>
  The output thread waits for the semaphore, polls, or holds the characters of one read that
  it is about to print. Reads and writes of the ring are atomic steps: \<open>elog_output\<close> and the
  read functions hold the output lock around them; the print itself is outside the lock.
\<close>

datatype consumer = Waiting | Polling | Holding "char list"

record async_system =
  sys_ring :: async_state
  sys_consumer :: consumer
  sys_printed :: "char list"
  sys_direct :: "char list list"

definition held :: "consumer \<Rightarrow> char list" where
  "held c = (case c of Holding out \<Rightarrow> out | _ \<Rightarrow> [])"

definition async_start :: "elog_cfg \<Rightarrow> async_system" where
  "async_start cfg =
     \<lparr>sys_ring = async_init (async_initial cfg), sys_consumer = Waiting, sys_printed = [],
      sys_direct = []\<rparr>"

datatype async_event =
    Mode_set bool
  | Record_output nat "char list"
  | Woken
  | Fetched "char list"
  | Drained
  | Printed

inductive async_step :: "elog_cfg \<Rightarrow> async_event \<Rightarrow> async_system \<Rightarrow> async_system \<Rightarrow> bool" for cfg where
  enable: "async_step cfg (Mode_set b) s (s\<lparr>sys_ring := async_enabled b (sys_ring s)\<rparr>)"
| queue: "async_output cfg level log (sys_ring s) = Some (None, ring) \<Longrightarrow>
    async_step cfg (Record_output level log) s (s\<lparr>sys_ring := ring\<rparr>)"
| direct: "async_output cfg level log (sys_ring s) = Some (Some out, ring) \<Longrightarrow>
    async_step cfg (Record_output level log) s (s\<lparr>sys_ring := ring, sys_direct := sys_direct s @ [out]\<rparr>)"
| wake: "sys_consumer s = Waiting \<Longrightarrow> 0 < output_notice (sys_ring s) \<Longrightarrow>
    async_step cfg Woken s
      (s\<lparr>sys_consumer := Polling,
         sys_ring := (sys_ring s)\<lparr>output_notice := output_notice (sys_ring s) - 1\<rparr>\<rparr>)"
| fetch: "sys_consumer s = Polling \<Longrightarrow>
    async_get cfg (poll_get_size cfg) (sys_ring s) = Some (out, ring) \<Longrightarrow> out \<noteq> [] \<Longrightarrow>
    async_step cfg (Fetched out) s (s\<lparr>sys_ring := ring, sys_consumer := Holding out\<rparr>)"
| drained: "sys_consumer s = Polling \<Longrightarrow>
    async_get cfg (poll_get_size cfg) (sys_ring s) = Some ([], ring) \<Longrightarrow>
    async_step cfg Drained s (s\<lparr>sys_ring := ring, sys_consumer := Waiting\<rparr>)"
| print: "sys_consumer s = Holding out \<Longrightarrow>
    async_step cfg Printed s (s\<lparr>sys_consumer := Polling, sys_printed := sys_printed s @ out\<rparr>)"

inductive_cases async_stepE: "async_step cfg e s s'"

text \<open>A run is the history of its events, newest first.\<close>

inductive async_run :: "elog_cfg \<Rightarrow> async_event list \<Rightarrow> async_system \<Rightarrow> bool" for cfg where
  start: "async_run cfg [] (async_start cfg)"
| step: "async_run cfg history s \<Longrightarrow> async_step cfg e s s' \<Longrightarrow> async_run cfg (e # history) s'"

text \<open>
  What the history lets expect, whatever the ring does: the mode, how many characters were taken
  out, and the accepted text.  A record that goes to the queue is accepted as far as the
  characters that were accepted and not yet taken leave room; any other record is printed directly.
\<close>

primrec mode_of :: "async_event list \<Rightarrow> bool" where
  "mode_of [] = False"
| "mode_of (e # history) = (case e of Mode_set b \<Rightarrow> b | _ \<Rightarrow> mode_of history)"

definition goes_to_queue :: "elog_cfg \<Rightarrow> async_event list \<Rightarrow> nat \<Rightarrow> bool" where
  "goes_to_queue cfg history level \<longleftrightarrow> mode_of history \<and> ASYNC_OUTPUT_LVL cfg \<le> level"

primrec taken_of :: "async_event list \<Rightarrow> nat" where
  "taken_of [] = 0"
| "taken_of (e # history) = (case e of Fetched out \<Rightarrow> length out | _ \<Rightarrow> 0) + taken_of history"

primrec accepted_of :: "elog_cfg \<Rightarrow> async_event list \<Rightarrow> char list" where
  "accepted_of cfg [] = []"
| "accepted_of cfg (e # history) =
     accepted_of cfg history @
     (case e of
        Record_output level log \<Rightarrow>
          if goes_to_queue cfg history level
          then take (ASYNC_OUTPUT_BUF_SIZE cfg - (length (accepted_of cfg history) - taken_of history)) log
          else []
      | _ \<Rightarrow> [])"

primrec direct_of :: "elog_cfg \<Rightarrow> async_event list \<Rightarrow> char list list" where
  "direct_of cfg [] = []"
| "direct_of cfg (e # history) =
     direct_of cfg history @
     (case e of Record_output level log \<Rightarrow> if goes_to_queue cfg history level then [] else [log] | _ \<Rightarrow> [])"

text \<open>No record of no characters was put into an empty queue (see the end of this theory).\<close>

primrec no_empty_put :: "elog_cfg \<Rightarrow> async_event list \<Rightarrow> bool" where
  "no_empty_put cfg [] = True"
| "no_empty_put cfg (e # history) =
     (no_empty_put cfg history \<and>
      (case e of
         Record_output level log \<Rightarrow>
           \<not> (log = [] \<and> goes_to_queue cfg history level \<and> length (accepted_of cfg history) = taken_of history)
       | _ \<Rightarrow> True))"

text \<open>
  Nothing is lost, reordered or printed twice, and the output thread never sleeps on a
  nonempty ring without a pending wake-up.
\<close>

definition async_inv :: "elog_cfg \<Rightarrow> async_event list \<Rightarrow> async_system \<Rightarrow> bool" where
  "async_inv cfg history s \<longleftrightarrow>
     ring_ok (sys_ring s) \<and> ring_size (sys_ring s) = ASYNC_OUTPUT_BUF_SIZE cfg \<and>
     async_is_enabled (sys_ring s) = mode_of history \<and>
     sys_printed s @ held (sys_consumer s) @ ring_contents (sys_ring s) = accepted_of cfg history \<and>
     length (sys_printed s @ held (sys_consumer s)) = taken_of history \<and>
     sys_direct s = direct_of cfg history \<and>
     (sys_consumer s = Waiting \<longrightarrow> ring_contents (sys_ring s) \<noteq> [] \<longrightarrow> 0 < output_notice (sys_ring s))"

lemma ring_frame [simp]:
  "ring_ok (a\<lparr>output_notice := n\<rparr>) = ring_ok a"
  "ring_contents (a\<lparr>output_notice := n\<rparr>) = ring_contents a"
  "ring_ok (a\<lparr>async_is_enabled := b\<rparr>) = ring_ok a"
  "ring_contents (a\<lparr>async_is_enabled := b\<rparr>) = ring_contents a"
  by (simp_all add: ring_ok_def ring_contents_def async_get_buf_used_def)

lemma async_init_frame [simp]:
  "ring_ok (async_init a) = ring_ok a" "ring_contents (async_init a) = ring_contents a"
  "ring_buf (async_init a) = ring_buf a" "async_is_enabled (async_init a) = async_is_enabled a"
  by (simp_all add: async_init_def ring_ok_def ring_contents_def async_get_buf_used_def)

lemma async_put_log_nothing:
  assumes "ring_ok a" and "ring_contents a \<noteq> []"
  shows "async_put_log a [] = Some (0, a)"
proof -
  have "\<not> buf_is_empty a" "write_index a < ring_size a"
    using assms contents_empty_iff used_zero_iff by (auto simp: ring_ok_def)
  then show ?thesis
    by (auto simp: async_put_log_def Let_def mem_write_def overwrite_def)
qed

lemma async_put_log_total: "ring_ok a \<Longrightarrow> async_put_log a log \<noteq> None"
proof (cases "log = []")
  case True
  assume "ring_ok a"
  with True show ?thesis
    by (auto simp: async_put_log_def Let_def mem_write_def ring_ok_def)
next
  case False
  assume "ring_ok a"
  from async_put_log_refines [OF this False] show ?thesis
    by (metis option.distinct(1))
qed

lemma async_output_total: "ring_ok a \<Longrightarrow> async_output cfg level log a \<noteq> None"
  using async_put_log_total [of a log] by (auto simp: async_output_def split: bind_splits)

text \<open>A record that goes to the queue, which it must not find empty when it has no characters.\<close>

lemma async_output_queue:
  assumes "ring_ok a" "log = [] \<Longrightarrow> ring_contents a \<noteq> []" "async_output cfg level log a = Some (None, a')"
  shows "ring_ok a' \<and> ring_size a' = ring_size a \<and> async_is_enabled a' = async_is_enabled a \<and>
    ring_contents a' = ring_contents a @ take (ring_size a - length (ring_contents a)) log \<and>
    (ring_contents a' \<noteq> ring_contents a \<longrightarrow> 0 < output_notice a') \<and> output_notice a \<le> output_notice a'"
proof -
  obtain n b where p: "async_put_log a log = Some (n, b)" "ring_ok b" "ring_size b = ring_size a"
      "async_is_enabled b = async_is_enabled a" "output_notice b = output_notice a"
      "n = min (async_get_buf_space a) (length log)" "ring_contents b = ring_contents a @ take n log"
  proof (cases "log = []")
    case True
    with assms(1,2) that [of 0 a] async_put_log_nothing show thesis
      by simp
  next
    case False
    with async_put_log_refines [OF assms(1)] that show thesis
      by blast
  qed
  with assms(3) have "a' = (if 0 < n then async_output_notice b else b)"
    by (auto simp: async_output_def split: if_splits)
  moreover have "take n log = take (ring_size a - length (ring_contents a)) log"
    using p(6) assms(1) by (simp add: async_get_buf_space_def min_def)
  ultimately show ?thesis
    using p by (auto simp: async_output_notice_def)
qed

lemma async_output_direct:
  "async_output cfg level log a = Some (Some out, a') \<Longrightarrow> a' = a \<and> out = log"
  by (auto simp: async_output_def split: if_splits bind_splits)

lemma async_output_route:
  "async_output cfg level log a = Some (r, a') \<Longrightarrow>
   (r = None) = (async_is_enabled a \<and> ASYNC_OUTPUT_LVL cfg \<le> level)"
  by (auto simp: async_output_def split: if_splits bind_splits)

lemma async_get_frame:
  assumes "async_get cfg n a = Some (out, a')"
  shows "ring_size a' = ring_size a \<and> async_is_enabled a' = async_is_enabled a \<and> output_notice a' = output_notice a"
  using assms unfolding async_get_def async_get_line_log_def async_get_log_def Let_def
  by (auto split: if_splits bind_splits)

lemma async_step_inv:
  assumes "4 < LINE_BUF_SIZE cfg" and "async_step cfg e s s'" and inv: "async_inv cfg history s"
    and "no_empty_put cfg (e # history)"
  shows "async_inv cfg (e # history) s'"
proof -
  have ok: "ring_ok (sys_ring s)" and mode: "async_is_enabled (sys_ring s) = mode_of history"
    and accepted: "accepted_of cfg history = sys_printed s @ held (sys_consumer s) @ ring_contents (sys_ring s)"
    and taken: "taken_of history = length (sys_printed s) + length (held (sys_consumer s))"
    using inv by (simp_all add: async_inv_def)
  from assms(2) show ?thesis
  proof cases
    case (enable b)
    with inv show ?thesis by (simp add: async_inv_def async_enabled_def)
  next
    case (queue level log ring)
    then have route: "goes_to_queue cfg history level"
      using async_output_route [OF queue(3)] mode by (simp add: goes_to_queue_def)
    with assms(4) queue(1) accepted taken have "log = [] \<Longrightarrow> ring_contents (sys_ring s) \<noteq> []"
      by auto
    from async_output_queue [OF ok this queue(3)] inv route queue(1,2) accepted taken show ?thesis
      by (auto simp: async_inv_def)
  next
    case (direct level log out ring)
    then have "\<not> goes_to_queue cfg history level"
      using async_output_route [OF direct(3)] mode by (simp add: goes_to_queue_def)
    with inv direct async_output_direct [OF direct(3)] show ?thesis by (simp add: async_inv_def)
  next
    case wake
    with inv show ?thesis by (simp add: async_inv_def held_def)
  next
    case (fetch out ring)
    from thread_queue.get_keeps [OF ok fetch(4)] async_get_frame [OF fetch(4)] fetch inv show ?thesis
      by (simp add: async_inv_def held_def)
  next
    case (drained ring)
    have "ring_contents (sys_ring s) = []"
      using thread_queue.get_progress [OF ok _ _ drained(4)] assms(1)
      by (auto simp: poll_get_size_def)
    with thread_queue.get_keeps [OF ok drained(4)] async_get_frame [OF drained(4)] drained inv taken accepted show ?thesis
      by (simp add: async_inv_def held_def)
  next
    case (print out)
    with inv show ?thesis by (simp add: async_inv_def held_def)
  qed
qed

lemma async_start_inv: "0 < ASYNC_OUTPUT_BUF_SIZE cfg \<Longrightarrow> async_inv cfg [] (async_start cfg)"
  using ring_ok_init [of cfg]
  by (simp add: async_inv_def async_start_def held_def contents_empty_iff)
    (simp add: async_get_buf_used_def async_initial_def)

lemma async_run_inv:
  assumes "async_run cfg history s" and "0 < ASYNC_OUTPUT_BUF_SIZE cfg" and "4 < LINE_BUF_SIZE cfg"
  shows "no_empty_put cfg history \<Longrightarrow> async_inv cfg history s"
  using assms(1)
proof induction
  case start
  show ?case by (rule async_start_inv [OF assms(2)])
next
  case (step history s e s')
  from step.prems have "no_empty_put cfg history" by simp
  from async_step_inv [OF assms(3) step.hyps(2) step.IH [OF this] step.prems] show ?case .
qed

text \<open>
  C7: Asynchronous output is a bounded queue.  While the output lock is enabled, so that reads and
  writes of the ring are atomic, every interleaving of the logging threads with the output thread,
  from initialisation on, keeps all accepted text: what the output thread has printed, what it is
  about to print and what is queued are together exactly the beginnings of the records that had
  room, in order; the other records were printed directly and whole; whenever the output thread
  sleeps on a nonempty queue, a wake-up is pending; and the next call of either side stays inside
  the ring.  Excluded are histories in which a record of no characters found the queue empty:
  it corrupts the ring.
\<close>

theorem async_output_lossless:
  assumes "0 < ASYNC_OUTPUT_BUF_SIZE cfg" and "4 < LINE_BUF_SIZE cfg"
    and "async_run cfg history s" and "no_empty_put cfg history"
  shows "sys_printed s @ held (sys_consumer s) @ ring_contents (sys_ring s) = accepted_of cfg history \<and>
         sys_direct s = direct_of cfg history \<and>
         (sys_consumer s = Waiting \<and> ring_contents (sys_ring s) \<noteq> [] \<longrightarrow>
            0 < output_notice (sys_ring s)) \<and>
         async_output cfg level log (sys_ring s) \<noteq> None \<and>
         async_get cfg (poll_get_size cfg) (sys_ring s) \<noteq> None"
proof -
  have inv: "async_inv cfg history s"
    by (rule async_run_inv [OF assms(3,1,2,4)])
  then have ok: "ring_ok (sys_ring s)"
    by (simp add: async_inv_def)
  with thread_queue.get_ok [OF ok, of cfg "poll_get_size cfg"] async_output_total [OF ok] inv show ?thesis
    by (auto simp: async_inv_def)
qed

definition small_cfg :: elog_cfg where
  "small_cfg =
     \<lparr>LINE_BUF_SIZE = 8, LINE_NUM_MAX_LEN = 5, FILTER_TAG_MAX_LEN = 4, FILTER_KW_MAX_LEN = 4,
      FILTER_TAG_LVL_MAX_NUM = 2, NEWLINE_SIGN = [CHR 0x0A], COLOR_ENABLE = True,
      OUTPUT_MODE = Output_async, ASYNC_OUTPUT_LVL = ELOG_LVL_ASSERT,
      ASYNC_OUTPUT_BUF_SIZE = 4, ASYNC_LINE_OUTPUT = True, BUF_OUTPUT_BUF_SIZE = 4\<rparr>"

definition small_enabled :: async_system where
  "small_enabled = (async_start small_cfg)\<lparr>sys_ring := async_enabled True (sys_ring (async_start small_cfg))\<rparr>"

definition small_queued :: async_system where
  "small_queued = small_enabled\<lparr>sys_ring :=
     snd (the (async_output small_cfg 3 ''hello'' (sys_ring small_enabled)))\<rparr>"

definition small_history :: "async_event list" where
  "small_history = [Record_output 3 ''hello'', Mode_set True]"

lemma small_history_runs: "async_run small_cfg small_history small_queued"
proof -
  have "async_output small_cfg 3 ''hello'' (sys_ring small_enabled) = Some (None, sys_ring small_queued)"
    by code_simp
  then have "async_step small_cfg (Record_output 3 ''hello'') small_enabled small_queued"
    using async_step.queue [of small_cfg 3 "''hello''" small_enabled "sys_ring small_queued"]
    by (simp add: small_queued_def)
  moreover have "async_run small_cfg [Mode_set True] small_enabled"
    unfolding small_enabled_def by (rule async_run.step [OF async_run.start async_step.enable])
  ultimately show ?thesis
    unfolding small_history_def by (rule async_run.step [rotated])
qed

lemma async_output_lossless_witness:
  "sys_printed small_queued @ held (sys_consumer small_queued) @ ring_contents (sys_ring small_queued) = ''hell'' \<and>
   async_output small_cfg 3 ''more'' (sys_ring small_queued) \<noteq> None"
proof -
  have "accepted_of small_cfg small_history = ''hell''" "no_empty_put small_cfg small_history"
    by code_simp+
  with async_output_lossless [OF _ _ small_history_runs, of 3 "''more''"] show ?thesis
    by (simp add: small_cfg_def)
qed

section \<open>Records of no characters\<close>

text \<open>
  A record of length zero (\<open>elog_raw\<close> of an empty string) corrupts an empty ring: nothing
  is accepted and no wake-up is posted, but the empty flag is cleared, so the whole buffer
  counts as used and the next read returns stale characters.
\<close>

theorem empty_record_corrupts_ring:
  "(\<exists>a'. async_put_log (async_initial small_cfg) [] = Some (0, a') \<and>
      async_get_buf_used (async_initial small_cfg) = 0 \<and>
      async_get_buf_used a' = ASYNC_OUTPUT_BUF_SIZE small_cfg \<and>
      (\<exists>a''. async_get_log 5 a' = Some (replicate 4 NUL, a'')))"
proof -
  let ?a = "snd (the (async_put_log (async_initial small_cfg) []))"
  have "async_put_log (async_initial small_cfg) [] = Some (0, ?a)" by code_simp
  moreover have "async_get_buf_used (async_initial small_cfg) = 0" by code_simp
  moreover have "async_get_buf_used ?a = ASYNC_OUTPUT_BUF_SIZE small_cfg" by code_simp
  moreover have "async_get_log 5 ?a =
      Some (replicate 4 NUL, snd (the (async_get_log 5 ?a)))" by code_simp
  ultimately show ?thesis by blast
qed

end
