(* ===== verification/Elog_Core.thy ===== *)
theory Elog_Core
  imports Elog_Lock Elog_Buf Elog_Async
begin

text \<open>
  The logger object of \<open>elog.c\<close>: its settings, the filter with the table of levels per tag, the
  output lock and where records go. Every function returns its result, the calls the output
  port receives, and the next state; a failed assertion without a hook and an access outside
  an array stop the program and are the left part of the result.
\<close>

section \<open>State\<close>

record tag_lvl_filter =
  tl_level :: nat
  tl_tag :: "char list"
  tl_use_flag :: bool

record elog_filter =
  fl_level :: nat
  fl_tag :: "char list"
  fl_keyword :: "char list"
  fl_tag_lvl :: "tag_lvl_filter list"

record elog_state =
  el_filter :: elog_filter
  el_enabled_fmt_set :: "u64 list"
  el_init_ok :: bool
  el_output_enabled :: bool
  el_lock :: lock_state
  el_text_color_enabled :: bool
  el_log_buf :: "char list"
  el_assert_hook :: bool
  el_async :: async_state
  el_buf :: buf_state

text \<open>Static storage is zero-initialised.\<close>

definition elog_initial :: "elog_cfg \<Rightarrow> elog_state" where
  "elog_initial cfg =
     \<lparr>el_filter = \<lparr>fl_level = 0, fl_tag = replicate (FILTER_TAG_MAX_LEN cfg + 1) NUL,
        fl_keyword = replicate (FILTER_KW_MAX_LEN cfg + 1) NUL,
        fl_tag_lvl = replicate (FILTER_TAG_LVL_MAX_NUM cfg)
          \<lparr>tl_level = 0, tl_tag = replicate (FILTER_TAG_MAX_LEN cfg + 1) NUL, tl_use_flag = False\<rparr>\<rparr>,
      el_enabled_fmt_set = replicate ELOG_LVL_TOTAL_NUM 0, el_init_ok = False,
      el_output_enabled = False, el_lock = lock_initial, el_text_color_enabled = False,
      el_log_buf = replicate (LINE_BUF_SIZE cfg) NUL, el_assert_hook = False,
      el_async = async_initial cfg, el_buf = buf_initial cfg\<rparr>"

section \<open>Results and sequencing\<close>

datatype elog_stop = Assert_hang | Memory_fault

type_synonym 'a elog_result = "elog_stop + ('a \<times> port_event list \<times> elog_state)"

definition ret :: "'a \<Rightarrow> elog_state \<Rightarrow> 'a elog_result" where
  "ret x s = Inr (x, [], s)"

definition stop :: "elog_stop \<Rightarrow> elog_state \<Rightarrow> 'a elog_result" where
  "stop e s = Inl e"

definition ebind ::
  "(elog_state \<Rightarrow> 'a elog_result) \<Rightarrow> ('a \<Rightarrow> elog_state \<Rightarrow> 'b elog_result) \<Rightarrow> elog_state \<Rightarrow> 'b elog_result"
  where
  "ebind m f s =
     (case m s of
        Inl e \<Rightarrow> Inl e
      | Inr (x, evs, s1) \<Rightarrow>
          (case f x s1 of Inl e \<Rightarrow> Inl e | Inr (y, evs', s2) \<Rightarrow> Inr (y, evs @ evs', s2)))"

lemma ebind_Inr:
  "m s = Inr (x, evs, s1) \<Longrightarrow> f x s1 = Inr (y, evs', s2) \<Longrightarrow> ebind m f s = Inr (y, evs @ evs', s2)"
  by (simp add: ebind_def)

lemma ebind_ret [simp]: "ebind (ret x) f s = f x s"
  by (simp add: ebind_def ret_def split: sum.splits prod.splits)

text \<open>A failed assertion loops for ever without a hook; a hook returns and the code goes on.\<close>

definition elog_assert :: "bool \<Rightarrow> elog_state \<Rightarrow> unit elog_result" where
  "elog_assert cond s = (if cond \<or> el_assert_hook s then ret () s else stop Assert_hang s)"

lemma elog_assert_True [simp]: "elog_assert True = ret ()"
  by (rule ext) (simp add: elog_assert_def)

definition elog_assert_set_hook :: "bool \<Rightarrow> elog_state \<Rightarrow> elog_state" where
  "elog_assert_set_hook installed s = s\<lparr>el_assert_hook := installed\<rparr>"

section \<open>Lock\<close>

definition elog_output_lock :: "elog_state \<Rightarrow> unit elog_result" where
  "elog_output_lock s = (let (evs, l) = output_lock (el_lock s) in Inr ((), evs, s\<lparr>el_lock := l\<rparr>))"

definition elog_output_unlock :: "elog_state \<Rightarrow> unit elog_result" where
  "elog_output_unlock s = (let (evs, l) = output_unlock (el_lock s) in Inr ((), evs, s\<lparr>el_lock := l\<rparr>))"

definition elog_output_lock_enabled :: "bool \<Rightarrow> elog_state \<Rightarrow> unit elog_result" where
  "elog_output_lock_enabled enabled s =
     (let (evs, l) = output_lock_enabled enabled (el_lock s) in Inr ((), evs, s\<lparr>el_lock := l\<rparr>))"

definition elog_port_output_lock :: "elog_state \<Rightarrow> unit elog_result" where
  "elog_port_output_lock s = Inr ((), [Port_lock], s)"

section \<open>Settings\<close>

definition elog_set_output_enabled :: "bool \<Rightarrow> elog_state \<Rightarrow> elog_state" where
  "elog_set_output_enabled enabled s = s\<lparr>el_output_enabled := enabled\<rparr>"

definition elog_get_output_enabled :: "elog_state \<Rightarrow> bool" where
  "elog_get_output_enabled s = el_output_enabled s"

definition elog_set_text_color_enabled :: "bool \<Rightarrow> elog_state \<Rightarrow> elog_state" where
  "elog_set_text_color_enabled enabled s = s\<lparr>el_text_color_enabled := enabled\<rparr>"

definition elog_get_text_color_enabled :: "elog_state \<Rightarrow> bool" where
  "elog_get_text_color_enabled s = el_text_color_enabled s"

definition elog_set_fmt :: "nat \<Rightarrow> u64 \<Rightarrow> elog_state \<Rightarrow> unit elog_result" where
  "elog_set_fmt level fmts =
     ebind (elog_assert (level \<le> ELOG_LVL_VERBOSE)) (\<lambda>_ s.
       if level < length (el_enabled_fmt_set s)
       then ret () (s\<lparr>el_enabled_fmt_set := (el_enabled_fmt_set s)[level := fmts]\<rparr>)
       else stop Memory_fault s)"

definition get_fmt_enabled :: "nat \<Rightarrow> u64 \<Rightarrow> elog_state \<Rightarrow> bool" where
  "get_fmt_enabled level fmts s \<longleftrightarrow> (el_enabled_fmt_set s ! level) AND fmts \<noteq> 0"

definition elog_set_filter_lvl :: "nat \<Rightarrow> elog_state \<Rightarrow> unit elog_result" where
  "elog_set_filter_lvl level =
     ebind (elog_assert (level \<le> ELOG_LVL_VERBOSE)) (\<lambda>_ s.
       ret () (s\<lparr>el_filter := (el_filter s)\<lparr>fl_level := level\<rparr>\<rparr>))"

definition elog_set_filter_tag :: "elog_cfg \<Rightarrow> string \<Rightarrow> elog_state \<Rightarrow> elog_state" where
  "elog_set_filter_tag cfg tag s =
     s\<lparr>el_filter := (el_filter s)
         \<lparr>fl_tag := strncpy (fl_tag (el_filter s)) tag (FILTER_TAG_MAX_LEN cfg)\<rparr>\<rparr>"

definition elog_set_filter_kw :: "elog_cfg \<Rightarrow> string \<Rightarrow> elog_state \<Rightarrow> elog_state" where
  "elog_set_filter_kw cfg keyword s =
     s\<lparr>el_filter := (el_filter s)
         \<lparr>fl_keyword := strncpy (fl_keyword (el_filter s)) keyword (FILTER_KW_MAX_LEN cfg)\<rparr>\<rparr>"

definition elog_set_filter :: "elog_cfg \<Rightarrow> nat \<Rightarrow> string \<Rightarrow> string \<Rightarrow> elog_state \<Rightarrow> unit elog_result" where
  "elog_set_filter cfg level tag keyword =
     ebind (elog_assert (level \<le> ELOG_LVL_VERBOSE)) (\<lambda>_.
     ebind (elog_set_filter_lvl level) (\<lambda>_ s.
       ret () (elog_set_filter_kw cfg keyword (elog_set_filter_tag cfg tag s))))"

section \<open>Levels per tag\<close>

definition unused_tag_lvl :: "elog_cfg \<Rightarrow> tag_lvl_filter" where
  "unused_tag_lvl cfg = \<lparr>tl_level = ELOG_FILTER_LVL_SILENT,
     tl_tag = replicate (FILTER_TAG_MAX_LEN cfg + 1) NUL, tl_use_flag = False\<rparr>"

definition elog_set_filter_tag_lvl_default :: "elog_cfg \<Rightarrow> elog_state \<Rightarrow> elog_state" where
  "elog_set_filter_tag_lvl_default cfg s =
     s\<lparr>el_filter := (el_filter s)\<lparr>fl_tag_lvl := map (\<lambda>_. unused_tag_lvl cfg) (fl_tag_lvl (el_filter s))\<rparr>\<rparr>"

text \<open>The search loops over the table: the first entry with the property, or the table's end.\<close>

fun first_index :: "('a \<Rightarrow> bool) \<Rightarrow> 'a list \<Rightarrow> nat" where
  "first_index P [] = 0"
| "first_index P (x # xs) = (if P x then 0 else Suc (first_index P xs))"

definition tag_matches :: "elog_cfg \<Rightarrow> string \<Rightarrow> tag_lvl_filter \<Rightarrow> bool" where
  "tag_matches cfg tag e \<longleftrightarrow>
     tl_use_flag e \<and> strncmp_eq tag (c_str (tl_tag e)) (FILTER_TAG_MAX_LEN cfg)"

definition table_set :: "elog_cfg \<Rightarrow> string \<Rightarrow> nat \<Rightarrow> tag_lvl_filter list \<Rightarrow> tag_lvl_filter list" where
  "table_set cfg tag level table =
     (let i = first_index (tag_matches cfg tag) table in
      if i < length table
      then if level = ELOG_FILTER_LVL_ALL then table[i := unused_tag_lvl cfg]
           else table[i := (table ! i)\<lparr>tl_level := level\<rparr>]
      else if level \<noteq> ELOG_FILTER_LVL_ALL
      then let j = first_index (\<lambda>e. \<not> tl_use_flag e) table in
           if j < length table
           then table[j := \<lparr>tl_level = level,
                   tl_tag = strncpy (tl_tag (table ! j)) tag (FILTER_TAG_MAX_LEN cfg),
                   tl_use_flag = True\<rparr>]
           else table
      else table)"

definition table_get :: "elog_cfg \<Rightarrow> string \<Rightarrow> tag_lvl_filter list \<Rightarrow> nat" where
  "table_get cfg tag table =
     (let i = first_index (tag_matches cfg tag) table in
      if i < length table then tl_level (table ! i) else ELOG_FILTER_LVL_ALL)"

definition elog_set_filter_tag_lvl :: "elog_cfg \<Rightarrow> string \<Rightarrow> nat \<Rightarrow> elog_state \<Rightarrow> unit elog_result" where
  "elog_set_filter_tag_lvl cfg tag level =
     ebind (elog_assert (level \<le> ELOG_LVL_VERBOSE)) (\<lambda>_ s.
       if \<not> el_init_ok s then ret () s
       else ebind elog_port_output_lock (\<lambda>_ s.
            elog_output_unlock
              (s\<lparr>el_filter := (el_filter s)
                  \<lparr>fl_tag_lvl := table_set cfg tag level (fl_tag_lvl (el_filter s))\<rparr>\<rparr>)) s)"

definition elog_get_filter_tag_lvl :: "elog_cfg \<Rightarrow> string \<Rightarrow> elog_state \<Rightarrow> nat elog_result" where
  "elog_get_filter_tag_lvl cfg tag s =
     (if \<not> el_init_ok s then ret ELOG_FILTER_LVL_ALL s
      else ebind elog_port_output_lock (\<lambda>_.
           ebind elog_output_unlock (\<lambda>_ s.
             ret (table_get cfg tag (fl_tag_lvl (el_filter s))) s)) s)"

section \<open>The table as a finite map\<close>

text \<open>
  The table stores prefixes of tags; the key of a tag is what fits. The table represents the
  map from keys to levels below the lowest, and it must not hold a key twice.
\<close>

definition tag_key :: "elog_cfg \<Rightarrow> string \<Rightarrow> string" where
  "tag_key cfg tag = take (FILTER_TAG_MAX_LEN cfg) tag"

definition entry_key :: "tag_lvl_filter \<Rightarrow> string" where
  "entry_key e = c_str (tl_tag e)"

definition table_keys :: "tag_lvl_filter list \<Rightarrow> string list" where
  "table_keys table = map entry_key (filter tl_use_flag table)"

definition table_ok :: "elog_cfg \<Rightarrow> tag_lvl_filter list \<Rightarrow> bool" where
  "table_ok cfg table \<longleftrightarrow>
     (\<forall>e \<in> set table. length (tl_tag e) = FILTER_TAG_MAX_LEN cfg + 1 \<and>
        tl_tag e ! FILTER_TAG_MAX_LEN cfg = NUL) \<and>
     distinct (table_keys table)"

definition table_map :: "tag_lvl_filter list \<Rightarrow> string \<rightharpoonup> nat" where
  "table_map table = map_of (map (\<lambda>e. (entry_key e, tl_level e)) (filter tl_use_flag table))"

definition has_room :: "tag_lvl_filter list \<Rightarrow> bool" where
  "has_room table \<longleftrightarrow> (\<exists>e \<in> set table. \<not> tl_use_flag e)"

lemma first_index_bound: "first_index P xs \<le> length xs"
  by (induction xs) auto

lemma first_index_iff: "first_index P xs < length xs \<longleftrightarrow> (\<exists>x \<in> set xs. P x)"
  by (induction xs) auto

lemma first_index_split:
  assumes "first_index P xs < length xs"
  obtains ys x zs where "xs = ys @ x # zs" "P x" "\<forall>y \<in> set ys. \<not> P y" "first_index P xs = length ys"
  using assms
proof (induction xs arbitrary: thesis)
  case Nil
  then show ?case by simp
next
  case (Cons x xs)
  show ?case
  proof (cases "P x")
    case True
    then show ?thesis by (intro Cons.prems(1) [of "[]" x xs]) simp_all
  next
    case False
    with Cons.prems(2) have "first_index P xs < length xs" by simp
    from Cons.IH [OF _ this] obtain ys y zs where
      "xs = ys @ y # zs" "P y" "\<forall>y \<in> set ys. \<not> P y" "first_index P xs = length ys" by blast
    with False show ?thesis by (intro Cons.prems(1) [of "x # ys" y zs]) simp_all
  qed
qed

lemma entry_key_length:
  assumes "length (tl_tag e) = n + 1" "tl_tag e ! n = NUL"
  shows "length (entry_key e) \<le> n"
proof (rule ccontr)
  assume "\<not> ?thesis"
  then have "n < length (takeWhile (\<lambda>c. c \<noteq> NUL) (tl_tag e))"
    by (simp add: entry_key_def c_str_def)
  from nth_mem [OF this] takeWhile_nth [OF this] have
    "tl_tag e ! n \<in> set (takeWhile (\<lambda>c. c \<noteq> NUL) (tl_tag e))" by simp
  from set_takeWhileD [OF this] assms(2) show False by simp
qed

lemma tag_matches_iff:
  assumes "table_ok cfg table" "e \<in> set table"
  shows "tag_matches cfg tag e \<longleftrightarrow> tl_use_flag e \<and> entry_key e = tag_key cfg tag"
proof -
  have "length (entry_key e) \<le> FILTER_TAG_MAX_LEN cfg"
    using assms by (intro entry_key_length) (simp_all add: table_ok_def)
  then show ?thesis
    by (auto simp: tag_matches_def strncmp_eq_def tag_key_def entry_key_def)
qed

lemma table_map_append:
  "table_map (xs @ ys) = table_map ys ++ table_map xs"
  by (simp add: table_map_def)

lemma table_keys_append [simp]: "table_keys (xs @ ys) = table_keys xs @ table_keys ys"
  by (simp add: table_keys_def)

lemma table_map_Cons:
  "table_map (e # es) = (if tl_use_flag e then (table_map es)(entry_key e \<mapsto> tl_level e) else table_map es)"
  by (simp add: table_map_def)

lemma table_keys_Cons:
  "table_keys (e # es) = (if tl_use_flag e then entry_key e # table_keys es else table_keys es)"
  by (simp add: table_keys_def)

lemma dom_table_map: "dom (table_map table) = set (table_keys table)"
  by (auto simp: table_map_def table_keys_def dom_map_of_conv_image_fst image_image)

lemma table_map_None_iff: "table_map table k = None \<longleftrightarrow> k \<notin> set (table_keys table)"
  using dom_table_map [of table] by (auto simp: domIff)

lemma table_get_map:
  assumes "table_ok cfg table"
  shows "table_get cfg tag table =
    (case table_map table (tag_key cfg tag) of Some l \<Rightarrow> l | None \<Rightarrow> ELOG_FILTER_LVL_ALL)"
proof (cases "first_index (tag_matches cfg tag) table < length table")
  case True
  from first_index_split [OF this] obtain ys e zs where
    t: "table = ys @ e # zs" "tag_matches cfg tag e" "\<forall>y \<in> set ys. \<not> tag_matches cfg tag y"
      "first_index (tag_matches cfg tag) table = length ys" by blast
  have k: "tl_use_flag e" "entry_key e = tag_key cfg tag"
    using t(1,2) tag_matches_iff [OF assms, of e tag] by auto
  then have "tag_key cfg tag \<notin> set (table_keys ys)"
    using assms t(1) by (auto simp: table_ok_def table_keys_Cons)
  then have "table_map ys (tag_key cfg tag) = None" by (simp add: table_map_None_iff)
  with t k True show ?thesis
    by (simp add: table_get_def Let_def table_map_append table_map_Cons map_add_def)
next
  case False
  then have "\<forall>e \<in> set table. \<not> tag_matches cfg tag e" by (simp add: first_index_iff)
  then have "tag_key cfg tag \<notin> set (table_keys table)"
    using tag_matches_iff [OF assms] by (auto simp: table_keys_def)
  then have "table_map table (tag_key cfg tag) = None" by (simp add: table_map_None_iff)
  with False show ?thesis by (simp add: table_get_def Let_def)
qed

text \<open>What storing a level does to the map: the lowest level removes the key.\<close>

definition map_set :: "elog_cfg \<Rightarrow> string \<Rightarrow> nat \<Rightarrow> bool \<Rightarrow> (string \<rightharpoonup> nat) \<Rightarrow> string \<rightharpoonup> nat" where
  "map_set cfg tag level room m =
     (let k = tag_key cfg tag in
      if level = ELOG_FILTER_LVL_ALL then m(k := None)
      else if k \<in> dom m \<or> room then m(k \<mapsto> level) else m)"

end
