(* ===== verification/Elog_Tags.thy ===== *)
theory Elog_Tags
  imports Elog_Core
begin

text \<open>
  The table of levels per tag (\<open>elog_set_filter_tag_lvl\<close>, \<open>elog_get_filter_tag_lvl\<close> of
  \<open>elog.c\<close>) refines a finite map from tag keys to levels, as long as there is room.
\<close>

section \<open>The table refines a map\<close>

lemma table_map_at:
  "table_map (ys @ e # zs) k =
     (if k \<in> set (table_keys ys) then table_map ys k
      else if tl_use_flag e \<and> entry_key e = k then Some (tl_level e) else table_map zs k)"
  using table_map_None_iff [of ys k]
  by (cases "table_map ys k") (auto simp: table_map_append table_map_Cons map_add_def)

lemma table_ok_split:
  "table_ok cfg (ys @ e # zs) \<longleftrightarrow>
     table_ok cfg ys \<and> table_ok cfg zs \<and>
     length (tl_tag e) = FILTER_TAG_MAX_LEN cfg + 1 \<and> tl_tag e ! FILTER_TAG_MAX_LEN cfg = NUL \<and>
     set (table_keys ys) \<inter> set (table_keys zs) = {} \<and>
     (tl_use_flag e \<longrightarrow> entry_key e \<notin> set (table_keys ys) \<and> entry_key e \<notin> set (table_keys zs))"
  by (auto simp: table_ok_def table_keys_Cons)

lemma unused_tag_lvl_simps [simp]:
  "\<not> tl_use_flag (unused_tag_lvl cfg)"
  "length (tl_tag (unused_tag_lvl cfg)) = FILTER_TAG_MAX_LEN cfg + 1"
  "tl_tag (unused_tag_lvl cfg) ! FILTER_TAG_MAX_LEN cfg = NUL"
  by (simp_all add: unused_tag_lvl_def nth_append flip: replicate_append_same)

lemma table_lookup_cases:
  assumes "table_ok cfg table"
  obtains
    (found) ys e zs where "table = ys @ e # zs" "tl_use_flag e" "entry_key e = tag_key cfg tag"
      "first_index (tag_matches cfg tag) table = length ys"
  | (free) ys e zs where "table = ys @ e # zs" "\<not> tl_use_flag e"
      "tag_key cfg tag \<notin> set (table_keys table)"
      "first_index (tag_matches cfg tag) table = length table"
      "first_index (\<lambda>e. \<not> tl_use_flag e) table = length ys"
  | (crowded) "\<not> has_room table" "tag_key cfg tag \<notin> set (table_keys table)"
      "first_index (tag_matches cfg tag) table = length table"
      "first_index (\<lambda>e. \<not> tl_use_flag e) table = length table"
proof (cases "first_index (tag_matches cfg tag) table < length table")
  case True
  from first_index_split [OF this] obtain ys e zs where
    t: "table = ys @ e # zs" "tag_matches cfg tag e"
      "first_index (tag_matches cfg tag) table = length ys" by blast
  then show thesis using tag_matches_iff [OF assms, of e tag] by (intro found) auto
next
  case nf: False
  then have len: "first_index (tag_matches cfg tag) table = length table"
    using first_index_bound [of "tag_matches cfg tag" table] by simp
  from nf have "\<forall>e \<in> set table. \<not> tag_matches cfg tag e" by (simp add: first_index_iff)
  then have nk: "tag_key cfg tag \<notin> set (table_keys table)"
    using tag_matches_iff [OF assms] by (auto simp: table_keys_def)
  show thesis
  proof (cases "first_index (\<lambda>e. \<not> tl_use_flag e) table < length table")
    case True
    from first_index_split [OF this] obtain ys e zs where
      "table = ys @ e # zs" "\<not> tl_use_flag e"
      "first_index (\<lambda>e. \<not> tl_use_flag e) table = length ys" by blast
    with nk len show thesis by (intro free)
  next
    case False
    then have "first_index (\<lambda>e. \<not> tl_use_flag e) table = length table"
      using first_index_bound [of "\<lambda>e. \<not> tl_use_flag e" table] by simp
    moreover have "\<not> has_room table" using False by (simp add: first_index_iff has_room_def)
    ultimately show thesis using nk len by (intro crowded)
  qed
qed

lemma entry_key_new:
  assumes "NUL \<notin> set tag" "length arr = FILTER_TAG_MAX_LEN cfg + 1" "arr ! FILTER_TAG_MAX_LEN cfg = NUL"
  shows "entry_key \<lparr>tl_level = l, tl_tag = strncpy arr tag (FILTER_TAG_MAX_LEN cfg), tl_use_flag = u\<rparr> =
      tag_key cfg tag"
    and "strncpy arr tag (FILTER_TAG_MAX_LEN cfg) ! FILTER_TAG_MAX_LEN cfg = NUL"
  using c_str_strncpy [OF assms] by (simp_all add: entry_key_def tag_key_def)

text \<open>What \<open>table_set\<close> should do, and that it does so in each case of the lookup.\<close>

definition sets_level :: "elog_cfg \<Rightarrow> string \<Rightarrow> nat \<Rightarrow> tag_lvl_filter list \<Rightarrow> bool" where
  "sets_level cfg tag level table \<longleftrightarrow>
     table_ok cfg (table_set cfg tag level table) \<and>
     table_map (table_set cfg tag level table) = map_set cfg tag level (has_room table) (table_map table)"

lemma table_set_found:
  assumes ok: "table_ok cfg (ys @ e # zs)" and used: "tl_use_flag e" and key: "entry_key e = tag_key cfg tag"
    and found: "first_index (tag_matches cfg tag) (ys @ e # zs) = length ys"
  shows "sets_level cfg tag level (ys @ e # zs)"
proof -
  let ?k = "tag_key cfg tag" and ?table = "ys @ e # zs"
  have dom: "?k \<in> dom (table_map ?table)"
    using used key by (simp add: dom_table_map table_keys_Cons)
  have split: "table_ok cfg ys" "table_ok cfg zs" "?k \<notin> set (table_keys ys)" "?k \<notin> set (table_keys zs)"
    "set (table_keys ys) \<inter> set (table_keys zs) = {}"
    "length (tl_tag e) = FILTER_TAG_MAX_LEN cfg + 1" "tl_tag e ! FILTER_TAG_MAX_LEN cfg = NUL"
    using ok used key by (auto simp: table_ok_split)
  show ?thesis
  proof (cases "level = ELOG_FILTER_LVL_ALL")
    case True
    have "table_set cfg tag level ?table = ys @ unused_tag_lvl cfg # zs"
      using found True by (simp add: table_set_def)
    moreover have "table_map (ys @ unused_tag_lvl cfg # zs) = (table_map ?table)(?k := None)"
      using used key split by (intro ext) (auto simp: table_map_at table_map_None_iff)
    ultimately show ?thesis
      using True split by (simp add: sets_level_def map_set_def table_ok_split)
  next
    case False
    have "table_set cfg tag level ?table = ys @ e\<lparr>tl_level := level\<rparr> # zs"
      using found False by (simp add: table_set_def Let_def)
    moreover have "table_map (ys @ e\<lparr>tl_level := level\<rparr> # zs) = (table_map ?table)(?k \<mapsto> level)"
      using used key split by (intro ext) (auto simp: table_map_at entry_key_def)
    moreover have "entry_key (e\<lparr>tl_level := level\<rparr>) = ?k" using key by (simp add: entry_key_def)
    ultimately show ?thesis
      using False split dom used by (simp add: sets_level_def map_set_def table_ok_split Let_def)
  qed
qed

lemma table_set_free:
  assumes ok: "table_ok cfg (ys @ e # zs)" and tag: "NUL \<notin> set tag" and unused: "\<not> tl_use_flag e"
    and absent: "tag_key cfg tag \<notin> set (table_keys (ys @ e # zs))"
      "first_index (tag_matches cfg tag) (ys @ e # zs) = length (ys @ e # zs)"
    and free: "first_index (\<lambda>e. \<not> tl_use_flag e) (ys @ e # zs) = length ys"
  shows "sets_level cfg tag level (ys @ e # zs)"
proof -
  let ?k = "tag_key cfg tag" and ?table = "ys @ e # zs"
  have nd: "?k \<notin> dom (table_map ?table)" using absent by (simp add: dom_table_map)
  have room: "has_room ?table" using unused by (auto simp: has_room_def)
  have split: "table_ok cfg ys" "table_ok cfg zs" "?k \<notin> set (table_keys ys)" "?k \<notin> set (table_keys zs)"
    "set (table_keys ys) \<inter> set (table_keys zs) = {}"
    "length (tl_tag e) = FILTER_TAG_MAX_LEN cfg + 1" "tl_tag e ! FILTER_TAG_MAX_LEN cfg = NUL"
    using ok absent unused by (auto simp: table_ok_split table_keys_Cons)
  show ?thesis
  proof (cases "level = ELOG_FILTER_LVL_ALL")
    case True
    then have "table_set cfg tag level ?table = ?table" using absent by (simp add: table_set_def)
    moreover have "(table_map ?table)(?k := None) = table_map ?table" using nd by auto
    ultimately show ?thesis using True ok by (simp add: sets_level_def map_set_def)
  next
    case False
    let ?new = "\<lparr>tl_level = level, tl_tag = strncpy (tl_tag e) tag (FILTER_TAG_MAX_LEN cfg), tl_use_flag = True\<rparr>"
    note key = entry_key_new(1) [OF tag split(6,7), of level True] entry_key_new(2) [OF tag split(6,7)]
    have "table_set cfg tag level ?table = ys @ ?new # zs"
      using absent free False by (simp add: table_set_def Let_def)
    moreover have "table_map (ys @ ?new # zs) = (table_map ?table)(?k \<mapsto> level)"
      using absent unused split key by (intro ext) (auto simp: table_map_at)
    ultimately show ?thesis
      using False split key room by (simp add: sets_level_def map_set_def table_ok_split Let_def)
  qed
qed

lemma table_set_crowded:
  assumes "table_ok cfg table" and "\<not> has_room table" and "tag_key cfg tag \<notin> set (table_keys table)"
    and "first_index (tag_matches cfg tag) table = length table"
      "first_index (\<lambda>e. \<not> tl_use_flag e) table = length table"
  shows "sets_level cfg tag level table"
proof -
  have nd: "tag_key cfg tag \<notin> dom (table_map table)" using assms(3) by (simp add: dom_table_map)
  then have "(table_map table)(tag_key cfg tag := None) = table_map table" by auto
  moreover have "table_set cfg tag level table = table"
    using assms by (simp add: table_set_def Let_def)
  ultimately show ?thesis using assms(1,2) nd by (simp add: sets_level_def map_set_def Let_def)
qed

lemma table_set_refines:
  assumes ok: "table_ok cfg table" and tag: "NUL \<notin> set tag"
  shows "table_ok cfg (table_set cfg tag level table)"
    and "table_map (table_set cfg tag level table) =
      map_set cfg tag level (has_room table) (table_map table)"
    and "length (table_set cfg tag level table) = length table"
proof -
  have "sets_level cfg tag level table"
    using ok
  proof (cases rule: table_lookup_cases [where tag = tag])
    case (found ys e zs)
    with ok table_set_found [of cfg ys e zs tag] show ?thesis by simp
  next
    case (free ys e zs)
    with ok tag table_set_free [of cfg ys e zs tag] show ?thesis by simp
  next
    case crowded
    with ok show ?thesis by (intro table_set_crowded)
  qed
  then show "table_ok cfg (table_set cfg tag level table)"
    and "table_map (table_set cfg tag level table) =
      map_set cfg tag level (has_room table) (table_map table)"
    by (simp_all add: sets_level_def)
  show "length (table_set cfg tag level table) = length table"
    by (simp add: table_set_def Let_def)
qed

section \<open>The two functions on the logger\<close>

definition tag_table :: "elog_state \<Rightarrow> tag_lvl_filter list" where
  "tag_table s = fl_tag_lvl (el_filter s)"

lemma set_filter_tag_lvl_effect:
  assumes "el_init_ok s" "level \<le> ELOG_LVL_VERBOSE"
  shows "\<exists>evs s'. elog_set_filter_tag_lvl cfg tag level s = Inr ((), evs, s') \<and>
    tag_table s' = table_set cfg tag level (tag_table s) \<and> el_init_ok s'"
  using assms
  by (simp add: elog_set_filter_tag_lvl_def ebind_def ret_def elog_port_output_lock_def
      elog_output_unlock_def output_unlock_def tag_table_def)

lemma get_filter_tag_lvl_effect:
  assumes "el_init_ok s"
  shows "\<exists>evs s'. elog_get_filter_tag_lvl cfg tag s =
      Inr (table_get cfg tag (tag_table s), evs, s') \<and> tag_table s' = tag_table s"
  using assms
  by (simp add: elog_get_filter_tag_lvl_def ebind_def ret_def elog_port_output_lock_def
      elog_output_unlock_def output_unlock_def tag_table_def)

text \<open>
  C39: after initialisation, storing a level for a tag makes the table the map updated at the
  tag's key (removed for the lowest level, unchanged when the tag is new and the table is
  full), the table stays well formed, and reading any tag's level afterwards returns the value
  of the updated map, or the lowest level.
\<close>

theorem tag_level_table_is_a_map:
  assumes "el_init_ok s" and "table_ok cfg (tag_table s)" and "NUL \<notin> set tag"
    and "level \<le> ELOG_LVL_VERBOSE"
  shows "\<exists>evs s'. elog_set_filter_tag_lvl cfg tag level s = Inr ((), evs, s') \<and>
      table_ok cfg (tag_table s') \<and>
      table_map (tag_table s') =
        map_set cfg tag level (has_room (tag_table s)) (table_map (tag_table s)) \<and>
      (\<forall>other. \<exists>evs' s''. elog_get_filter_tag_lvl cfg other s' =
         Inr (case table_map (tag_table s') (tag_key cfg other) of
                Some l \<Rightarrow> l | None \<Rightarrow> ELOG_FILTER_LVL_ALL, evs', s''))"
proof -
  from set_filter_tag_lvl_effect [OF assms(1,4)] obtain evs s' where
    s': "elog_set_filter_tag_lvl cfg tag level s = Inr ((), evs, s')"
      "tag_table s' = table_set cfg tag level (tag_table s)" "el_init_ok s'" by blast
  have ok: "table_ok cfg (tag_table s')" using table_set_refines(1) [OF assms(2,3)] s'(2) by simp
  have "\<exists>evs' s''. elog_get_filter_tag_lvl cfg other s' =
         Inr (case table_map (tag_table s') (tag_key cfg other) of
                Some l \<Rightarrow> l | None \<Rightarrow> ELOG_FILTER_LVL_ALL, evs', s'')" for other
    using get_filter_tag_lvl_effect [OF s'(3), of cfg other] table_get_map [OF ok, of other] by auto
  with s' ok table_set_refines(2) [OF assms(2,3)] show ?thesis by auto
qed

definition initialised_example :: elog_state where
  "initialised_example = elog_set_filter_tag_lvl_default small_cfg (elog_initial small_cfg)\<lparr>el_init_ok := True\<rparr>"

lemma default_table_ok: "table_ok cfg (replicate n (unused_tag_lvl cfg))"
  by (auto simp: table_ok_def table_keys_def)

lemma initialised_example_table:
  "tag_table initialised_example = replicate 2 (unused_tag_lvl small_cfg)"
  "el_init_ok initialised_example"
  by (simp_all add: tag_table_def initialised_example_def elog_set_filter_tag_lvl_default_def
      elog_initial_def small_cfg_def numeral_2_eq_2)

lemma tag_level_table_is_a_map_witness:
  "\<exists>evs s'. elog_set_filter_tag_lvl small_cfg ''drive'' 3 initialised_example = Inr ((), evs, s') \<and>
      table_ok small_cfg (tag_table s') \<and>
      table_map (tag_table s') =
        map_set small_cfg ''drive'' 3 (has_room (tag_table initialised_example))
          (table_map (tag_table initialised_example)) \<and>
      (\<forall>other. \<exists>evs' s''. elog_get_filter_tag_lvl small_cfg other s' =
         Inr (case table_map (tag_table s') (tag_key small_cfg other) of
                Some l \<Rightarrow> l | None \<Rightarrow> ELOG_FILTER_LVL_ALL, evs', s''))"
  by (rule tag_level_table_is_a_map)
    (simp_all add: initialised_example_table default_table_ok ELOG_LVL_VERBOSE_def)

end
