(* ===== verification/Elog_Output.thy ===== *)
theory Elog_Output
  imports Elog_Tags RC_Text
begin

text \<open>
  The logging functions of \<open>elog.c\<close>: \<open>elog_raw\<close>, \<open>elog_output\<close>, \<open>elog_hexdump\<close>,
  \<open>elog_init\<close> and \<open>elog_start\<close>. A formatted record is built piece by piece in the line buffer;
  the theorems say what text comes out, that no access leaves the buffer, and that the output
  port is called under the lock only.
\<close>

section \<open>Inputs from outside\<close>

text \<open>The labels that the port delivers, and what \<open>vsnprintf\<close> makes of format and arguments.\<close>

record output_env =
  env_time :: string
  env_p_info :: string
  env_t_info :: string

datatype formatted = Formatted string | Format_error string

text \<open>
  \<open>vsnprintf\<close> writes at most \<open>n\<close> characters with the final NUL and returns the full length; when
  it fails, it returns a negative number and may have written a part of the output.
\<close>

definition fmt_write :: "char list \<Rightarrow> nat \<Rightarrow> nat \<Rightarrow> formatted \<Rightarrow> char list option" where
  "fmt_write buf pos n fmt =
     (case fmt of
        Formatted s \<Rightarrow> if n = 0 then Some buf else mem_write buf pos (take (n - 1) s @ [NUL])
      | Format_error junk \<Rightarrow> mem_write buf pos (take n junk))"

section \<open>Constant texts\<close>

definition CSI_START :: string where "CSI_START = [CHR 0x1B, CHR ''['']"
definition CSI_END :: string where "CSI_END = [CHR 0x1B, CHR ''['', CHR ''0'', CHR ''m'']"

definition level_output_info :: "string list" where
  "level_output_info = [''A/'', ''E/'', ''W/'', ''I/'', ''D/'', ''V/'']"

definition color_output_info :: "string list" where
  "color_output_info =
     [''35;'' @ ''22m'', ''31;'' @ ''22m'', ''33;'' @ ''22m'', ''36;'' @ ''22m'',
      ''32;'' @ ''22m'', ''34;'' @ ''22m'']"

section \<open>Emitting a record\<close>

definition elog_emit :: "elog_cfg \<Rightarrow> nat \<Rightarrow> char list \<Rightarrow> elog_state \<Rightarrow> unit elog_result" where
  "elog_emit cfg level log s =
     (case OUTPUT_MODE cfg of
        Output_direct \<Rightarrow> Inr ((), [Port_output log], s)
      | Output_buffered \<Rightarrow>
          (case buf_output log (el_buf s) of
             None \<Rightarrow> stop Memory_fault s
           | Some (outs, b) \<Rightarrow> Inr ((), map Port_output outs, s\<lparr>el_buf := b\<rparr>))
      | Output_async \<Rightarrow>
          (case async_output cfg level log (el_async s) of
             None \<Rightarrow> stop Memory_fault s
           | Some (None, a) \<Rightarrow> Inr ((), [], s\<lparr>el_async := a\<rparr>)
           | Some (Some out, a) \<Rightarrow> Inr ((), [Port_output out], s\<lparr>el_async := a\<rparr>)))"

text \<open>Printing the first characters of the line buffer.\<close>

definition emit_line :: "elog_cfg \<Rightarrow> nat \<Rightarrow> nat \<Rightarrow> elog_state \<Rightarrow> unit elog_result" where
  "emit_line cfg level log_len s =
     (case mem_read (el_log_buf s) 0 log_len of
        None \<Rightarrow> stop Memory_fault s
      | Some log \<Rightarrow> elog_emit cfg level log s)"

definition elog_raw :: "elog_cfg \<Rightarrow> formatted \<Rightarrow> elog_state \<Rightarrow> unit elog_result" where
  "elog_raw cfg fmt s =
     (if \<not> el_output_enabled s then ret () s
      else ebind elog_output_lock (\<lambda>_.
           ebind (\<lambda>s.
             case fmt_write (el_log_buf s) 0 (LINE_BUF_SIZE cfg) fmt of
               None \<Rightarrow> stop Memory_fault s
             | Some buf \<Rightarrow>
                 emit_line cfg ELOG_LVL_ASSERT
                   (case fmt of
                      Formatted msg \<Rightarrow>
                        if length msg \<le> LINE_BUF_SIZE cfg then length msg else LINE_BUF_SIZE cfg
                    | Format_error _ \<Rightarrow> LINE_BUF_SIZE cfg)
                   (s\<lparr>el_log_buf := buf\<rparr>)) (\<lambda>_.
           elog_output_unlock)) s)"

section \<open>elog_output\<close>

text \<open>The pieces in front of the message, in the order of the code.\<close>

definition tag_pieces :: "elog_cfg \<Rightarrow> string \<Rightarrow> string list" where
  "tag_pieces cfg tag =
     [tag] @
     (if length tag \<le> FILTER_TAG_MAX_LEN cfg div 2
      then [replicate (FILTER_TAG_MAX_LEN cfg div 2 - length tag) (CHR '' '')] else []) @
     ['' '']"

definition info_pieces :: "output_env \<Rightarrow> nat \<Rightarrow> elog_state \<Rightarrow> string list" where
  "info_pieces env level s =
     [''[''] @
     (if get_fmt_enabled level ELOG_FMT_TIME s
      then [env_time env] @
           (if get_fmt_enabled level (ELOG_FMT_P_INFO OR ELOG_FMT_T_INFO) s then ['' ''] else [])
      else []) @
     (if get_fmt_enabled level ELOG_FMT_P_INFO s
      then [env_p_info env] @ (if get_fmt_enabled level ELOG_FMT_T_INFO s then ['' ''] else [])
      else []) @
     (if get_fmt_enabled level ELOG_FMT_T_INFO s then [env_t_info env] else []) @
     [''] '']"

definition place_pieces :: "elog_cfg \<Rightarrow> string \<Rightarrow> string \<Rightarrow> int \<Rightarrow> nat \<Rightarrow> elog_state \<Rightarrow> string list" where
  "place_pieces cfg file func line level s =
     [''(''] @
     (if get_fmt_enabled level ELOG_FMT_DIR s
      then [file] @
           (if get_fmt_enabled level ELOG_FMT_FUNC s then ['' '']
            else if get_fmt_enabled level ELOG_FMT_LINE s then ['':''] else [])
      else []) @
     (if get_fmt_enabled level ELOG_FMT_FUNC s
      then [func] @ (if get_fmt_enabled level ELOG_FMT_LINE s then ['':''] else [])
      else []) @
     (if get_fmt_enabled level ELOG_FMT_LINE s
      then [take (LINE_NUM_MAX_LEN cfg - 1) (decimal_int line)] else []) @
     ['')'']"

definition header_pieces ::
  "elog_cfg \<Rightarrow> output_env \<Rightarrow> nat \<Rightarrow> string \<Rightarrow> string \<Rightarrow> string \<Rightarrow> int \<Rightarrow> elog_state \<Rightarrow> string list" where
  "header_pieces cfg env level tag file func line s =
     (if COLOR_ENABLE cfg \<and> el_text_color_enabled s
      then [CSI_START, color_output_info ! level] else []) @
     (if get_fmt_enabled level ELOG_FMT_LVL s then [level_output_info ! level] else []) @
     (if get_fmt_enabled level ELOG_FMT_TAG s then tag_pieces cfg tag else []) @
     (if get_fmt_enabled level (ELOG_FMT_TIME OR ELOG_FMT_P_INFO OR ELOG_FMT_T_INFO) s
      then info_pieces env level s else []) @
     (if get_fmt_enabled level (ELOG_FMT_DIR OR ELOG_FMT_FUNC OR ELOG_FMT_LINE) s
      then place_pieces cfg file func line level s else [])"

text \<open>The characters kept free for the end of the record.\<close>

definition end_reserve :: "elog_cfg \<Rightarrow> nat" where
  "end_reserve cfg = (if COLOR_ENABLE cfg then length CSI_END else 0) + length (NEWLINE_SIGN cfg)"

definition format_body :: "elog_cfg \<Rightarrow> string list \<Rightarrow> formatted \<Rightarrow> char list \<Rightarrow> line option" where
  "format_body cfg pieces fmt buf0 =
     do {
       (log_len, buf) \<leftarrow> line_puts cfg pieces (0, buf0);
       buf \<leftarrow> fmt_write buf log_len (LINE_BUF_SIZE cfg - log_len) fmt;
       let log_len =
         (case fmt of
            Formatted msg \<Rightarrow>
              if log_len + length msg \<le> LINE_BUF_SIZE cfg then log_len + length msg
              else LINE_BUF_SIZE cfg
          | Format_error _ \<Rightarrow> LINE_BUF_SIZE cfg);
       Some (if log_len + end_reserve cfg > LINE_BUF_SIZE cfg
             then LINE_BUF_SIZE cfg - end_reserve cfg else log_len, buf)
     }"

definition keyword_check :: "char list \<Rightarrow> line \<Rightarrow> (bool \<times> line) option" where
  "keyword_check keyword l =
     (if keyword ! 0 \<noteq> NUL
      then do {
        buf \<leftarrow> mem_write (snd l) (fst l) [NUL];
        Some (strstr (c_str buf) (c_str keyword), (fst l, buf))
      }
      else Some (True, l))"

definition format_end :: "elog_cfg \<Rightarrow> bool \<Rightarrow> line \<Rightarrow> line option" where
  "format_end cfg color l =
     line_puts cfg ((if COLOR_ENABLE cfg \<and> color then [CSI_END] else []) @ [NEWLINE_SIGN cfg]) l"

text \<open>The part of \<open>elog_output\<close> between locking and unlocking.\<close>

definition output_section ::
  "elog_cfg \<Rightarrow> nat \<Rightarrow> string list \<Rightarrow> formatted \<Rightarrow> elog_state \<Rightarrow> unit elog_result" where
  "output_section cfg level pieces fmt s =
     (case format_body cfg pieces fmt (el_log_buf s) of
        None \<Rightarrow> stop Memory_fault s
      | Some l \<Rightarrow>
          (case keyword_check (fl_keyword (el_filter s)) l of
             None \<Rightarrow> stop Memory_fault s
           | Some (passes, l) \<Rightarrow>
               if \<not> passes then ret () (s\<lparr>el_log_buf := snd l\<rparr>)
               else (case format_end cfg (el_text_color_enabled s) l of
                       None \<Rightarrow> stop Memory_fault s
                     | Some l \<Rightarrow> emit_line cfg level (fst l) (s\<lparr>el_log_buf := snd l\<rparr>))))"

definition elog_output ::
  "elog_cfg \<Rightarrow> output_env \<Rightarrow> nat \<Rightarrow> string \<Rightarrow> string \<Rightarrow> string \<Rightarrow> int \<Rightarrow> formatted
     \<Rightarrow> elog_state \<Rightarrow> unit elog_result" where
  "elog_output cfg env level tag file func line fmt =
     ebind (elog_assert (level \<le> ELOG_LVL_VERBOSE)) (\<lambda>_ s.
       if \<not> el_output_enabled s then ret () s
       else if level > fl_level (el_filter s) then ret () s
       else ebind (elog_get_filter_tag_lvl cfg tag) (\<lambda>tag_lvl s.
         if level > tag_lvl then ret () s
         else if \<not> strstr tag (c_str (fl_tag (el_filter s))) then ret () s
         else if length (el_enabled_fmt_set s) \<le> level then stop Memory_fault s
         else ebind elog_output_lock (\<lambda>_ s.
              ebind (output_section cfg level (header_pieces cfg env level tag file func line s) fmt)
                (\<lambda>_. elog_output_unlock) s) s) s)"

section \<open>Initialisation\<close>

definition elog_port_init :: "elog_state \<Rightarrow> unit elog_result" where
  "elog_port_init = ret ()"

definition elog_init :: "elog_cfg \<Rightarrow> elog_state \<Rightarrow> unit elog_result" where
  "elog_init cfg s =
     (if el_init_ok s then ret () s
      else ebind elog_port_init (\<lambda>_ s.
           ebind (elog_output_lock_enabled True) (\<lambda>_ s.
           ebind (elog_set_filter_lvl ELOG_LVL_VERBOSE) (\<lambda>_ s.
             ret () ((elog_set_filter_tag_lvl_default cfg s)\<lparr>el_init_ok := True\<rparr>))
             ((if COLOR_ENABLE cfg then elog_set_text_color_enabled False else (\<lambda>s. s))
                (s\<lparr>el_lock := (el_lock s)\<lparr>locked_before_enable := False,
                                         locked_before_disable := False\<rparr>\<rparr>)))
             (if OUTPUT_MODE cfg = Output_async
              then s\<lparr>el_async := async_init (el_async s)\<rparr> else s)) s)"

definition elog_start :: "elog_cfg \<Rightarrow> output_env \<Rightarrow> string \<Rightarrow> elog_state \<Rightarrow> unit elog_result" where
  "elog_start cfg env file s =
     elog_output cfg env ELOG_LVL_INFO ''elog'' file ''elog_start'' 217
       (Formatted ''EasyLogger V2.2.0 is initialize success.'')
       (let s = elog_set_output_enabled True s in
        case OUTPUT_MODE cfg of
          Output_async \<Rightarrow> s\<lparr>el_async := async_enabled True (el_async s)\<rparr>
        | Output_buffered \<Rightarrow> s\<lparr>el_buf := buf_enabled True (el_buf s)\<rparr>
        | Output_direct \<Rightarrow> s)"

text \<open>\<open>elog_flush\<close> of \<open>elog_buf.c\<close>, with the lock of the logger.\<close>

definition elog_flush :: "elog_state \<Rightarrow> unit elog_result" where
  "elog_flush =
     ebind elog_output_lock (\<lambda>_.
     ebind (\<lambda>s. let (outs, b) = buf_flush (el_buf s)
                 in Inr ((), map Port_output outs, s\<lparr>el_buf := b\<rparr>)) (\<lambda>_.
     elog_output_unlock))"

section \<open>What a record looks like\<close>

definition cfg_ok :: "elog_cfg \<Rightarrow> bool" where
  "cfg_ok cfg \<longleftrightarrow>
     NEWLINE_SIGN cfg \<noteq> [] \<and> end_reserve cfg < LINE_BUF_SIZE cfg \<and>
     0 < ASYNC_OUTPUT_BUF_SIZE cfg \<and> 0 < BUF_OUTPUT_BUF_SIZE cfg"

lemma shipped_cfg_ok: "cfg_ok default_cfg" "cfg_ok service_cfg" "cfg_ok small_cfg"
  by (simp_all add: cfg_ok_def default_cfg_def service_cfg_def small_cfg_def end_reserve_def
      CSI_END_def)

text \<open>The header and message, cut so that the end of the record fits.\<close>

definition body_text :: "elog_cfg \<Rightarrow> string list \<Rightarrow> string \<Rightarrow> string" where
  "body_text cfg pieces msg =
     take (LINE_BUF_SIZE cfg - end_reserve cfg) (concat pieces @ msg)"

definition record_text :: "elog_cfg \<Rightarrow> bool \<Rightarrow> string list \<Rightarrow> string \<Rightarrow> string" where
  "record_text cfg color pieces msg =
     body_text cfg pieces msg @ (if COLOR_ENABLE cfg \<and> color then CSI_END else []) @ NEWLINE_SIGN cfg"

lemma end_reserve_pos: "cfg_ok cfg \<Longrightarrow> 0 < end_reserve cfg"
  by (simp add: cfg_ok_def end_reserve_def)

lemma fmt_write_Formatted:
  assumes "pos < length buf"
  shows "fmt_write buf pos (length buf - pos) (Formatted msg) =
    Some (overwrite buf pos (take (length buf - pos - 1) msg @ [NUL]))"
  using assms by (simp add: fmt_write_def mem_write_def)

lemma format_body_text:
  assumes cfg: "cfg_ok cfg" and buf: "length buf0 = LINE_BUF_SIZE cfg"
  shows "\<exists>l. format_body cfg pieces (Formatted msg) buf0 = Some l \<and> line_ok cfg l \<and>
    line_text l = body_text cfg pieces msg \<and> fst l + end_reserve cfg \<le> LINE_BUF_SIZE cfg"
proof -
  let ?S = "LINE_BUF_SIZE cfg" and ?r = "end_reserve cfg" and ?H = "concat pieces"
  have r: "0 < ?r" "?r < ?S" using end_reserve_pos [OF cfg] cfg by (simp_all add: cfg_ok_def)
  have "line_ok cfg (0, buf0)" using buf by (simp add: line_ok_def)
  from line_puts_refines [OF this, of pieces] obtain h buf where
    l: "line_puts cfg pieces (0, buf0) = Some (h, buf)" "line_ok cfg (h, buf)"
      "line_text (h, buf) = take ?S ?H" by (auto simp: line_text_def)
  have hb: "h \<le> ?S" "length buf = ?S" "take h buf = take ?S ?H"
    using l by (simp_all add: line_ok_def line_text_def)
  have h: "h = min ?S (length ?H)"
  proof -
    have "h = length (take h buf)" using hb(1,2) by simp
    also have "\<dots> = min ?S (length ?H)" unfolding hb(3) by (simp add: min.commute)
    finally show ?thesis .
  qed
  define len where "len = (if h + length msg \<le> ?S then h + length msg else ?S)"
  define fin where "fin = (if len + ?r > ?S then ?S - ?r else len)"
  have fin: "fin = min len (?S - ?r)" using r by (auto simp: fin_def)
  show ?thesis
  proof (cases "h < ?S")
    case False
    then have hS: "h = ?S" using hb(1) by simp
    then have "fin = ?S - ?r" using r by (simp add: fin_def len_def)
    moreover have "take (?S - ?r) buf = take (?S - ?r) (?H @ msg)"
    proof -
      have "take (?S - ?r) buf = take (?S - ?r) (take h buf)" using hS by simp
      also have "\<dots> = take (?S - ?r) ?H" unfolding hb(3) by simp
      also have "\<dots> = take (?S - ?r) (?H @ msg)" using h hS by simp
      finally show ?thesis .
    qed
    moreover have "format_body cfg pieces (Formatted msg) buf0 = Some (fin, buf)"
      using l(1) hS by (simp add: format_body_def fmt_write_def Let_def fin_def len_def)
    ultimately show ?thesis
      using hb r by (intro exI [of _ "(fin, buf)"])
        (simp add: line_ok_def line_text_def body_text_def)
  next
    case True
    then have hH: "h = length ?H" "take h buf = ?H" using h hb(3) by auto
    let ?m = "take (?S - h - 1) msg @ [NUL]"
    let ?buf = "overwrite buf h ?m"
    have fit: "h + length ?m \<le> length buf" using True hb(2) by simp
    have fb: "format_body cfg pieces (Formatted msg) buf0 = Some (fin, ?buf)"
      using l(1) True fmt_write_Formatted [of h buf msg] hb(2)
      by (simp add: format_body_def Let_def fin_def len_def)
    have finb: "fin \<le> h + length (take (?S - h - 1) msg)" "fin \<le> h + length msg" "fin \<le> ?S - ?r"
      using fin True r by (auto simp: len_def)
    have "take fin ?buf = take fin (take (h + length ?m) ?buf)"
      using finb(1) by (simp add: min_absorb1)
    also have "\<dots> = take fin (?H @ ?m)"
      using take_overwrite [of h buf ?m] True hb(2) hH(2) by simp
    also have "\<dots> = take fin (?H @ msg)"
      using finb hH(1) by simp
    also have "\<dots> = take (?S - ?r) (?H @ msg)"
      using fin hH(1) r True by (auto simp: len_def min_def)
    finally have ft: "take fin ?buf = body_text cfg pieces msg" by (simp add: body_text_def)
    have "length ?buf = ?S" using length_overwrite [OF fit] hb(2) by simp
    moreover have "fin + ?r \<le> ?S" using fin r by simp
    ultimately show ?thesis
      using ft fb by (intro exI [of _ "(fin, ?buf)"]) (simp add: line_ok_def line_text_def)
  qed
qed

lemma c_str_cut: "c_str (s @ NUL # rest) = c_str s"
  by (induction s) (simp_all add: c_str_def)

lemma keyword_check_text:
  assumes "line_ok cfg l" "fst l < LINE_BUF_SIZE cfg"
  shows "\<exists>l'. keyword_check kw l =
      Some (kw ! 0 \<noteq> NUL \<longrightarrow> strstr (c_str (line_text l)) (c_str kw), l') \<and>
    line_ok cfg l' \<and> line_text l' = line_text l \<and> fst l' = fst l"
proof (cases "kw ! 0 = NUL")
  case True
  with assms show ?thesis by (simp add: keyword_check_def)
next
  case False
  obtain n buf where l: "l = (n, buf)" by (cases l)
  let ?buf = "overwrite buf n [NUL]"
  have b: "n < LINE_BUF_SIZE cfg" "length buf = LINE_BUF_SIZE cfg"
    using assms by (simp_all add: line_ok_def l)
  have "?buf = take n buf @ NUL # drop (n + 1) buf" by (simp add: overwrite_def)
  then have "c_str ?buf = c_str (take n buf)" by (simp add: c_str_cut)
  with False b show ?thesis
    by (simp add: keyword_check_def l mem_write_def line_ok_def line_text_def)
qed

lemma format_end_text:
  assumes "line_ok cfg l" "fst l + end_reserve cfg \<le> LINE_BUF_SIZE cfg"
  shows "\<exists>l'. format_end cfg color l = Some l' \<and> line_ok cfg l' \<and>
    line_text l' = line_text l @ (if COLOR_ENABLE cfg \<and> color then CSI_END else []) @ NEWLINE_SIGN cfg"
  using line_puts_refines [OF assms(1), of "(if COLOR_ENABLE cfg \<and> color then [CSI_END] else []) @ [NEWLINE_SIGN cfg]"]
    assms(2) length_line_text [OF assms(1)]
  by (auto simp: format_end_def end_reserve_def split: if_splits)

lemma format_body_any:
  assumes cfg: "cfg_ok cfg" and buf: "length buf0 = LINE_BUF_SIZE cfg"
  shows "\<exists>l. format_body cfg pieces fmt buf0 = Some l \<and> line_ok cfg l \<and>
    fst l + end_reserve cfg \<le> LINE_BUF_SIZE cfg"
proof (cases fmt)
  case (Formatted msg)
  with format_body_text [OF assms, of pieces msg] show ?thesis by blast
next
  case (Format_error junk)
  have r: "end_reserve cfg < LINE_BUF_SIZE cfg" "0 < end_reserve cfg"
    using cfg end_reserve_pos [OF cfg] by (simp_all add: cfg_ok_def)
  have "line_ok cfg (0, buf0)" using buf by (simp add: line_ok_def)
  from line_puts_refines [OF this, of pieces] obtain h buf where
    "line_puts cfg pieces (0, buf0) = Some (h, buf)" "h \<le> LINE_BUF_SIZE cfg"
    "length buf = LINE_BUF_SIZE cfg" by (auto simp: line_ok_def)
  with Format_error r show ?thesis
    by (auto simp: format_body_def fmt_write_def mem_write_def Let_def line_ok_def)
qed

section \<open>The logger's invariant\<close>

definition elog_ok :: "elog_cfg \<Rightarrow> elog_state \<Rightarrow> bool" where
  "elog_ok cfg s \<longleftrightarrow>
     length (el_log_buf s) = LINE_BUF_SIZE cfg \<and>
     length (el_enabled_fmt_set s) = ELOG_LVL_TOTAL_NUM \<and>
     table_ok cfg (tag_table s) \<and> ring_ok (el_async s) \<and> buf_ok (el_buf s)"

definition same_settings :: "elog_state \<Rightarrow> elog_state \<Rightarrow> bool" where
  "same_settings s s' \<longleftrightarrow>
     el_filter s' = el_filter s \<and> el_enabled_fmt_set s' = el_enabled_fmt_set s \<and>
     el_init_ok s' = el_init_ok s \<and> el_output_enabled s' = el_output_enabled s \<and>
     el_text_color_enabled s' = el_text_color_enabled s \<and> el_assert_hook s' = el_assert_hook s \<and>
     lock_enabled (el_lock s') = lock_enabled (el_lock s)"

lemma same_settings_refl [simp]: "same_settings s s"
  by (simp add: same_settings_def)

lemma same_settings_trans: "same_settings s s1 \<Longrightarrow> same_settings s1 s2 \<Longrightarrow> same_settings s s2"
  by (simp add: same_settings_def)

lemma elog_ok_frame [simp]:
  "elog_ok cfg (s\<lparr>el_lock := l\<rparr>) = elog_ok cfg s"
  "elog_ok cfg (s\<lparr>el_init_ok := b\<rparr>) = elog_ok cfg s"
  "elog_ok cfg (s\<lparr>el_output_enabled := b\<rparr>) = elog_ok cfg s"
  by (simp_all add: elog_ok_def tag_table_def)

lemma emit_ok:
  assumes "cfg_ok cfg" "elog_ok cfg s" "log \<noteq> []"
  shows "\<exists>evs s'. elog_emit cfg level log s = Inr ((), evs, s') \<and> list_all is_output evs \<and>
    elog_ok cfg s' \<and> same_settings s s' \<and> el_lock s' = el_lock s \<and>
    (OUTPUT_MODE cfg = Output_direct \<longrightarrow> evs = [Port_output log])"
proof (cases "OUTPUT_MODE cfg")
  case Output_direct
  with assms show ?thesis by (simp add: elog_emit_def is_output_def)
next
  case Output_buffered
  have "buf_ok (el_buf s)" using assms(2) by (simp add: elog_ok_def)
  then obtain outs b where "buf_output log (el_buf s) = Some (outs, b)" "buf_ok b"
    using buf_output_loop_ok [of "el_buf s" log] by (auto simp: buf_output_def)
  with assms Output_buffered show ?thesis
    by (simp add: elog_emit_def list_all_iff is_output_def elog_ok_def same_settings_def tag_table_def)
next
  case Output_async
  have ok: "ring_ok (el_async s)" using assms(2) by (simp add: elog_ok_def)
  from async_put_log_refines [OF ok assms(3)] obtain n a where
    p: "async_put_log (el_async s) log = Some (n, a)" "ring_ok a" by blast
  show ?thesis
  proof (cases "async_is_enabled (el_async s) \<and> ASYNC_OUTPUT_LVL cfg \<le> level")
    case True
    then have "async_output cfg level log (el_async s) =
        Some (None, if 0 < n then async_output_notice a else a)"
      using p(1) by (simp add: async_output_def)
    with assms p(2) Output_async show ?thesis
      by (auto simp: elog_emit_def elog_ok_def same_settings_def tag_table_def async_output_notice_def)
  next
    case False
    then have "async_output cfg level log (el_async s) = Some (Some log, el_async s)"
      by (auto simp: async_output_def)
    with assms Output_async show ?thesis
      by (auto simp: elog_emit_def elog_ok_def same_settings_def tag_table_def is_output_def)
  qed
qed

text \<open>Whether the keyword filter lets a body pass.\<close>

definition keyword_passes :: "elog_state \<Rightarrow> string \<Rightarrow> bool" where
  "keyword_passes s body \<longleftrightarrow>
     fl_keyword (el_filter s) ! 0 \<noteq> NUL \<longrightarrow>
     strstr (c_str body) (c_str (fl_keyword (el_filter s)))"

lemma output_section_ok:
  assumes cfg: "cfg_ok cfg" and ok: "elog_ok cfg s"
  shows "\<exists>evs s'. output_section cfg level pieces fmt s = Inr ((), evs, s') \<and>
    list_all is_output evs \<and> elog_ok cfg s' \<and> same_settings s s' \<and> el_lock s' = el_lock s \<and>
    (OUTPUT_MODE cfg = Output_direct \<longrightarrow> (\<forall>msg. fmt = Formatted msg \<longrightarrow>
      evs = (if keyword_passes s (body_text cfg pieces msg)
             then [Port_output (record_text cfg (el_text_color_enabled s) pieces msg)] else [])))"
proof -
  have buf: "length (el_log_buf s) = LINE_BUF_SIZE cfg" using ok by (simp add: elog_ok_def)
  obtain l where l: "format_body cfg pieces fmt (el_log_buf s) = Some l" "line_ok cfg l"
    "fst l + end_reserve cfg \<le> LINE_BUF_SIZE cfg"
    "\<forall>msg. fmt = Formatted msg \<longrightarrow> line_text l = body_text cfg pieces msg"
  proof (cases fmt)
    case (Formatted msg)
    with format_body_text [OF cfg buf, of pieces msg] that show thesis by blast
  next
    case (Format_error junk)
    with format_body_any [OF cfg buf, of pieces fmt] that show thesis by blast
  qed
  have "fst l < LINE_BUF_SIZE cfg" using l(3) end_reserve_pos [OF cfg] by simp
  from keyword_check_text [OF l(2) this, of "fl_keyword (el_filter s)"] obtain l1 where
    l1: "keyword_check (fl_keyword (el_filter s)) l = Some (keyword_passes s (line_text l), l1)"
      "line_ok cfg l1" "line_text l1 = line_text l" "fst l1 = fst l"
    by (auto simp: keyword_passes_def)
  have ok1: "elog_ok cfg (s\<lparr>el_log_buf := snd l'\<rparr>)" if "line_ok cfg l'" for l'
    using that ok by (simp add: elog_ok_def line_ok_def tag_table_def)
  show ?thesis
  proof (cases "keyword_passes s (line_text l)")
    case False
    with l l1 ok1 [OF l1(2)] show ?thesis
      by (auto simp: output_section_def ret_def same_settings_def)
  next
    case True
    from format_end_text [OF l1(2), of "el_text_color_enabled s"] l(3) l1(3,4) obtain l2 where
      l2: "format_end cfg (el_text_color_enabled s) l1 = Some l2" "line_ok cfg l2"
        "line_text l2 = line_text l @
           (if COLOR_ENABLE cfg \<and> el_text_color_enabled s then CSI_END else []) @ NEWLINE_SIGN cfg"
      by auto
    let ?s = "s\<lparr>el_log_buf := snd l2\<rparr>"
    have ne: "line_text l2 \<noteq> []" using l2(3) cfg by (simp add: cfg_ok_def)
    from emit_ok [OF cfg ok1 [OF l2(2)] ne, of level] obtain evs s' where
      e: "elog_emit cfg level (line_text l2) ?s = Inr ((), evs, s')" "list_all is_output evs"
        "elog_ok cfg s'" "same_settings ?s s'" "el_lock s' = el_lock ?s"
        "OUTPUT_MODE cfg = Output_direct \<longrightarrow> evs = [Port_output (line_text l2)]" by blast
    have "emit_line cfg level (fst l2) ?s = Inr ((), evs, s')"
      using l2(2) e(1) by (simp add: emit_line_def mem_read_def line_ok_def line_text_def)
    then have "output_section cfg level pieces fmt s = Inr ((), evs, s')"
      using l(1) l1(1) l2(1) True by (simp add: output_section_def)
    moreover have "same_settings s s'" using e(4) by (simp add: same_settings_def)
    moreover have "fmt = Formatted msg \<Longrightarrow> line_text l2 = record_text cfg (el_text_color_enabled s) pieces msg"
      for msg
      using l(4) l2(3) by (simp add: record_text_def)
    moreover have "fmt = Formatted msg \<Longrightarrow> keyword_passes s (body_text cfg pieces msg)" for msg
      using l(4) True by simp
    ultimately show ?thesis using e by auto
  qed
qed

section \<open>elog_output\<close>

text \<open>The filters of level and tag, as conditions on the state.\<close>

definition tag_level :: "elog_cfg \<Rightarrow> string \<Rightarrow> elog_state \<Rightarrow> nat" where
  "tag_level cfg tag s =
     (if el_init_ok s
      then case table_map (tag_table s) (tag_key cfg tag) of
             Some l \<Rightarrow> l | None \<Rightarrow> ELOG_FILTER_LVL_ALL
      else ELOG_FILTER_LVL_ALL)"

definition filters_pass :: "elog_cfg \<Rightarrow> nat \<Rightarrow> string \<Rightarrow> elog_state \<Rightarrow> bool" where
  "filters_pass cfg level tag s \<longleftrightarrow>
     el_output_enabled s \<and> level \<le> fl_level (el_filter s) \<and> level \<le> tag_level cfg tag s \<and>
     strstr tag (c_str (fl_tag (el_filter s)))"

definition port_outputs :: "port_event list \<Rightarrow> char list list" where
  "port_outputs evs = concat (map (\<lambda>ev. case ev of Port_output log \<Rightarrow> [log] | _ \<Rightarrow> []) evs)"

lemma port_outputs_simps [simp]:
  "port_outputs [] = []" "port_outputs (Port_lock # evs) = port_outputs evs"
  "port_outputs (Port_unlock # evs) = port_outputs evs"
  "port_outputs (Port_output log # evs) = log # port_outputs evs"
  "port_outputs (evs @ evs') = port_outputs evs @ port_outputs evs'"
  by (simp_all add: port_outputs_def)

text \<open>The calls around a lookup in the table: the port's lock, and the switchable unlock.\<close>

definition lookup_events :: "elog_state \<Rightarrow> port_event list" where
  "lookup_events s =
     (if el_init_ok s then Port_lock # (if lock_enabled (el_lock s) then [Port_unlock] else []) else [])"

lemma get_filter_tag_lvl_run:
  assumes "elog_ok cfg s"
  obtains s1 where "elog_get_filter_tag_lvl cfg tag s = Inr (tag_level cfg tag s, lookup_events s, s1)"
    "same_settings s s1" "elog_ok cfg s1"
proof -
  have "table_ok cfg (tag_table s)" using assms by (simp add: elog_ok_def)
  note get = table_get_map [OF this, of tag]
  show thesis
  proof (cases "el_init_ok s")
    case True
    with get assms show thesis
      by (intro that [of "s\<lparr>el_lock := snd (output_unlock (el_lock s))\<rparr>"])
        (auto simp: elog_get_filter_tag_lvl_def ebind_def ret_def elog_port_output_lock_def
          elog_output_unlock_def output_unlock_def tag_level_def lookup_events_def tag_table_def
          same_settings_def)
  next
    case False
    with assms show thesis
      by (intro that [of s])
        (auto simp: elog_get_filter_tag_lvl_def ret_def tag_level_def lookup_events_def)
  qed
qed

lemma elog_output_lock_run:
  "\<exists>s1. elog_output_lock s = Inr ((), fst (output_lock (el_lock s)), s1) \<and> same_settings s s1 \<and>
     el_lock s1 = snd (output_lock (el_lock s)) \<and> elog_ok cfg s1 = elog_ok cfg s"
  by (auto simp: elog_output_lock_def same_settings_def output_lock_def)

lemma elog_output_unlock_run:
  "\<exists>s1. elog_output_unlock s = Inr ((), fst (output_unlock (el_lock s)), s1) \<and> same_settings s s1 \<and>
     elog_ok cfg s1 = elog_ok cfg s"
  by (auto simp: elog_output_unlock_def same_settings_def output_unlock_def)

lemma header_pieces_frame:
  "same_settings s s' \<Longrightarrow> header_pieces cfg env level tag src_file func line s' =
     header_pieces cfg env level tag src_file func line s"
  by (simp add: same_settings_def header_pieces_def get_fmt_enabled_def info_pieces_def place_pieces_def)

text \<open>A locked section around something that only prints.\<close>

lemma locked_section_run:
  assumes "\<And>s1. same_settings s s1 \<Longrightarrow> elog_ok cfg s1 \<Longrightarrow>
      \<exists>evs s2. m s1 = Inr ((), evs, s2) \<and> list_all is_output evs \<and> elog_ok cfg s2 \<and>
        same_settings s1 s2 \<and> Q evs"
    and "elog_ok cfg s"
  shows "\<exists>evs s'. ebind elog_output_lock (\<lambda>_. ebind m (\<lambda>_. elog_output_unlock)) s =
      Inr ((), (if lock_enabled (el_lock s) then Port_lock # evs @ [Port_unlock] else evs), s') \<and>
    list_all is_output evs \<and> elog_ok cfg s' \<and> same_settings s s' \<and> Q evs"
proof -
  from elog_output_lock_run [of s cfg] obtain s1 where
    s1: "elog_output_lock s = Inr ((), fst (output_lock (el_lock s)), s1)" "same_settings s s1"
      "elog_ok cfg s1" using assms(2) by auto
  from assms(1) [OF s1(2,3)] obtain evs s2 where
    s2: "m s1 = Inr ((), evs, s2)" "list_all is_output evs" "elog_ok cfg s2" "same_settings s1 s2" "Q evs"
    by blast
  from elog_output_unlock_run [of s2 cfg] obtain s3 where
    s3: "elog_output_unlock s2 = Inr ((), fst (output_unlock (el_lock s2)), s3)" "same_settings s2 s3"
      "elog_ok cfg s3" using s2(3) by auto
  have eq: "lock_enabled (el_lock s2) = lock_enabled (el_lock s)"
    using same_settings_trans [OF s1(2) s2(4)] by (simp add: same_settings_def)
  have "same_settings s s3"
    using same_settings_trans [OF same_settings_trans [OF s1(2) s2(4)] s3(2)] .
  moreover have "ebind elog_output_lock (\<lambda>_. ebind m (\<lambda>_. elog_output_unlock)) s =
      Inr ((), fst (output_lock (el_lock s)) @ evs @ fst (output_unlock (el_lock s2)), s3)"
    by (simp add: ebind_def s1(1) s2(1) s3(1))
  ultimately show ?thesis
    using s2 s3(3) elog_lock.section_events [OF eq, of evs] by auto
qed

lemma elog_output_run:
  assumes cfg: "cfg_ok cfg" and ok: "elog_ok cfg s" and lvl: "level \<le> ELOG_LVL_VERBOSE"
  obtains
    (dropped) s' pre where "\<not> filters_pass cfg level tag s"
      "elog_output cfg env level tag src_file func line fmt s = Inr ((), pre, s')"
      "pre \<in> {[], lookup_events s}" "elog_ok cfg s'" "same_settings s s'"
  | (formatted) evs s' where "filters_pass cfg level tag s"
      "elog_output cfg env level tag src_file func line fmt s =
         Inr ((), lookup_events s @
           (if lock_enabled (el_lock s) then Port_lock # evs @ [Port_unlock] else evs), s')"
      "list_all is_output evs" "elog_ok cfg s'" "same_settings s s'"
      "OUTPUT_MODE cfg = Output_direct \<longrightarrow> (\<forall>msg. fmt = Formatted msg \<longrightarrow>
        evs = (let pieces = header_pieces cfg env level tag src_file func line s in
               if keyword_passes s (body_text cfg pieces msg)
               then [Port_output (record_text cfg (el_text_color_enabled s) pieces msg)] else []))"
proof -
  have unfold: "elog_output cfg env level tag src_file func line fmt s =
      (if \<not> el_output_enabled s then ret () s
       else if level > fl_level (el_filter s) then ret () s
       else ebind (elog_get_filter_tag_lvl cfg tag) (\<lambda>tag_lvl s.
         if level > tag_lvl then ret () s
         else if \<not> strstr tag (c_str (fl_tag (el_filter s))) then ret () s
         else if length (el_enabled_fmt_set s) \<le> level then stop Memory_fault s
         else ebind elog_output_lock (\<lambda>_ s.
              ebind (output_section cfg level (header_pieces cfg env level tag src_file func line s) fmt)
                (\<lambda>_. elog_output_unlock) s) s) s)"
    using lvl by (simp add: elog_output_def)
  show thesis
  proof (cases "el_output_enabled s \<and> level \<le> fl_level (el_filter s)")
    case False
    then have "elog_output cfg env level tag src_file func line fmt s = Inr ((), [], s)"
      by (auto simp: unfold ret_def)
    with False ok show thesis by (intro dropped [of "[]" s]) (auto simp: filters_pass_def)
  next
    case on: True
    from get_filter_tag_lvl_run [OF ok, of tag] obtain s1 where
      s1: "elog_get_filter_tag_lvl cfg tag s = Inr (tag_level cfg tag s, lookup_events s, s1)"
        "same_settings s s1" "elog_ok cfg s1" by blast
    have f: "el_filter s1 = el_filter s" using s1(2) by (simp add: same_settings_def)
    show thesis
    proof (cases "level \<le> tag_level cfg tag s \<and> strstr tag (c_str (fl_tag (el_filter s)))")
      case False
      then have "elog_output cfg env level tag src_file func line fmt s = Inr ((), lookup_events s, s1)"
        using on f by (auto simp: unfold ebind_def s1(1) ret_def)
      with False on s1 show thesis by (intro dropped [of "lookup_events s" s1]) (auto simp: filters_pass_def)
    next
      case True
      have pass: "filters_pass cfg level tag s" using on True by (simp add: filters_pass_def)
      have len: "\<not> length (el_enabled_fmt_set s1) \<le> level"
        using s1(3) lvl by (simp add: elog_ok_def elog_levels)
      let ?P = "header_pieces cfg env level tag src_file func line"
      let ?m = "\<lambda>s. output_section cfg level (?P s) fmt s"
      have sec: "\<exists>evs s2. ?m s2' = Inr ((), evs, s2) \<and> list_all is_output evs \<and> elog_ok cfg s2 \<and>
          same_settings s2' s2 \<and>
          (OUTPUT_MODE cfg = Output_direct \<longrightarrow> (\<forall>msg. fmt = Formatted msg \<longrightarrow>
            evs = (let pieces = ?P s in
               if keyword_passes s (body_text cfg pieces msg)
               then [Port_output (record_text cfg (el_text_color_enabled s) pieces msg)] else [])))"
        if "same_settings s1 s2'" "elog_ok cfg s2'" for s2'
      proof -
        have s: "same_settings s s2'" using s1(2) that(1) by (rule same_settings_trans)
        then have "?P s2' = ?P s" by (rule header_pieces_frame)
        moreover have "keyword_passes s2' = keyword_passes s"
          "el_text_color_enabled s2' = el_text_color_enabled s"
          using s by (simp_all add: keyword_passes_def same_settings_def fun_eq_iff)
        ultimately show ?thesis
          using output_section_ok [OF cfg that(2), of level "?P s2'" fmt] by (auto simp: Let_def)
      qed
      from locked_section_run [OF sec s1(3)] obtain evs s' where
        e: "ebind elog_output_lock (\<lambda>_. ebind ?m (\<lambda>_. elog_output_unlock)) s1 =
            Inr ((), (if lock_enabled (el_lock s1) then Port_lock # evs @ [Port_unlock] else evs), s')"
          "list_all is_output evs" "elog_ok cfg s'" "same_settings s1 s'"
          "OUTPUT_MODE cfg = Output_direct \<longrightarrow> (\<forall>msg. fmt = Formatted msg \<longrightarrow>
            evs = (let pieces = ?P s in
               if keyword_passes s (body_text cfg pieces msg)
               then [Port_output (record_text cfg (el_text_color_enabled s) pieces msg)] else []))"
        by blast
      have inner: "(\<lambda>_ s. ebind (output_section cfg level (?P s) fmt) (\<lambda>_. elog_output_unlock) s) =
          (\<lambda>_. ebind ?m (\<lambda>_. elog_output_unlock))"
        by (simp add: fun_eq_iff ebind_def)
      have "elog_output cfg env level tag src_file func line fmt s =
          Inr ((), lookup_events s @
            (if lock_enabled (el_lock s1) then Port_lock # evs @ [Port_unlock] else evs), s')"
        using on True f len e(1)
        by (simp add: unfold ebind_def [of "elog_get_filter_tag_lvl cfg tag"] s1(1) inner)
      moreover have "lock_enabled (el_lock s1) = lock_enabled (el_lock s)"
        using s1(2) by (simp add: same_settings_def)
      ultimately show thesis
        using pass e same_settings_trans [OF s1(2) e(4)] by (intro formatted) auto
    qed
  qed
qed

section \<open>What elog_output promises\<close>

lemma record_text_bound:
  assumes "cfg_ok cfg"
  shows "length (record_text cfg color pieces msg) \<le> LINE_BUF_SIZE cfg"
proof -
  have "length (body_text cfg pieces msg) \<le> LINE_BUF_SIZE cfg - end_reserve cfg"
    unfolding body_text_def length_take by simp
  with assms show ?thesis by (auto simp: record_text_def cfg_ok_def end_reserve_def)
qed

lemma port_outputs_list: "list_all is_output evs \<Longrightarrow> map Port_output (port_outputs evs) = evs"
  by (induction evs) (auto simp: is_output_def split: port_event.splits)

lemma port_outputs_lookup [simp]: "port_outputs (lookup_events s) = []"
  by (simp add: lookup_events_def)

text \<open>
  C9: with direct output, on every well-formed logger, a call of \<open>elog_output\<close> returns and
  prints exactly one record, or none when the level, tag or keyword filter rejects it; the
  record is the header and message cut so that the end sequence fits, followed by the colour
  end sequence and the newline sign, and never longer than the line buffer.
\<close>

theorem elog_output_prints_record:
  assumes "cfg_ok cfg" and "OUTPUT_MODE cfg = Output_direct" and "elog_ok cfg s"
    and "level \<le> ELOG_LVL_VERBOSE"
  shows "\<exists>evs s'. elog_output cfg env level tag src_file func line (Formatted msg) s = Inr ((), evs, s') \<and>
      elog_ok cfg s' \<and>
      port_outputs evs =
        (let pieces = header_pieces cfg env level tag src_file func line s in
         if filters_pass cfg level tag s \<and> keyword_passes s (body_text cfg pieces msg)
         then [record_text cfg (el_text_color_enabled s) pieces msg] else []) \<and>
      (\<forall>out \<in> set (port_outputs evs). length out \<le> LINE_BUF_SIZE cfg)"
  using assms(1,3,4)
proof (cases rule: elog_output_run [where tag = tag and env = env and src_file = src_file and func = func
      and line = line and fmt = "Formatted msg"])
  case (dropped s' pre)
  then show ?thesis by (auto simp: Let_def)
next
  case (formatted evs s')
  then show ?thesis using assms(2) record_text_bound [OF assms(1)] by (auto simp: Let_def)
qed

definition service_example :: elog_state where
  "service_example =
     (elog_initial service_cfg)\<lparr>el_output_enabled := True,
        el_filter := (el_filter (elog_initial service_cfg))\<lparr>fl_level := 5\<rparr>\<rparr>"

lemma elog_initial_ok:
  assumes "cfg_ok cfg"
  shows "elog_ok cfg (elog_initial cfg)"
proof -
  have "tag_table (elog_initial cfg) = replicate (FILTER_TAG_LVL_MAX_NUM cfg) (unused_tag_lvl cfg)"
    by (simp add: tag_table_def elog_initial_def unused_tag_lvl_def elog_levels)
  with assms show ?thesis
    by (simp add: elog_ok_def default_table_ok ring_ok_init cfg_ok_def)
      (simp add: elog_initial_def ring_ok_init buf_ok_def buf_initial_def)
qed

lemma service_example_ok: "elog_ok service_cfg service_example"
  using elog_initial_ok [OF shipped_cfg_ok(2)]
  by (simp add: service_example_def elog_ok_def tag_table_def)

lemma elog_output_prints_record_witness:
  "\<exists>evs s'. elog_output service_cfg \<lparr>env_time = [], env_p_info = [], env_t_info = []\<rparr> 3 ''can''
        ''main.c'' ''main'' 10 (Formatted ''up'') service_example = Inr ((), evs, s') \<and>
      elog_ok service_cfg s' \<and>
      port_outputs evs =
        (let pieces = header_pieces service_cfg \<lparr>env_time = [], env_p_info = [], env_t_info = []\<rparr> 3
                ''can'' ''main.c'' ''main'' 10 service_example in
         if filters_pass service_cfg 3 ''can'' service_example \<and>
            keyword_passes service_example (body_text service_cfg pieces ''up'')
         then [record_text service_cfg (el_text_color_enabled service_example) pieces ''up''] else [])"
proof -
  have "OUTPUT_MODE service_cfg = Output_direct" "3 \<le> ELOG_LVL_VERBOSE"
    by (simp_all add: service_cfg_def ELOG_LVL_VERBOSE_def)
  from elog_output_prints_record [OF shipped_cfg_ok(2) this(1) service_example_ok this(2)]
  show ?thesis by blast
qed

lemma lookup_events_serialized:
  "lock_enabled (el_lock s) \<Longrightarrow> serialized (lookup_events s)"
  using critical_section_serialized [of "[]"] by (simp add: lookup_events_def)

text \<open>
  C22: in every output mode and whatever \<open>vsnprintf\<close> returns, a call of \<open>elog_output\<close> with a
  valid level neither accesses memory outside its arrays nor stops, keeps the logger well
  formed, and, while the output lock is enabled, takes and releases the port's mutex in turn
  and prints only while holding it.
\<close>

theorem elog_output_safe_and_serialized:
  assumes "cfg_ok cfg" and "elog_ok cfg s" and "level \<le> ELOG_LVL_VERBOSE"
    and "lock_enabled (el_lock s)"
  shows "\<exists>evs s'. elog_output cfg env level tag src_file func line fmt s = Inr ((), evs, s') \<and>
      elog_ok cfg s' \<and> serialized evs \<and> lock_enabled (el_lock s')"
  using assms(1-3)
proof (cases rule: elog_output_run [where tag = tag and env = env and src_file = src_file and func = func
      and line = line and fmt = fmt])
  case (dropped s' pre)
  then show ?thesis using assms(4) lookup_events_serialized [of s] by (auto simp: same_settings_def)
next
  case (formatted evs s')
  have "serialized (lookup_events s @ Port_lock # evs @ [Port_unlock])"
    using lookup_events_serialized [OF assms(4)] critical_section_serialized [OF formatted(3)]
    by (rule serialized_append)
  with formatted assms(4) show ?thesis by (auto simp: same_settings_def)
qed

lemma elog_output_safe_and_serialized_witness:
  "\<exists>evs s'. elog_output service_cfg \<lparr>env_time = [], env_p_info = [], env_t_info = []\<rparr> 3 ''can''
        ''main.c'' ''main'' 10 (Format_error ''x'')
        (service_example\<lparr>el_lock := lock_initial\<lparr>lock_enabled := True\<rparr>\<rparr>) = Inr ((), evs, s') \<and>
      elog_ok service_cfg s' \<and> serialized evs \<and> lock_enabled (el_lock s')"
  by (rule elog_output_safe_and_serialized [OF shipped_cfg_ok(2)])
    (simp_all add: service_example_ok ELOG_LVL_VERBOSE_def)

lemma filters_pass_frame:
  "same_settings s s' \<Longrightarrow> filters_pass cfg level tag s' = filters_pass cfg level tag s"
  by (simp add: same_settings_def filters_pass_def tag_level_def tag_table_def)

lemma lookup_leaks:
  assumes "cfg_ok cfg" "elog_ok cfg s" "level \<le> ELOG_LVL_VERBOSE" "el_init_ok s"
    and "\<not> lock_enabled (el_lock s)" "filters_pass cfg level tag s"
    and "elog_output cfg env level tag src_file func line fmt s = Inr ((), evs, s')"
  shows "\<exists>outs. evs = Port_lock # outs \<and> list_all is_output outs \<and> same_settings s s' \<and> elog_ok cfg s'"
  using assms(1-3)
proof (cases rule: elog_output_run [where tag = tag and env = env and src_file = src_file and func = func
      and line = line and fmt = fmt])
  case (dropped s'' pre)
  with assms(6) show ?thesis by simp
next
  case (formatted evs' s'')
  with assms(4,5,7) show ?thesis by (auto simp: lookup_events_def)
qed

text \<open>
  With the output lock disabled the lookup of the tag's level takes the port's mutex but
  releases it through the disabled unlock, so it stays held: the first record that passes the
  filters leaves the mutex locked, and the second one locks it again and never returns.
\<close>

theorem disabled_lock_deadlocks_second_record:
  assumes "cfg_ok cfg" and "elog_ok cfg s" and "level \<le> ELOG_LVL_VERBOSE" and "el_init_ok s"
    and "\<not> lock_enabled (el_lock s)" and "filters_pass cfg level tag s"
    and "elog_output cfg env level tag src_file func line fmt s = Inr ((), evs1, s1)"
    and "elog_output cfg env level tag src_file func line fmt s1 = Inr ((), evs2, s2)"
  shows "mutex_run False evs1 = Some True \<and> mutex_run False (evs1 @ evs2) = None"
proof -
  from lookup_leaks [OF assms(1-7)] obtain outs1 where
    l1: "evs1 = Port_lock # outs1" "list_all is_output outs1" "same_settings s s1" "elog_ok cfg s1"
    by blast
  have "el_init_ok s1" "\<not> lock_enabled (el_lock s1)" "filters_pass cfg level tag s1"
    using l1(3) assms(4-6) filters_pass_frame [OF l1(3)] by (simp_all add: same_settings_def)
  from lookup_leaks [OF assms(1) l1(4) assms(3) this assms(8)] obtain outs2 where
    "evs2 = Port_lock # outs2" by blast
  with l1(1) outputs_only_run [OF l1(2)] show ?thesis by (simp add: mutex_run_append)
qed

definition unlocked_example :: elog_state where
  "unlocked_example = service_example\<lparr>el_init_ok := True\<rparr>"

lemma unlocked_example_ok: "elog_ok service_cfg unlocked_example"
  by (simp add: unlocked_example_def service_example_ok)

lemma unlocked_example_passes: "filters_pass service_cfg 3 ''can'' unlocked_example"
proof -
  have "tag_table unlocked_example = replicate 5 (unused_tag_lvl service_cfg)"
    by (simp add: tag_table_def unlocked_example_def service_example_def elog_initial_def
        unused_tag_lvl_def elog_levels) (simp add: service_cfg_def)
  then have "table_map (tag_table unlocked_example) = Map.empty"
    by (simp add: table_map_def)
  then show ?thesis
    by (simp add: filters_pass_def tag_level_def elog_levels)
      (simp add: unlocked_example_def service_example_def elog_initial_def c_str_def)
qed

lemma elog_output_returns:
  assumes "cfg_ok cfg" "elog_ok cfg s" "level \<le> ELOG_LVL_VERBOSE"
  shows "\<exists>evs s'. elog_output cfg env level tag src_file func line fmt s = Inr ((), evs, s') \<and>
    elog_ok cfg s' \<and> same_settings s s'"
  using assms
  by (cases rule: elog_output_run [where tag = tag and env = env and src_file = src_file
      and func = func and line = line and fmt = fmt]) blast+

lemma disabled_lock_deadlocks_second_record_witness:
  "\<exists>evs1 s1 evs2 s2.
     elog_output service_cfg \<lparr>env_time = [], env_p_info = [], env_t_info = []\<rparr> 3 ''can'' ''main.c''
       ''main'' 10 (Formatted ''up'') unlocked_example = Inr ((), evs1, s1) \<and>
     elog_output service_cfg \<lparr>env_time = [], env_p_info = [], env_t_info = []\<rparr> 3 ''can'' ''main.c''
       ''main'' 10 (Formatted ''up'') s1 = Inr ((), evs2, s2) \<and>
     mutex_run False evs1 = Some True \<and> mutex_run False (evs1 @ evs2) = None"
proof -
  let ?out = "elog_output service_cfg \<lparr>env_time = [], env_p_info = [], env_t_info = []\<rparr> 3 ''can''
       ''main.c'' ''main'' 10 (Formatted ''up'')"
  have lvl: "3 \<le> ELOG_LVL_VERBOSE" by (simp add: ELOG_LVL_VERBOSE_def)
  note run = elog_output_returns [OF shipped_cfg_ok(2) _ lvl]
  from run [OF unlocked_example_ok] obtain evs1 s1 where
    1: "?out unlocked_example = Inr ((), evs1, s1)" "elog_ok service_cfg s1" by blast
  from run [OF 1(2)] obtain evs2 s2 where 2: "?out s1 = Inr ((), evs2, s2)" by blast
  have "el_init_ok unlocked_example" "\<not> lock_enabled (el_lock unlocked_example)"
    by (simp_all add: unlocked_example_def service_example_def elog_initial_def lock_initial_def)
  from disabled_lock_deadlocks_second_record [OF shipped_cfg_ok(2) unlocked_example_ok lvl this
      unlocked_example_passes 1(1) 2] 1 2
  show ?thesis by blast
qed

section \<open>Initialisation and raw records\<close>

lemma ring_ok_async_init: "ring_ok a \<Longrightarrow> ring_ok (async_init a)"
  by simp

text \<open>
  The first \<open>elog_init\<close> brings the zero-initialised logger into its defaults without a call
  to the port: well formed, output lock enabled, text colour off, every level and every tag
  let through; and a second call changes nothing.
\<close>

theorem elog_init_defaults:
  assumes "cfg_ok cfg"
  shows "\<exists>s. elog_init cfg (elog_initial cfg) = Inr ((), [], s) \<and> elog_ok cfg s \<and>
      el_init_ok s \<and> lock_enabled (el_lock s) \<and>
      fl_level (el_filter s) = ELOG_LVL_VERBOSE \<and> \<not> el_text_color_enabled s \<and>
      (\<forall>tag. tag_level cfg tag s = ELOG_FILTER_LVL_ALL) \<and>
      elog_init cfg s = Inr ((), [], s)"
proof -
  define a where "a = (if OUTPUT_MODE cfg = Output_async then async_init (async_initial cfg)
      else async_initial cfg)"
  define s where "s = (elog_initial cfg)\<lparr>el_async := a,
      el_lock := \<lparr>lock_enabled = True, locked_before_enable = False, locked_before_disable = False\<rparr>,
      el_filter := (el_filter (elog_initial cfg))\<lparr>fl_level := ELOG_LVL_VERBOSE,
        fl_tag_lvl := replicate (FILTER_TAG_LVL_MAX_NUM cfg) (unused_tag_lvl cfg)\<rparr>, el_init_ok := True\<rparr>"
  have run: "elog_init cfg (elog_initial cfg) = Inr ((), [], s)"
    by (auto simp: elog_init_def ebind_def elog_port_init_def ret_def elog_output_lock_enabled_def
        output_lock_enabled_def elog_set_filter_lvl_def elog_set_filter_tag_lvl_default_def
        elog_set_text_color_enabled_def s_def a_def elog_initial_def lock_initial_def Let_def
        map_replicate_const)
  have table: "tag_table s = replicate (FILTER_TAG_LVL_MAX_NUM cfg) (unused_tag_lvl cfg)"
    by (simp add: tag_table_def s_def)
  have "elog_ok cfg s"
    using elog_initial_ok [OF assms]
    by (simp add: elog_ok_def table default_table_ok)
      (simp add: s_def a_def elog_initial_def ring_ok_init cfg_ok_def)
  moreover have "table_map (tag_table s) = Map.empty" by (simp add: table table_map_def)
  then have "tag_level cfg tag s = ELOG_FILTER_LVL_ALL" for tag by (simp add: tag_level_def)
  moreover have "el_init_ok s" "lock_enabled (el_lock s)"
    "fl_level (el_filter s) = ELOG_LVL_VERBOSE" "\<not> el_text_color_enabled s"
    by (simp_all add: s_def elog_initial_def)
  moreover have "elog_init cfg s = Inr ((), [], s)"
    by (simp add: elog_init_def ret_def s_def)
  ultimately show ?thesis using run by blast
qed

lemma elog_init_defaults_witness:
  "\<exists>s. elog_init service_cfg (elog_initial service_cfg) = Inr ((), [], s) \<and> elog_ok service_cfg s \<and>
      el_init_ok s \<and> lock_enabled (el_lock s) \<and>
      fl_level (el_filter s) = ELOG_LVL_VERBOSE \<and> \<not> el_text_color_enabled s \<and>
      (\<forall>tag. tag_level service_cfg tag s = ELOG_FILTER_LVL_ALL) \<and>
      elog_init service_cfg s = Inr ((), [], s)"
  by (rule elog_init_defaults [OF shipped_cfg_ok(2)])

text \<open>The text \<open>elog_raw\<close> prints: a long one is cut, and its last character is the final NUL.\<close>

definition raw_text :: "elog_cfg \<Rightarrow> string \<Rightarrow> char list" where
  "raw_text cfg msg =
     (if length msg < LINE_BUF_SIZE cfg then msg else take (LINE_BUF_SIZE cfg - 1) msg @ [NUL])"

lemma raw_line:
  assumes "0 < LINE_BUF_SIZE cfg" "length buf = LINE_BUF_SIZE cfg"
  obtains buf' where "fmt_write buf 0 (LINE_BUF_SIZE cfg) (Formatted msg) = Some buf'"
    "length buf' = LINE_BUF_SIZE cfg"
    "mem_read buf' 0 (if length msg \<le> LINE_BUF_SIZE cfg then length msg else LINE_BUF_SIZE cfg) =
       Some (raw_text cfg msg)"
proof -
  let ?S = "LINE_BUF_SIZE cfg"
  let ?xs = "take (?S - 1) msg @ [NUL]"
  have fit: "0 + length ?xs \<le> length buf" using assms by auto
  have w: "fmt_write buf 0 ?S (Formatted msg) = Some (overwrite buf 0 ?xs)"
    using assms fit by (simp add: fmt_write_def mem_write_def)
  show thesis
  proof (rule that [OF w])
    show "length (overwrite buf 0 ?xs) = ?S" using length_overwrite [OF fit] assms(2) by simp
    then show "mem_read (overwrite buf 0 ?xs) 0 (if length msg \<le> ?S then length msg else ?S) =
        Some (raw_text cfg msg)"
      using assms by (auto simp: mem_read_def overwrite_def raw_text_def not_less min_def)
  qed
qed

text \<open>
  With direct output, \<open>elog_raw\<close> of a text shorter than the line buffer prints exactly the
  text under the lock, and of a longer one its first characters with a NUL in the last place.
\<close>

theorem elog_raw_prints:
  assumes "cfg_ok cfg" and "OUTPUT_MODE cfg = Output_direct" and "elog_ok cfg s"
    and "el_output_enabled s"
  shows "\<exists>evs s'. elog_raw cfg (Formatted msg) s = Inr ((), evs, s') \<and> elog_ok cfg s' \<and>
      port_outputs evs = [raw_text cfg msg] \<and>
      (lock_enabled (el_lock s) \<longrightarrow> serialized evs)"
proof -
  let ?m = "\<lambda>s. case fmt_write (el_log_buf s) 0 (LINE_BUF_SIZE cfg) (Formatted msg) of
               None \<Rightarrow> stop Memory_fault s
             | Some buf \<Rightarrow>
                 emit_line cfg ELOG_LVL_ASSERT
                   (if length msg \<le> LINE_BUF_SIZE cfg then length msg else LINE_BUF_SIZE cfg)
                   (s\<lparr>el_log_buf := buf\<rparr>)"
  have raw: "elog_raw cfg (Formatted msg) s =
      ebind elog_output_lock (\<lambda>_. ebind ?m (\<lambda>_. elog_output_unlock)) s"
    using assms(4) unfolding elog_raw_def formatted.case by simp
  have sec: "\<exists>evs s2. ?m s1 = Inr ((), evs, s2) \<and> list_all is_output evs \<and> elog_ok cfg s2 \<and>
      same_settings s1 s2 \<and> evs = [Port_output (raw_text cfg msg)]"
    if "same_settings s s1" "elog_ok cfg s1" for s1
  proof -
    have "0 < LINE_BUF_SIZE cfg" "length (el_log_buf s1) = LINE_BUF_SIZE cfg"
      using assms(1) that(2) by (simp_all add: cfg_ok_def elog_ok_def)
    from raw_line [OF this, of msg] obtain buf where
      "fmt_write (el_log_buf s1) 0 (LINE_BUF_SIZE cfg) (Formatted msg) = Some buf"
      "length buf = LINE_BUF_SIZE cfg"
      "mem_read buf 0 (if length msg \<le> LINE_BUF_SIZE cfg then length msg else LINE_BUF_SIZE cfg) =
        Some (raw_text cfg msg)" by blast
    with that(2) assms(2) show ?thesis
      by (simp add: emit_line_def elog_emit_def is_output_def elog_ok_def same_settings_def tag_table_def)
  qed
  from locked_section_run [OF sec assms(3)] obtain evs s' where
    r: "elog_raw cfg (Formatted msg) s = Inr ((),
          (if lock_enabled (el_lock s) then Port_lock # evs @ [Port_unlock] else evs), s')"
      "elog_ok cfg s'" "evs = [Port_output (raw_text cfg msg)]"
    unfolding raw by blast
  then show ?thesis
    using critical_section_serialized [of evs] by (simp add: is_output_def)
qed

lemma elog_raw_prints_witness:
  "\<exists>evs s'. elog_raw service_cfg (Formatted ''boot'') service_example = Inr ((), evs, s') \<and>
      elog_ok service_cfg s' \<and> port_outputs evs = [raw_text service_cfg ''boot'']"
proof -
  have "OUTPUT_MODE service_cfg = Output_direct" "el_output_enabled service_example"
    by (simp_all add: service_cfg_def service_example_def)
  from elog_raw_prints [OF shipped_cfg_ok(2) this(1) service_example_ok this(2)]
  show ?thesis by blast
qed

text \<open>
  When \<open>vsnprintf\<close> fails, \<open>elog_raw\<close> prints the whole line buffer, whatever earlier records left
  in it.
\<close>

lemma elog_raw_prints_stale_buffer:
  assumes "OUTPUT_MODE cfg = Output_direct" "elog_ok cfg s" "el_output_enabled s"
  shows "\<exists>evs s'. elog_raw cfg (Format_error []) s = Inr ((), evs, s') \<and>
    port_outputs evs = [el_log_buf s]"
  using assms
  by (simp add: elog_raw_def ebind_def elog_output_lock_def elog_output_unlock_def fmt_write_def
      mem_write_def emit_line_def mem_read_def elog_emit_def elog_ok_def output_lock_def
      output_unlock_def)

end
