(* ===== verification/Elog_Port.thy ===== *)
theory Elog_Port
  imports Elog_Config RC_Text
begin

text \<open>
  The Linux port of EasyLogger, \<open>service/logging/easylogger_port.c\<close>: records go to standard
  error in non-blocking mode with a bounded number of retries; failures are counted and never
  logged. The answers of the system calls are arguments.
\<close>

section \<open>Health\<close>

record port_health =
  failure_count :: u64
  last_error :: int

definition health_initial :: port_health where
  "health_initial = \<lparr>failure_count = 0, last_error = 0\<rparr>"

definition record_error :: "int \<Rightarrow> port_health \<Rightarrow> port_health" where
  "record_error error_number h = h\<lparr>last_error := error_number, failure_count := failure_count h + 1\<rparr>"

definition elog_failure_count :: "port_health \<Rightarrow> u64" where "elog_failure_count h = failure_count h"
definition elog_last_error :: "port_health \<Rightarrow> int" where "elog_last_error h = last_error h"
definition elog_reset_health :: "port_health \<Rightarrow> port_health" where
  "elog_reset_health h = h\<lparr>failure_count := 0, last_error := 0\<rparr>"

definition err_EINTR :: int where "err_EINTR = 4"
definition err_EIO :: int where "err_EIO = 5"
definition err_EOVERFLOW :: int where "err_EOVERFLOW = 75"
definition O_NONBLOCK :: u32 where "O_NONBLOCK = 0x800"

section \<open>Output\<close>

text \<open>
  One answer of \<open>write\<close>: its result, and \<open>errno\<close> when that is negative. The loop of
  \<open>elog_port_output\<close> consumes one answer per turn; it returns what has been accepted, what is
  left and the health, or \<open>None\<close> when the answers run out first or one breaks the contract of
  \<open>write\<close> by accepting more than was requested.
\<close>

fun write_loop ::
  "(int \<times> int) list \<Rightarrow> char list \<Rightarrow> nat \<Rightarrow> port_health \<Rightarrow> (char list \<times> char list \<times> port_health) option" where
  "write_loop answers [] interrupted h = Some ([], [], h)"
| "write_loop [] log interrupted h = None"
| "write_loop ((count, err) # answers) log interrupted h =
     (if count > int (length log) then None
      else if count > 0
      then (case write_loop answers (drop (nat count) log) interrupted h of
              None \<Rightarrow> None
            | Some (written, rest, h') \<Rightarrow> Some (take (nat count) log @ written, rest, h'))
      else if count < 0 \<and> err = err_EINTR \<and> interrupted < 8
      then write_loop answers log (interrupted + 1) h
      else Some ([], log, record_error (if count = 0 then err_EIO else err) h))"

text \<open>
  The answers to one call: of the two or three \<open>fcntl\<close>s (\<open>Inl\<close> an error number; \<open>None\<close> success)
  and of the writes; and its effect, with the status flags of the descriptor afterwards.
\<close>

record port_io =
  io_getfl :: "int + u32"
  io_set_nonblock :: "int option"
  io_writes :: "(int \<times> int) list"
  io_restore :: "int option"

record port_effect =
  pe_written :: "char list"
  pe_unwritten :: "char list"
  pe_flags :: "u32 option"
  pe_health :: port_health

definition port_output :: "port_io \<Rightarrow> char list \<Rightarrow> port_health \<Rightarrow> port_effect option" where
  "port_output io log h =
     (case io_getfl io of
        Inl err \<Rightarrow> Some \<lparr>pe_written = [], pe_unwritten = log, pe_flags = None,
                       pe_health = record_error err h\<rparr>
      | Inr original_flags \<Rightarrow>
          let restore_flags = (original_flags AND O_NONBLOCK = 0) in
          if restore_flags \<and> io_set_nonblock io \<noteq> None
          then Some \<lparr>pe_written = [], pe_unwritten = log, pe_flags = Some original_flags,
                     pe_health = record_error (the (io_set_nonblock io)) h\<rparr>
          else (case write_loop (io_writes io) log 0 h of
                 None \<Rightarrow> None
               | Some (written, rest, h1) \<Rightarrow>
                   Some \<lparr>pe_written = written, pe_unwritten = rest,
                         pe_flags = Some (if restore_flags
                                          then if io_restore io = None then original_flags
                                               else original_flags OR O_NONBLOCK
                                          else original_flags),
                         pe_health = (if restore_flags \<and> io_restore io \<noteq> None
                                      then record_error (the (io_restore io)) h1 else h1)\<rparr>))"

definition port_lock :: "int \<Rightarrow> port_health \<Rightarrow> port_health" where
  "port_lock result h = (if result \<noteq> 0 then record_error result h else h)"

definition port_unlock :: "int \<Rightarrow> port_health \<Rightarrow> port_health" where
  "port_unlock result h = (if result \<noteq> 0 then record_error result h else h)"

section \<open>Labels\<close>

text \<open>\<open>format_identity\<close> on a buffer of \<open>capacity\<close> characters, the length of \<open>buf\<close>.\<close>

definition format_identity ::
  "char list \<Rightarrow> string \<Rightarrow> nat \<Rightarrow> port_health \<Rightarrow> char list option \<times> port_health" where
  "format_identity buf prefix identity h =
     (let capacity = length buf; prefix_size = length prefix in
      if capacity \<le> prefix_size + 1 then (Some buf, record_error err_EOVERFLOW h)
      else case mem_write buf 0 prefix of
             None \<Rightarrow> (None, h)
           | Some buf1 \<Rightarrow>
               let reversed = take 20 (digits_rev 10 identity); digits = length reversed in
               if prefix_size + digits \<ge> capacity
               then (mem_write buf1 0 [NUL], record_error err_EOVERFLOW h)
               else (case mem_write buf1 prefix_size (rev reversed) of
                       None \<Rightarrow> (None, h)
                     | Some buf2 \<Rightarrow> (mem_write buf2 (prefix_size + digits) [NUL], h)))"

text \<open>
  \<open>elog_port_get_time\<close>: the clock and calendar calls either fail with an error number (0 when
  \<open>errno\<close> was not set) or give the text of \<open>strftime\<close>, empty when it did not fit.
\<close>

definition port_get_time :: "int + string \<Rightarrow> port_health \<Rightarrow> string \<times> port_health" where
  "port_get_time answer h =
     (case answer of
        Inl err \<Rightarrow> ([], record_error (if err = 0 then err_EIO else err) h)
      | Inr label \<Rightarrow>
          if label = [] then ([], record_error err_EOVERFLOW h) else (label, h))"

definition identity_buffer :: "char list" where "identity_buffer = replicate 24 NUL"

definition port_get_p_info :: "char list \<Rightarrow> nat \<Rightarrow> port_health \<Rightarrow> char list option \<times> port_health" where
  "port_get_p_info buf pid h = format_identity buf ''pid:'' pid h"

definition port_get_t_info :: "char list \<Rightarrow> int + nat \<Rightarrow> port_health \<Rightarrow> char list option \<times> port_health" where
  "port_get_t_info buf tid h =
     (case tid of Inl err \<Rightarrow> (Some [], record_error err h)
      | Inr t \<Rightarrow> format_identity buf ''tid:'' t h)"

section \<open>Correctness of the output\<close>

text \<open>The contract of \<open>write\<close>: a positive result counts characters of the request.\<close>

fun answers_valid :: "(int \<times> int) list \<Rightarrow> char list \<Rightarrow> bool" where
  "answers_valid [] log \<longleftrightarrow> True"
| "answers_valid ((count, err) # answers) log \<longleftrightarrow>
     count \<le> int (length log) \<and>
     answers_valid answers (if count > 0 then drop (nat count) log else log)"

lemma write_loop_conserves:
  "write_loop answers log interrupted h = Some (written, rest, h') \<Longrightarrow>
   log = written @ rest \<and>
   (if rest = [] then h' = h else failure_count h' = failure_count h + 1)"
proof (induction answers log interrupted h arbitrary: written rest h' rule: write_loop.induct)
  case (3 count err answers c log interrupted h)
  then show ?case
    by (auto split: if_splits option.splits simp: record_error_def)
      (metis append_take_drop_id)+
qed (auto split: if_splits)

lemma write_loop_returns:
  "length log + (8 - interrupted) < length answers \<Longrightarrow> answers_valid answers log \<Longrightarrow> \<exists>r. write_loop answers log interrupted h = Some r"
proof (induction answers log interrupted h rule: write_loop.induct)
  case (3 count err answers c log interrupted h)
  consider (positive) "count > 0" | (retry) "\<not> count > 0" "count < 0 \<and> err = err_EINTR \<and> interrupted < 8"
    | (fail) "\<not> count > 0" "\<not> (count < 0 \<and> err = err_EINTR \<and> interrupted < 8)" by blast
  then show ?case
  proof cases
    case positive
    then have "length (drop (nat count) (c # log)) + (8 - interrupted) < length answers"
      using 3(3) by (simp add: less_diff_conv2)
    moreover have "answers_valid answers (drop (nat count) (c # log))" "\<not> count > int (length (c # log))"
      using 3(4) positive by simp_all
    ultimately show ?thesis
      using 3(1) positive by (auto split: option.splits)
  next
    case retry
    have "length (c # log) + (8 - (interrupted + 1)) < length answers"
      using 3(3) retry(2) by auto
    moreover have "answers_valid answers (c # log)" "\<not> count > int (length (c # log))"
      using 3(4) retry by simp_all
    ultimately show ?thesis using 3(2) retry by simp
  next
    case fail
    with 3(4) show ?thesis by auto
  qed
qed auto

text \<open>
  Printing a record returns after at most nine answers more than it has characters; what
  was accepted and what was given up are together the record; a record given up counts as one
  failure or more; and whenever the flags could be read and restored, the descriptor has its
  original flags again.
\<close>

theorem port_output_bounded:
  assumes "length log + 8 < length (io_writes io)" and "answers_valid (io_writes io) log"
  shows "\<exists>e. port_output io log h = Some e \<and> log = pe_written e @ pe_unwritten e \<and>
      (pe_unwritten e \<noteq> [] \<longrightarrow> elog_failure_count (pe_health e) \<in>
         {failure_count h + 1, failure_count h + 2}) \<and>
      (\<forall>flags. io_getfl io = Inr flags \<and> io_restore io = None \<longrightarrow> pe_flags e = Some flags)"
proof (cases "io_getfl io")
  case (Inl err)
  then show ?thesis by (simp add: port_output_def record_error_def elog_failure_count_def)
next
  case (Inr flags)
  from write_loop_returns [of log 0 "io_writes io" h] assms obtain written rest h1 where
    w: "write_loop (io_writes io) log 0 h = Some (written, rest, h1)" by (metis diff_zero prod_cases3)
  from write_loop_conserves [OF w] have c: "log = written @ rest"
    "if rest = [] then h1 = h else failure_count h1 = failure_count h + 1" by simp_all
  show ?thesis
    using Inr w c
    by (cases "flags AND O_NONBLOCK = 0"; cases "io_set_nonblock io"; cases "io_restore io")
      (auto simp: port_output_def Let_def record_error_def elog_failure_count_def split: if_splits)
qed

definition example_io :: port_io where
  "example_io = \<lparr>io_getfl = Inr 2, io_set_nonblock = None,
     io_writes = [(2, 0), (-1, err_EINTR), (1, 0), (0, 0), (0, 0), (0, 0), (0, 0), (0, 0), (0, 0),
                  (0, 0), (0, 0), (0, 0)],
     io_restore = None\<rparr>"

lemma port_output_bounded_witness:
  "\<exists>e. port_output example_io ''abc'' health_initial = Some e \<and> ''abc'' = pe_written e @ pe_unwritten e"
proof -
  have "length ''abc'' + 8 < length (io_writes example_io)" "answers_valid (io_writes example_io) ''abc''"
    by (simp_all add: example_io_def)
  from port_output_bounded [OF this] show ?thesis by blast
qed

section \<open>Correctness of the labels\<close>

lemma set_digits_rev: "set (digits_rev 10 n) \<subseteq> digit_char ` {0..<10}"
proof (induction n rule: less_induct)
  case (less n)
  show ?case
  proof (cases "n < 10")
    case True
    then show ?thesis by (subst digits_rev.simps) auto
  next
    case False
    then have "n div 10 < n" by simp
    from less [OF this] False show ?thesis by (subst digits_rev.simps) auto
  qed
qed

lemma decimal_no_NUL: "NUL \<notin> set (decimal n)"
proof
  assume "NUL \<in> set (decimal n)"
  then obtain d where "d < 10" "NUL = digit_char d"
    using set_digits_rev [of n] by (auto simp: decimal_def)
  with digit_char_not_NUL [of d] show False by simp
qed

text \<open>
  A label is the prefix followed by the identity in decimal, without leading zeros lost or
  digits swapped: reading the digits back gives the identity; it fits the buffer for every
  identity below the bound, and nothing is recorded.
\<close>

theorem format_identity_roundtrip:
  assumes "length prefix + k < length buf" and "identity < 10 ^ k" and "0 < k" and "k \<le> 20"
    and "NUL \<notin> set prefix"
  shows "\<exists>buf'. format_identity buf prefix identity h = (Some buf', h) \<and>
      c_str buf' = prefix @ decimal identity \<and>
      value_rev 10 (rev (drop (length prefix) (c_str buf'))) = identity"
proof -
  let ?ds = "digits_rev 10 identity"
  have len: "length ?ds \<le> k" by (rule length_digits_rev) (use assms in simp_all)
  have t20: "take 20 ?ds = ?ds" using len assms(4) by simp
  let ?buf = "overwrite (overwrite (overwrite buf 0 prefix) (length prefix) (rev ?ds))
      (length prefix + length ?ds) [NUL]"
  have fit: "length prefix + length ?ds < length buf" "1 \<le> length ?ds"
    using assms(1) len by (simp_all add: Suc_leI)
  have eq: "?buf = overwrite buf 0 (prefix @ rev ?ds @ [NUL])"
    using fit overwrite_append [of 0 prefix buf "rev ?ds"]
      overwrite_append [of 0 "prefix @ rev ?ds" buf "[NUL]"] by simp
  have "format_identity buf prefix identity h = (Some ?buf, h)"
    using fit assms(1,3) by (simp add: format_identity_def Let_def t20 mem_write_def)
  moreover have "c_str ?buf = prefix @ decimal identity"
    using c_str_append_NUL [of "prefix @ decimal identity"] decimal_no_NUL [of identity] assms(5)
    unfolding eq by (simp add: overwrite_def decimal_def)
  moreover have "value_rev 10 (rev (drop (length prefix) (prefix @ decimal identity))) = identity"
    by (simp add: decimal_def value_digits_rev)
  ultimately show ?thesis by (intro exI [of _ ?buf]) simp
qed

lemma format_identity_roundtrip_witness:
  "\<exists>buf'. format_identity identity_buffer ''pid:'' 4711 health_initial = (Some buf', health_initial) \<and>
      c_str buf' = ''pid:'' @ decimal 4711 \<and>
      value_rev 10 (rev (drop (length ''pid:'') (c_str buf'))) = 4711"
  by (rule format_identity_roundtrip [of _ 19]) (simp_all add: identity_buffer_def)

end
