(* ===== verification/Service_Logger.thy ===== *)
theory Service_Logger
  imports Elog_Output Elog_Port "HOL-Library.AList"
begin

text \<open>
  \<open>src/service/logging/logger.{hpp,cpp}\<close>: the structured logger of the program.  It initialises
  EasyLogger once, writes one line for each event, and throttles repeated events by key.  The state
  is the table of throttles, next to the state of EasyLogger that every line goes through; the mutex
  makes each call atomic.  The lemmas show that throttling is the function of the history of calls
  that the header describes, that every suppressed event is counted, and that from the start of the
  program on every admitted event is printed as one record under the output lock.
\<close>

section \<open>Throttling\<close>

record throttle_state =
  ts_last_emitted :: time_ns
  ts_suppressed :: u64
  ts_initialized :: bool

definition default_throttle :: throttle_state where
  "default_throttle = \<lparr>ts_last_emitted = 0, ts_suppressed = 0, ts_initialized = False\<rparr>"

type_synonym throttles = "(string \<times> throttle_state) list"

definition max_throttle_keys :: nat where "max_throttle_keys = 256"

definition throttle_key_count :: "throttles \<Rightarrow> nat" where
  "throttle_key_count ths = length ths"

record throttle_call =
  tc_key :: string
  tc_interval :: int
  tc_now :: time_ns

text \<open>The entry that a call works on: found, added, or none when the table is full.\<close>

definition throttle_entry :: "throttles \<Rightarrow> string \<Rightarrow> (throttle_state \<times> throttles) option" where
  "throttle_entry ths key =
     (case map_of ths key of
        Some state \<Rightarrow> Some (state, ths)
      | None \<Rightarrow>
          if throttle_key_count ths \<ge> max_throttle_keys then None
          else Some (default_throttle, ths @ [(key, default_throttle)]))"

text \<open>
  What \<open>log_throttled\<close> does to the table: the number of suppressed events that the line reports,
  or None when no line is written.  Intervals are in milliseconds.
\<close>

definition throttle :: "throttles \<Rightarrow> throttle_call \<Rightarrow> u64 option \<times> throttles" where
  "throttle ths c =
     (case throttle_entry ths (tc_key c) of
        None \<Rightarrow> (Some 0, ths)
      | Some (state, ths) \<Rightarrow>
          if ts_initialized state \<and> tc_interval c > 0 \<and>
             tc_now c - ts_last_emitted state < tc_interval c * 1000000
          then (None, AList.update (tc_key c) (state\<lparr>ts_suppressed := ts_suppressed state + 1\<rparr>) ths)
          else (Some (ts_suppressed state),
                AList.update (tc_key c)
                  \<lparr>ts_last_emitted = tc_now c, ts_suppressed = 0, ts_initialized = True\<rparr> ths))"

section \<open>Lines\<close>

datatype severity = Sev_debug | Sev_info | Sev_warning | Sev_error | Sev_critical

fun severity_label :: "severity \<Rightarrow> string" where
  "severity_label Sev_debug = ''DEBUG''"
| "severity_label Sev_info = ''INFO''"
| "severity_label Sev_warning = ''WARNING''"
| "severity_label Sev_error = ''ERROR''"
| "severity_label Sev_critical = ''CRITICAL''"

fun easylogger_level :: "severity \<Rightarrow> nat" where
  "easylogger_level Sev_debug = ELOG_LVL_DEBUG"
| "easylogger_level Sev_info = ELOG_LVL_INFO"
| "easylogger_level Sev_warning = ELOG_LVL_WARN"
| "easylogger_level Sev_error = ELOG_LVL_ERROR"
| "easylogger_level Sev_critical = ELOG_LVL_ERROR"

record line_content =
  lc_severity :: severity
  lc_module :: string
  lc_event :: string
  lc_context :: string
  lc_seconds :: int

definition quote :: string where "quote = [CHR 0x22]"

definition line_content_text :: "line_content \<Rightarrow> u64 \<Rightarrow> string" where
  "line_content_text l suppressed =
     ''timestamp_unix_s='' @ decimal_int (lc_seconds l) @ '' severity='' @ severity_label (lc_severity l) @
     '' event='' @ quote @ lc_event l @ quote @
     (if lc_context l \<noteq> [] then '' '' @ lc_context l else []) @
     (if suppressed \<noteq> 0 then '' suppressed='' @ decimal (unat suppressed) else [])"

definition write_line ::
  "elog_cfg \<Rightarrow> output_env \<Rightarrow> string \<Rightarrow> line_content \<Rightarrow> u64 \<Rightarrow> elog_state \<Rightarrow> unit elog_result" where
  "write_line cfg env src_file l suppressed =
     elog_output cfg env (easylogger_level (lc_severity l)) (c_str (lc_module l)) src_file ''write_line'' 131
       (Formatted (c_str (line_content_text l suppressed)))"

text \<open>The two ways to log; the second one goes through the throttles.\<close>

datatype log_call = Log line_content | Log_throttled throttle_call line_content

definition log_step ::
  "elog_cfg \<Rightarrow> output_env \<Rightarrow> string \<Rightarrow> log_call \<Rightarrow> throttles \<Rightarrow> elog_state \<Rightarrow>
     elog_stop + port_event list \<times> throttles \<times> elog_state" where
  "log_step cfg env src_file call ths s =
     (let (line, ths') =
        (case call of Log l \<Rightarrow> (Some (l, 0), ths)
         | Log_throttled c l \<Rightarrow> (let (admitted, ths') = throttle ths c in (map_option (\<lambda>n. (l, n)) admitted, ths')))
      in case line of
           None \<Rightarrow> Inr ([], ths', s)
         | Some (l, n) \<Rightarrow>
             (case write_line cfg env src_file l n s of
                Inl e \<Rightarrow> Inl e
              | Inr (u, evs, s') \<Rightarrow> Inr (evs, ths', s')))"

text \<open>The health of the output port, which the program asks through the logger.\<close>

record logger_health =
  lh_output_failures :: u64
  lh_last_error :: int

definition logger_health_of :: "port_health \<Rightarrow> logger_health" where
  "logger_health_of h = \<lparr>lh_output_failures = elog_failure_count h, lh_last_error = elog_last_error h\<rparr>"

text \<open>\<open>initialize_easylogger\<close>, which the constructor runs once.\<close>

fun set_formats :: "nat list \<Rightarrow> elog_state \<Rightarrow> unit elog_result" where
  "set_formats [] = ret ()"
| "set_formats (level # levels) =
     ebind (elog_set_fmt level (ELOG_FMT_LVL OR ELOG_FMT_TAG)) (\<lambda>_. set_formats levels)"

definition initialize_easylogger :: "elog_cfg \<Rightarrow> output_env \<Rightarrow> string \<Rightarrow> elog_state \<Rightarrow> unit elog_result" where
  "initialize_easylogger cfg env elog_file =
     ebind (elog_init cfg) (\<lambda>_.
     ebind (set_formats [ELOG_LVL_ASSERT..<ELOG_LVL_TOTAL_NUM]) (\<lambda>_.
     elog_start cfg env elog_file))"

section \<open>The table\<close>

definition throttles_ok :: "throttles \<Rightarrow> bool" where
  "throttles_ok ths \<longleftrightarrow> distinct (map fst ths) \<and> throttle_key_count ths \<le> max_throttle_keys"

lemma length_update_present:
  "map_of ths key \<noteq> None \<Longrightarrow> length (AList.update key v ths) = length ths"
  by (induction ths) auto

lemma throttle_entry_cases:
  obtains (found) state where "map_of ths key = Some state" "throttle_entry ths key = Some (state, ths)"
  | (added) "map_of ths key = None" "length ths < max_throttle_keys"
      "throttle_entry ths key = Some (default_throttle, ths @ [(key, default_throttle)])"
  | (full) "map_of ths key = None" "max_throttle_keys \<le> length ths" "throttle_entry ths key = None"
  by (cases "map_of ths key"; cases "max_throttle_keys \<le> length ths")
    (auto simp: throttle_entry_def throttle_key_count_def)

lemma update_ok:
  "throttles_ok ths \<Longrightarrow> map_of ths key \<noteq> None \<Longrightarrow> throttles_ok (AList.update key v ths)"
  by (simp add: throttles_ok_def throttle_key_count_def distinct_update length_update_present)

lemma added_ok:
  "throttles_ok ths \<Longrightarrow> map_of ths key = None \<Longrightarrow> length ths < max_throttle_keys \<Longrightarrow>
   throttles_ok (AList.update key v (ths @ [(key, w)]))"
  by (rule update_ok) (auto simp: throttles_ok_def throttle_key_count_def map_of_eq_None_iff)

lemma update_map [simp]: "map_of (AList.update k v ths) = (map_of ths)(k \<mapsto> v)"
  by (rule update_conv')

lemma added_map: "map_of (AList.update key v (ths @ [(key, w)])) = (map_of ths)(key \<mapsto> v)"
  by (auto simp: fun_eq_iff map_add_def split: option.split)

section \<open>Throttling as a function of the history\<close>

text \<open>
  A history is the list of calls so far, newest first, each with whether a line was written.  Keys
  are tracked while the table has room; a call is held back when its key is tracked, the interval is positive
  and the last line for this key is too recent.
\<close>

type_synonym throttle_history = "(throttle_call \<times> bool) list"

fun tracked_keys :: "throttle_history \<Rightarrow> string set" where
  "tracked_keys [] = {}"
| "tracked_keys ((c, b) # h) =
     (if card (tracked_keys h) < max_throttle_keys then insert (tc_key c) (tracked_keys h)
      else tracked_keys h)"

fun last_line :: "string \<Rightarrow> throttle_history \<Rightarrow> time_ns option" where
  "last_line key [] = None"
| "last_line key ((c, b) # h) = (if tc_key c = key \<and> b then Some (tc_now c) else last_line key h)"

fun held_back :: "string \<Rightarrow> throttle_history \<Rightarrow> nat" where
  "held_back key [] = 0"
| "held_back key ((c, b) # h) =
     (if tc_key c \<noteq> key then held_back key h else if b then 0 else held_back key h + 1)"

definition admitted :: "throttle_history \<Rightarrow> throttle_call \<Rightarrow> bool" where
  "admitted h c \<longleftrightarrow>
     tc_key c \<notin> tracked_keys h \<or> tc_interval c \<le> 0 \<or>
     (\<exists>t. last_line (tc_key c) h = Some t \<and> tc_interval c * 1000000 \<le> tc_now c - t)"

fun throttle_history_of :: "throttle_call list \<Rightarrow> throttle_history" where
  "throttle_history_of [] = []"
| "throttle_history_of (c # cs) =
     (let h = throttle_history_of cs in (c, admitted h c) # h)"

text \<open>The table as the abstraction of a history.\<close>

definition represents :: "throttles \<Rightarrow> throttle_history \<Rightarrow> bool" where
  "represents ths h \<longleftrightarrow>
     throttles_ok ths \<and> dom (map_of ths) = tracked_keys h \<and>
     (\<forall>key state. map_of ths key = Some state \<longrightarrow>
        ts_initialized state \<and> last_line key h = Some (ts_last_emitted state) \<and>
        ts_suppressed state = of_nat (held_back key h)) \<and>
     (\<forall>key. key \<notin> tracked_keys h \<longrightarrow> held_back key h = 0)"

lemma card_tracked: "represents ths h \<Longrightarrow> card (tracked_keys h) = length ths"
  unfolding represents_def throttles_ok_def
  by (metis card_image card_length distinct_card dom_map_of_conv_image_fst length_map set_map)

lemma untracked:
  assumes "represents ths h" and "map_of ths key = None"
  shows "key \<notin> tracked_keys h" and "held_back key h = 0"
proof -
  from assms show "key \<notin> tracked_keys h"
    by (auto simp: represents_def)
  with assms(1) show "held_back key h = 0"
    by (simp add: represents_def)
qed

lemma represents_update:
  assumes "represents ths h" and "throttles_ok ths'" and "map_of ths' = (map_of ths)(tc_key c \<mapsto> state)"
    and "tracked_keys ((c, b) # h) = insert (tc_key c) (tracked_keys h)"
    and "ts_initialized state" and "last_line (tc_key c) ((c, b) # h) = Some (ts_last_emitted state)"
    and "ts_suppressed state = of_nat (held_back (tc_key c) ((c, b) # h))"
  shows "represents ths' ((c, b) # h)"
proof -
  have "last_line key ((c, b) # h) = last_line key h" "held_back key ((c, b) # h) = held_back key h"
    if "key \<noteq> tc_key c" for key
    using that by auto
  with assms show ?thesis
    unfolding represents_def
    by (auto simp del: tracked_keys.simps last_line.simps held_back.simps split: if_splits)
qed

lemma throttle_represents:
  assumes "represents ths h"
  shows "represents (snd (throttle ths c)) ((c, admitted h c) # h) \<and>
    fst (throttle ths c) = (if admitted h c then Some (of_nat (held_back (tc_key c) h)) else None)"
proof -
  have ok: "throttles_ok ths"
    using assms by (simp add: represents_def)
  show ?thesis
  proof (cases rule: throttle_entry_cases [of ths "tc_key c"])
    case (found state)
    with assms have state: "tc_key c \<in> tracked_keys h" "ts_initialized state"
        "last_line (tc_key c) h = Some (ts_last_emitted state)" "ts_suppressed state = of_nat (held_back (tc_key c) h)"
      by (auto simp: represents_def)
    then have adm: "admitted h c \<longleftrightarrow> \<not> (ts_initialized state \<and> tc_interval c > 0 \<and>
        tc_now c - ts_last_emitted state < tc_interval c * 1000000)"
      by (auto simp: admitted_def)
    have tracked: "tracked_keys ((c, b) # h) = insert (tc_key c) (tracked_keys h)" for b
      using state(1) by (auto simp: insert_absorb)
    from found adm state show ?thesis
      by (cases "admitted h c")
        (auto simp: throttle_def intro!: represents_update [OF assms] update_ok [OF ok] tracked
          simp del: tracked_keys.simps)
  next
    case added
    then have key: "tc_key c \<notin> tracked_keys h" "held_back (tc_key c) h = 0" "card (tracked_keys h) < max_throttle_keys"
      using untracked [OF assms] card_tracked [OF assms] by simp_all
    then have "admitted h c"
      by (simp add: admitted_def)
    moreover have "tracked_keys ((c, True) # h) = insert (tc_key c) (tracked_keys h)"
      using key(3) by simp
    from represents_update [OF assms added_ok [OF ok added(1,2)] added_map this]
    have "represents (AList.update (tc_key c) \<lparr>ts_last_emitted = tc_now c, ts_suppressed = 0, ts_initialized = True\<rparr>
        (ths @ [(tc_key c, default_throttle)])) ((c, True) # h)"
      by simp
    ultimately show ?thesis
      using added(3) key(2) by (simp add: throttle_def) (simp add: default_throttle_def)
  next
    case full
    then have key: "tc_key c \<notin> tracked_keys h" "held_back (tc_key c) h = 0" "\<not> card (tracked_keys h) < max_throttle_keys"
      using untracked [OF assms] card_tracked [OF assms] by simp_all
    then have "admitted h c"
      by (simp add: admitted_def)
    with full key assms show ?thesis
      by (auto simp: throttle_def represents_def)
  qed
qed

lemma represents_run:
  "represents (run_state throttle [] (rev cs)) (throttle_history_of cs)"
proof (induction cs)
  case Nil
  show ?case
    by (simp add: represents_def throttles_ok_def throttle_key_count_def)
next
  case (Cons c cs)
  with throttle_represents [OF this, of c] show ?case
    by (simp add: Let_def)
qed

text \<open>
  C16: Throttling implements the function of the history that the header describes.  After any
  calls, a call writes a line exactly when its key is not among the first 256 keys, its interval is not
  positive, no line was written for the key, or the interval has passed since the last line for this
  key; the line reports how many calls for the key were held back since then; and the table never
  holds more than 256 keys.
\<close>

theorem throttle_refines_history:
  "fst (throttle (run_state throttle [] (rev cs)) c) =
     (if admitted (throttle_history_of cs) c
      then Some (of_nat (held_back (tc_key c) (throttle_history_of cs))) else None) \<and>
   throttle_key_count (run_state throttle [] (rev cs)) \<le> 256"
proof -
  have "throttles_ok (run_state throttle [] (rev cs))"
    using represents_run by (simp add: represents_def)
  with throttle_represents [OF represents_run, of cs c] show ?thesis
    by (simp add: throttles_ok_def max_throttle_keys_def)
qed

text \<open>A key that is tracked had a line, so a call that is held back comes within its interval of one.\<close>

lemma tracked_has_line:
  "represents ths h \<Longrightarrow> key \<in> tracked_keys h \<Longrightarrow> \<exists>t. last_line key h = Some t"
  by (fastforce simp: represents_def)

lemma held_back_recent:
  assumes "\<not> admitted (throttle_history_of cs) c"
  shows "\<exists>t. last_line (tc_key c) (throttle_history_of cs) = Some t \<and> 0 < tc_interval c \<and>
    tc_now c - t < tc_interval c * 1000000"
  using assms tracked_has_line [OF represents_run] by (fastforce simp: admitted_def)

text \<open>What the lines for a key have accounted for: themselves and the calls they report.\<close>

definition accounted :: "string \<Rightarrow> throttle_call list \<Rightarrow> u64 option list \<Rightarrow> u64" where
  "accounted key cs outs =
     (\<Sum>(c, r)\<leftarrow>zip cs outs. case r of None \<Rightarrow> 0 | Some n \<Rightarrow> if tc_key c = key then n + 1 else 0)"

definition pending :: "string \<Rightarrow> throttles \<Rightarrow> u64" where
  "pending key ths = (case map_of ths key of None \<Rightarrow> 0 | Some state \<Rightarrow> ts_suppressed state)"

lemma run_outputs_snoc:
  "run_outputs f s (xs @ [x]) = run_outputs f s xs @ [fst (f (run_state f s xs) x)]"
  by (induction xs arbitrary: s) simp_all

lemma represents_pending: "represents ths h \<Longrightarrow> pending key ths = of_nat (held_back key h)"
  using untracked [of ths h key]
  by (cases "map_of ths key") (auto simp: represents_def pending_def)

text \<open>
  No throttled event is lost uncounted: after any sequence of calls, for every key, the lines
  written for it, the calls that these lines report as suppressed, and the count that is still pending add up
  to the number of calls with this key (modulo the 64 bits of the counter).
\<close>

theorem throttle_accounts_every_event:
  "accounted key cs (run_outputs throttle [] cs) + pending key (run_state throttle [] cs) =
   of_nat (length (filter (\<lambda>c. tc_key c = key) cs))"
proof (induction cs rule: rev_induct)
  case Nil
  show ?case
    by (simp add: accounted_def pending_def)
next
  case (snoc c cs)
  let ?h = "throttle_history_of (rev cs)"
  have run: "represents (run_state throttle [] cs) ?h"
    using represents_run [of "rev cs"] by simp
  from throttle_represents [OF run, of c] represents_pending [OF run]
    represents_pending [of "snd (throttle (run_state throttle [] cs) c)" "(c, admitted ?h c) # ?h"] snoc
  show ?case
    by (auto simp: accounted_def run_outputs_snoc algebra_simps)
qed

section \<open>From the start of the program to the output port\<close>

text \<open>The logger after initialisation: everything is let through, and a line shows level and tag.\<close>

definition logger_ready :: "elog_cfg \<Rightarrow> elog_state \<Rightarrow> bool" where
  "logger_ready cfg s \<longleftrightarrow>
     elog_ok cfg s \<and> el_output_enabled s \<and> lock_enabled (el_lock s) \<and> \<not> el_text_color_enabled s \<and>
     fl_level (el_filter s) = ELOG_LVL_VERBOSE \<and> (\<forall>tag. tag_level cfg tag s = ELOG_FILTER_LVL_ALL) \<and>
     c_str (fl_tag (el_filter s)) = [] \<and> fl_keyword (el_filter s) ! 0 = NUL \<and>
     el_enabled_fmt_set s = replicate 6 (ELOG_FMT_LVL OR ELOG_FMT_TAG)"

definition ready_record :: "elog_cfg \<Rightarrow> nat \<Rightarrow> string \<Rightarrow> string \<Rightarrow> string" where
  "ready_record cfg level tag msg =
     record_text cfg False ((level_output_info ! level) # tag_pieces cfg tag) msg"

lemma ready_frame:
  assumes "logger_ready cfg s" and "same_settings s s'" and "elog_ok cfg s'"
  shows "logger_ready cfg s'"
proof -
  have "tag_level cfg tag s' = tag_level cfg tag s" for tag
    using assms(2) by (simp add: same_settings_def tag_level_def tag_table_def)
  with assms show ?thesis
    by (simp add: logger_ready_def same_settings_def)
qed

lemma ready_header:
  assumes "logger_ready cfg s" and "level \<le> ELOG_LVL_VERBOSE"
  shows "header_pieces cfg env level tag src_file func line s = (level_output_info ! level) # tag_pieces cfg tag"
proof -
  have "el_enabled_fmt_set s ! level = ELOG_FMT_LVL OR ELOG_FMT_TAG"
    using assms by (simp add: logger_ready_def ELOG_LVL_VERBOSE_def)
  with assms(1) show ?thesis
    by (simp add: header_pieces_def get_fmt_enabled_def logger_ready_def ELOG_FMT_LVL_def ELOG_FMT_TAG_def
        ELOG_FMT_TIME_def ELOG_FMT_P_INFO_def ELOG_FMT_T_INFO_def ELOG_FMT_DIR_def ELOG_FMT_FUNC_def
        ELOG_FMT_LINE_def)
qed

lemma ready_output:
  assumes "cfg_ok cfg" and "OUTPUT_MODE cfg = Output_direct" and "logger_ready cfg s" and "level \<le> ELOG_LVL_VERBOSE"
  obtains evs s' where "elog_output cfg env level tag src_file func line (Formatted msg) s = Inr ((), evs, s')"
    "logger_ready cfg s'" "serialized evs" "port_outputs evs = [ready_record cfg level tag msg]"
proof -
  have ok: "elog_ok cfg s" and pass: "filters_pass cfg level tag s"
    using assms(3,4)
    by (simp_all add: logger_ready_def filters_pass_def ELOG_FILTER_LVL_ALL_def strstr_def)
  from assms(1) ok assms(4) show thesis
  proof (cases rule: elog_output_run [where tag = tag and env = env and src_file = src_file and func = func
        and line = line and fmt = "Formatted msg"])
    case dropped
    with pass show thesis
      by simp
  next
    case (formatted evs s')
    have "serialized (lookup_events s @ Port_lock # evs @ [Port_unlock])"
      using assms(3) lookup_events_serialized critical_section_serialized [OF formatted(3)]
      by (intro serialized_append) (simp_all add: logger_ready_def)
    moreover have "elog_output cfg env level tag src_file func line (Formatted msg) s =
        Inr ((), lookup_events s @ Port_lock # evs @ [Port_unlock], s')"
      using formatted(2) assms(3) by (simp add: logger_ready_def)
    moreover have "evs = [Port_output (ready_record cfg level tag msg)]"
      using formatted(6) assms(2,3) ready_header [OF assms(3,4)]
      by (simp add: logger_ready_def keyword_passes_def ready_record_def Let_def)
    ultimately show thesis
      using that ready_frame [OF assms(3) formatted(5,4)] by simp
  qed
qed

lemma set_formats_run:
  "list_all (\<lambda>level. level \<le> ELOG_LVL_VERBOSE) levels \<Longrightarrow> length (el_enabled_fmt_set s) = 6 \<Longrightarrow>
   set_formats levels s = Inr ((), [], s\<lparr>el_enabled_fmt_set :=
     fold (\<lambda>level fmts. fmts[level := ELOG_FMT_LVL OR ELOG_FMT_TAG]) levels (el_enabled_fmt_set s)\<rparr>)"
  by (induction levels arbitrary: s)
    (simp_all add: ret_def elog_set_fmt_def ebind_def ELOG_LVL_VERBOSE_def)

lemma set_formats_all:
  assumes "length (el_enabled_fmt_set s) = 6"
  shows "set_formats [ELOG_LVL_ASSERT..<ELOG_LVL_TOTAL_NUM] s =
    Inr ((), [], s\<lparr>el_enabled_fmt_set := replicate 6 (ELOG_FMT_LVL OR ELOG_FMT_TAG)\<rparr>)"
proof -
  obtain a b c d e f where "el_enabled_fmt_set s = [a, b, c, d, e, f]"
    using assms by (auto simp: numeral_eq_Suc length_Suc_conv)
  moreover have "[ELOG_LVL_ASSERT..<ELOG_LVL_TOTAL_NUM] = [0, 1, 2, 3, 4, 5]"
    by (simp add: ELOG_LVL_ASSERT_def ELOG_LVL_TOTAL_NUM_def upt_rec)
  ultimately show ?thesis
    by (subst set_formats_run) (simp_all add: ELOG_LVL_VERBOSE_def numeral_eq_Suc)
qed

definition start_record :: "elog_cfg \<Rightarrow> string" where
  "start_record cfg = ready_record cfg ELOG_LVL_INFO ''elog'' ''EasyLogger V2.2.0 is initialize success.''"

lemma init_keeps_filters:
  "elog_init cfg s = Inr ((), evs, s') \<Longrightarrow>
   fl_tag (el_filter s') = fl_tag (el_filter s) \<and> fl_keyword (el_filter s') = fl_keyword (el_filter s)"
  by (auto simp: elog_init_def ebind_def elog_port_init_def ret_def elog_output_lock_enabled_def
      elog_set_filter_lvl_def elog_set_filter_tag_lvl_default_def elog_set_text_color_enabled_def
      elog_assert_def ELOG_LVL_VERBOSE_def Let_def split: if_splits prod.splits)

lemma initialize_ready:
  assumes "cfg_ok cfg" and "OUTPUT_MODE cfg = Output_direct"
  obtains evs s where "initialize_easylogger cfg env elog_file (elog_initial cfg) = Inr ((), evs, s)"
    "logger_ready cfg s" "serialized evs" "port_outputs evs = [start_record cfg]"
proof -
  from elog_init_defaults [OF assms(1)] obtain s1 where
    s1: "elog_init cfg (elog_initial cfg) = Inr ((), [], s1)" "elog_ok cfg s1" "lock_enabled (el_lock s1)"
      "fl_level (el_filter s1) = ELOG_LVL_VERBOSE" "\<not> el_text_color_enabled s1"
      "\<forall>tag. tag_level cfg tag s1 = ELOG_FILTER_LVL_ALL"
    by blast
  have filter: "c_str (fl_tag (el_filter s1)) = [] \<and> fl_keyword (el_filter s1) ! 0 = NUL"
    using init_keeps_filters [OF s1(1)] by (simp add: elog_initial_def c_str_def)
  let ?s2 = "s1\<lparr>el_enabled_fmt_set := replicate 6 (ELOG_FMT_LVL OR ELOG_FMT_TAG)\<rparr>"
  let ?s3 = "elog_set_output_enabled True ?s2"
  have formats: "set_formats [ELOG_LVL_ASSERT..<ELOG_LVL_TOTAL_NUM] s1 = Inr ((), [], ?s2)"
    using s1(2) by (intro set_formats_all) (simp add: elog_ok_def ELOG_LVL_TOTAL_NUM_def)
  have "tag_level cfg tag ?s3 = tag_level cfg tag s1" for tag
    by (simp add: tag_level_def tag_table_def elog_set_output_enabled_def)
  moreover have "tag_table ?s3 = tag_table s1"
    by (simp add: tag_table_def elog_set_output_enabled_def)
  ultimately have "logger_ready cfg ?s3"
    using s1 filter
    by (simp add: logger_ready_def elog_ok_def) (simp add: elog_set_output_enabled_def ELOG_LVL_TOTAL_NUM_def)
  from ready_output [OF assms this, of ELOG_LVL_INFO env "''elog''" elog_file "''elog_start''" 217
      "''EasyLogger V2.2.0 is initialize success.''"]
  obtain evs s where s: "elog_start cfg env elog_file ?s2 = Inr ((), evs, s)"
      "logger_ready cfg s" "serialized evs" "port_outputs evs = [start_record cfg]"
    using assms(2) by (auto simp: elog_start_def start_record_def ELOG_LVL_INFO_def ELOG_LVL_VERBOSE_def Let_def)
  have "initialize_easylogger cfg env elog_file (elog_initial cfg) = Inr ((), evs, s)"
    using s1(1) formats s(1) by (simp add: initialize_easylogger_def ebind_def)
  with s show thesis
    using that by blast
qed

fun log_run ::
  "elog_cfg \<Rightarrow> output_env \<Rightarrow> string \<Rightarrow> log_call list \<Rightarrow> throttles \<Rightarrow> elog_state \<Rightarrow>
     elog_stop + port_event list \<times> throttles \<times> elog_state" where
  "log_run cfg env src_file [] ths s = Inr ([], ths, s)"
| "log_run cfg env src_file (call # calls) ths s =
     (case log_step cfg env src_file call ths s of
        Inl e \<Rightarrow> Inl e
      | Inr (evs, ths, s) \<Rightarrow>
          (case log_run cfg env src_file calls ths s of
             Inl e \<Rightarrow> Inl e
           | Inr (evs', ths, s) \<Rightarrow> Inr (evs @ evs', ths, s)))"

text \<open>The lines that a sequence of calls lets through, with the counts they report.\<close>

fun admitted_lines :: "log_call list \<Rightarrow> throttles \<Rightarrow> (line_content \<times> u64) list" where
  "admitted_lines [] ths = []"
| "admitted_lines (Log l # calls) ths = (l, 0) # admitted_lines calls ths"
| "admitted_lines (Log_throttled c l # calls) ths =
     (case throttle ths c of (r, ths) \<Rightarrow>
        (case r of None \<Rightarrow> [] | Some n \<Rightarrow> [(l, n)]) @ admitted_lines calls ths)"

definition line_record :: "elog_cfg \<Rightarrow> line_content \<times> u64 \<Rightarrow> string" where
  "line_record cfg = (\<lambda>(l, n). ready_record cfg (easylogger_level (lc_severity l)) (c_str (lc_module l))
     (c_str (line_content_text l n)))"

lemma easylogger_level_valid: "easylogger_level sev \<le> ELOG_LVL_VERBOSE"
  by (cases sev) (simp_all add: ELOG_LVL_VERBOSE_def ELOG_LVL_DEBUG_def ELOG_LVL_INFO_def ELOG_LVL_WARN_def
      ELOG_LVL_ERROR_def)

lemma log_run_prints:
  assumes "cfg_ok cfg" and "OUTPUT_MODE cfg = Output_direct"
  shows "logger_ready cfg s \<Longrightarrow>
    \<exists>evs ths' s'. log_run cfg env src_file calls ths s = Inr (evs, ths', s') \<and> serialized evs \<and>
      port_outputs evs = map (line_record cfg) (admitted_lines calls ths)"
proof (induction calls arbitrary: ths s)
  case Nil
  show ?case
    by (simp add: serialized_def)
next
  case (Cons call calls)
  have step: "\<exists>evs s'. log_step cfg env src_file call ths s = Inr (evs, ths1, s') \<and> logger_ready cfg s' \<and>
      serialized evs \<and> port_outputs evs = map (line_record cfg) lines"
    if "(case call of Log l \<Rightarrow> (Some (l, 0), ths)
         | Log_throttled c l \<Rightarrow> (let (admitted, ths') = throttle ths c in (map_option (\<lambda>n. (l, n)) admitted, ths'))) =
        (line, ths1)"
      "lines = (case line of None \<Rightarrow> [] | Some x \<Rightarrow> [x])" for line ths1 lines
  proof (cases line)
    case None
    with that Cons.prems show ?thesis
      by (simp add: log_step_def serialized_def)
  next
    case (Some x)
    obtain l n where x: "x = (l, n)"
      by (cases x)
    from ready_output [OF assms Cons.prems easylogger_level_valid [of "lc_severity l"]]
    obtain evs s' where "write_line cfg env src_file l n s = Inr ((), evs, s')" "logger_ready cfg s'"
        "serialized evs" "port_outputs evs = [line_record cfg (l, n)]"
      unfolding write_line_def line_record_def prod.case by blast
    with that Some x show ?thesis
      by (simp add: log_step_def)
  qed
  obtain line ths1 where line: "(case call of Log l \<Rightarrow> (Some (l, 0), ths)
       | Log_throttled c l \<Rightarrow> (let (admitted, ths') = throttle ths c in (map_option (\<lambda>n. (l, n)) admitted, ths'))) =
      (line, ths1)"
    by fastforce
  have lines: "admitted_lines (call # calls) ths =
      (case line of None \<Rightarrow> [] | Some x \<Rightarrow> [x]) @ admitted_lines calls ths1"
    using line by (cases call) (auto split: option.splits prod.splits)
  from step [OF line refl] obtain evs s1 where
    s1: "log_step cfg env src_file call ths s = Inr (evs, ths1, s1)" "logger_ready cfg s1" "serialized evs"
      "port_outputs evs = map (line_record cfg) (case line of None \<Rightarrow> [] | Some x \<Rightarrow> [x])"
    by blast
  from Cons.IH [OF s1(2), of ths1] s1 show ?case
    unfolding lines by (auto intro: serialized_append)
qed

section \<open>What should be printed\<close>

text \<open>
  The expected output, from the calls alone: which throttled calls get a line, and how many calls
  for their key were held back before it, is a question to the history; a line is a sequence of
  fields with blanks between them; a record shows the letter of its severity, the module in a
  column of half the length of a tag, and the line, cut where the end sequence must fit.
\<close>

fun expected_lines :: "log_call list \<Rightarrow> throttle_call list \<Rightarrow> (line_content \<times> nat) list" where
  "expected_lines [] past = []"
| "expected_lines (Log l # calls) past = (l, 0) # expected_lines calls past"
| "expected_lines (Log_throttled c l # calls) past =
     (if admitted (throttle_history_of past) c then [(l, held_back (tc_key c) (throttle_history_of past))] else []) @
     expected_lines calls (c # past)"

fun joined :: "string list \<Rightarrow> string" where
  "joined [] = []"
| "joined [x] = x"
| "joined (x # y # xs) = x @ CHR '' '' # joined (y # xs)"

definition shown_severities :: "(severity \<times> char \<times> string) list" where
  "shown_severities =
     [(Sev_debug, CHR ''D'', ''DEBUG''), (Sev_info, CHR ''I'', ''INFO''), (Sev_warning, CHR ''W'', ''WARNING''),
      (Sev_error, CHR ''E'', ''ERROR''), (Sev_critical, CHR ''E'', ''CRITICAL'')]"

definition expected_text :: "line_content \<Rightarrow> nat \<Rightarrow> string" where
  "expected_text l count =
     joined
       ([''timestamp_unix_s='' @ decimal_int (lc_seconds l),
         ''severity='' @ snd (the (map_of shown_severities (lc_severity l))),
         ''event='' @ quote @ lc_event l @ quote] @
        filter (\<lambda>field. field \<noteq> []) [lc_context l] @
        (if count mod 2 ^ 64 = 0 then [] else [''suppressed='' @ decimal (count mod 2 ^ 64)]))"

definition shown_record :: "elog_cfg \<Rightarrow> char \<Rightarrow> string \<Rightarrow> string \<Rightarrow> string" where
  "shown_record cfg letter tag text =
     take (LINE_BUF_SIZE cfg - end_reserve cfg)
       ([letter, CHR ''/''] @ tag @ replicate (FILTER_TAG_MAX_LEN cfg div 2 - length tag) (CHR '' '') @ '' '' @ text) @
     NEWLINE_SIGN cfg"

definition expected_record :: "elog_cfg \<Rightarrow> line_content \<times> nat \<Rightarrow> string" where
  "expected_record cfg = (\<lambda>(l, count).
     shown_record cfg (fst (the (map_of shown_severities (lc_severity l)))) (c_str (lc_module l))
       (c_str (expected_text l count)))"

lemma expected_text_eq: "line_content_text l (of_nat count) = expected_text l count"
proof -
  have "(of_nat count :: u64) = 0 \<longleftrightarrow> count mod 2 ^ 64 = 0"
    by (simp add: word_unat_eq_iff unat_of_nat)
  moreover have "unat (of_nat count :: u64) = count mod 2 ^ 64"
    by (simp add: unat_of_nat)
  moreover have "severity_label (lc_severity l) = snd (the (map_of shown_severities (lc_severity l)))"
    by (cases "lc_severity l") (simp_all add: shown_severities_def)
  ultimately show ?thesis
    by (simp add: line_content_text_def expected_text_def Let_def)
qed

lemma shown_record_eq:
  "ready_record cfg level tag text = shown_record cfg (hd (level_output_info ! level)) tag text"
  if "level \<le> ELOG_LVL_VERBOSE"
proof -
  have "level_output_info ! level = [hd (level_output_info ! level), CHR ''/'']"
    using that by (auto simp: ELOG_LVL_VERBOSE_def level_output_info_def le_Suc_eq numeral_eq_Suc)
  then show ?thesis
    by (simp add: ready_record_def record_text_def body_text_def tag_pieces_def shown_record_def)
qed

lemma expected_record_eq: "line_record cfg (l, of_nat count) = expected_record cfg (l, count)"
proof -
  have "hd (level_output_info ! easylogger_level (lc_severity l)) =
      fst (the (map_of shown_severities (lc_severity l)))"
    by (cases "lc_severity l") (simp_all add: shown_severities_def level_output_info_def
        ELOG_LVL_DEBUG_def ELOG_LVL_INFO_def ELOG_LVL_WARN_def ELOG_LVL_ERROR_def)
  then show ?thesis
    by (simp add: line_record_def expected_record_def expected_text_eq shown_record_eq [OF easylogger_level_valid])
qed

lemma expected_lines_eq:
  "represents ths (throttle_history_of past) \<Longrightarrow>
   map (line_record cfg) (admitted_lines calls ths) = map (expected_record cfg) (expected_lines calls past)"
proof (induction calls arbitrary: ths past)
  case Nil
  show ?case
    by simp
next
  case (Cons call calls)
  show ?case
  proof (cases call)
    case (Log l)
    with Cons expected_record_eq [of cfg l 0] show ?thesis
      by simp
  next
    case (Log_throttled c l)
    from throttle_represents [OF Cons.prems, of c]
    have now: "represents (snd (throttle ths c)) (throttle_history_of (c # past))"
      and out: "fst (throttle ths c) = (if admitted (throttle_history_of past) c
        then Some (of_nat (held_back (tc_key c) (throttle_history_of past))) else None)"
      by (simp_all add: Let_def)
    from Cons.IH [OF now] out show ?thesis
      by (simp add: Log_throttled case_prod_beta expected_record_eq del: throttle_history_of.simps)
  qed
qed

text \<open>
  C15: From the start of the program on, logging never stops: after the one initialisation of
  EasyLogger, any sequence of plain and throttled log calls prints, in order, exactly the start
  record and one record for each plain call and for each throttled call that the history of calls
  admits, and every access to the output happens under the lock.  A record shows the letter of
  its severity, its module and the fields of its line, the last of them the number of calls that were
  held back for its key since the line before; a record that is longer than the line buffer is cut
  at its end, where this number stands.
\<close>

theorem logger_prints_every_admitted_event:
  assumes "cfg_ok cfg" and "OUTPUT_MODE cfg = Output_direct"
  shows "\<exists>evs s evs' ths s'. initialize_easylogger cfg env elog_file (elog_initial cfg) = Inr ((), evs, s) \<and>
    log_run cfg env src_file calls [] s = Inr (evs', ths, s') \<and> serialized (evs @ evs') \<and>
    port_outputs (evs @ evs') =
      shown_record cfg (CHR ''I'') ''elog'' ''EasyLogger V2.2.0 is initialize success.'' #
      map (expected_record cfg) (expected_lines calls [])"
proof -
  from initialize_ready [OF assms] obtain evs s where
    s: "initialize_easylogger cfg env elog_file (elog_initial cfg) = Inr ((), evs, s)" "logger_ready cfg s"
      "serialized evs" "port_outputs evs = [start_record cfg]"
    by blast
  from log_run_prints [OF assms s(2)] obtain evs' ths s' where
    "log_run cfg env src_file calls [] s = Inr (evs', ths, s')" "serialized evs'"
    "port_outputs evs' = map (line_record cfg) (admitted_lines calls [])"
    by blast
  moreover have "map (line_record cfg) (admitted_lines calls []) = map (expected_record cfg) (expected_lines calls [])"
    using represents_run [of "[]"] by (intro expected_lines_eq) simp
  moreover have "start_record cfg = shown_record cfg (CHR ''I'') ''elog'' ''EasyLogger V2.2.0 is initialize success.''"
    unfolding start_record_def by (subst shown_record_eq)
      (simp_all add: ELOG_LVL_INFO_def ELOG_LVL_VERBOSE_def level_output_info_def)
  ultimately show ?thesis
    using s by (auto intro: serialized_append)
qed

text \<open>
  The count of suppressed calls is the end of the line, so a line that fills the buffer of EasyLogger
  is printed without it.
\<close>

lemma long_line_loses_count:
  assumes "LINE_BUF_SIZE cfg - end_reserve cfg \<le> length (line_content_text l 0)"
    and "NUL \<notin> set (line_content_text l 0)"
  shows "line_record cfg (l, n) = line_record cfg (l, 0)"
proof -
  obtain rest where rest: "line_content_text l n = line_content_text l 0 @ rest"
    by (simp add: line_content_text_def)
  have "c_str (line_content_text l 0 @ rest) = line_content_text l 0 @ c_str rest"
    unfolding c_str_def using assms(2) by (intro takeWhile_append2) auto
  moreover have "c_str (line_content_text l 0) = line_content_text l 0"
    unfolding c_str_def takeWhile_eq_all_conv using assms(2) by auto
  ultimately show ?thesis
    using assms(1)
    by (simp add: line_record_def ready_record_def record_text_def body_text_def rest)
qed

lemma long_line_loses_count_example:
  "line_record service_cfg (\<lparr>lc_severity = Sev_error, lc_module = ''can'', lc_event = ''overflow'',
     lc_context = replicate 480 (CHR ''x''), lc_seconds = 0\<rparr>, 7) =
   line_record service_cfg (\<lparr>lc_severity = Sev_error, lc_module = ''can'', lc_event = ''overflow'',
     lc_context = replicate 480 (CHR ''x''), lc_seconds = 0\<rparr>, 0)"
  by (rule long_line_loses_count) code_simp+

section \<open>An example\<close>

definition example_line_content :: line_content where
  "example_line_content = \<lparr>lc_severity = Sev_warning, lc_module = ''can'', lc_event = ''late'', lc_context = [],
     lc_seconds = 5\<rparr>"

definition example_throttled :: "time_ns \<Rightarrow> log_call" where
  "example_throttled now =
     Log_throttled \<lparr>tc_key = ''late'', tc_interval = 1000, tc_now = now\<rparr> example_line_content"

lemma example_admitted:
  "admitted_lines (map example_throttled [0, 1000000, 2000000, 1000000000]) [] =
     [(example_line_content, 0), (example_line_content, 2)]"
  by code_simp

lemma example_expected:
  "map (expected_record service_cfg) (expected_lines (map example_throttled [0, 1000000, 2000000, 1000000000]) []) =
     [''W/can      timestamp_unix_s=5 severity=WARNING event='' @ quote @ ''late'' @ quote @ [CHR 0x0D, CHR 0x0A],
      ''W/can      timestamp_unix_s=5 severity=WARNING event='' @ quote @ ''late'' @ quote @ '' suppressed=2'' @
        [CHR 0x0D, CHR 0x0A]]"
proof -
  have "represents [] (throttle_history_of [])"
    using represents_run [of "[]"] by simp
  note expected = expected_lines_eq [OF this, of service_cfg "map example_throttled [0, 1000000, 2000000, 1000000000]",
      unfolded example_admitted]
  show ?thesis
    unfolding expected [symmetric] by code_simp
qed

theorem logger_prints_every_admitted_event_witness:
  "\<exists>evs s evs' ths s'. initialize_easylogger service_cfg \<lparr>env_time = [], env_p_info = [], env_t_info = []\<rparr>
       ''elog.c'' (elog_initial service_cfg) = Inr ((), evs, s) \<and>
     log_run service_cfg \<lparr>env_time = [], env_p_info = [], env_t_info = []\<rparr> ''logger.cpp''
       (map example_throttled [0, 1000000, 2000000, 1000000000]) [] s = Inr (evs', ths, s') \<and>
     tl (port_outputs (evs @ evs')) =
       [''W/can      timestamp_unix_s=5 severity=WARNING event='' @ quote @ ''late'' @ quote @ [CHR 0x0D, CHR 0x0A],
        ''W/can      timestamp_unix_s=5 severity=WARNING event='' @ quote @ ''late'' @ quote @ '' suppressed=2'' @
          [CHR 0x0D, CHR 0x0A]]"
proof -
  have "OUTPUT_MODE service_cfg = Output_direct"
    by (simp add: service_cfg_def)
  from logger_prints_every_admitted_event [OF shipped_cfg_ok(2) this,
      where calls = "map example_throttled [0, 1000000, 2000000, 1000000000]"]
  show ?thesis
    unfolding example_expected by fastforce
qed

end
