(* ===== verification/Elog_Scan.thy ===== *)
theory Elog_Scan
  imports Elog_Output
begin

text \<open>
  The functions of \<open>elog.c\<close> that read a record back (\<open>elog_find_lvl\<close>, \<open>elog_find_tag\<close>) and
  the hex dump (\<open>elog_hexdump\<close>), whose loop over a 16-bit index is modelled with fuel.
\<close>

section \<open>Finding level and tag in a record\<close>

text \<open>
  The result is \<open>-1\<close> when no level is found. The comparison reads behind the first two
  characters, so a record shorter than the start sequence is read outside its memory.
\<close>

definition elog_find_lvl :: "elog_cfg \<Rightarrow> string \<Rightarrow> elog_state \<Rightarrow> int elog_result" where
  "elog_find_lvl cfg log =
     ebind (\<lambda>s. elog_assert (list_all (\<lambda>fmts. fmts AND ELOG_FMT_LVL \<noteq> 0) (el_enabled_fmt_set s)) s)
       (\<lambda>_ s.
         if COLOR_ENABLE cfg
         then if length log < length CSI_START then stop Memory_fault s
              else let i = first_index (\<lambda>c. strncmp_eq c (drop (length CSI_START) log) (length c))
                             color_output_info
                   in ret (if i < length color_output_info then int i else -1) s
         else ret (case log of
                     [] \<Rightarrow> -1
                   | c # _ \<Rightarrow>
                       if c = CHR ''A'' then 0 else if c = CHR ''E'' then 1
                       else if c = CHR ''W'' then 2 else if c = CHR ''I'' then 3
                       else if c = CHR ''D'' then 4 else if c = CHR ''V'' then 5 else -1) s)"

text \<open>The tag is returned as its position and length in the record.\<close>

definition elog_find_tag :: "elog_cfg \<Rightarrow> string \<Rightarrow> nat \<Rightarrow> elog_state \<Rightarrow> (nat \<times> nat) option elog_result" where
  "elog_find_tag cfg log lvl =
     ebind (elog_assert (lvl < ELOG_LVL_TOTAL_NUM)) (\<lambda>_.
     ebind (\<lambda>s. elog_assert (el_enabled_fmt_set s ! lvl AND ELOG_FMT_TAG \<noteq> 0) s) (\<lambda>_ s.
       let tag = (if COLOR_ENABLE cfg
                  then length CSI_START + length (color_output_info ! lvl) +
                       length (level_output_info ! lvl)
                  else length (level_output_info ! lvl))
       in if length log < tag then stop Memory_fault s
          else let window = take (FILTER_TAG_MAX_LEN cfg) (drop tag log);
                   len = first_index (\<lambda>c. c = CHR '' '') window
               in ret (if len < length window then Some (tag, len) else None) s))"

lemma color_output_info_simps [simp]:
  "length color_output_info = 6" "\<forall>c \<in> set color_output_info. length c = 6"
  by (simp_all add: color_output_info_def)

lemma first_index_nth:
  assumes "i < length xs" "P (xs ! i)" "\<And>j. j < i \<Longrightarrow> \<not> P (xs ! j)"
  shows "first_index P xs = i"
  using assms
proof (induction xs arbitrary: i)
  case Nil
  then show ?case by simp
next
  case (Cons x xs)
  show ?case
  proof (cases i)
    case 0
    with Cons.prems show ?thesis by simp
  next
    case (Suc j)
    have "\<not> P x" using Cons.prems(3) [of 0] Suc by simp
    moreover have "first_index P xs = j"
    proof (rule Cons.IH)
      show "j < length xs" "P (xs ! j)" using Cons.prems(1,2) Suc by simp_all
      fix k
      assume "k < j"
      then show "\<not> P (xs ! k)" using Cons.prems(3) [of "Suc k"] Suc by simp
    qed
    ultimately show ?thesis using Suc by simp
  qed
qed

lemma color_output_info_distinct:
  "i < 6 \<Longrightarrow> j < 6 \<Longrightarrow> color_output_info ! i = color_output_info ! j \<longleftrightarrow> i = j"
proof -
  have "distinct color_output_info" by code_simp
  then show "i < 6 \<Longrightarrow> j < 6 \<Longrightarrow> color_output_info ! i = color_output_info ! j \<longleftrightarrow> i = j"
    by (simp add: nth_eq_iff_index_eq)
qed

lemma length_color_output_info: "i < 6 \<Longrightarrow> length (color_output_info ! i) = 6"
  using color_output_info_simps(2) nth_mem [of i color_output_info] by simp

lemma length_level_output_info: "i < 6 \<Longrightarrow> length (level_output_info ! i) = 2"
proof -
  have "\<forall>c \<in> set level_output_info. length c = 2" "length level_output_info = 6"
    by (simp_all add: level_output_info_def)
  then show "i < 6 \<Longrightarrow> length (level_output_info ! i) = 2" by simp
qed

lemma find_color:
  assumes "i < 6"
  shows "first_index (\<lambda>c. strncmp_eq c (drop (length CSI_START) (CSI_START @ color_output_info ! i @ rest))
      (length c)) color_output_info = i"
proof (rule first_index_nth)
  show "i < length color_output_info" using assms by simp
  show "strncmp_eq (color_output_info ! i)
      (drop (length CSI_START) (CSI_START @ color_output_info ! i @ rest)) (length (color_output_info ! i))"
    by (simp add: strncmp_eq_def)
  fix j
  assume "j < i"
  then show "\<not> strncmp_eq (color_output_info ! j)
      (drop (length CSI_START) (CSI_START @ color_output_info ! i @ rest)) (length (color_output_info ! j))"
    using assms color_output_info_distinct [of j i]
    by (simp add: strncmp_eq_def length_color_output_info)
qed

text \<open>
  A record whose header carries level and tag: with text colour its first characters are the
  start sequence, the colour, the level and the tag with a space behind it.
\<close>

lemma header_prefix:
  assumes "COLOR_ENABLE cfg" "el_text_color_enabled s" "get_fmt_enabled level ELOG_FMT_LVL s"
    and "get_fmt_enabled level ELOG_FMT_TAG s"
  shows "\<exists>rest. concat (header_pieces cfg env level tag src_file func line s) =
    CSI_START @ color_output_info ! level @ level_output_info ! level @ tag @ CHR '' '' # rest"
proof (cases "length tag < FILTER_TAG_MAX_LEN cfg div 2")
  case True
  then obtain k where k: "FILTER_TAG_MAX_LEN cfg div 2 - length tag = Suc k"
    by (metis Suc_diff_Suc)
  with True assms show ?thesis
    by (auto simp: header_pieces_def tag_pieces_def)
next
  case False
  with assms show ?thesis by (auto simp: header_pieces_def tag_pieces_def)
qed

lemma first_index_space:
  assumes "CHR '' '' \<notin> set tag"
  shows "first_index (\<lambda>c. c = CHR '' '') (tag @ CHR '' '' # rest) = length tag"
  using assms by (induction tag) auto

text \<open>
  Reading a record back is the inverse of writing it: in a record written with text
  colour and with level and tag enabled, whose header was not cut, \<open>elog_find_lvl\<close> finds the
  level and \<open>elog_find_tag\<close> the tag, provided the tag has no space and is shorter than the
  longest one.
\<close>

theorem find_level_and_tag_roundtrip:
  assumes "COLOR_ENABLE cfg" and "el_text_color_enabled s" and "level < ELOG_LVL_TOTAL_NUM"
    and "list_all (\<lambda>fmts. fmts AND (ELOG_FMT_LVL OR ELOG_FMT_TAG) = ELOG_FMT_LVL OR ELOG_FMT_TAG)
           (el_enabled_fmt_set s)"
    and "length (el_enabled_fmt_set s) = ELOG_LVL_TOTAL_NUM"
    and "CHR '' '' \<notin> set tag" and "length tag < FILTER_TAG_MAX_LEN cfg"
    and "11 + length tag \<le> LINE_BUF_SIZE cfg - end_reserve cfg"
    and "log = record_text cfg True (header_pieces cfg env level tag src_file func line s) msg"
  shows "elog_find_lvl cfg log s = Inr (int level, [], s) \<and>
    (\<exists>pos. elog_find_tag cfg log level s = Inr (Some (pos, length tag), [], s) \<and>
       take (length tag) (drop pos log) = tag)"
proof -
  have lvl: "level < 6" using assms(3) by (simp add: ELOG_LVL_TOTAL_NUM_def)
  have bits: "(w :: u64) AND ELOG_FMT_LVL \<noteq> 0 \<and> w AND ELOG_FMT_TAG \<noteq> 0"
    if "w AND (ELOG_FMT_LVL OR ELOG_FMT_TAG) = ELOG_FMT_LVL OR ELOG_FMT_TAG" for w
  proof -
    have "w AND ELOG_FMT_LVL = (w AND (ELOG_FMT_LVL OR ELOG_FMT_TAG)) AND ELOG_FMT_LVL"
      "w AND ELOG_FMT_TAG = (w AND (ELOG_FMT_LVL OR ELOG_FMT_TAG)) AND ELOG_FMT_TAG"
      by (rule bit_word_eqI; auto simp: bit_simps)+
    then show ?thesis unfolding that by (simp add: ELOG_FMT_LVL_def ELOG_FMT_TAG_def)
  qed
  have all: "\<forall>w \<in> set (el_enabled_fmt_set s). w AND ELOG_FMT_LVL \<noteq> 0 \<and> w AND ELOG_FMT_TAG \<noteq> 0"
    using assms(4) bits by (auto simp: list_all_iff)
  have mem: "el_enabled_fmt_set s ! level \<in> set (el_enabled_fmt_set s)"
    using assms(3,5) by simp
  have fmt: "get_fmt_enabled level ELOG_FMT_LVL s" "get_fmt_enabled level ELOG_FMT_TAG s"
    using all mem by (auto simp: get_fmt_enabled_def)
  from header_prefix [OF assms(1,2) fmt] obtain rest where
    h: "concat (header_pieces cfg env level tag src_file func line s) =
      CSI_START @ color_output_info ! level @ level_output_info ! level @ tag @ CHR '' '' # rest" by blast
  let ?p = "CSI_START @ color_output_info ! level @ level_output_info ! level @ tag @ ['' '' ! 0]"
  have lp: "length ?p = 11 + length tag"
    using lvl by (simp add: length_color_output_info length_level_output_info CSI_START_def)
  have "\<exists>r. log = ?p @ r"
  proof -
    have "take (11 + length tag) log = ?p"
    proof -
      have "take (11 + length tag) log = take (11 + length tag) (?p @ rest @ msg)"
        using assms(8) lp by (simp add: assms(9) record_text_def body_text_def h min_absorb1)
      also have "\<dots> = ?p" using lp by (metis append_eq_conv_conj)
      finally show ?thesis .
    qed
    then show ?thesis by (metis append_take_drop_id)
  qed
  then obtain r where log: "log = CSI_START @ color_output_info ! level @ level_output_info ! level @
      tag @ CHR '' '' # r" by auto
  have "elog_find_lvl cfg log s = Inr (int level, [], s)"
    using assms(1) all find_color [OF lvl, of "level_output_info ! level @ tag @ CHR '' '' # r"] lvl
    by (simp add: elog_find_lvl_def ebind_def elog_assert_def ret_def list_all_iff log Let_def)
  moreover have "elog_find_tag cfg log level s = Inr (Some (10, length tag), [], s)"
  proof -
    have d: "drop 10 log = tag @ CHR '' '' # r"
      using lvl by (simp add: log CSI_START_def length_color_output_info length_level_output_info)
    obtain k where k: "FILTER_TAG_MAX_LEN cfg - length tag = Suc k"
      using assms(7) by (metis Suc_diff_Suc)
    have w: "take (FILTER_TAG_MAX_LEN cfg) (drop 10 log) = tag @ CHR '' '' # take k r"
      using assms(7) k by (simp add: d)
    have pos: "length CSI_START + length (color_output_info ! level) + length (level_output_info ! level) = 10"
      using lvl by (simp add: CSI_START_def length_color_output_info length_level_output_info)
    have ll: "10 \<le> length log"
      using lvl by (simp add: log CSI_START_def length_color_output_info length_level_output_info)
    show ?thesis
      using assms(1,3) all mem ll
      unfolding elog_find_tag_def ebind_def elog_assert_def ret_def Let_def
      by (simp add: pos w first_index_space [OF assms(6)] not_less)
  qed
  moreover have "take (length tag) (drop 10 log) = tag"
    using lvl by (simp add: log CSI_START_def length_color_output_info length_level_output_info)
  ultimately show ?thesis by blast
qed

definition colored_example :: elog_state where
  "colored_example = service_example\<lparr>el_text_color_enabled := True,
     el_enabled_fmt_set := replicate 6 ELOG_FMT_ALL\<rparr>"

lemma find_level_and_tag_roundtrip_witness:
  "let log = record_text service_cfg True (header_pieces service_cfg
         \<lparr>env_time = [], env_p_info = [], env_t_info = []\<rparr> 3 ''can'' ''main.c'' ''main'' 10
         colored_example) ''up'' in
   elog_find_lvl service_cfg log colored_example = Inr (int 3, [], colored_example) \<and>
   (\<exists>pos. elog_find_tag service_cfg log 3 colored_example =
        Inr (Some (pos, length ''can''), [], colored_example) \<and>
      take (length ''can'') (drop pos log) = ''can'')"
  unfolding Let_def
  by (rule find_level_and_tag_roundtrip [OF _ _ _ _ _ _ _ _ refl])
    (simp_all add: colored_example_def service_cfg_def ELOG_LVL_TOTAL_NUM_def end_reserve_def
      CSI_END_def ELOG_FMT_ALL_def ELOG_FMT_LVL_def ELOG_FMT_TAG_def ELOG_FMT_TIME_def
      ELOG_FMT_P_INFO_def ELOG_FMT_T_INFO_def ELOG_FMT_DIR_def ELOG_FMT_FUNC_def ELOG_FMT_LINE_def
      list_all_iff)

text \<open>
  \<open>elog_init\<close> switches the text colour off, and \<open>elog_find_lvl\<close> of a build with colour support
  looks for the colour only: in a record without colour it finds no level.
\<close>

lemma find_level_fails_without_color:
  "elog_find_lvl service_cfg (''I/can      up'' @ NEWLINE_SIGN service_cfg) colored_example =
     Inr (-1, [], colored_example)"
proof -
  have "first_index (\<lambda>c. strncmp_eq c (''can      up'' @ NEWLINE_SIGN service_cfg) (length c))
      color_output_info = 6"
    by (simp add: color_output_info_def strncmp_eq_def)
  moreover have "length CSI_START = 2" by (simp add: CSI_START_def)
  moreover have "list_all (\<lambda>fmts. fmts AND ELOG_FMT_LVL \<noteq> 0) (el_enabled_fmt_set colored_example)"
    by (simp add: colored_example_def ELOG_FMT_ALL_def ELOG_FMT_LVL_def ELOG_FMT_TAG_def
        ELOG_FMT_TIME_def ELOG_FMT_P_INFO_def ELOG_FMT_T_INFO_def ELOG_FMT_DIR_def
        ELOG_FMT_FUNC_def ELOG_FMT_LINE_def list_all_iff)
  moreover have "COLOR_ENABLE service_cfg" by (simp add: service_cfg_def)
  ultimately show ?thesis
    by (simp add: elog_find_lvl_def ebind_def elog_assert_def ret_def Let_def)
qed

section \<open>Hex dumps\<close>

definition is_print :: "u8 \<Rightarrow> bool" where
  "is_print ch \<longleftrightarrow> 32 \<le> unat ch \<and> unat ch < 127"

definition hex_cell :: "u8 list \<Rightarrow> nat \<Rightarrow> string" where
  "hex_cell buf k = (if k < length buf then hex_padded 2 (unat (buf ! k)) @ '' '' else ''   '')"

text \<open>The pieces of the line that starts at index \<open>i\<close>, behind its header.\<close>

definition hex_pieces :: "nat \<Rightarrow> u8 list \<Rightarrow> nat \<Rightarrow> string list" where
  "hex_pieces width buf i =
     concat (map (\<lambda>j. [hex_cell buf (i + j)] @ (if (j + 1) mod 8 = 0 then ['' ''] else [])) [0..<width]) @
     [''  ''] @
     concat (map (\<lambda>j. if i + j < length buf
                     then [[if is_print (buf ! (i + j)) then char_of (unat (buf ! (i + j))) else CHR ''.'']]
                     else []) [0..<width])"

text \<open>\<open>%04X\<close> of \<open>i + width - 1\<close>, an \<open>int\<close> printed as an unsigned number.\<close>

definition hex_header :: "string \<Rightarrow> nat \<Rightarrow> nat \<Rightarrow> string" where
  "hex_header name width i =
     ''D/HEX '' @ name @ '': '' @ hex_padded 4 i @ ''-'' @
     hex_padded 4 (nat ((int i + int width - 1) mod 2 ^ 32)) @ '': ''"

definition hexdump_line :: "elog_cfg \<Rightarrow> string \<Rightarrow> nat \<Rightarrow> u8 list \<Rightarrow> nat \<Rightarrow> elog_state \<Rightarrow> unit elog_result" where
  "hexdump_line cfg name width buf i s =
     (let header = hex_header name width i in
      case do {
        b \<leftarrow> fmt_write (el_log_buf s) 0 (LINE_BUF_SIZE cfg) (Formatted header);
        l \<leftarrow> line_puts cfg (hex_pieces width buf i)
               (if length header \<le> LINE_BUF_SIZE cfg then length header else LINE_BUF_SIZE cfg, b);
        line_puts cfg [NEWLINE_SIGN cfg]
          (if fst l + length (NEWLINE_SIGN cfg) > LINE_BUF_SIZE cfg
           then LINE_BUF_SIZE cfg - length (NEWLINE_SIGN cfg) else fst l, snd l)
      } of
        None \<Rightarrow> stop Memory_fault s
      | Some l \<Rightarrow> emit_line cfg ELOG_LVL_DEBUG (fst l) (s\<lparr>el_log_buf := snd l\<rparr>))"

text \<open>
  The loop \<open>for (i = 0; i < size; i += width)\<close> with its 16-bit index; the size is that of the
  data. \<open>None\<close> is the exhaustion of the fuel.
\<close>

fun hexdump_loop ::
  "elog_cfg \<Rightarrow> string \<Rightarrow> nat \<Rightarrow> u8 list \<Rightarrow> nat \<Rightarrow> nat \<Rightarrow> elog_state \<Rightarrow> unit elog_result option" where
  "hexdump_loop cfg name width buf 0 i s = None"
| "hexdump_loop cfg name width buf (Suc fuel) i s =
     (if \<not> i < length buf then Some (ret () s)
      else case hexdump_line cfg name width buf i s of
             Inl e \<Rightarrow> Some (Inl e)
           | Inr (u, evs, s1) \<Rightarrow>
               (case hexdump_loop cfg name width buf fuel ((i + width) mod 2 ^ 16) s1 of
                  None \<Rightarrow> None
                | Some (Inl e) \<Rightarrow> Some (Inl e)
                | Some (Inr (v, evs', s2)) \<Rightarrow> Some (Inr (v, evs @ evs', s2))))"

definition elog_hexdump ::
  "elog_cfg \<Rightarrow> nat \<Rightarrow> string \<Rightarrow> nat \<Rightarrow> u8 list \<Rightarrow> elog_state \<Rightarrow> unit elog_result option" where
  "elog_hexdump cfg fuel name width buf s =
     (if \<not> el_output_enabled s then Some (ret () s)
      else if ELOG_LVL_DEBUG > fl_level (el_filter s) then Some (ret () s)
      else if \<not> strstr name (c_str (fl_tag (el_filter s))) then Some (ret () s)
      else case elog_output_lock s of
             Inl e \<Rightarrow> Some (Inl e)
           | Inr (u, evs, s1) \<Rightarrow>
               (case hexdump_loop cfg name width buf fuel 0 s1 of
                  None \<Rightarrow> None
                | Some (Inl e) \<Rightarrow> Some (Inl e)
                | Some (Inr (v, evs', s2)) \<Rightarrow>
                    (case elog_output_unlock s2 of
                       Inl e \<Rightarrow> Some (Inl e)
                     | Inr (w, evs'', s3) \<Rightarrow> Some (Inr ((), evs @ evs' @ evs'', s3)))))"

lemma hexdump_line_ok:
  assumes cfg: "cfg_ok cfg" and ok: "elog_ok cfg s"
  shows "\<exists>evs s'. hexdump_line cfg name width buf i s = Inr ((), evs, s') \<and> list_all is_output evs \<and>
    elog_ok cfg s' \<and> same_settings s s' \<and> el_lock s' = el_lock s \<and>
    (OUTPUT_MODE cfg = Output_direct \<longrightarrow>
       (\<exists>out. evs = [Port_output out] \<and> length out \<le> LINE_BUF_SIZE cfg))"
proof -
  let ?S = "LINE_BUF_SIZE cfg" and ?h = "hex_header name width i" and ?nl = "NEWLINE_SIGN cfg"
  have S: "0 < ?S" "length (el_log_buf s) = ?S" "length ?nl \<le> ?S" "?nl \<noteq> []"
    using cfg ok by (simp_all add: cfg_ok_def elog_ok_def end_reserve_def)
  from raw_line [OF S(1,2), of ?h] obtain b where
    b: "fmt_write (el_log_buf s) 0 ?S (Formatted ?h) = Some b" "length b = ?S" by blast
  let ?l0 = "(if length ?h \<le> ?S then length ?h else ?S, b)"
  have "line_ok cfg ?l0" using b by (simp add: line_ok_def)
  from line_puts_refines [OF this, of "hex_pieces width buf i"] obtain l1 where
    l1: "line_puts cfg (hex_pieces width buf i) ?l0 = Some l1" "line_ok cfg l1" by blast
  let ?l2 = "(if fst l1 + length ?nl > ?S then ?S - length ?nl else fst l1, snd l1)"
  have ok2: "line_ok cfg ?l2" using l1(2) by (auto simp: line_ok_def)
  from line_puts_refines [OF this, of "[?nl]"] obtain l3 where
    l3: "line_puts cfg [?nl] ?l2 = Some l3" "line_ok cfg l3"
      "line_text l3 = take ?S (line_text ?l2 @ ?nl)" by auto
  have "fst ?l2 + length ?nl \<le> ?S" using S(3) by simp
  then have l3text: "line_text l3 = line_text ?l2 @ ?nl"
    using l3(3) length_line_text [OF ok2] by simp
  let ?s = "s\<lparr>el_log_buf := snd l3\<rparr>"
  have "elog_ok cfg ?s" using l3(2) ok by (simp add: elog_ok_def line_ok_def tag_table_def)
  moreover have "line_text l3 \<noteq> []" using l3text S(4) by simp
  ultimately obtain evs s' where
    e: "elog_emit cfg ELOG_LVL_DEBUG (line_text l3) ?s = Inr ((), evs, s')" "list_all is_output evs"
      "elog_ok cfg s'" "same_settings ?s s'" "el_lock s' = el_lock ?s"
      "OUTPUT_MODE cfg = Output_direct \<longrightarrow> evs = [Port_output (line_text l3)]"
    using emit_ok [OF cfg] by blast
  have "emit_line cfg ELOG_LVL_DEBUG (fst l3) ?s = Inr ((), evs, s')"
    using l3(2) e(1) by (simp add: emit_line_def mem_read_def line_ok_def line_text_def)
  then have "hexdump_line cfg name width buf i s = Inr ((), evs, s')"
    using b(1) l1(1) l3(1) unfolding hexdump_line_def Let_def by simp
  moreover have "length (line_text l3) \<le> ?S" using l3(2) length_line_text [OF l3(2)] by (simp add: line_ok_def)
  moreover have "same_settings s s'" using e(4) by (simp add: same_settings_def)
  ultimately show ?thesis using e by auto
qed

lemma hexdump_loop_returns:
  assumes cfg: "cfg_ok cfg" and w: "0 < width" "length buf + width \<le> 2 ^ 16"
  shows "elog_ok cfg s \<Longrightarrow> length buf - i < fuel \<Longrightarrow>
    \<exists>evs s'. hexdump_loop cfg name width buf fuel i s = Some (Inr ((), evs, s')) \<and>
      list_all is_output evs \<and> elog_ok cfg s' \<and> same_settings s s' \<and>
      (OUTPUT_MODE cfg = Output_direct \<longrightarrow>
        length (port_outputs evs) = (length buf - i + width - 1) div width)"
proof (induction fuel arbitrary: i s)
  case 0
  then show ?case by simp
next
  case (Suc fuel)
  show ?case
  proof (cases "i < length buf")
    case False
    with Suc.prems w show ?thesis by (simp add: ret_def)
  next
    case True
    from hexdump_line_ok [OF cfg Suc.prems(1), of name width buf i] obtain evs s1 where
      l: "hexdump_line cfg name width buf i s = Inr ((), evs, s1)" "list_all is_output evs"
        "elog_ok cfg s1" "same_settings s s1"
        "OUTPUT_MODE cfg = Output_direct \<longrightarrow> length (port_outputs evs) = 1" by fastforce
    have nowrap: "(i + width) mod 2 ^ 16 = i + width" using True w by simp
    have "length buf - (i + width) < fuel" using Suc.prems(2) w True by simp
    from Suc.IH [OF l(3) this] obtain evs' s2 where
      r: "hexdump_loop cfg name width buf fuel (i + width) s1 = Some (Inr ((), evs', s2))"
        "list_all is_output evs'" "elog_ok cfg s2" "same_settings s1 s2"
        "OUTPUT_MODE cfg = Output_direct \<longrightarrow>
          length (port_outputs evs') = (length buf - (i + width) + width - 1) div width" by blast
    have "(length buf - i + width - 1) div width = Suc ((length buf - (i + width) + width - 1) div width)"
    proof (cases "i + width \<le> length buf")
      case le: True
      have "length buf - i + width - 1 = (length buf - (i + width) + width - 1) + width"
        using le w(1) by simp
      moreover have "(q + width) div width = Suc (q div width)" for q
        using div_add_self2 [of width q] w(1) by simp
      ultimately show ?thesis by presburger
    next
      case False
      then have "(length buf - (i + width) + width - 1) div width = 0" using w(1) by simp
      moreover have "(length buf - i + width - 1) div width = 1"
        using False True w(1) by (intro div_nat_eqI) auto
      ultimately show ?thesis by simp
    qed
    with l r True nowrap same_settings_trans [OF l(4) r(4)] show ?thesis by simp
  qed
qed

text \<open>
  A hex dump with a positive width whose last line does not wrap the 16-bit index
  returns: the loop ends within as many turns as there are bytes, no access leaves the line
  buffer, and with direct output there is one record per started line, printed under the lock.
\<close>

theorem hexdump_terminates:
  assumes "cfg_ok cfg" and "elog_ok cfg s" and "0 < width" and "length buf + width \<le> 2 ^ 16"
    and "el_output_enabled s" and "ELOG_LVL_DEBUG \<le> fl_level (el_filter s)"
    and "strstr name (c_str (fl_tag (el_filter s)))" and "length buf < fuel"
    and "lock_enabled (el_lock s)"
  shows "\<exists>evs s'. elog_hexdump cfg fuel name width buf s = Some (Inr ((), evs, s')) \<and>
      elog_ok cfg s' \<and> serialized evs \<and>
      (OUTPUT_MODE cfg = Output_direct \<longrightarrow>
         length (port_outputs evs) = (length buf + width - 1) div width)"
proof -
  from elog_output_lock_run [of s cfg] obtain s1 where
    s1: "elog_output_lock s = Inr ((), fst (output_lock (el_lock s)), s1)" "same_settings s s1"
      "elog_ok cfg s1" using assms(2) by auto
  from hexdump_loop_returns [OF assms(1,3,4) s1(3), of 0 fuel name] assms(8) obtain evs s2 where
    s2: "hexdump_loop cfg name width buf fuel 0 s1 = Some (Inr ((), evs, s2))"
      "list_all is_output evs" "elog_ok cfg s2" "same_settings s1 s2"
      "OUTPUT_MODE cfg = Output_direct \<longrightarrow>
        length (port_outputs evs) = (length buf + width - 1) div width" by auto
  from elog_output_unlock_run [of s2 cfg] obtain s3 where
    s3: "elog_output_unlock s2 = Inr ((), fst (output_unlock (el_lock s2)), s3)" "elog_ok cfg s3"
    using s2(3) by auto
  have act: "lock_enabled (el_lock s2) = lock_enabled (el_lock s)"
    using same_settings_trans [OF s1(2) s2(4)] by (simp add: same_settings_def)
  have run: "elog_hexdump cfg fuel name width buf s =
      Some (Inr ((), fst (output_lock (el_lock s)) @ evs @ fst (output_unlock (el_lock s2)), s3))"
    using assms(5-7) s1(1) s2(1) s3(1) by (simp add: elog_hexdump_def)
  show ?thesis
    using elog_lock.section_events [OF act, of evs] critical_section_serialized [OF s2(2)]
      s2(5) s3(2) assms(9)
    unfolding run by simp
qed

lemma hexdump_terminates_witness:
  "\<exists>evs s'. elog_hexdump service_cfg 20 ''rx'' 16 (replicate 19 0)
       (service_example\<lparr>el_lock := lock_initial\<lparr>lock_enabled := True\<rparr>\<rparr>) = Some (Inr ((), evs, s')) \<and>
      elog_ok service_cfg s' \<and> serialized evs"
proof -
  let ?s = "service_example\<lparr>el_lock := lock_initial\<lparr>lock_enabled := True\<rparr>\<rparr>"
  have "elog_ok service_cfg ?s"
    by (simp add: service_example_ok)
  moreover have "el_output_enabled ?s" "ELOG_LVL_DEBUG \<le> fl_level (el_filter ?s)"
    "strstr ''rx'' (c_str (fl_tag (el_filter ?s)))" "lock_enabled (el_lock ?s)"
    by (simp_all add: service_example_def elog_initial_def ELOG_LVL_DEBUG_def c_str_def)
  ultimately show ?thesis
    using hexdump_terminates [OF shipped_cfg_ok(2), of ?s 16 "replicate 19 0" "''rx''" 20]
    by auto
qed

text \<open>
  Outside of these bounds the loop need not end: a set of indices below the size that every
  step of the index stays in keeps it running whatever the fuel.
\<close>

lemma hexdump_loop_diverges:
  assumes cfg: "cfg_ok cfg" and inv: "\<And>i. P i \<Longrightarrow> i < length buf \<and> P ((i + width) mod 2 ^ 16)"
  shows "elog_ok cfg s \<Longrightarrow> P i \<Longrightarrow> hexdump_loop cfg name width buf fuel i s = None"
proof (induction fuel arbitrary: i s)
  case 0
  show ?case by simp
next
  case (Suc fuel)
  from hexdump_line_ok [OF cfg Suc.prems(1), of name width buf i] obtain evs s1 where
    "hexdump_line cfg name width buf i s = Inr ((), evs, s1)" "elog_ok cfg s1" by blast
  with Suc.IH [of s1 "(i + width) mod 2 ^ 16"] inv [OF Suc.prems(2)] show ?case by simp
qed

text \<open>
  A hex dump of width zero of a nonempty buffer never returns, and neither does one whose
  width divides \<open>2 ^ 16\<close> when the buffer reaches into the last line below \<open>2 ^ 16\<close> bytes, such
  as width 16 with 65535 bytes: the 16-bit index wraps to the start.
\<close>

theorem hexdump_diverges:
  assumes "cfg_ok cfg" and "elog_ok cfg s" and "el_output_enabled s"
    and "ELOG_LVL_DEBUG \<le> fl_level (el_filter s)" and "strstr name (c_str (fl_tag (el_filter s)))"
    and "width = 0 \<and> buf \<noteq> [] \<or> width dvd 2 ^ 16 \<and> 2 ^ 16 < length buf + width"
  shows "elog_hexdump cfg fuel name width buf s = None"
proof -
  define P where "P i \<longleftrightarrow> (if width = 0 then i = 0 else width dvd i \<and> i < 2 ^ 16)" for i :: nat
  have inv: "i < length buf \<and> P ((i + width) mod 2 ^ 16)" if "P i" for i
  proof (cases "width = 0")
    case True
    with that assms(6) show ?thesis by (auto simp: P_def)
  next
    case False
    with assms(6) have d: "width dvd 2 ^ 16" "2 ^ 16 < length buf + width" by auto
    have i: "width dvd i" "i < 2 ^ 16" using that False by (simp_all add: P_def)
    have "width dvd (2 ^ 16 - i)" using d(1) i by simp
    then have "width \<le> 2 ^ 16 - i" using i(2) by (simp add: dvd_imp_le)
    then have "i < length buf" using d(2) i(2) by simp
    moreover have "width dvd (i + width) mod 2 ^ 16" using i(1) d(1) by (simp add: dvd_mod)
    ultimately show ?thesis using False by (simp add: P_def)
  qed
  from elog_output_lock_run [of s cfg] obtain s1 where
    s1: "elog_output_lock s = Inr ((), fst (output_lock (el_lock s)), s1)" "elog_ok cfg s1"
    using assms(2) by auto
  have "P 0" by (simp add: P_def)
  from hexdump_loop_diverges [OF assms(1) inv s1(2) this, of name fuel] s1(1) assms(3-5)
  show ?thesis by (simp add: elog_hexdump_def)
qed

lemma hexdump_diverges_witness:
  "elog_hexdump service_cfg 1000 ''rx'' 0 [1, 2] service_example = None"
  by (rule hexdump_diverges [OF shipped_cfg_ok(2) service_example_ok])
    (simp_all add: service_example_def elog_initial_def ELOG_LVL_DEBUG_def c_str_def)

end
