(* ===== verification/Elog_Flash.thy ===== *)
theory Elog_Flash
  imports Elog_Core "HOL-Library.Sublist"
begin

text \<open>
  The flash plugin, \<open>plugins/flash/elog_flash.c\<close>, in its buffered mode: records are collected in
  a RAM buffer that is written to the flash in words, and read back in chunks of 128 bytes.
  EasyFlash is not part of the plugin: its four functions are an argument, with their documented
  behaviour as hypotheses (the theories \<open>Easyflash_Log\<close> and \<open>Easyflash_Store\<close> model the EasyFlash
  of the demo and provide them).  The lemmas show that writing loses nothing and pads only at an
  explicit flush, and which requests the reading functions print exactly.
\<close>

section \<open>State\<close>

record 'f easyflash =
  call_log_used_size :: "'f \<Rightarrow> nat"
  call_log_read :: "'f \<Rightarrow> nat \<Rightarrow> nat \<Rightarrow> char list"
  call_log_write :: "char list \<Rightarrow> 'f \<Rightarrow> bool \<times> 'f"
  call_log_clean :: "'f \<Rightarrow> bool \<times> 'f"

record 'f flash_state =
  fl_log_buf :: "char list"
  fl_cur_buf_size :: nat
  fl_init_ok :: bool
  fl_lock :: flash_lock
  fl_hook :: bool
  fl_dev :: 'f

definition flash_initial :: "nat \<Rightarrow> 'f \<Rightarrow> 'f flash_state" where
  "flash_initial capacity dev =
     \<lparr>fl_log_buf = replicate capacity NUL, fl_cur_buf_size = 0, fl_init_ok = False,
      fl_lock = flash_lock_initial, fl_hook = False, fl_dev = dev\<rparr>"

text \<open>
  An operation ends in a stop (a failed assertion without a hook, or an access outside the
  buffer) or in its trace and the next state.  The trace has the port calls, where
  \<open>Port_output\<close> is a call of \<open>elog_flash_port_output\<close>, and between them every access to \<open>log_buf\<close>.
\<close>

datatype flash_event = Flash_port port_event | Buffer_access

type_synonym ('x, 'f) flash_result = "elog_stop + ('x \<times> flash_event list \<times> 'f flash_state)"

definition flash_assert_fails :: "bool \<Rightarrow> 'f flash_state \<Rightarrow> bool" where
  "flash_assert_fails cond s \<longleftrightarrow> \<not> cond \<and> \<not> fl_hook s"

definition flash_acquire :: "'f flash_state \<Rightarrow> flash_event list \<times> 'f flash_state" where
  "flash_acquire s = (let (evs, l) = log_buf_lock (fl_lock s) in (map Flash_port evs, s\<lparr>fl_lock := l\<rparr>))"

definition flash_release :: "'f flash_state \<Rightarrow> flash_event list \<times> 'f flash_state" where
  "flash_release s = (let (evs, l) = log_buf_unlock (fl_lock s) in (map Flash_port evs, s\<lparr>fl_lock := l\<rparr>))"

section \<open>Operations\<close>

definition elog_flash_init :: "'f flash_state \<Rightarrow> (unit, 'f) flash_result" where
  "elog_flash_init s =
     (if flash_assert_fails (length (fl_log_buf s) mod 4 = 0) s then Inl Assert_hang
      else Inr ((), [], s\<lparr>fl_cur_buf_size := 0, fl_init_ok := True\<rparr>))"

definition word_overage :: "nat \<Rightarrow> nat" where
  "word_overage n = (if n mod 4 = 0 then 0 else 4 - n mod 4)"

definition CR :: char where "CR = CHR 0x0D"

definition elog_flash_flush :: "'f easyflash \<Rightarrow> 'f flash_state \<Rightarrow> (unit, 'f) flash_result" where
  "elog_flash_flush ef s =
     (if flash_assert_fails (fl_init_ok s) s then Inl Assert_hang
      else let (acq, s1) = flash_acquire s;
               cur = fl_cur_buf_size s1; over = word_overage cur
      in case mem_write (fl_log_buf s1) cur (replicate over CR) of
           None \<Rightarrow> Inl Memory_fault
         | Some buf \<Rightarrow>
             (case mem_read buf 0 (cur + over) of
                None \<Rightarrow> Inl Memory_fault
              | Some ws \<Rightarrow>
                  let (rel, s2) = flash_release
                    (s1\<lparr>fl_log_buf := buf, fl_cur_buf_size := 0,
                        fl_dev := snd (call_log_write ef ws (fl_dev s1))\<rparr>)
                  in Inr ((), acq @ [Buffer_access, Buffer_access] @ rel, s2)))"

lemma flash_acquire_simps [simp]:
  "fl_log_buf (snd (flash_acquire s)) = fl_log_buf s"
  "fl_cur_buf_size (snd (flash_acquire s)) = fl_cur_buf_size s"
  "fl_init_ok (snd (flash_acquire s)) = fl_init_ok s"
  "fl_hook (snd (flash_acquire s)) = fl_hook s"
  "fl_dev (snd (flash_acquire s)) = fl_dev s"
  "log_buf_lock_enabled (fl_lock (snd (flash_acquire s))) = log_buf_lock_enabled (fl_lock s)"
  "fst (flash_acquire s) = (if log_buf_lock_enabled (fl_lock s) then [Flash_port Port_lock] else [])"
  by (simp_all add: flash_acquire_def log_buf_lock_def)

lemma flash_release_simps [simp]:
  "fl_log_buf (snd (flash_release s)) = fl_log_buf s"
  "fl_cur_buf_size (snd (flash_release s)) = fl_cur_buf_size s"
  "fl_init_ok (snd (flash_release s)) = fl_init_ok s"
  "fl_hook (snd (flash_release s)) = fl_hook s"
  "fl_dev (snd (flash_release s)) = fl_dev s"
  "log_buf_lock_enabled (fl_lock (snd (flash_release s))) = log_buf_lock_enabled (fl_lock s)"
  "fst (flash_release s) = (if log_buf_lock_enabled (fl_lock s) then [Flash_port Port_unlock] else [])"
  by (simp_all add: flash_release_def log_buf_unlock_def)

lemma elog_flash_flush_cur:
  "elog_flash_flush ef s = Inr (u, evs, s') \<Longrightarrow>
   fl_cur_buf_size s' = 0 \<and> length (fl_log_buf s') = length (fl_log_buf s)"
  by (auto simp: elog_flash_flush_def Let_def case_prod_beta mem_write_def split: if_splits option.splits)

lemma flash_acquire_cur: "(acq, s') = flash_acquire s \<Longrightarrow> fl_cur_buf_size s' = fl_cur_buf_size s"
  by (metis flash_acquire_simps(2) snd_conv)

text \<open>
  The loop of \<open>elog_flash_write\<close> between the first lock and the last unlock; \<open>log\<close> is what is left
  of the record.  Without any room in the buffer the loop of the code does not end.
\<close>

function flash_write_loop ::
  "'f easyflash \<Rightarrow> char list \<Rightarrow> 'f flash_state \<Rightarrow> (unit, 'f) flash_result" where
  "flash_write_loop ef log s =
     (if length (fl_log_buf s) < fl_cur_buf_size s then Inl Memory_fault
      else if length (fl_log_buf s) = 0 \<and> log \<noteq> [] then Inl Assert_hang
      else if fl_cur_buf_size s + length log > length (fl_log_buf s)
      then let n = length (fl_log_buf s) - fl_cur_buf_size s in
        (case mem_write (fl_log_buf s) (fl_cur_buf_size s) (take n log) of
           None \<Rightarrow> Inl Memory_fault
         | Some buf \<Rightarrow>
             let (rel, s1) = flash_release
               (s\<lparr>fl_log_buf := buf, fl_cur_buf_size := fl_cur_buf_size s + n\<rparr>)
             in (case elog_flash_flush ef s1 of
                   Inl e \<Rightarrow> Inl e
                 | Inr (_, evs, s2) \<Rightarrow>
                     let (acq, s3) = flash_acquire s2
                     in (case flash_write_loop ef (drop n log) s3 of
                           Inl e \<Rightarrow> Inl e
                         | Inr (_, evs', s4) \<Rightarrow> Inr ((), Buffer_access # rel @ evs @ acq @ evs', s4))))
      else (case mem_write (fl_log_buf s) (fl_cur_buf_size s) log of
              None \<Rightarrow> Inl Memory_fault
            | Some buf \<Rightarrow>
                Inr ((), [Buffer_access],
                     s\<lparr>fl_log_buf := buf,
                       fl_cur_buf_size := fl_cur_buf_size s + length log\<rparr>)))"
  by pat_completeness auto

termination
  by (relation "measure (\<lambda>(ef, log, s). length log + fl_cur_buf_size s)")
    (auto dest!: elog_flash_flush_cur flash_acquire_cur
      simp: length_greater_0_conv [symmetric] simp del: length_greater_0_conv)

declare flash_write_loop.simps [simp del]

definition elog_flash_write ::
  "'f easyflash \<Rightarrow> char list \<Rightarrow> 'f flash_state \<Rightarrow> (unit, 'f) flash_result" where
  "elog_flash_write ef log s =
     (if flash_assert_fails (fl_init_ok s) s then Inl Assert_hang
      else let (acq, s1) = flash_acquire s
      in case flash_write_loop ef log s1 of
           Inl e \<Rightarrow> Inl e
         | Inr (_, evs, s2) \<Rightarrow>
             let (rel, s3) = flash_release s2 in Inr ((), acq @ evs @ rel, s3))"

text \<open>What \<open>elog_flash_clean\<close> reports through the logger is its result.\<close>

definition elog_flash_clean :: "'f easyflash \<Rightarrow> 'f flash_state \<Rightarrow> (bool, 'f) flash_result" where
  "elog_flash_clean ef s =
     (if flash_assert_fails (fl_init_ok s) s then Inl Assert_hang
      else let (acq, s1) = flash_acquire s;
               (ok, dev) = call_log_clean ef (fl_dev s1);
               (rel, s2) = flash_release (s1\<lparr>fl_dev := dev, fl_cur_buf_size := 0\<rparr>)
      in Inr (ok, acq @ rel, s2))"

section \<open>Reading back\<close>

definition chunk_size :: nat where "chunk_size = 128"

function flash_read_loop ::
  "'f easyflash \<Rightarrow> string \<Rightarrow> nat \<Rightarrow> nat \<Rightarrow> nat \<Rightarrow> 'f \<Rightarrow> char list list" where
  "flash_read_loop ef newline index len read_size dev =
     (if read_size + chunk_size < len
      then call_log_read ef dev (index + read_size) chunk_size #
             flash_read_loop ef newline index len (read_size + chunk_size) dev
      else let over = word_overage (len - read_size);
               buf = call_log_read ef dev (index + read_size) (len - read_size + over)
           in [take (len - read_size) (drop over buf), newline])"
  by pat_completeness auto
termination
  by (relation "measure (\<lambda>(ef, newline, index, len, read_size, dev). len - read_size)")
    (auto simp: chunk_size_def)

declare flash_read_loop.simps [simp del]

text \<open>
  \<open>elog_flash_output\<close>; the result is the size reported through the logger when the request is
  out of bounds.
\<close>

definition elog_flash_output ::
  "'f easyflash \<Rightarrow> string \<Rightarrow> nat \<Rightarrow> nat \<Rightarrow> 'f flash_state \<Rightarrow> (nat option, 'f) flash_result" where
  "elog_flash_output ef newline index len s =
     (let log_total_size = call_log_used_size ef (fl_dev s); index = index div 4 * 4 in
      if index + len > log_total_size then Inr (Some log_total_size, [], s)
      else if flash_assert_fails (fl_init_ok s) s then Inl Assert_hang
      else let (acq, s1) = flash_acquire s;
               outs = map (\<lambda>out. Flash_port (Port_output out)) (flash_read_loop ef newline index len 0 (fl_dev s1));
               (rel, s2) = flash_release s1
      in Inr (None, acq @ outs @ rel, s2))"

definition elog_flash_output_all ::
  "'f easyflash \<Rightarrow> string \<Rightarrow> 'f flash_state \<Rightarrow> (nat option, 'f) flash_result" where
  "elog_flash_output_all ef newline s =
     elog_flash_output ef newline 0 (call_log_used_size ef (fl_dev s)) s"

definition elog_flash_output_recent ::
  "'f easyflash \<Rightarrow> string \<Rightarrow> nat \<Rightarrow> 'f flash_state \<Rightarrow> (nat option, 'f) flash_result" where
  "elog_flash_output_recent ef newline len s =
     (let max_size = call_log_used_size ef (fl_dev s) in
      if len = 0 then Inr (None, [], s)
      else if len > max_size then Inr (Some max_size, [], s)
      else elog_flash_output ef newline (max_size - len) len s)"

section \<open>The contract of EasyFlash\<close>

text \<open>
  What is left of a log: all of it, or a latest part of more than \<open>keep\<close> bytes where the log may
  drop its oldest part.
\<close>

definition retained :: "nat option \<Rightarrow> char list \<Rightarrow> char list \<Rightarrow> bool" where
  "retained keep new full \<longleftrightarrow>
     suffix new full \<and> (new = full \<or> (\<exists>n. keep = Some n \<and> n < length new))"

text \<open>
  The log area as its documentation describes it: it holds a sequence of words, is read in
  words, and a write appends its words, after dropping the oldest part when the area is full.
  The laws hold on the \<open>valid\<close> states of the area, which a write keeps, and for writes of \<open>lo\<close> to
  \<open>hi\<close> bytes.
\<close>

definition easyflash_reads :: "('f \<Rightarrow> bool) \<Rightarrow> 'f easyflash \<Rightarrow> ('f \<Rightarrow> char list) \<Rightarrow> bool" where
  "easyflash_reads valid ef contents \<longleftrightarrow>
     (\<forall>dev. valid dev \<longrightarrow>
        call_log_used_size ef dev = length (contents dev) \<and> length (contents dev) mod 4 = 0) \<and>
     (\<forall>dev i n. valid dev \<and> i mod 4 = 0 \<and> n mod 4 = 0 \<and> i + n \<le> length (contents dev) \<longrightarrow>
        call_log_read ef dev i n = take n (drop i (contents dev)))"

definition easyflash_writes ::
  "nat option \<Rightarrow> nat \<Rightarrow> nat \<Rightarrow> ('f \<Rightarrow> bool) \<Rightarrow> 'f easyflash \<Rightarrow> ('f \<Rightarrow> char list) \<Rightarrow> bool" where
  "easyflash_writes keep lo hi valid ef contents \<longleftrightarrow>
     (\<forall>dev ws. valid dev \<and> length ws mod 4 = 0 \<and> lo \<le> length ws \<and> length ws \<le> hi \<longrightarrow>
        valid (snd (call_log_write ef ws dev)) \<and>
        retained keep (contents (snd (call_log_write ef ws dev))) (contents dev @ ws))"

definition flash_stored :: "('f \<Rightarrow> char list) \<Rightarrow> 'f flash_state \<Rightarrow> char list" where
  "flash_stored contents s = contents (fl_dev s) @ take (fl_cur_buf_size s) (fl_log_buf s)"

definition flash_ok :: "'f flash_state \<Rightarrow> bool" where
  "flash_ok s \<longleftrightarrow>
     fl_init_ok s \<and> 0 < length (fl_log_buf s) \<and> length (fl_log_buf s) mod 4 = 0 \<and>
     fl_cur_buf_size s \<le> length (fl_log_buf s)"

lemma retained_refl [simp]: "retained keep xs xs"
  by (simp add: retained_def)

lemma retained_append: "retained keep new full \<Longrightarrow> retained keep (new @ xs) (full @ xs)"
  by (auto simp: retained_def suffix_def)

lemma retained_trans: "retained keep a b \<Longrightarrow> retained keep b c \<Longrightarrow> retained keep a c"
  unfolding retained_def using suffix_order.trans by blast

lemma word_overage_mod [simp]: "(n + word_overage n) mod 4 = 0"
  by (simp add: word_overage_def) presburger

lemma word_overage_le: "cap mod 4 = 0 \<Longrightarrow> n \<le> cap \<Longrightarrow> n + word_overage n \<le> cap"
  unfolding word_overage_def by presburger

lemma easyflash_write:
  assumes "easyflash_writes keep lo hi valid ef contents" and "valid dev"
    and "length ws mod 4 = 0" and "lo \<le> length ws" and "length ws \<le> hi"
  shows "valid (snd (call_log_write ef ws dev))"
    and "retained keep (contents (snd (call_log_write ef ws dev))) (contents dev @ ws)"
  using assms unfolding easyflash_writes_def by simp_all

lemma flush_stores:
  assumes ef: "easyflash_writes keep lo hi valid ef contents" and ok: "flash_ok s"
    and dev: "valid (fl_dev s)"
    and size: "lo \<le> fl_cur_buf_size s + word_overage (fl_cur_buf_size s)"
      "fl_cur_buf_size s + word_overage (fl_cur_buf_size s) \<le> hi"
  shows "\<exists>s'. elog_flash_flush ef s =
      Inr ((), if log_buf_lock_enabled (fl_lock s)
        then [Flash_port Port_lock, Buffer_access, Buffer_access, Flash_port Port_unlock]
        else [Buffer_access, Buffer_access], s') \<and>
    flash_ok s' \<and> valid (fl_dev s') \<and> fl_cur_buf_size s' = 0 \<and>
    length (fl_log_buf s') = length (fl_log_buf s) \<and>
    log_buf_lock_enabled (fl_lock s') = log_buf_lock_enabled (fl_lock s) \<and>
    retained keep (flash_stored contents s')
      (flash_stored contents s @ replicate (word_overage (fl_cur_buf_size s)) CR)"
proof -
  let ?cur = "fl_cur_buf_size s" and ?over = "word_overage (fl_cur_buf_size s)"
  let ?buf = "overwrite (fl_log_buf s) ?cur (replicate ?over CR)"
  let ?ws = "take ?cur (fl_log_buf s) @ replicate ?over CR"
  have fit: "?cur + ?over \<le> length (fl_log_buf s)"
    using ok by (intro word_overage_le) (simp_all add: flash_ok_def)
  then have w: "mem_write (fl_log_buf s) ?cur (replicate ?over CR) = Some ?buf"
    by (simp add: mem_write_def)
  have "take (?cur + ?over) ?buf = ?ws"
    using take_overwrite [of ?cur "fl_log_buf s" "replicate ?over CR"] fit by simp
  then have r: "mem_read ?buf 0 (?cur + ?over) = Some ?ws"
    using fit by (simp add: mem_read_def)
  have len: "length ?ws = ?cur + ?over"
    using fit by simp
  note written = easyflash_write [OF ef dev, of ?ws, unfolded len, OF word_overage_mod size]
  moreover have "length ?buf = length (fl_log_buf s)"
    using fit by simp
  moreover from this ok have "?buf \<noteq> []"
    by (metis flash_ok_def length_greater_0_conv)
  ultimately show ?thesis
    using ok w r
    by (simp add: elog_flash_flush_def Let_def case_prod_beta flash_assert_fails_def flash_ok_def
        flash_stored_def)
qed

text \<open>Filling the buffer: the state before the flush, and what the flush leaves.\<close>

definition flash_filled :: "char list \<Rightarrow> 'f flash_state \<Rightarrow> 'f flash_state" where
  "flash_filled log s =
     snd (flash_release (s\<lparr>fl_log_buf := overwrite (fl_log_buf s) (fl_cur_buf_size s)
       (take (length (fl_log_buf s) - fl_cur_buf_size s) log), fl_cur_buf_size := length (fl_log_buf s)\<rparr>))"

lemma flash_filled_state:
  assumes "flash_ok s" and "fl_cur_buf_size s + length log > length (fl_log_buf s)"
  defines "n \<equiv> length (fl_log_buf s) - fl_cur_buf_size s"
  shows "mem_write (fl_log_buf s) (fl_cur_buf_size s) (take n log) =
      Some (overwrite (fl_log_buf s) (fl_cur_buf_size s) (take n log))"
    and "flash_ok (flash_filled log s)" and "length (fl_log_buf (flash_filled log s)) = length (fl_log_buf s)"
    and "flash_stored contents (flash_filled log s) = flash_stored contents s @ take n log"
    and "word_overage (fl_cur_buf_size (flash_filled log s)) = 0"
proof -
  let ?cap = "length (fl_log_buf s)" and ?cur = "fl_cur_buf_size s"
  let ?buf = "overwrite (fl_log_buf s) ?cur (take n log)"
  have ok: "0 < ?cap" "?cap mod 4 = 0" "?cur \<le> ?cap" "fl_init_ok s"
    using assms(1) by (simp_all add: flash_ok_def)
  have lt: "length (take n log) = n"
    using assms(2) by (simp add: n_def)
  have fit: "?cur + length (take n log) \<le> ?cap"
    using lt ok by (simp add: n_def)
  show "mem_write (fl_log_buf s) ?cur (take n log) = Some ?buf"
    using fit by (simp only: mem_write_def if_True)
  have len: "length ?buf = ?cap"
    using fit by (rule length_overwrite)
  then show "flash_ok (flash_filled log s)" "length (fl_log_buf (flash_filled log s)) = ?cap"
    using ok by (simp_all add: flash_filled_def n_def flash_ok_def del: length_greater_0_conv)
  show "word_overage (fl_cur_buf_size (flash_filled log s)) = 0"
    using ok by (simp add: word_overage_def flash_filled_def)
  have "take ?cap ?buf = take ?cur (fl_log_buf s) @ take n log"
    using lt ok len by (simp add: overwrite_def n_def)
  then show "flash_stored contents (flash_filled log s) = flash_stored contents s @ take n log"
    using ok(3) by (simp add: flash_stored_def flash_filled_def n_def)
qed

lemma flash_write_loop_fits:
  assumes "flash_ok s" and "fl_cur_buf_size s + length log \<le> length (fl_log_buf s)"
  defines "s' \<equiv> s\<lparr>fl_log_buf := overwrite (fl_log_buf s) (fl_cur_buf_size s) log,
    fl_cur_buf_size := fl_cur_buf_size s + length log\<rparr>"
  shows "flash_write_loop ef log s = Inr ((), [Buffer_access], s')" and "flash_ok s'"
    and "flash_stored contents s' = flash_stored contents s @ log"
proof -
  have ok: "0 < length (fl_log_buf s)" "length (fl_log_buf s) mod 4 = 0" "fl_init_ok s"
      "fl_cur_buf_size s \<le> length (fl_log_buf s)"
    using assms(1) by (simp_all add: flash_ok_def)
  show "flash_write_loop ef log s = Inr ((), [Buffer_access], s')"
    using ok assms(2) by (subst flash_write_loop.simps) (simp add: mem_write_def s'_def)
  have "length (overwrite (fl_log_buf s) (fl_cur_buf_size s) log) = length (fl_log_buf s)"
    using assms(2) by (intro length_overwrite) simp
  then show "flash_ok s'"
    using ok assms(1,2) by (simp add: flash_ok_def s'_def del: length_greater_0_conv)
  show "flash_stored contents s' = flash_stored contents s @ log"
    using ok by (simp add: flash_stored_def s'_def)
qed

text \<open>
  The trace of a write: one turn for each flush, and the last access.  With the lock enabled, each
  access happens while the port holds it.
\<close>

definition flush_turn :: "bool \<Rightarrow> flash_event list" where
  "flush_turn enabled =
     (if enabled
      then [Buffer_access, Flash_port Port_unlock, Flash_port Port_lock, Buffer_access, Buffer_access,
        Flash_port Port_unlock, Flash_port Port_lock]
      else [Buffer_access, Buffer_access, Buffer_access])"

definition write_trace :: "bool \<Rightarrow> nat \<Rightarrow> flash_event list" where
  "write_trace enabled flushes =
     (if enabled then [Flash_port Port_lock] else []) @ concat (replicate flushes (flush_turn enabled)) @
     [Buffer_access] @ (if enabled then [Flash_port Port_unlock] else [])"

fun guarded :: "bool \<Rightarrow> flash_event list \<Rightarrow> bool" where
  "guarded locked [] \<longleftrightarrow> \<not> locked"
| "guarded locked (Buffer_access # evs) \<longleftrightarrow> locked \<and> guarded locked evs"
| "guarded locked (Flash_port Port_lock # evs) \<longleftrightarrow> \<not> locked \<and> guarded True evs"
| "guarded locked (Flash_port Port_unlock # evs) \<longleftrightarrow> locked \<and> guarded False evs"
| "guarded locked (Flash_port (Port_output out) # evs) \<longleftrightarrow> guarded locked evs"

lemma write_trace_guarded: "guarded False (write_trace True flushes)"
proof -
  have "guarded True (concat (replicate flushes (flush_turn True)) @ evs) = guarded True evs" for evs
    by (induction flushes) (simp_all add: flush_turn_def)
  then show ?thesis
    by (simp add: write_trace_def)
qed

lemma write_trace_unlocked: "set (write_trace False flushes) = {Buffer_access}"
  by (induction flushes) (auto simp: write_trace_def flush_turn_def)

lemma flash_write_loop_stores:
  assumes ef: "easyflash_writes keep lo hi valid ef contents"
  shows "flash_ok s \<Longrightarrow> valid (fl_dev s) \<Longrightarrow> lo \<le> length (fl_log_buf s) \<Longrightarrow> length (fl_log_buf s) \<le> hi \<Longrightarrow>
    \<exists>k s'. flash_write_loop ef log s =
        Inr ((), concat (replicate k (flush_turn (log_buf_lock_enabled (fl_lock s)))) @ [Buffer_access], s') \<and>
      flash_ok s' \<and> valid (fl_dev s') \<and> length (fl_log_buf s') = length (fl_log_buf s) \<and>
      log_buf_lock_enabled (fl_lock s') = log_buf_lock_enabled (fl_lock s) \<and>
      retained keep (flash_stored contents s') (flash_stored contents s @ log)"
proof (induction "length log + fl_cur_buf_size s" arbitrary: log s rule: less_induct)
  case less
  let ?cap = "length (fl_log_buf s)" and ?cur = "fl_cur_buf_size s"
  let ?n = "?cap - ?cur"
  have ok: "0 < ?cap" "?cur \<le> ?cap"
    using less.prems by (simp_all add: flash_ok_def)
  show ?case
  proof (cases "?cur + length log > ?cap")
    case False
    let ?s' = "s\<lparr>fl_log_buf := overwrite (fl_log_buf s) ?cur log, fl_cur_buf_size := ?cur + length log\<rparr>"
    have fits: "?cur + length log \<le> ?cap"
      using False by simp
    then have "length (overwrite (fl_log_buf s) ?cur log) = ?cap"
      by (rule length_overwrite)
    with flash_write_loop_fits [OF less.prems(1) fits] less.prems(2) show ?thesis
      by (intro exI [of _ 0] exI [of _ ?s']) simp
  next
    case True
    let ?s1 = "flash_filled log s"
    note filled = flash_filled_state [OF less.prems(1) True]
    have locks: "log_buf_lock_enabled (fl_lock ?s1) = log_buf_lock_enabled (fl_lock s)"
        "fl_dev ?s1 = fl_dev s" "fl_cur_buf_size ?s1 = ?cap"
      by (simp_all add: flash_filled_def)
    from flush_stores [OF ef filled(2)] filled(3,5) locks less.prems(2-4) obtain s2 where
      s2: "elog_flash_flush ef ?s1 = Inr ((), if log_buf_lock_enabled (fl_lock s)
            then [Flash_port Port_lock, Buffer_access, Buffer_access, Flash_port Port_unlock]
            else [Buffer_access, Buffer_access], s2)"
        "flash_ok s2" "valid (fl_dev s2)" "fl_cur_buf_size s2 = 0" "length (fl_log_buf s2) = ?cap"
        "log_buf_lock_enabled (fl_lock s2) = log_buf_lock_enabled (fl_lock s)"
        "retained keep (flash_stored contents s2) (flash_stored contents ?s1)"
      by auto
    let ?s3 = "snd (flash_acquire s2)"
    have ok3: "flash_ok ?s3" "valid (fl_dev ?s3)"
      using s2(2,3) by (simp_all add: flash_ok_def)
    have "length (drop ?n log) + fl_cur_buf_size ?s3 < length log + ?cur"
      using True ok s2(4) by (simp del: length_greater_0_conv)
    from less.hyps [OF this ok3] s2(5,6) less.prems(3,4) obtain k s' where
      ih: "flash_write_loop ef (drop ?n log) ?s3 =
            Inr ((), concat (replicate k (flush_turn (log_buf_lock_enabled (fl_lock s)))) @ [Buffer_access], s')"
        "flash_ok s'" "valid (fl_dev s')" "length (fl_log_buf s') = ?cap"
        "log_buf_lock_enabled (fl_lock s') = log_buf_lock_enabled (fl_lock s)"
        "retained keep (flash_stored contents s') (flash_stored contents ?s3 @ drop ?n log)"
      by auto
    have "flash_stored contents ?s1 @ drop ?n log = flash_stored contents s @ log"
        "flash_stored contents ?s3 = flash_stored contents s2"
      by (simp add: filled(4)) (simp add: flash_stored_def)
    then have "retained keep (flash_stored contents ?s3 @ drop ?n log) (flash_stored contents s @ log)"
      using retained_append [OF s2(7), of "drop ?n log"] by (simp only:)
    then have kept: "retained keep (flash_stored contents s') (flash_stored contents s @ log)"
      using ih(6) retained_trans by blast
    have "flash_write_loop ef log s =
        Inr ((), concat (replicate (Suc k) (flush_turn (log_buf_lock_enabled (fl_lock s)))) @ [Buffer_access], s')"
      using ok True filled(1) s2(1) ih(1)
      by (subst flash_write_loop.simps) (simp add: Let_def case_prod_beta s2(6) flash_filled_def flush_turn_def)
    with ih kept show ?thesis
      by blast
  qed
qed

text \<open>
  Writing a record to an initialised plugin returns, keeps the buffer well formed and the store
  valid, and loses nothing that the store does not drop.
\<close>

lemma flash_write_stores:
  assumes "easyflash_writes keep lo hi valid ef contents" and "flash_ok s" and "valid (fl_dev s)"
    and "lo \<le> length (fl_log_buf s)" and "length (fl_log_buf s) \<le> hi"
  shows "\<exists>k s'. elog_flash_write ef log s =
      Inr ((), write_trace (log_buf_lock_enabled (fl_lock s)) k, s') \<and>
    flash_ok s' \<and> valid (fl_dev s') \<and> length (fl_log_buf s') = length (fl_log_buf s) \<and>
    retained keep (flash_stored contents s') (flash_stored contents s @ log)"
proof -
  have "flash_ok (snd (flash_acquire s))" "valid (fl_dev (snd (flash_acquire s)))"
    and init: "fl_init_ok s"
    using assms(2,3) by (simp_all add: flash_ok_def)
  from flash_write_loop_stores [OF assms(1) this(1,2), of log] assms(4,5) obtain k s' where
    r: "flash_write_loop ef log (snd (flash_acquire s)) =
        Inr ((), concat (replicate k (flush_turn (log_buf_lock_enabled (fl_lock s)))) @ [Buffer_access], s')"
      "flash_ok s'" "valid (fl_dev s')" "length (fl_log_buf s') = length (fl_log_buf s)"
      "log_buf_lock_enabled (fl_lock s') = log_buf_lock_enabled (fl_lock s)"
      "retained keep (flash_stored contents s') (flash_stored contents s @ log)"
    by (auto simp: flash_stored_def)
  let ?s'' = "snd (flash_release s')"
  have "elog_flash_write ef log s =
      Inr ((), write_trace (log_buf_lock_enabled (fl_lock s)) k, ?s'')"
    using r(1,5) init
    by (simp add: write_trace_def elog_flash_write_def flash_assert_fails_def Let_def case_prod_beta split: if_splits)
  moreover have "flash_ok ?s''" "valid (fl_dev ?s'')"
      "length (fl_log_buf ?s'') = length (fl_log_buf s)"
    using r(2-4) by (simp_all add: flash_ok_def)
  moreover have "retained keep (flash_stored contents ?s'') (flash_stored contents s @ log)"
    using r(6) by (simp add: flash_stored_def)
  ultimately show ?thesis
    by blast
qed

text \<open>A flash area with room for everything, holding whole words.\<close>

definition roomy_flash :: "(char \<times> char \<times> char \<times> char) list easyflash" where
  "roomy_flash =
     \<lparr>call_log_used_size = (\<lambda>ws. 4 * length ws),
      call_log_read = (\<lambda>ws i n. take n (drop i (concat (map (\<lambda>(a, b, c, d). [a, b, c, d]) ws)))),
      call_log_write = (\<lambda>bs ws. (True, ws @ map (\<lambda>i. (bs ! (4 * i), bs ! (4 * i + 1), bs ! (4 * i + 2),
        bs ! (4 * i + 3))) [0..<length bs div 4])),
      call_log_clean = (\<lambda>ws. (True, []))\<rparr>"

definition word_bytes :: "(char \<times> char \<times> char \<times> char) list \<Rightarrow> char list" where
  "word_bytes ws = concat (map (\<lambda>(a, b, c, d). [a, b, c, d]) ws)"

lemma length_word_bytes [simp]: "length (word_bytes ws) = 4 * length ws"
  by (induction ws) (auto simp: word_bytes_def)

lemma word_bytes_append: "word_bytes (ws @ vs) = word_bytes ws @ word_bytes vs"
  by (simp add: word_bytes_def)

lemma word_bytes_split:
  "length bs = 4 * n \<Longrightarrow>
   word_bytes (map (\<lambda>i. (bs ! (4 * i), bs ! (4 * i + 1), bs ! (4 * i + 2), bs ! (4 * i + 3))) [0..<n]) = bs"
proof (induction n arbitrary: bs)
  case 0
  then show ?case
    by (simp add: word_bytes_def)
next
  case (Suc n)
  then obtain a b c d cs where bs: "bs = a # b # c # d # cs" "length cs = 4 * n"
    by (auto simp: numeral_eq_Suc length_Suc_conv)
  have "[0..<Suc n] = 0 # map Suc [0..<n]"
    by (simp add: map_Suc_upt upt_conv_Cons del: upt_Suc)
  with Suc.IH [OF bs(2)] show ?case
    by (simp add: bs(1) word_bytes_def comp_def add.commute del: upt_Suc)
qed

lemma roomy_flash_writes: "easyflash_writes None 0 8 (\<lambda>_. True) roomy_flash word_bytes"
  unfolding easyflash_writes_def
proof (intro allI impI conjI)
  fix ws :: "char list" and dev :: "(char \<times> char \<times> char \<times> char) list"
  assume "True \<and> length ws mod 4 = 0 \<and> 0 \<le> length ws \<and> length ws \<le> 8"
  then have "length ws = 4 * (length ws div 4)"
    by presburger
  from word_bytes_split [OF this]
  show "retained None (word_bytes (snd (call_log_write roomy_flash ws dev))) (word_bytes dev @ ws)"
    by (simp add: roomy_flash_def word_bytes_append)
qed simp

lemma roomy_flash_reads: "easyflash_reads (\<lambda>_. True) roomy_flash word_bytes"
  by (simp add: easyflash_reads_def roomy_flash_def word_bytes_def [symmetric])

lemma flash_initial_ok:
  "flash_ok ((flash_initial 8 dev)\<lparr>fl_init_ok := True\<rparr>)"
  by (simp add: flash_ok_def flash_initial_def)

lemma roomy_flash_stores:
  "\<exists>k s'. elog_flash_write roomy_flash ''hello, flash!'' ((flash_initial 8 [])\<lparr>fl_init_ok := True\<rparr>) =
      Inr ((), write_trace True k, s') \<and>
    flash_stored word_bytes s' = ''hello, flash!''"
  using flash_write_stores [OF roomy_flash_writes flash_initial_ok, of "[]" "''hello, flash!''"]
  by (auto simp: retained_def flash_stored_def flash_initial_def flash_lock_initial_def word_bytes_def)

section \<open>What reading back prints\<close>

lemma easyflash_read:
  "easyflash_reads valid ef contents \<Longrightarrow> valid dev \<Longrightarrow>
   i mod 4 = 0 \<Longrightarrow> n mod 4 = 0 \<Longrightarrow> i + n \<le> length (contents dev) \<Longrightarrow>
   call_log_read ef dev i n = take n (drop i (contents dev))"
  by (simp add: easyflash_reads_def)

text \<open>Where the last chunk of a request starts.\<close>

definition last_chunk :: "nat \<Rightarrow> nat" where
  "last_chunk len = (len - 1) div 128 * 128"

lemma aligned_down:
  assumes "c mod 4 = 0" "n \<le> c"
  shows "(c - n) div 4 * 4 + n + word_overage n = c"
proof -
  obtain k where k: "c = 4 * k"
    using assms(1) by (metis mod_0_imp_dvd dvdE)
  show ?thesis
  proof (cases "n mod 4 = 0")
    case True
    then obtain j where "n = 4 * j"
      by (metis mod_0_imp_dvd dvdE)
    with k assms(2) show ?thesis
      by (simp add: word_overage_def flip: right_diff_distrib')
  next
    case False
    define q r where "q = n div 4" and "r = n mod 4"
    then have n: "n = 4 * q + r" "r < 4" "0 < r"
      using False by simp_all
    have "(c - n) div 4 = k - q - 1"
      using n assms(2) k by linarith
    with False n k assms(2) show ?thesis
      by (simp add: word_overage_def r_def [symmetric])
  qed
qed

lemma chunk_position:
  assumes "rs mod 128 = 0" and "rs < len"
  shows "word_overage (len - rs) = word_overage len" and "rs mod 4 = 0"
    and "rs + 128 < len \<Longrightarrow> rs + 128 \<le> last_chunk len"
    and "\<not> rs + 128 < len \<Longrightarrow> last_chunk len = rs"
proof -
  obtain q where q: "rs = 128 * q"
    using assms(1) by (metis mod_0_imp_dvd dvdE)
  then have "len = (len - rs) + 4 * (32 * q)"
    using assms(2) by simp
  then have "len mod 4 = (len - rs) mod 4"
    by (metis mod_mult_self2)
  then show "word_overage (len - rs) = word_overage len"
    by (simp add: word_overage_def)
  show "rs mod 4 = 0"
    using q by presburger
  show "rs + 128 \<le> last_chunk len" if "rs + 128 < len"
  proof -
    have "q + 1 \<le> (len - 1) div 128"
      using q that by linarith
    with q show ?thesis
      by (simp add: last_chunk_def)
  qed
  show "last_chunk len = rs" if "\<not> rs + 128 < len"
  proof -
    have "(len - 1) div 128 = q"
      using q assms(2) that by (intro div_nat_eqI) auto
    with q show ?thesis
      by (simp add: last_chunk_def)
  qed
qed

lemma take_split: "b \<le> n \<Longrightarrow> take n xs = take b xs @ take (n - b) (drop b xs)"
  by (metis le_add_diff_inverse take_add)

text \<open>The chunks before the last one are printed whole; the last one skips its padding.\<close>

lemma flash_read_loop_prints:
  assumes ef: "easyflash_reads valid ef contents" and dev: "valid dev" and i: "index mod 4 = 0"
    and fits: "index + len + word_overage len \<le> length (contents dev)"
  shows "rs mod 128 = 0 \<Longrightarrow> rs < len \<Longrightarrow>
    concat (flash_read_loop ef nl index len rs dev) =
      (let last = last_chunk len in
       take (last - rs) (drop (index + rs) (contents dev)) @
       take (len - last) (drop (index + last + word_overage len) (contents dev)) @ nl)"
proof (induction "len - rs" arbitrary: rs rule: less_induct)
  case less
  let ?last = "last_chunk len" and ?over = "word_overage len"
  have over: "word_overage (len - rs) = ?over"
    using chunk_position(1) [OF less.prems] .
  have pad: "(len - rs + ?over) mod 4 = 0"
    using over word_overage_mod [of "len - rs"] by simp
  have al: "(index + rs) mod 4 = 0"
    using i chunk_position(2) [OF less.prems] by presburger
  show ?case
  proof (cases "rs + 128 < len")
    case True
    have "call_log_read ef dev (index + rs) 128 = take 128 (drop (index + rs) (contents dev))"
      using fits True by (intro easyflash_read [OF ef dev al]) simp_all
    moreover have "rs + 128 \<le> ?last"
      using chunk_position(3) [OF less.prems True] .
    then have "128 \<le> ?last - rs" "?last - rs - 128 = ?last - (rs + 128)"
      by simp_all
    then have "take (?last - rs) (drop (index + rs) (contents dev)) =
        take 128 (drop (index + rs) (contents dev)) @
        take (?last - (rs + 128)) (drop (index + (rs + 128)) (contents dev))"
      using take_split [of 128 "?last - rs" "drop (index + rs) (contents dev)"]
      by (simp add: ac_simps)
    moreover have "concat (flash_read_loop ef nl index len (rs + 128) dev) =
      take (?last - (rs + 128)) (drop (index + (rs + 128)) (contents dev)) @
       take (len - ?last) (drop (index + ?last + ?over) (contents dev)) @ nl"
      using less.hyps [of "rs + 128"] less.prems True by (simp add: Let_def)
    ultimately show ?thesis
      using True by (subst flash_read_loop.simps) (simp add: chunk_size_def Let_def)
  next
    case False
    have last: "?last = rs"
      by (rule chunk_position(4) [OF less.prems False])
    have "call_log_read ef dev (index + rs) (len - rs + ?over) =
        take (len - rs + ?over) (drop (index + rs) (contents dev))"
      using fits less.prems by (intro easyflash_read [OF ef dev al pad]) simp
    then show ?thesis
      using False last over
      by (subst flash_read_loop.simps)
        (simp add: chunk_size_def Let_def drop_take min_def add.commute add.left_commute)
  qed
qed

text \<open>
  Reading back the most recent bytes of an initialised plugin, up to the amount stored,
  takes the lock, prints and releases it.  For a size that is a multiple of four, or that fits
  in one chunk, it prints exactly the last bytes of the flash and a newline.  For any other size
  the start is aligned down to a word and the bytes of alignment are skipped only in front of
  the last chunk, so the printed text starts too early and has a gap.
\<close>

theorem flash_output_recent_exact:
  assumes "easyflash_reads valid ef contents" and "valid (fl_dev s)" and "fl_init_ok s"
    and "0 < len" and "len \<le> length (contents (fl_dev s))"
  shows "\<exists>outs. elog_flash_output_recent ef nl len s =
      Inr (None, fst (flash_acquire s) @ map (\<lambda>out. Flash_port (Port_output out)) outs @ fst (flash_release s),
        snd (flash_release (snd (flash_acquire s)))) \<and>
    concat outs =
      (let c = contents (fl_dev s); first = length c - len; last = last_chunk len in
       if len mod 4 = 0 \<or> len \<le> 128 then drop first c
       else take last (drop (first - word_overage len) c) @ drop (first + last) c) @ nl"
proof -
  let ?c = "contents (fl_dev s)" and ?over = "word_overage len"
  let ?index = "(length ?c - len) div 4 * 4" and ?last = "last_chunk len"
  have used: "call_log_used_size ef (fl_dev s) = length ?c" and al: "length ?c mod 4 = 0"
    using assms(1,2) by (simp_all add: easyflash_reads_def)
  have index: "?index + len + ?over = length ?c"
    using aligned_down [OF al assms(5)] .
  have last: "?last < len"
    using assms(4) by (metis One_nat_def Suc_pred div_times_less_eq_dividend last_chunk_def le_imp_less_Suc)
  let ?outs = "flash_read_loop ef nl ?index len 0 (fl_dev s)"
  have "concat ?outs = take ?last (drop ?index ?c) @
      take (len - ?last) (drop (?index + ?last + ?over) ?c) @ nl"
    using flash_read_loop_prints [OF assms(1,2), of ?index len 0 nl] index assms(4)
    by (simp add: Let_def)
  moreover have rest: "?index + ?last + ?over = length ?c - len + ?last"
    using index assms(5) by linarith
  moreover have "take (len - ?last) (drop (length ?c - len + ?last) ?c) = drop (length ?c - len + ?last) ?c"
    using assms(5) last by simp
  ultimately have "concat ?outs = take ?last (drop ?index ?c) @ drop (length ?c - len + ?last) ?c @ nl"
    by (simp only:)
  moreover have whole: "take ?last (drop (length ?c - len) ?c) @ drop (length ?c - len + ?last) ?c =
      drop (length ?c - len) ?c"
    by (metis add.commute append_take_drop_id drop_drop)
  moreover have start: "?index = length ?c - len - ?over"
    using index by linarith
  moreover have "?over = 0" if "len mod 4 = 0"
    using that by (simp add: word_overage_def)
  moreover have "?last = 0" if "len \<le> 128"
    using that by (simp add: last_chunk_def)
  ultimately have "concat ?outs = (if len mod 4 = 0 \<or> len \<le> 128 then drop (length ?c - len) ?c
       else take ?last (drop (length ?c - len - ?over) ?c) @ drop (length ?c - len + ?last) ?c) @ nl"
    by (cases "len mod 4 = 0"; cases "len \<le> 128") simp_all
  moreover have "elog_flash_output_recent ef nl len s =
      Inr (None, fst (flash_acquire s) @ map (\<lambda>out. Flash_port (Port_output out)) ?outs @ fst (flash_release s),
        snd (flash_release (snd (flash_acquire s))))"
    using assms(3-5) used index
    by (simp add: elog_flash_output_recent_def elog_flash_output_def flash_assert_fails_def Let_def
        case_prod_beta)
  ultimately show ?thesis
    unfolding Let_def by blast
qed

theorem flash_output_recent_exact_witness:
  "\<exists>outs. elog_flash_output_recent roomy_flash ''!'' 3
        ((flash_initial 8 [(CHR ''a'', CHR ''b'', CHR ''c'', CHR ''d'')])\<lparr>fl_init_ok := True\<rparr>) =
      Inr (None, Flash_port Port_lock # map (\<lambda>out. Flash_port (Port_output out)) outs @ [Flash_port Port_unlock],
        (flash_initial 8 [(CHR ''a'', CHR ''b'', CHR ''c'', CHR ''d'')])\<lparr>fl_init_ok := True\<rparr>) \<and>
    concat outs = ''bcd!''"
  using flash_output_recent_exact [OF roomy_flash_reads,
      of "(flash_initial 8 [(CHR ''a'', CHR ''b'', CHR ''c'', CHR ''d'')])\<lparr>fl_init_ok := True\<rparr>" 3 "''!''"]
  by (simp add: flash_initial_def flash_lock_initial_def word_bytes_def last_chunk_def flash_acquire_def
      flash_release_def log_buf_lock_def log_buf_unlock_def Let_def)

end
