(* ===== verification/Easyflash_Port.thy ===== *)
theory Easyflash_Port
  imports Elog_Flash
begin

text \<open>
  The EasyFlash library as the RT-Thread demo of EasyLogger ships it, under
  \<open>src/components/EasyLogger/demo/os/rt-thread/stm32f10x/components/easyflash\<close>: its configuration
  \<open>ef_cfg.h\<close>, the STM32F10x port \<open>ef_port.c\<close> and the sector status of \<open>ef_utils.c\<close>.  The flash
  controller, which the port drives through the register functions of the peripheral library, is
  an argument, with its documented behaviour as a hypothesis.

  Addresses are natural numbers: the configured area ends below \<open>2 ^ 30\<close>, so sums never wrap;
  differences can, and are written with the wrap-around of \<open>uint32_t\<close>.  A sector is one page of the
  controller, as \<open>ef_cfg.h\<close> defines it, so \<open>PAGE_SIZE\<close> in \<open>ef_port_erase\<close> is the size of a sector.
\<close>

section \<open>Configuration, flash controller and state\<close>

datatype ef_err_code =
    EF_NO_ERR | EF_ERASE_ERR | EF_WRITE_ERR | EF_ENV_NAME_ERR | EF_ENV_NAME_EXIST | EF_ENV_FULL
  | EF_ENV_INIT_FAILED

datatype ef_sector_status = EF_SECTOR_EMPTY | EF_SECTOR_USING | EF_SECTOR_FULL

record ef_cfg =
  EF_START_ADDR :: nat
  ENV_AREA_SIZE :: nat
  LOG_AREA_SIZE :: nat
  EF_ERASE_MIN_SIZE :: nat

text \<open>The configuration of the demo, whose project files select a high density device.\<close>

definition PAGE_SIZE :: nat where
  "PAGE_SIZE = 2048"

definition ef_cfg_demo :: ef_cfg where
  "ef_cfg_demo =
     \<lparr>EF_START_ADDR = 0x08000000 + 80 * 1024, ENV_AREA_SIZE = 1 * PAGE_SIZE,
      LOG_AREA_SIZE = 10 * PAGE_SIZE, EF_ERASE_MIN_SIZE = PAGE_SIZE\<rparr>"

text \<open>
  The controller: the memory-mapped bytes, and the functions of the standard peripheral library
  that the port calls; \<open>FLASH_ErasePage\<close> answers whether its status is \<open>FLASH_COMPLETE\<close>.
\<close>

record 'h flash_chip =
  flash_byte :: "'h \<Rightarrow> nat \<Rightarrow> char"
  FLASH_Unlock :: "'h \<Rightarrow> 'h"
  FLASH_ClearFlag :: "'h \<Rightarrow> 'h"
  FLASH_Lock :: "'h \<Rightarrow> 'h"
  FLASH_ErasePage :: "nat \<Rightarrow> 'h \<Rightarrow> bool \<times> 'h"
  FLASH_ProgramWord :: "nat \<Rightarrow> char list \<Rightarrow> 'h \<Rightarrow> 'h"

record 'h ef_state =
  log_start_addr :: nat
  log_end_addr :: nat
  log_area_start_addr :: nat
  ef_init_ok :: bool
  ef_flash :: 'h

text \<open>The statics before the first call: a power cycle keeps the flash and nothing else.\<close>

definition ef_statics :: "'h \<Rightarrow> 'h ef_state" where
  "ef_statics h =
     \<lparr>log_start_addr = 0, log_end_addr = 0, log_area_start_addr = 0, ef_init_ok = False, ef_flash = h\<rparr>"

text \<open>
  A failed \<open>EF_ASSERT\<close> stops in an endless loop; an access outside a buffer and a division by
  zero are faults.
\<close>

type_synonym 'h port_result = "elog_stop + (ef_err_code \<times> 'h)"
type_synonym ('x, 'h) ef_result = "elog_stop + ('x \<times> 'h ef_state)"

definition u32_sub :: "nat \<Rightarrow> nat \<Rightarrow> nat" where
  "u32_sub a b = (a + 2 ^ 32 - b) mod 2 ^ 32"

section \<open>The flash port\<close>

definition ef_port_read :: "'h flash_chip \<Rightarrow> nat \<Rightarrow> nat \<Rightarrow> 'h \<Rightarrow> elog_stop + char list" where
  "ef_port_read chip addr n h =
     (if n mod 4 \<noteq> 0 then Inl Assert_hang else Inr (map (flash_byte chip h) [addr..<addr + n]))"

fun erase_pages :: "ef_cfg \<Rightarrow> 'h flash_chip \<Rightarrow> nat list \<Rightarrow> nat \<Rightarrow> 'h \<Rightarrow> ef_err_code \<times> 'h" where
  "erase_pages cfg chip [] addr h = (EF_NO_ERR, h)"
| "erase_pages cfg chip (i # is) addr h =
     (let (complete, h') = FLASH_ErasePage chip (addr + EF_ERASE_MIN_SIZE cfg * i) h in
      if \<not> complete then (EF_ERASE_ERR, h') else erase_pages cfg chip is addr h')"

definition ef_port_erase :: "ef_cfg \<Rightarrow> 'h flash_chip \<Rightarrow> nat \<Rightarrow> nat \<Rightarrow> 'h \<Rightarrow> 'h port_result" where
  "ef_port_erase cfg chip addr n h =
     (if addr mod EF_ERASE_MIN_SIZE cfg \<noteq> 0 then Inl Assert_hang
      else let pages = n div EF_ERASE_MIN_SIZE cfg + (if n mod EF_ERASE_MIN_SIZE cfg \<noteq> 0 then 1 else 0);
               (result, h') = erase_pages cfg chip [0..<pages] addr (FLASH_ClearFlag chip (FLASH_Unlock chip h))
      in Inr (result, FLASH_Lock chip h'))"

fun program_words :: "'h flash_chip \<Rightarrow> nat \<Rightarrow> char list \<Rightarrow> 'h \<Rightarrow> ef_err_code \<times> 'h" where
  "program_words chip addr (a # b # c # d # buf) h =
     (let h' = FLASH_ProgramWord chip addr [a, b, c, d] h in
      if map (flash_byte chip h') [addr..<addr + 4] \<noteq> [a, b, c, d] then (EF_WRITE_ERR, h')
      else program_words chip (addr + 4) buf h')"
| "program_words chip addr _ h = (EF_NO_ERR, h)"

definition ef_port_write :: "'h flash_chip \<Rightarrow> nat \<Rightarrow> char list \<Rightarrow> 'h \<Rightarrow> 'h port_result" where
  "ef_port_write chip addr buf h =
     (if length buf mod 4 \<noteq> 0 then Inl Assert_hang
      else let (result, h') = program_words chip addr buf (FLASH_ClearFlag chip (FLASH_Unlock chip h))
      in Inr (result, FLASH_Lock chip h'))"

section \<open>Sector status\<close>

definition count_ff :: "nat \<Rightarrow> char \<Rightarrow> nat" where
  "count_ff continue_ff c = (if c = CHR 0xFF then continue_ff + 1 else 0)"

function count_trailing_ff ::
  "'h flash_chip \<Rightarrow> nat \<Rightarrow> nat \<Rightarrow> nat \<Rightarrow> 'h \<Rightarrow> elog_stop + nat" where
  "count_trailing_ff chip limit start continue_ff h =
     (if start < limit
      then let read_buf_size = (if start + 32 < limit then 32 else limit - start)
        in case ef_port_read chip start read_buf_size h of
             Inl e \<Rightarrow> Inl e
           | Inr buf \<Rightarrow>
               count_trailing_ff chip limit (start + read_buf_size) (foldl count_ff continue_ff buf) h
      else Inr continue_ff)"
  by pat_completeness auto

termination
  by (relation "measure (\<lambda>(chip, limit, start, continue_ff, h). limit - start)")
    (auto split: if_splits)

declare count_trailing_ff.simps [simp del]

definition ef_find_sec_using_end_addr ::
  "'h flash_chip \<Rightarrow> nat \<Rightarrow> nat \<Rightarrow> 'h \<Rightarrow> elog_stop + nat" where
  "ef_find_sec_using_end_addr chip addr sec_size h =
     (case count_trailing_ff chip (addr + sec_size) addr 0 h of
        Inl e \<Rightarrow> Inl e
      | Inr continue_ff \<Rightarrow>
          Inr (if continue_ff = sec_size then (if addr \<ge> 4 then addr - 4 else 0)
            else if continue_ff \<ge> 4 then u32_sub (((addr + sec_size - continue_ff) * 4) mod 2 ^ 32 div 4) 4
            else u32_sub (addr + sec_size) 4))"

definition ef_get_sector_status ::
  "'h flash_chip \<Rightarrow> nat \<Rightarrow> nat \<Rightarrow> 'h \<Rightarrow> elog_stop + ef_sector_status" where
  "ef_get_sector_status chip addr sec_size h =
     (case ef_find_sec_using_end_addr chip addr sec_size h of
        Inl e \<Rightarrow> Inl e
      | Inr cur_using_addr \<Rightarrow>
          Inr (if cur_using_addr = 0 \<or> cur_using_addr = u32_sub addr 4 then EF_SECTOR_EMPTY
            else if cur_using_addr = u32_sub (addr + sec_size) 4 then EF_SECTOR_FULL
            else EF_SECTOR_USING))"


section \<open>What the flash controller promises\<close>

text \<open>
  The reference manual of the controller: unlocking, clearing flags and locking change no byte; an
  unlocked controller erases the page at a page address to \<open>0xFF\<close> and programs an erased word,
  and touches nothing else.
\<close>

definition flash_chip_ok :: "ef_cfg \<Rightarrow> 'h flash_chip \<Rightarrow> ('h \<Rightarrow> bool) \<Rightarrow> bool" where
  "flash_chip_ok cfg chip unlocked \<longleftrightarrow>
     (\<forall>h. flash_byte chip (FLASH_Unlock chip h) = flash_byte chip h \<and>
          flash_byte chip (FLASH_ClearFlag chip h) = flash_byte chip h \<and>
          flash_byte chip (FLASH_Lock chip h) = flash_byte chip h \<and>
          unlocked (FLASH_Unlock chip h) \<and> (unlocked h \<longrightarrow> unlocked (FLASH_ClearFlag chip h))) \<and>
     (\<forall>h page. unlocked h \<and> page mod EF_ERASE_MIN_SIZE cfg = 0 \<longrightarrow>
        (\<exists>h'. FLASH_ErasePage chip page h = (True, h') \<and> unlocked h' \<and>
          (\<forall>x. flash_byte chip h' x =
            (if page \<le> x \<and> x < page + EF_ERASE_MIN_SIZE cfg then CHR 0xFF else flash_byte chip h x)))) \<and>
     (\<forall>h addr ws. unlocked h \<and> addr mod 4 = 0 \<and> length ws = 4 \<and>
        (\<forall>x. addr \<le> x \<and> x < addr + 4 \<longrightarrow> flash_byte chip h x = CHR 0xFF) \<longrightarrow>
        unlocked (FLASH_ProgramWord chip addr ws h) \<and>
        (\<forall>x. flash_byte chip (FLASH_ProgramWord chip addr ws h) x =
          (if addr \<le> x \<and> x < addr + 4 then ws ! (x - addr) else flash_byte chip h x)))"

definition erased :: "'h flash_chip \<Rightarrow> 'h \<Rightarrow> nat \<Rightarrow> nat \<Rightarrow> bool" where
  "erased chip h a b \<longleftrightarrow> (\<forall>x. a \<le> x \<and> x < b \<longrightarrow> flash_byte chip h x = CHR 0xFF)"

definition flash_slice :: "'h flash_chip \<Rightarrow> 'h \<Rightarrow> nat \<Rightarrow> nat \<Rightarrow> char list" where
  "flash_slice chip h a b = map (flash_byte chip h) [a..<b]"

text \<open>The bytes after writing at an address, and after erasing a range.\<close>

definition bytes_written :: "'h flash_chip \<Rightarrow> 'h \<Rightarrow> nat \<Rightarrow> char list \<Rightarrow> 'h \<Rightarrow> bool" where
  "bytes_written chip h addr ws h' \<longleftrightarrow>
     (\<forall>x. flash_byte chip h' x =
       (if addr \<le> x \<and> x < addr + length ws then ws ! (x - addr) else flash_byte chip h x))"

definition bytes_erased :: "'h flash_chip \<Rightarrow> 'h \<Rightarrow> nat \<Rightarrow> nat \<Rightarrow> 'h \<Rightarrow> bool" where
  "bytes_erased chip h a b h' \<longleftrightarrow>
     (\<forall>x. flash_byte chip h' x = (if a \<le> x \<and> x < b then CHR 0xFF else flash_byte chip h x))"

lemma length_flash_slice [simp]: "length (flash_slice chip h a b) = b - a"
  by (simp add: flash_slice_def)

lemma flash_slice_empty [simp]: "b \<le> a \<Longrightarrow> flash_slice chip h a b = []"
  by (simp add: flash_slice_def)

lemma flash_slice_append:
  "a \<le> b \<Longrightarrow> b \<le> c \<Longrightarrow> flash_slice chip h a c = flash_slice chip h a b @ flash_slice chip h b c"
  unfolding flash_slice_def by (metis le_Suc_ex map_append upt_add_eq_append)

lemma flash_slice_cong:
  "(\<And>x. a \<le> x \<Longrightarrow> x < b \<Longrightarrow> flash_byte chip h x = flash_byte chip h' x) \<Longrightarrow>
   flash_slice chip h a b = flash_slice chip h' a b"
  by (simp add: flash_slice_def)

lemma flash_slice_written:
  assumes "bytes_written chip h addr ws h'"
  shows "flash_slice chip h' addr (addr + length ws) = ws"
    and "b \<le> addr \<or> addr + length ws \<le> a \<Longrightarrow> flash_slice chip h' a b = flash_slice chip h a b"
proof -
  show "flash_slice chip h' addr (addr + length ws) = ws"
    using assms by (intro nth_equalityI) (simp_all add: flash_slice_def bytes_written_def)
  show "b \<le> addr \<or> addr + length ws \<le> a \<Longrightarrow> flash_slice chip h' a b = flash_slice chip h a b"
    using assms by (intro flash_slice_cong) (auto simp: bytes_written_def)
qed

lemma flash_slice_erased:
  "bytes_erased chip h c d h' \<Longrightarrow> b \<le> c \<or> d \<le> a \<Longrightarrow> flash_slice chip h' a b = flash_slice chip h a b"
  by (intro flash_slice_cong) (auto simp: bytes_erased_def)

lemma erased_slice: "erased chip h a b \<Longrightarrow> flash_slice chip h a b = replicate (b - a) (CHR 0xFF)"
  by (intro nth_equalityI) (simp_all add: flash_slice_def erased_def)

lemma erased_written:
  "erased chip h a b \<Longrightarrow> bytes_written chip h addr ws h' \<Longrightarrow> addr + length ws \<le> a \<or> b \<le> addr \<Longrightarrow>
   erased chip h' a b"
  by (auto simp: erased_def bytes_written_def)

lemma chip_unlocked:
  assumes "flash_chip_ok cfg chip unlocked"
  defines "h0 \<equiv> \<lambda>h. FLASH_ClearFlag chip (FLASH_Unlock chip h)"
  shows "unlocked (h0 h)" and "flash_byte chip (h0 h) = flash_byte chip h"
    and "flash_byte chip (FLASH_Lock chip h) = flash_byte chip h"
  using assms by (simp_all add: flash_chip_ok_def)

lemma chip_erase_page:
  assumes "flash_chip_ok cfg chip unlocked" and "unlocked h" and "page mod EF_ERASE_MIN_SIZE cfg = 0"
  obtains h' where "FLASH_ErasePage chip page h = (True, h')" and "unlocked h'"
    and "bytes_erased chip h page (page + EF_ERASE_MIN_SIZE cfg) h'"
  using assms unfolding flash_chip_ok_def bytes_erased_def by meson

lemma chip_program_word:
  assumes "flash_chip_ok cfg chip unlocked" and "unlocked h" and "addr mod 4 = 0" and "length ws = 4"
    and "erased chip h addr (addr + 4)"
  shows "unlocked (FLASH_ProgramWord chip addr ws h)"
    and "bytes_written chip h addr ws (FLASH_ProgramWord chip addr ws h)"
  using assms unfolding flash_chip_ok_def bytes_written_def erased_def by simp_all

lemma program_words_ok:
  "flash_chip_ok cfg chip unlocked \<Longrightarrow> unlocked h \<Longrightarrow> addr mod 4 = 0 \<Longrightarrow> length ws mod 4 = 0 \<Longrightarrow>
   erased chip h addr (addr + length ws) \<Longrightarrow>
   \<exists>h'. program_words chip addr ws h = (EF_NO_ERR, h') \<and> bytes_written chip h addr ws h'"
proof (induction chip addr ws h rule: program_words.induct)
  case (1 chip addr a b c d buf h)
  let ?h' = "FLASH_ProgramWord chip addr [a, b, c, d] h"
  have "erased chip h addr (addr + 4)"
    using 1(6) by (simp add: erased_def)
  have len: "length [a, b, c, d] = 4"
    by simp
  note h' = chip_program_word [OF 1(2-4) len \<open>erased chip h addr (addr + 4)\<close>]
  have word: "map (flash_byte chip ?h') [addr..<addr + 4] = [a, b, c, d]"
    using flash_slice_written(1) [OF h'(2), unfolded flash_slice_def len] .
  have "erased chip ?h' (addr + 4) (addr + 4 + length buf)"
    using 1(6) by (intro erased_written [OF _ h'(2)]) (simp_all add: erased_def)
  then obtain h'' where h'': "program_words chip (addr + 4) buf ?h' = (EF_NO_ERR, h'')"
      "bytes_written chip ?h' (addr + 4) buf h''"
    using 1(1) [OF refl _ 1(2) h'(1)] 1(4,5) word by auto
  have "flash_byte chip h'' x = (if addr \<le> x \<and> x < addr + length (a # b # c # d # buf)
      then (a # b # c # d # buf) ! (x - addr) else flash_byte chip h x)" for x
  proof (cases "addr + 4 \<le> x")
    case True
    then have "(a # b # c # d # buf) ! (x - addr) = buf ! (x - (addr + 4))"
      by (simp add: nth_Cons' numeral_eq_Suc)
    with True h''(2) h'(2) show ?thesis
      by (simp add: bytes_written_def)
  next
    case False
    then have "(a # b # c # d # buf) ! (x - addr) = [a, b, c, d] ! (x - addr)" if "addr \<le> x"
      using that by (simp add: nth_Cons' numeral_eq_Suc)
    with False h''(2) h'(2) show ?thesis
      by (simp add: bytes_written_def)
  qed
  with h''(1) word show ?case
    by (simp add: bytes_written_def Let_def)
qed (auto simp: bytes_written_def)

lemma ef_port_write_ok:
  assumes chip: "flash_chip_ok cfg chip unlocked" and "addr mod 4 = 0" and "length ws mod 4 = 0"
    and "erased chip h addr (addr + length ws)"
  obtains h' where "ef_port_write chip addr ws h = Inr (EF_NO_ERR, h')"
    and "bytes_written chip h addr ws h'"
proof -
  let ?h = "FLASH_ClearFlag chip (FLASH_Unlock chip h)"
  have "erased chip ?h addr (addr + length ws)"
    using assms(4) chip_unlocked(2) [OF chip] by (simp add: erased_def)
  from program_words_ok [OF chip chip_unlocked(1) [OF chip] assms(2,3) this]
  obtain h' where h': "program_words chip addr ws ?h = (EF_NO_ERR, h')"
      "bytes_written chip ?h addr ws h'"
    by blast
  show thesis
  proof (rule that)
    show "ef_port_write chip addr ws h = Inr (EF_NO_ERR, FLASH_Lock chip h')"
      using h'(1) assms(3) by (simp add: ef_port_write_def)
    show "bytes_written chip h addr ws (FLASH_Lock chip h')"
      using h'(2) chip_unlocked(2,3) [OF chip] by (simp add: bytes_written_def)
  qed
qed

lemma erase_pages_ok:
  assumes chip: "flash_chip_ok cfg chip unlocked" and addr: "addr mod EF_ERASE_MIN_SIZE cfg = 0"
  shows "unlocked h \<Longrightarrow> m \<le> n \<Longrightarrow> \<exists>h'. erase_pages cfg chip [m..<n] addr h = (EF_NO_ERR, h') \<and>
    bytes_erased chip h (addr + EF_ERASE_MIN_SIZE cfg * m) (addr + EF_ERASE_MIN_SIZE cfg * n) h'"
proof (induction "n - m" arbitrary: m h)
  case 0
  then show ?case
    by (auto simp: bytes_erased_def)
next
  case (Suc k)
  let ?sec = "EF_ERASE_MIN_SIZE cfg"
  have less: "m < n"
    using Suc.hyps(2) by simp
  have "(addr + ?sec * m) mod ?sec = 0"
    using addr by simp
  from chip_erase_page [OF chip Suc.prems(1) this] obtain h1 where
    h1: "FLASH_ErasePage chip (addr + ?sec * m) h = (True, h1)" "unlocked h1"
      "bytes_erased chip h (addr + ?sec * m) (addr + ?sec * m + ?sec) h1" .
  have "k = n - Suc m" "Suc m \<le> n"
    using Suc.hyps(2) less by simp_all
  from Suc.hyps(1) [OF this(1) h1(2) this(2)] obtain h2 where
    h2: "erase_pages cfg chip [Suc m..<n] addr h1 = (EF_NO_ERR, h2)"
      "bytes_erased chip h1 (addr + ?sec * Suc m) (addr + ?sec * n) h2"
    by blast
  have "?sec * Suc m \<le> ?sec * n"
    using less by (intro mult_le_mono2) simp
  then have "bytes_erased chip h (addr + ?sec * m) (addr + ?sec * n) h2"
    using h1(3) h2(2) by (auto simp: bytes_erased_def)
  with h1(1) h2(1) less show ?case
    by (simp add: upt_conv_Cons)
qed

lemma ef_port_erase_ok:
  assumes chip: "flash_chip_ok cfg chip unlocked" and addr: "addr mod EF_ERASE_MIN_SIZE cfg = 0"
    and sec: "0 < EF_ERASE_MIN_SIZE cfg" "n mod EF_ERASE_MIN_SIZE cfg = 0"
  obtains h' where "ef_port_erase cfg chip addr n h = Inr (EF_NO_ERR, h')"
    and "bytes_erased chip h addr (addr + n) h'"
proof -
  let ?sec = "EF_ERASE_MIN_SIZE cfg" and ?h = "FLASH_ClearFlag chip (FLASH_Unlock chip h)"
  from erase_pages_ok [OF chip addr chip_unlocked(1) [OF chip, of h], of 0 "n div ?sec"] obtain h' where
    h': "erase_pages cfg chip [0..<n div ?sec] addr ?h = (EF_NO_ERR, h')"
      "bytes_erased chip ?h addr (addr + ?sec * (n div ?sec)) h'"
    by auto
  have n: "?sec * (n div ?sec) = n"
    using sec(2) by (simp add: mod_0_imp_dvd)
  show thesis
  proof (rule that)
    show "ef_port_erase cfg chip addr n h = Inr (EF_NO_ERR, FLASH_Lock chip h')"
      using h'(1) addr sec(2) by (simp add: ef_port_erase_def)
    show "bytes_erased chip h addr (addr + n) (FLASH_Lock chip h')"
      using h'(2) n chip_unlocked(2,3) [OF chip] by (simp add: bytes_erased_def)
  qed
qed

end
