(* ===== verification/Easyflash_Log.thy ===== *)
theory Easyflash_Log
  imports Easyflash_Port
begin

text \<open>
  The saved log of EasyFlash, \<open>ef_log.c\<close>: a ring of flash sectors between two addresses kept in
  RAM.  The lemmas show that a write appends its words and drops at most the oldest sector when
  the ring is full, and which reads return what was asked for.
\<close>

section \<open>The log\<close>

definition get_next_flash_sec_addr :: "ef_cfg \<Rightarrow> 'h ef_state \<Rightarrow> nat \<Rightarrow> nat" where
  "get_next_flash_sec_addr cfg s cur_addr =
     (let cur_sec_id = u32_sub cur_addr (log_area_start_addr s) div EF_ERASE_MIN_SIZE cfg;
          sec_total_num = LOG_AREA_SIZE cfg div EF_ERASE_MIN_SIZE cfg
      in if cur_sec_id + 1 \<ge> sec_total_num then log_area_start_addr s
         else log_area_start_addr s + (cur_sec_id + 1) * EF_ERASE_MIN_SIZE cfg)"

definition ef_log_clean :: "ef_cfg \<Rightarrow> 'h flash_chip \<Rightarrow> 'h ef_state \<Rightarrow> (ef_err_code, 'h) ef_result" where
  "ef_log_clean cfg chip s =
     (if log_area_start_addr s = 0 then Inl Assert_hang
      else case ef_port_erase cfg chip (log_area_start_addr s) (LOG_AREA_SIZE cfg) (ef_flash s) of
             Inl e \<Rightarrow> Inl e
           | Inr (result, h) \<Rightarrow>
               Inr (result, s\<lparr>log_start_addr := log_area_start_addr s,
                 log_end_addr := log_area_start_addr s, ef_flash := h\<rparr>))"

text \<open>
  The scan of \<open>find_start_and_end_addr\<close>: its local counters, one turn of its loop (\<open>None\<close> is a log
  area in error, which is cleaned), and the loop over the remaining sectors.
\<close>

record sec_scan =
  empty_sec_counts :: nat
  using_sec_counts :: nat
  full_sector_counts :: nat
  cur_log_sec_state :: nat
  cur_using_sec_addr :: nat

definition scan_sector ::
  "ef_cfg \<Rightarrow> nat \<Rightarrow> ef_sector_status \<Rightarrow> ef_sector_status \<Rightarrow> sec_scan \<times> 'h ef_state \<Rightarrow>
   (sec_scan \<times> 'h ef_state) option" where
  "scan_sector cfg cur_size last_sec_status cur_sec_status p =
     (let (c, s) = p; area = log_area_start_addr s; sec = EF_ERASE_MIN_SIZE cfg in
      case last_sec_status of
        EF_SECTOR_EMPTY \<Rightarrow>
          (case cur_sec_status of
             EF_SECTOR_EMPTY \<Rightarrow> Some (c\<lparr>empty_sec_counts := empty_sec_counts c + 1\<rparr>, s)
           | EF_SECTOR_USING \<Rightarrow> None
           | EF_SECTOR_FULL \<Rightarrow> None)
      | EF_SECTOR_USING \<Rightarrow>
          (case cur_sec_status of
             EF_SECTOR_EMPTY \<Rightarrow>
               Some (c\<lparr>cur_log_sec_state := 1, cur_using_sec_addr := area + cur_size - sec,
                   using_sec_counts := using_sec_counts c + 1\<rparr>,
                 s\<lparr>log_start_addr := area\<rparr>)
           | EF_SECTOR_USING \<Rightarrow> None
           | EF_SECTOR_FULL \<Rightarrow>
               Some (c\<lparr>cur_log_sec_state := 2, cur_using_sec_addr := area + cur_size - sec,
                   using_sec_counts := using_sec_counts c + 1\<rparr>,
                 s\<lparr>log_start_addr := area + cur_size\<rparr>))
      | EF_SECTOR_FULL \<Rightarrow>
          (let c' = c\<lparr>full_sector_counts := full_sector_counts c + 1\<rparr> in
           case cur_sec_status of
             EF_SECTOR_EMPTY \<Rightarrow>
               if cur_log_sec_state c = 2 then None
               else Some (c'\<lparr>cur_log_sec_state := 1, cur_using_sec_addr := area + cur_size - sec\<rparr>,
                 s\<lparr>log_start_addr := area, log_end_addr := u32_sub (area + cur_size) 4\<rparr>)
           | EF_SECTOR_USING \<Rightarrow>
               if LOG_AREA_SIZE cfg div sec \<le> 2
               then Some (c'\<lparr>cur_log_sec_state := 1, cur_using_sec_addr := area + cur_size\<rparr>,
                 s\<lparr>log_start_addr := area\<rparr>)
               else if cur_size + sec \<ge> LOG_AREA_SIZE cfg
               then Some (c'\<lparr>cur_log_sec_state := 2, cur_using_sec_addr := area + cur_size - sec\<rparr>,
                 s\<lparr>log_start_addr := area + cur_size\<rparr>)
               else Some (c', s)
           | EF_SECTOR_FULL \<Rightarrow> Some (c', s)))"

fun scan_sectors ::
  "ef_cfg \<Rightarrow> 'h flash_chip \<Rightarrow> nat list \<Rightarrow> ef_sector_status \<Rightarrow> sec_scan \<times> 'h ef_state \<Rightarrow>
   elog_stop + (ef_sector_status \<times> sec_scan \<times> 'h ef_state) option" where
  "scan_sectors cfg chip [] cur_sec_status p = Inr (Some (cur_sec_status, p))"
| "scan_sectors cfg chip (cur_size # sizes) last_sec_status p =
     (case ef_get_sector_status chip (log_area_start_addr (snd p) + cur_size) (EF_ERASE_MIN_SIZE cfg)
        (ef_flash (snd p)) of
        Inl e \<Rightarrow> Inl e
      | Inr cur_sec_status \<Rightarrow>
          (case scan_sector cfg cur_size last_sec_status cur_sec_status p of
             None \<Rightarrow> Inr None
           | Some p' \<Rightarrow> scan_sectors cfg chip sizes cur_sec_status p'))"

definition count_last_sector :: "ef_sector_status \<Rightarrow> sec_scan \<Rightarrow> sec_scan" where
  "count_last_sector cur_sec_status c =
     (case cur_sec_status of
        EF_SECTOR_EMPTY \<Rightarrow> c\<lparr>empty_sec_counts := empty_sec_counts c + 1\<rparr>
      | EF_SECTOR_USING \<Rightarrow> c\<lparr>using_sec_counts := using_sec_counts c + 1\<rparr>
      | EF_SECTOR_FULL \<Rightarrow> c\<lparr>full_sector_counts := full_sector_counts c + 1\<rparr>)"

definition clean_after_scan :: "ef_cfg \<Rightarrow> 'h flash_chip \<Rightarrow> 'h ef_state \<Rightarrow> (unit, 'h) ef_result" where
  "clean_after_scan cfg chip s =
     (case ef_log_clean cfg chip s of Inl e \<Rightarrow> Inl e | Inr (_, s') \<Rightarrow> Inr ((), s'))"

definition find_start_and_end_addr ::
  "ef_cfg \<Rightarrow> 'h flash_chip \<Rightarrow> 'h ef_state \<Rightarrow> (unit, 'h) ef_result" where
  "find_start_and_end_addr cfg chip s =
     (let area = log_area_start_addr s; sec = EF_ERASE_MIN_SIZE cfg;
          total_sec_num = LOG_AREA_SIZE cfg div sec in
      case ef_get_sector_status chip area sec (ef_flash s) of
        Inl e \<Rightarrow> Inl e
      | Inr first \<Rightarrow>
          (case scan_sectors cfg chip (map (\<lambda>i. i * sec) [1..<total_sec_num]) first
              (\<lparr>empty_sec_counts = 0, using_sec_counts = 0, full_sector_counts = 0,
                cur_log_sec_state = 0, cur_using_sec_addr = 0\<rparr>, s) of
             Inl e \<Rightarrow> Inl e
           | Inr None \<Rightarrow> clean_after_scan cfg chip s
           | Inr (Some (cur_sec_status, c0, s')) \<Rightarrow>
               (let c = count_last_sector cur_sec_status c0 in
                if using_sec_counts c > 1 then clean_after_scan cfg chip s'
                else if empty_sec_counts c = total_sec_num
                then Inr ((), s'\<lparr>log_start_addr := area, log_end_addr := area\<rparr>)
                else if full_sector_counts c = total_sec_num then clean_after_scan cfg chip s'
                else if cur_log_sec_state c = 1 \<and> cur_using_sec_addr c \<noteq> 0 \<or> cur_log_sec_state c = 2
                then (case ef_find_sec_using_end_addr chip (cur_using_sec_addr c) sec (ef_flash s') of
                        Inl e \<Rightarrow> Inl e
                      | Inr end_addr \<Rightarrow> Inr ((), s'\<lparr>log_end_addr := end_addr\<rparr>))
                else Inr ((), s'))))"

text \<open>The scan compares sizes from the second sector on, in steps of one sector up to the area size.\<close>

definition ef_log_init :: "ef_cfg \<Rightarrow> 'h flash_chip \<Rightarrow> 'h ef_state \<Rightarrow> (ef_err_code, 'h) ef_result" where
  "ef_log_init cfg chip s =
     (if LOG_AREA_SIZE cfg = 0 \<or> EF_ERASE_MIN_SIZE cfg = 0 \<or>
         LOG_AREA_SIZE cfg mod EF_ERASE_MIN_SIZE cfg \<noteq> 0 \<or>
         LOG_AREA_SIZE cfg div EF_ERASE_MIN_SIZE cfg < 2 then Inl Assert_hang
      else case find_start_and_end_addr cfg chip
              (s\<lparr>log_area_start_addr := EF_START_ADDR cfg + ENV_AREA_SIZE cfg\<rparr>) of
             Inl e \<Rightarrow> Inl e
           | Inr (_, s') \<Rightarrow> Inr (EF_NO_ERR, s'\<lparr>ef_init_ok := True\<rparr>))"

definition ef_log_get_used_size :: "ef_cfg \<Rightarrow> 'h ef_state \<Rightarrow> elog_stop + nat" where
  "ef_log_get_used_size cfg s =
     (if log_start_addr s = 0 \<or> log_end_addr s = 0 \<or> \<not> ef_init_ok s then Inl Assert_hang
      else if log_start_addr s < log_end_addr s then Inr (log_end_addr s - log_start_addr s + 4)
      else if log_start_addr s > log_end_addr s
      then Inr (u32_sub (LOG_AREA_SIZE cfg) (log_start_addr s - log_end_addr s) + 4)
      else Inr 0)"

text \<open>
  Reading into a buffer of the caller.  The second part of a read over the end of the area goes
  to \<open>log + read_size_temp\<close>; \<open>log\<close> points to words, so this is four times as many bytes.
\<close>

definition read_into ::
  "'h flash_chip \<Rightarrow> nat \<Rightarrow> nat \<Rightarrow> nat \<Rightarrow> 'h \<Rightarrow> char list \<Rightarrow> elog_stop + char list" where
  "read_into chip addr pos n h log =
     (case ef_port_read chip addr n h of
        Inl e \<Rightarrow> Inl e
      | Inr buf \<Rightarrow> (case mem_write log pos buf of None \<Rightarrow> Inl Memory_fault | Some log' \<Rightarrow> Inr log'))"

definition ef_log_read ::
  "ef_cfg \<Rightarrow> 'h flash_chip \<Rightarrow> nat \<Rightarrow> char list \<Rightarrow> nat \<Rightarrow> 'h ef_state \<Rightarrow> elog_stop + char list" where
  "ef_log_read cfg chip index log n s =
     (case ef_log_get_used_size cfg s of
        Inl e \<Rightarrow> Inl e
      | Inr cur_using_size \<Rightarrow>
          if n mod 4 \<noteq> 0 \<or> \<not> index + n \<le> cur_using_size then Inl Assert_hang
          else if n = 0 then Inr log
          else (let first = log_start_addr s; area = log_area_start_addr s; h = ef_flash s;
                    area_end = area + LOG_AREA_SIZE cfg in
            if first < log_end_addr s then read_into chip (area + index) 0 n h log
            else if first > log_end_addr s
            then if first + index + n \<le> area_end then read_into chip (first + index) 0 n h log
              else if first + index < area_end
              then (let read_size_temp = area_end - (first + index) in
                case read_into chip (first + index) 0 read_size_temp h log of
                  Inl e \<Rightarrow> Inl e
                | Inr log' \<Rightarrow> read_into chip area (4 * read_size_temp) (n - read_size_temp) h log')
              else read_into chip (first + index - LOG_AREA_SIZE cfg) 0 n h log
            else Inr log))"

text \<open>\<open>result = ...; if (result != EF_NO_ERR) goto exit;\<close> for a call of the port.\<close>

definition ef_try :: "'h port_result \<Rightarrow> 'h ef_state \<Rightarrow> ('h \<Rightarrow> (ef_err_code, 'h) ef_result) \<Rightarrow>
    (ef_err_code, 'h) ef_result" where
  "ef_try r s k =
     (case r of
        Inl e \<Rightarrow> Inl e
      | Inr (result, h) \<Rightarrow> if result = EF_NO_ERR then k h else Inr (result, s\<lparr>ef_flash := h\<rparr>))"

text \<open>
  The loop of \<open>ef_log_write\<close>: move the start of the log away from the next sector, erase the sector
  and write what is left into it.
\<close>

definition start_after :: "ef_cfg \<Rightarrow> nat \<Rightarrow> 'h ef_state \<Rightarrow> 'h ef_state" where
  "start_after cfg addr s =
     (if log_start_addr s = addr
      then s\<lparr>log_start_addr := get_next_flash_sec_addr cfg s (log_start_addr s)\<rparr> else s)"

function ef_write_sectors ::
  "ef_cfg \<Rightarrow> 'h flash_chip \<Rightarrow> nat \<Rightarrow> char list \<Rightarrow> 'h ef_state \<Rightarrow> (ef_err_code, 'h) ef_result" where
  "ef_write_sectors cfg chip write_addr log s =
     (if EF_ERASE_MIN_SIZE cfg = 0 then Inl Memory_fault
      else let sec = EF_ERASE_MIN_SIZE cfg;
               addr = get_next_flash_sec_addr cfg s (u32_sub write_addr 4);
               s1 = start_after cfg addr s
      in ef_try (ef_port_erase cfg chip addr sec (ef_flash s1)) s1 (\<lambda>h.
           if length log > sec
           then ef_try (ef_port_write chip addr (take sec log) h) s1 (\<lambda>h'.
             ef_write_sectors cfg chip (addr + sec) (drop sec log)
               (s1\<lparr>log_end_addr := u32_sub (addr + sec) 4, ef_flash := h'\<rparr>))
           else ef_try (ef_port_write chip addr log h) s1 (\<lambda>h'.
             Inr (EF_NO_ERR, s1\<lparr>log_end_addr := u32_sub (addr + length log) 4, ef_flash := h'\<rparr>))))"
  by pat_completeness auto

termination
  by (relation "measure (\<lambda>(cfg, chip, write_addr, log, s). length log)") auto

declare ef_write_sectors.simps [simp del]

definition ef_log_write ::
  "ef_cfg \<Rightarrow> 'h flash_chip \<Rightarrow> char list \<Rightarrow> 'h ef_state \<Rightarrow> (ef_err_code, 'h) ef_result" where
  "ef_log_write cfg chip log s =
     (case ef_log_get_used_size cfg s of
        Inl e \<Rightarrow> Inl e
      | Inr _ \<Rightarrow>
          if length log mod 4 \<noteq> 0 then Inl Assert_hang
          else (let sec = EF_ERASE_MIN_SIZE cfg;
                    used = log_start_addr s \<noteq> log_end_addr s;
                    write_addr = (if used then log_end_addr s + 4 else log_start_addr s);
                    writable_size = sec - u32_sub write_addr (log_area_start_addr s) mod sec
            in if writable_size \<noteq> sec \<or> \<not> used
               then if length log > writable_size
                 then ef_try (ef_port_write chip write_addr (take writable_size log) (ef_flash s)) s (\<lambda>h.
                   ef_write_sectors cfg chip write_addr (drop writable_size log) (s\<lparr>ef_flash := h\<rparr>))
                 else (case ef_port_write chip write_addr log (ef_flash s) of
                   Inl e \<Rightarrow> Inl e
                 | Inr (result, h) \<Rightarrow>
                     Inr (result, s\<lparr>log_end_addr := u32_sub (write_addr + length log) 4, ef_flash := h\<rparr>))
               else ef_write_sectors cfg chip write_addr log s))"

section \<open>The log as a sequence of bytes\<close>

text \<open>
  The addresses determine what the log holds.  The invariant knows the sector \<open>k\<close> of the last
  word and the number \<open>r\<close> of bytes used in it; the log starts at the first sector, or after a
  lap in the sector behind the last word, and everything in between is erased.
\<close>

abbreviation ef_area :: "ef_cfg \<Rightarrow> nat" where
  "ef_area cfg \<equiv> EF_START_ADDR cfg + ENV_AREA_SIZE cfg"

abbreviation ef_sectors :: "ef_cfg \<Rightarrow> nat" where
  "ef_sectors cfg \<equiv> LOG_AREA_SIZE cfg div EF_ERASE_MIN_SIZE cfg"

definition ef_cfg_ok :: "ef_cfg \<Rightarrow> bool" where
  "ef_cfg_ok cfg \<longleftrightarrow>
     0 < EF_ERASE_MIN_SIZE cfg \<and> EF_ERASE_MIN_SIZE cfg mod 4 = 0 \<and>
     LOG_AREA_SIZE cfg mod EF_ERASE_MIN_SIZE cfg = 0 \<and> 2 \<le> ef_sectors cfg \<and>
     ef_area cfg mod EF_ERASE_MIN_SIZE cfg = 0 \<and> 0 < ef_area cfg \<and>
     ef_area cfg + LOG_AREA_SIZE cfg < 2 ^ 30"

definition ef_log_contents :: "ef_cfg \<Rightarrow> 'h flash_chip \<Rightarrow> 'h ef_state \<Rightarrow> char list" where
  "ef_log_contents cfg chip s =
     (if log_start_addr s < log_end_addr s
      then flash_slice chip (ef_flash s) (log_start_addr s) (log_end_addr s + 4)
      else if log_start_addr s > log_end_addr s
      then flash_slice chip (ef_flash s) (log_start_addr s) (ef_area cfg + LOG_AREA_SIZE cfg) @
        flash_slice chip (ef_flash s) (ef_area cfg) (log_end_addr s + 4)
      else [])"

definition ef_layout :: "ef_cfg \<Rightarrow> 'h flash_chip \<Rightarrow> bool \<Rightarrow> nat \<Rightarrow> nat \<Rightarrow> 'h ef_state \<Rightarrow> bool" where
  "ef_layout cfg chip wrapped k r s \<longleftrightarrow>
     (let area = ef_area cfg; sec = EF_ERASE_MIN_SIZE cfg in
      log_area_start_addr s = area \<and> ef_init_ok s \<and> 0 < r \<and> r \<le> sec \<and> r mod 4 = 0 \<and>
      log_end_addr s = area + k * sec + r - 4 \<and>
      (if wrapped
       then k + 1 < ef_sectors cfg \<and> log_start_addr s = area + (k + 1) * sec \<and>
         erased chip (ef_flash s) (area + k * sec + r) (area + (k + 1) * sec)
       else k < ef_sectors cfg \<and> 4 < k * sec + r \<and> log_start_addr s = area \<and>
         erased chip (ef_flash s) (area + k * sec + r) (area + LOG_AREA_SIZE cfg)))"

definition ef_log_empty :: "ef_cfg \<Rightarrow> 'h flash_chip \<Rightarrow> 'h ef_state \<Rightarrow> bool" where
  "ef_log_empty cfg chip s \<longleftrightarrow>
     log_area_start_addr s = ef_area cfg \<and> ef_init_ok s \<and> log_start_addr s = ef_area cfg \<and>
     log_end_addr s = ef_area cfg \<and>
     erased chip (ef_flash s) (ef_area cfg) (ef_area cfg + LOG_AREA_SIZE cfg)"

definition ef_log_ok :: "ef_cfg \<Rightarrow> 'h flash_chip \<Rightarrow> 'h ef_state \<Rightarrow> bool" where
  "ef_log_ok cfg chip s \<longleftrightarrow> ef_log_empty cfg chip s \<or> (\<exists>wrapped k r. ef_layout cfg chip wrapped k r s)"

text \<open>Arithmetic of sectors.\<close>

lemma u32_sub_le [simp]: "b \<le> a \<Longrightarrow> a < 2 ^ 32 \<Longrightarrow> u32_sub a b = a - b"
  by (simp add: u32_sub_def mod_if)

lemma ef_cfg_area:
  assumes "ef_cfg_ok cfg"
  shows "LOG_AREA_SIZE cfg = ef_sectors cfg * EF_ERASE_MIN_SIZE cfg" and "4 \<le> EF_ERASE_MIN_SIZE cfg"
    and "4 \<le> ef_area cfg" and "ef_area cfg mod 4 = 0"
    and "ef_area cfg + ef_sectors cfg * EF_ERASE_MIN_SIZE cfg < 2 ^ 30"
proof -
  have sec: "0 < EF_ERASE_MIN_SIZE cfg" "4 dvd EF_ERASE_MIN_SIZE cfg"
    and area: "EF_ERASE_MIN_SIZE cfg dvd LOG_AREA_SIZE cfg" "EF_ERASE_MIN_SIZE cfg dvd ef_area cfg"
      "0 < ef_area cfg" "ef_area cfg + LOG_AREA_SIZE cfg < 2 ^ 30"
    using assms by (simp_all add: ef_cfg_ok_def mod_eq_0_iff_dvd)
  show size: "LOG_AREA_SIZE cfg = ef_sectors cfg * EF_ERASE_MIN_SIZE cfg"
    using area(1) by simp
  show "4 \<le> EF_ERASE_MIN_SIZE cfg"
    using sec by (auto dest: dvd_imp_le)
  have "4 dvd ef_area cfg"
    using sec(2) area(2) by (rule dvd_trans)
  then show "ef_area cfg mod 4 = 0" "4 \<le> ef_area cfg"
    using area(3) by (auto dest: dvd_imp_le)
  show "ef_area cfg + ef_sectors cfg * EF_ERASE_MIN_SIZE cfg < 2 ^ 30"
    using area(4) by (simp only: size [symmetric])
qed

lemma sector_end: "k < n \<Longrightarrow> k * sec + sec \<le> n * (sec :: nat)"
  by (metis Suc_leI add.commute mult_Suc mult_le_mono1)

lemma get_next_sector:
  assumes "ef_cfg_ok cfg" and "log_area_start_addr s = ef_area cfg"
    and "j < EF_ERASE_MIN_SIZE cfg" and "k < ef_sectors cfg"
  shows "get_next_flash_sec_addr cfg s (ef_area cfg + k * EF_ERASE_MIN_SIZE cfg + j) =
    (if k + 1 < ef_sectors cfg then ef_area cfg + (k + 1) * EF_ERASE_MIN_SIZE cfg else ef_area cfg)"
proof -
  let ?sec = "EF_ERASE_MIN_SIZE cfg"
  have "u32_sub (ef_area cfg + k * ?sec + j) (ef_area cfg) = k * ?sec + j"
    using sector_end [OF assms(4), of ?sec] assms(3) ef_cfg_area(5) [OF assms(1)]
    by (subst u32_sub_le) simp_all
  moreover have "(k * ?sec + j) div ?sec = k"
    using assms(3) by simp
  ultimately show ?thesis
    unfolding get_next_flash_sec_addr_def by (simp add: assms(2) not_le)
qed

lemma layout_contents:
  assumes "ef_cfg_ok cfg" and "ef_layout cfg chip wrapped k r s"
  shows "ef_log_contents cfg chip s =
    (if wrapped then flash_slice chip (ef_flash s) (ef_area cfg + (k + 1) * EF_ERASE_MIN_SIZE cfg)
       (ef_area cfg + LOG_AREA_SIZE cfg) else []) @
    flash_slice chip (ef_flash s) (ef_area cfg) (ef_area cfg + k * EF_ERASE_MIN_SIZE cfg + r)"
    and "log_start_addr s \<noteq> log_end_addr s"
    and "log_end_addr s + 4 = ef_area cfg + k * EF_ERASE_MIN_SIZE cfg + r"
proof -
  let ?sec = "EF_ERASE_MIN_SIZE cfg"
  have r: "4 \<le> r"
    using assms(2) by (auto simp: ef_layout_def Let_def)
  show e: "log_end_addr s + 4 = ef_area cfg + k * ?sec + r"
    using assms(2) r by (simp add: ef_layout_def Let_def)
  have wr: "log_end_addr s < log_start_addr s" if "wrapped"
    using that assms(2) e by (auto simp: ef_layout_def Let_def)
  have lin: "log_start_addr s = ef_area cfg \<and> log_start_addr s < log_end_addr s" if "\<not> wrapped"
    using that assms(2) e by (auto simp: ef_layout_def Let_def)
  show "log_start_addr s \<noteq> log_end_addr s"
    using wr lin by (cases wrapped) auto
  show "ef_log_contents cfg chip s =
    (if wrapped then flash_slice chip (ef_flash s) (ef_area cfg + (k + 1) * ?sec)
       (ef_area cfg + LOG_AREA_SIZE cfg) else []) @
    flash_slice chip (ef_flash s) (ef_area cfg) (ef_area cfg + k * ?sec + r)"
    using assms(2) e wr lin by (auto simp: ef_log_contents_def ef_layout_def Let_def)
qed

section \<open>Writing\<close>

text \<open>A write into the sector of the last word, and the first write of an empty log.\<close>

lemma layout_within:
  assumes cfg: "ef_cfg_ok cfg" and lay: "ef_layout cfg chip wrapped k r s"
    and h': "bytes_written chip (ef_flash s) (ef_area cfg + k * EF_ERASE_MIN_SIZE cfg + r) ws h'"
    and ws: "length ws mod 4 = 0" "r + length ws \<le> EF_ERASE_MIN_SIZE cfg"
  defines "s' \<equiv> s\<lparr>log_end_addr :=
    ef_area cfg + k * EF_ERASE_MIN_SIZE cfg + (r + length ws) - 4, ef_flash := h'\<rparr>"
  shows "ef_layout cfg chip wrapped k (r + length ws) s'"
    and "ef_log_contents cfg chip s' = ef_log_contents cfg chip s @ ws"
proof -
  let ?a = "ef_area cfg" and ?sec = "EF_ERASE_MIN_SIZE cfg"
  let ?w = "?a + k * ?sec + r"
  have mod4: "(r + length ws) mod 4 = 0"
    using ws(1) lay by (auto simp: ef_layout_def Let_def)
  have "erased chip h' (?w + length ws) b" if "erased chip (ef_flash s) ?w b" for b
    using that by (intro erased_written [OF _ h']) (auto simp: erased_def)
  then show lay': "ef_layout cfg chip wrapped k (r + length ws) s'"
    using lay ws(2) mod4 by (auto simp: ef_layout_def Let_def s'_def add.assoc)
  have kept: "flash_slice chip h' ?a ?w = flash_slice chip (ef_flash s) ?a ?w"
    by (rule flash_slice_written(2) [OF h']) simp
  have rest: "flash_slice chip h' (?a + (k + 1) * ?sec) (?a + LOG_AREA_SIZE cfg) =
      flash_slice chip (ef_flash s) (?a + (k + 1) * ?sec) (?a + LOG_AREA_SIZE cfg)"
    using ws(2) by (intro flash_slice_written(2) [OF h']) simp
  have "flash_slice chip h' ?a (?w + length ws) = flash_slice chip (ef_flash s) ?a ?w @ ws"
    using flash_slice_append [of ?a ?w "?w + length ws" chip h'] flash_slice_written(1) [OF h'] kept
    by simp
  then show "ef_log_contents cfg chip s' = ef_log_contents cfg chip s @ ws"
    using layout_contents(1) [OF cfg lay] layout_contents(1) [OF cfg lay'] rest
    by (simp add: s'_def add.assoc)
qed

lemma empty_within:
  assumes cfg: "ef_cfg_ok cfg" and empty: "ef_log_empty cfg chip s"
    and h': "bytes_written chip (ef_flash s) (ef_area cfg) ws h'"
    and ws: "length ws mod 4 = 0" "8 \<le> length ws" "length ws \<le> EF_ERASE_MIN_SIZE cfg"
  defines "s' \<equiv> s\<lparr>log_end_addr := ef_area cfg + length ws - 4, ef_flash := h'\<rparr>"
  shows "ef_layout cfg chip False 0 (length ws) s'"
    and "ef_log_contents cfg chip s' = ef_log_contents cfg chip s @ ws"
proof -
  let ?a = "ef_area cfg" and ?sec = "EF_ERASE_MIN_SIZE cfg"
  have "erased chip h' (?a + length ws) (?a + LOG_AREA_SIZE cfg)"
    using empty by (intro erased_written [OF _ h']) (auto simp: ef_log_empty_def erased_def)
  then show lay': "ef_layout cfg chip False 0 (length ws) s'"
    using empty ws cfg by (auto simp: ef_layout_def ef_log_empty_def ef_cfg_ok_def Let_def s'_def)
  show "ef_log_contents cfg chip s' = ef_log_contents cfg chip s @ ws"
    using layout_contents(1) [OF cfg lay'] flash_slice_written(1) [OF h'] empty
    by (simp add: s'_def ef_log_contents_def ef_log_empty_def)
qed

text \<open>A sector that was erased and then written from its start.\<close>

definition sector_written :: "ef_cfg \<Rightarrow> 'h flash_chip \<Rightarrow> 'h \<Rightarrow> nat \<Rightarrow> char list \<Rightarrow> 'h \<Rightarrow> bool" where
  "sector_written cfg chip h addr ws h' \<longleftrightarrow>
     0 < length ws \<and> length ws mod 4 = 0 \<and> length ws \<le> EF_ERASE_MIN_SIZE cfg \<and>
     (\<exists>h1. bytes_erased chip h addr (addr + EF_ERASE_MIN_SIZE cfg) h1 \<and> bytes_written chip h1 addr ws h')"

lemma sector_written_bytes:
  assumes "sector_written cfg chip h addr ws h'"
  shows "erased chip h' (addr + length ws) (addr + EF_ERASE_MIN_SIZE cfg)"
    and "erased chip h (addr + EF_ERASE_MIN_SIZE cfg) c \<Longrightarrow> erased chip h' (addr + length ws) c"
    and "c \<le> addr \<or> addr + EF_ERASE_MIN_SIZE cfg \<le> b \<Longrightarrow> flash_slice chip h' b c = flash_slice chip h b c"
    and "flash_slice chip h' addr (addr + length ws) = ws"
    and "b \<le> addr \<Longrightarrow> flash_slice chip h' b (addr + length ws) = flash_slice chip h b addr @ ws"
proof -
  from assms obtain h1 where
    h: "bytes_erased chip h addr (addr + EF_ERASE_MIN_SIZE cfg) h1" "bytes_written chip h1 addr ws h'"
    and len: "length ws \<le> EF_ERASE_MIN_SIZE cfg"
    unfolding sector_written_def by blast
  show tail: "erased chip h' (addr + length ws) c" if "erased chip h (addr + EF_ERASE_MIN_SIZE cfg) c" for c
    using that h(1) by (intro erased_written [OF _ h(2)]) (auto simp: bytes_erased_def erased_def)
  have "erased chip h (addr + EF_ERASE_MIN_SIZE cfg) (addr + EF_ERASE_MIN_SIZE cfg)"
    by (auto simp: erased_def)
  from tail [OF this] show "erased chip h' (addr + length ws) (addr + EF_ERASE_MIN_SIZE cfg)" .
  show kept: "flash_slice chip h' b c = flash_slice chip h b c"
    if "c \<le> addr \<or> addr + EF_ERASE_MIN_SIZE cfg \<le> b" for b c
    using that len flash_slice_written(2) [OF h(2), of c b] flash_slice_erased [OF h(1), of c b] by auto
  show new: "flash_slice chip h' addr (addr + length ws) = ws"
    by (rule flash_slice_written(1) [OF h(2)])
  show "flash_slice chip h' b (addr + length ws) = flash_slice chip h b addr @ ws" if "b \<le> addr"
    using flash_slice_append [OF that, of "addr + length ws" chip h'] kept [of addr b] new by simp
qed

text \<open>
  The next sector: where it is, where the log starts afterwards, and what the log loses when a
  full ring takes its oldest sector.
\<close>

lemma next_of_end:
  assumes cfg: "ef_cfg_ok cfg" and lay: "ef_layout cfg chip wrapped k (EF_ERASE_MIN_SIZE cfg) s"
  shows "get_next_flash_sec_addr cfg s (log_end_addr s) =
      (if k + 1 < ef_sectors cfg then ef_area cfg + (k + 1) * EF_ERASE_MIN_SIZE cfg else ef_area cfg)"
    and "j < ef_sectors cfg \<Longrightarrow> get_next_flash_sec_addr cfg s (ef_area cfg + j * EF_ERASE_MIN_SIZE cfg) =
      (if j + 1 < ef_sectors cfg then ef_area cfg + (j + 1) * EF_ERASE_MIN_SIZE cfg else ef_area cfg)"
proof -
  let ?a = "ef_area cfg" and ?sec = "EF_ERASE_MIN_SIZE cfg"
  note area = ef_cfg_area [OF cfg]
  have k: "k < ef_sectors cfg" and at: "log_area_start_addr s = ?a"
    using lay by (auto simp: ef_layout_def Let_def split: if_splits)
  have "log_end_addr s = ?a + k * ?sec + (?sec - 4)"
    using lay area(2) by (simp add: ef_layout_def Let_def)
  then show "get_next_flash_sec_addr cfg s (log_end_addr s) =
      (if k + 1 < ef_sectors cfg then ?a + (k + 1) * ?sec else ?a)"
    using get_next_sector [OF cfg at _ k, of "?sec - 4"] area(2) by simp
  show "get_next_flash_sec_addr cfg s (?a + j * ?sec) =
      (if j + 1 < ef_sectors cfg then ?a + (j + 1) * ?sec else ?a)" if "j < ef_sectors cfg"
    using get_next_sector [OF cfg at _ that, of 0] area(2) by simp
qed

lemma next_fresh:
  assumes cfg: "ef_cfg_ok cfg" and lay: "ef_layout cfg chip False k (EF_ERASE_MIN_SIZE cfg) s"
    and k: "k + 1 < ef_sectors cfg"
  defines "addr \<equiv> ef_area cfg + (k + 1) * EF_ERASE_MIN_SIZE cfg"
  assumes w: "sector_written cfg chip (ef_flash s) addr ws h"
  defines "s' \<equiv> s\<lparr>log_end_addr := addr + length ws - 4, ef_flash := h\<rparr>"
  shows "ef_layout cfg chip False (k + 1) (length ws) s'"
    and "ef_log_contents cfg chip s' = ef_log_contents cfg chip s @ ws"
proof -
  have "erased chip (ef_flash s) (addr + EF_ERASE_MIN_SIZE cfg) (ef_area cfg + LOG_AREA_SIZE cfg)"
    using lay by (auto simp: ef_layout_def Let_def addr_def erased_def)
  from sector_written_bytes(2) [OF w this] show lay': "ef_layout cfg chip False (k + 1) (length ws) s'"
    using lay k w ef_cfg_area(2) [OF cfg]
    by (simp add: ef_layout_def sector_written_def Let_def s'_def addr_def)
  show "ef_log_contents cfg chip s' = ef_log_contents cfg chip s @ ws"
    using layout_contents(1) [OF cfg lay] layout_contents(1) [OF cfg lay'] sector_written_bytes(5) [OF w]
    by (simp add: s'_def addr_def add.commute add.left_commute)
qed

lemma next_lap:
  assumes cfg: "ef_cfg_ok cfg" and lay: "ef_layout cfg chip False k (EF_ERASE_MIN_SIZE cfg) s"
    and k: "k + 1 = ef_sectors cfg"
    and w: "sector_written cfg chip (ef_flash s) (ef_area cfg) ws h"
  defines "s' \<equiv> s\<lparr>log_start_addr := ef_area cfg + EF_ERASE_MIN_SIZE cfg,
    log_end_addr := ef_area cfg + length ws - 4, ef_flash := h\<rparr>"
  shows "ef_layout cfg chip True 0 (length ws) s'"
    and "ef_log_contents cfg chip s' = drop (EF_ERASE_MIN_SIZE cfg) (ef_log_contents cfg chip s) @ ws"
    and "length (ef_log_contents cfg chip s) = LOG_AREA_SIZE cfg"
proof -
  let ?a = "ef_area cfg" and ?sec = "EF_ERASE_MIN_SIZE cfg"
  have "k * ?sec + ?sec = (k + 1) * ?sec"
    by simp
  also have "\<dots> = LOG_AREA_SIZE cfg"
    by (simp only: k ef_cfg_area(1) [OF cfg, symmetric])
  finally have full: "ef_log_contents cfg chip s = flash_slice chip (ef_flash s) ?a (?a + LOG_AREA_SIZE cfg)"
    using layout_contents(1) [OF cfg lay] by (simp add: add.assoc)
  then show "length (ef_log_contents cfg chip s) = LOG_AREA_SIZE cfg"
    by simp
  show lay': "ef_layout cfg chip True 0 (length ws) s'"
    using lay w cfg sector_written_bytes(1) [OF w]
    by (simp add: ef_layout_def sector_written_def ef_cfg_ok_def Let_def s'_def)
  have "flash_slice chip h (?a + ?sec) (?a + LOG_AREA_SIZE cfg) =
      drop ?sec (flash_slice chip (ef_flash s) ?a (?a + LOG_AREA_SIZE cfg))"
    using sector_written_bytes(3) [OF w, of "?a + LOG_AREA_SIZE cfg" "?a + ?sec"]
    by (simp add: flash_slice_def drop_map)
  then show "ef_log_contents cfg chip s' = drop ?sec (ef_log_contents cfg chip s) @ ws"
    using layout_contents(1) [OF cfg lay'] sector_written_bytes(4) [OF w] by (simp add: full s'_def)
qed

lemma wrapped_full:
  assumes cfg: "ef_cfg_ok cfg" and lay: "ef_layout cfg chip True k (EF_ERASE_MIN_SIZE cfg) s"
  defines "addr \<equiv> ef_area cfg + (k + 1) * EF_ERASE_MIN_SIZE cfg"
  shows "ef_log_contents cfg chip s =
      flash_slice chip (ef_flash s) addr (addr + EF_ERASE_MIN_SIZE cfg) @
      flash_slice chip (ef_flash s) (addr + EF_ERASE_MIN_SIZE cfg) (ef_area cfg + LOG_AREA_SIZE cfg) @
      flash_slice chip (ef_flash s) (ef_area cfg) addr"
    and "length (ef_log_contents cfg chip s) = LOG_AREA_SIZE cfg"
    and "addr + EF_ERASE_MIN_SIZE cfg \<le> ef_area cfg + LOG_AREA_SIZE cfg"
proof -
  let ?a = "ef_area cfg" and ?sec = "EF_ERASE_MIN_SIZE cfg"
  have "k + 1 < ef_sectors cfg"
    using lay by (simp add: ef_layout_def Let_def)
  from sector_end [OF this, of ?sec] show top: "addr + ?sec \<le> ?a + LOG_AREA_SIZE cfg"
    unfolding ef_cfg_area(1) [OF cfg, symmetric] by (simp add: addr_def)
  have "ef_log_contents cfg chip s = flash_slice chip (ef_flash s) addr (?a + LOG_AREA_SIZE cfg) @
      flash_slice chip (ef_flash s) ?a addr"
    using layout_contents(1) [OF cfg lay] by (simp add: addr_def add.commute add.left_commute)
  then show "ef_log_contents cfg chip s = flash_slice chip (ef_flash s) addr (addr + ?sec) @
      flash_slice chip (ef_flash s) (addr + ?sec) (?a + LOG_AREA_SIZE cfg) @ flash_slice chip (ef_flash s) ?a addr"
    using flash_slice_append [OF _ top, of addr chip "ef_flash s"] by simp
  then show "length (ef_log_contents cfg chip s) = LOG_AREA_SIZE cfg"
    using top by (simp add: addr_def)
qed

lemma next_push:
  assumes cfg: "ef_cfg_ok cfg" and lay: "ef_layout cfg chip True k (EF_ERASE_MIN_SIZE cfg) s"
  defines "addr \<equiv> ef_area cfg + (k + 1) * EF_ERASE_MIN_SIZE cfg"
  defines "again \<equiv> k + 2 < ef_sectors cfg"
  assumes w: "sector_written cfg chip (ef_flash s) addr ws h"
  defines "s' \<equiv> s\<lparr>log_start_addr := if again then addr + EF_ERASE_MIN_SIZE cfg else ef_area cfg,
    log_end_addr := addr + length ws - 4, ef_flash := h\<rparr>"
  shows "ef_layout cfg chip again (k + 1) (length ws) s'"
    and "ef_log_contents cfg chip s' = drop (EF_ERASE_MIN_SIZE cfg) (ef_log_contents cfg chip s) @ ws"
proof -
  let ?a = "ef_area cfg" and ?sec = "EF_ERASE_MIN_SIZE cfg"
  note full = wrapped_full [OF cfg lay, folded addr_def] and bytes = sector_written_bytes [OF w]
  have k: "k + 1 < ef_sectors cfg"
    using lay by (simp add: ef_layout_def Let_def)
  have at_end: "addr + ?sec = ?a + LOG_AREA_SIZE cfg" if "\<not> again"
  proof -
    have "k + 2 = ef_sectors cfg"
      using that k by (simp add: again_def)
    then have "(k + 2) * ?sec = LOG_AREA_SIZE cfg"
      by (simp only: ef_cfg_area(1) [OF cfg, symmetric])
    then show ?thesis
      by (simp add: addr_def)
  qed
  have "0 < length ws" "(k + 1) * ?sec = k * ?sec + ?sec"
    using w by (simp_all add: sector_written_def)
  then have "4 < (k + 1) * ?sec + length ws"
    using ef_cfg_area(2) [OF cfg] by linarith
  moreover have "erased chip h (addr + length ws) (if again then ?a + (k + 1 + 1) * ?sec else ?a + LOG_AREA_SIZE cfg)"
  proof -
    have "addr + ?sec = ?a + (k + 1 + 1) * ?sec"
      by (simp add: addr_def)
    with bytes(1) at_end show ?thesis
      by (cases again) (simp_all only: if_True if_False simp_thms)
  qed
  ultimately show lay': "ef_layout cfg chip again (k + 1) (length ws) s'"
    using lay w k
    by (cases again) (simp_all add: ef_layout_def sector_written_def Let_def s'_def addr_def again_def)
  show "ef_log_contents cfg chip s' = drop ?sec (ef_log_contents cfg chip s) @ ws"
    using layout_contents(1) [OF cfg lay'] bytes(3) [of "?a + LOG_AREA_SIZE cfg" "addr + ?sec"] bytes(5) [of ?a]
      at_end
    by (cases again) (simp_all add: full(1) s'_def addr_def add.commute add.left_commute)
qed

abbreviation ef_kept :: "ef_cfg \<Rightarrow> nat option" where
  "ef_kept cfg \<equiv> Some (LOG_AREA_SIZE cfg - EF_ERASE_MIN_SIZE cfg)"

lemma sector_le_area:
  assumes "ef_cfg_ok cfg" and "j < ef_sectors cfg"
  shows "j * EF_ERASE_MIN_SIZE cfg + EF_ERASE_MIN_SIZE cfg \<le> LOG_AREA_SIZE cfg"
  using sector_end [OF assms(2), of "EF_ERASE_MIN_SIZE cfg"]
  by (simp only: ef_cfg_area(1) [OF assms(1), symmetric])

lemma oldest_dropped:
  assumes "ef_cfg_ok cfg" and "length old = LOG_AREA_SIZE cfg" and "0 < length ws"
  shows "retained (ef_kept cfg) (drop (EF_ERASE_MIN_SIZE cfg) old @ ws) (old @ ws)"
proof -
  have "length (drop (EF_ERASE_MIN_SIZE cfg) old @ ws) = LOG_AREA_SIZE cfg - EF_ERASE_MIN_SIZE cfg + length ws"
    using assms(2) by simp
  moreover have "suffix (drop (EF_ERASE_MIN_SIZE cfg) old @ ws) (old @ ws)"
    by (simp add: suffix_drop)
  ultimately show ?thesis
    using assms(3) unfolding retained_def by (metis less_add_same_cancel1)
qed

lemma layout_next:
  assumes cfg: "ef_cfg_ok cfg" and lay: "ef_layout cfg chip wrapped k (EF_ERASE_MIN_SIZE cfg) s"
  defines "addr \<equiv> get_next_flash_sec_addr cfg s (log_end_addr s)"
  assumes w: "sector_written cfg chip (ef_flash s) addr ws h"
  defines "s' \<equiv> (start_after cfg addr s)\<lparr>log_end_addr := addr + length ws - 4, ef_flash := h\<rparr>"
  shows "\<exists>wrapped' k'. ef_layout cfg chip wrapped' k' (length ws) s' \<and>
    addr = ef_area cfg + k' * EF_ERASE_MIN_SIZE cfg \<and>
    retained (ef_kept cfg) (ef_log_contents cfg chip s') (ef_log_contents cfg chip s @ ws)"
proof -
  let ?a = "ef_area cfg" and ?sec = "EF_ERASE_MIN_SIZE cfg" and ?n = "ef_sectors cfg"
  note next_addr = next_of_end [OF cfg lay, folded addr_def]
  have sec: "0 < ?sec" "2 \<le> ?n"
    using cfg by (simp_all add: ef_cfg_ok_def)
  have "0 < length ws"
    using w by (simp add: sector_written_def)
  note oldest = oldest_dropped [OF cfg _ this]
  consider (fresh) "\<not> wrapped" "k + 1 < ?n" | (lap) "\<not> wrapped" "k + 1 = ?n" | (push) wrapped "k + 1 < ?n"
    using lay by (cases wrapped) (fastforce simp: ef_layout_def Let_def)+
  then show ?thesis
  proof cases
    case fresh
    then have lay': "ef_layout cfg chip False k ?sec s" and addr: "addr = ?a + (k + 1) * ?sec"
      and start: "start_after cfg addr s = s"
      using lay sec(1) next_addr(1) by (simp_all add: start_after_def ef_layout_def Let_def)
    have s': "s' = s\<lparr>log_end_addr := addr + length ws - 4, ef_flash := h\<rparr>"
      by (simp only: s'_def start)
    note new = next_fresh [OF cfg lay' fresh(2), folded addr, OF w]
    show ?thesis
    proof (intro exI conjI)
      show "ef_layout cfg chip False (k + 1) (length ws) s'" and "addr = ?a + (k + 1) * ?sec"
        and "retained (ef_kept cfg) (ef_log_contents cfg chip s') (ef_log_contents cfg chip s @ ws)"
        using new by (simp_all only: s' addr retained_refl)
    qed
  next
    case lap
    then have lay': "ef_layout cfg chip False k ?sec s" and addr: "addr = ?a"
      and start: "start_after cfg addr s = s\<lparr>log_start_addr := ?a + ?sec\<rparr>"
      using lay sec(2) next_addr(1) next_addr(2) [of 0] by (simp_all add: start_after_def ef_layout_def Let_def)
    have s': "s' = s\<lparr>log_start_addr := ?a + ?sec, log_end_addr := addr + length ws - 4, ef_flash := h\<rparr>"
      by (simp only: s'_def start)
    note new = next_lap [OF cfg lay' lap(2) w [unfolded addr]]
    show ?thesis
    proof (intro exI conjI)
      show "ef_layout cfg chip True 0 (length ws) s'" and "addr = ?a + 0 * ?sec"
        and "retained (ef_kept cfg) (ef_log_contents cfg chip s') (ef_log_contents cfg chip s @ ws)"
        using new oldest [OF new(3)] by (simp_all add: s' addr)
    qed
  next
    case push
    then have lay': "ef_layout cfg chip True k ?sec s" and addr: "addr = ?a + (k + 1) * ?sec"
      and start: "start_after cfg addr s = s\<lparr>log_start_addr := if k + 2 < ?n then addr + ?sec else ?a\<rparr>"
      using lay next_addr(1) next_addr(2) [of "k + 1"]
      by (simp_all add: start_after_def ef_layout_def Let_def)
    have s': "s' = s\<lparr>log_start_addr := if k + 2 < ?n then addr + ?sec else ?a,
        log_end_addr := addr + length ws - 4, ef_flash := h\<rparr>"
      by (simp only: s'_def start)
    note new = next_push [OF cfg lay', folded addr, OF w]
    show ?thesis
    proof (intro exI conjI)
      show "ef_layout cfg chip (k + 2 < ?n) (k + 1) (length ws) s'" and "addr = ?a + (k + 1) * ?sec"
        and "retained (ef_kept cfg) (ef_log_contents cfg chip s') (ef_log_contents cfg chip s @ ws)"
        using new oldest [OF wrapped_full(2) [OF cfg lay']] by (simp_all only: s' addr)
    qed
  qed
qed

text \<open>One sector: erased and written, whatever the caller's copy of the end address is.\<close>

lemma erase_and_write_sector:
  assumes cfg: "ef_cfg_ok cfg" and chip: "flash_chip_ok cfg chip unlocked"
    and addr: "addr mod EF_ERASE_MIN_SIZE cfg = 0"
    and ws: "0 < length ws" "length ws mod 4 = 0" "length ws \<le> EF_ERASE_MIN_SIZE cfg"
  obtains h1 h2 where "ef_port_erase cfg chip addr (EF_ERASE_MIN_SIZE cfg) h = Inr (EF_NO_ERR, h1)"
    and "ef_port_write chip addr ws h1 = Inr (EF_NO_ERR, h2)"
    and "sector_written cfg chip h addr ws h2"
proof -
  let ?sec = "EF_ERASE_MIN_SIZE cfg"
  have sec: "0 < ?sec" "4 dvd ?sec"
    using cfg by (simp_all add: ef_cfg_ok_def mod_eq_0_iff_dvd)
  then have "addr mod 4 = 0"
    using addr by (auto simp: mod_eq_0_iff_dvd intro: dvd_trans)
  obtain h1 where h1: "ef_port_erase cfg chip addr ?sec h = Inr (EF_NO_ERR, h1)"
      "bytes_erased chip h addr (addr + ?sec) h1"
    using ef_port_erase_ok [OF chip addr sec(1), of ?sec] by auto
  have "erased chip h1 addr (addr + length ws)"
    using h1(2) ws(3) by (auto simp: bytes_erased_def erased_def)
  from ef_port_write_ok [OF chip \<open>addr mod 4 = 0\<close> ws(2) this] obtain h2 where
    "ef_port_write chip addr ws h1 = Inr (EF_NO_ERR, h2)" "bytes_written chip h1 addr ws h2" .
  with h1 ws that show thesis
    by (auto simp: sector_written_def)
qed

lemma write_next_sector:
  assumes cfg: "ef_cfg_ok cfg" and chip: "flash_chip_ok cfg chip unlocked"
    and lay: "ef_layout cfg chip wrapped k (EF_ERASE_MIN_SIZE cfg) (s\<lparr>log_end_addr := e\<rparr>)"
    and ws: "0 < length ws" "length ws mod 4 = 0" "length ws \<le> EF_ERASE_MIN_SIZE cfg"
  defines "addr \<equiv> get_next_flash_sec_addr cfg s e"
  obtains h1 h2 wrapped' k' s' where
    "ef_port_erase cfg chip addr (EF_ERASE_MIN_SIZE cfg) (ef_flash (start_after cfg addr s)) = Inr (EF_NO_ERR, h1)"
    and "ef_port_write chip addr ws h1 = Inr (EF_NO_ERR, h2)"
    and "s' = (start_after cfg addr s)\<lparr>log_end_addr := u32_sub (addr + length ws) 4, ef_flash := h2\<rparr>"
    and "s'\<lparr>log_end_addr := addr + length ws - 4\<rparr> = s'"
    and "ef_layout cfg chip wrapped' k' (length ws) s'"
    and "retained (ef_kept cfg) (ef_log_contents cfg chip s')
      (ef_log_contents cfg chip (s\<lparr>log_end_addr := e\<rparr>) @ ws)"
proof -
  let ?a = "ef_area cfg" and ?sec = "EF_ERASE_MIN_SIZE cfg" and ?s = "s\<lparr>log_end_addr := e\<rparr>"
  have next_eq: "get_next_flash_sec_addr cfg ?s = get_next_flash_sec_addr cfg s"
    by (intro ext) (simp add: get_next_flash_sec_addr_def Let_def)
  have flash: "ef_flash (start_after cfg addr s) = ef_flash s" "ef_flash ?s = ef_flash s"
    by (simp_all add: start_after_def)
  have "log_area_start_addr s = ?a" "?a mod ?sec = 0"
    using lay cfg by (simp_all add: ef_layout_def ef_cfg_ok_def Let_def)
  then have "addr mod ?sec = 0"
    by (auto simp: addr_def get_next_flash_sec_addr_def Let_def mod_eq_0_iff_dvd intro!: dvd_add)
  from erase_and_write_sector [OF cfg chip this ws] obtain h1 h2 where
    h: "ef_port_erase cfg chip addr ?sec (ef_flash s) = Inr (EF_NO_ERR, h1)"
      "ef_port_write chip addr ws h1 = Inr (EF_NO_ERR, h2)" "sector_written cfg chip (ef_flash s) addr ws h2" .
  let ?s' = "(start_after cfg addr s)\<lparr>log_end_addr := addr + length ws - 4, ef_flash := h2\<rparr>"
  have same: "(start_after cfg addr ?s)\<lparr>log_end_addr := addr + length ws - 4, ef_flash := h2\<rparr> = ?s'"
    by (simp add: start_after_def next_eq)
  from layout_next [OF cfg lay, of ws h2] h(3) obtain wrapped' k' where
    lay': "ef_layout cfg chip wrapped' k' (length ws) ?s'" "addr = ?a + k' * ?sec"
      "retained (ef_kept cfg) (ef_log_contents cfg chip ?s') (ef_log_contents cfg chip ?s @ ws)"
    unfolding next_eq by (auto simp: addr_def [symmetric] same)
  have "k' < ef_sectors cfg"
    using lay'(1) by (auto simp: ef_layout_def Let_def split: if_splits)
  then have "u32_sub (addr + length ws) 4 = addr + length ws - 4"
    using sector_le_area [OF cfg, of k'] cfg ef_cfg_area(3) [OF cfg] ws(3)
    by (intro u32_sub_le) (simp_all add: lay'(2) ef_cfg_ok_def)
  with h(1,2) lay'(1,3) flash that [of h1 h2 ?s' wrapped' k'] show thesis
    by simp
qed

lemma ef_write_sectors_appends:
  assumes cfg: "ef_cfg_ok cfg" and chip: "flash_chip_ok cfg chip unlocked"
  shows "ef_layout cfg chip wrapped k (EF_ERASE_MIN_SIZE cfg) (s\<lparr>log_end_addr := e\<rparr>) \<Longrightarrow>
    get_next_flash_sec_addr cfg s (u32_sub write_addr 4) = get_next_flash_sec_addr cfg s e \<Longrightarrow>
    0 < length log \<Longrightarrow> length log mod 4 = 0 \<Longrightarrow>
    \<exists>s' wrapped' k' r. ef_write_sectors cfg chip write_addr log s = Inr (EF_NO_ERR, s') \<and>
      ef_layout cfg chip wrapped' k' r s' \<and>
      retained (ef_kept cfg) (ef_log_contents cfg chip s')
        (ef_log_contents cfg chip (s\<lparr>log_end_addr := e\<rparr>) @ log)"
proof (induction "length log" arbitrary: wrapped k s e write_addr log rule: less_induct)
  case less
  let ?a = "ef_area cfg" and ?sec = "EF_ERASE_MIN_SIZE cfg" and ?s = "s\<lparr>log_end_addr := e\<rparr>"
  let ?addr = "get_next_flash_sec_addr cfg s e"
  let ?t = "start_after cfg ?addr s"
  have sec: "0 < ?sec" "?sec mod 4 = 0"
    using cfg by (simp_all add: ef_cfg_ok_def)
  have turn: "ef_write_sectors cfg chip write_addr log s =
      ef_try (ef_port_erase cfg chip ?addr ?sec (ef_flash ?t)) ?t (\<lambda>h.
        if length log > ?sec
        then ef_try (ef_port_write chip ?addr (take ?sec log) h) ?t (\<lambda>h'.
          ef_write_sectors cfg chip (?addr + ?sec) (drop ?sec log)
            (?t\<lparr>log_end_addr := u32_sub (?addr + ?sec) 4, ef_flash := h'\<rparr>))
        else ef_try (ef_port_write chip ?addr log h) ?t (\<lambda>h'.
          Inr (EF_NO_ERR, ?t\<lparr>log_end_addr := u32_sub (?addr + length log) 4, ef_flash := h'\<rparr>)))"
    using sec(1) by (subst ef_write_sectors.simps) (simp add: less.prems(2) Let_def)
  show ?case
  proof (cases "length log > ?sec")
    case False
    then have "length log \<le> ?sec"
      by simp
    from write_next_sector [OF cfg chip less.prems(1,3,4) this] obtain h1 h2 wrapped' k' s' where
      w: "ef_port_erase cfg chip ?addr ?sec (ef_flash ?t) = Inr (EF_NO_ERR, h1)"
        "ef_port_write chip ?addr log h1 = Inr (EF_NO_ERR, h2)"
        "s' = ?t\<lparr>log_end_addr := u32_sub (?addr + length log) 4, ef_flash := h2\<rparr>"
        "ef_layout cfg chip wrapped' k' (length log) s'"
        "retained (ef_kept cfg) (ef_log_contents cfg chip s') (ef_log_contents cfg chip ?s @ log)" .
    have "ef_write_sectors cfg chip write_addr log s = Inr (EF_NO_ERR, s')"
      using False by (simp add: turn w(1-3) ef_try_def)
    with w(4,5) show ?thesis
      by blast
  next
    case True
    let ?ws = "take ?sec log"
    have ws: "0 < length ?ws" "length ?ws mod 4 = 0" "length ?ws \<le> ?sec" "length ?ws = ?sec"
      using True sec by simp_all
    from write_next_sector [OF cfg chip less.prems(1) ws(1-3), unfolded ws(4)] obtain h1 h2 wrapped' k' s1 where
      w: "ef_port_erase cfg chip ?addr ?sec (ef_flash ?t) = Inr (EF_NO_ERR, h1)"
        "ef_port_write chip ?addr ?ws h1 = Inr (EF_NO_ERR, h2)"
        "s1 = ?t\<lparr>log_end_addr := u32_sub (?addr + ?sec) 4, ef_flash := h2\<rparr>"
        "s1\<lparr>log_end_addr := ?addr + ?sec - 4\<rparr> = s1" "ef_layout cfg chip wrapped' k' ?sec s1"
        "retained (ef_kept cfg) (ef_log_contents cfg chip s1) (ef_log_contents cfg chip ?s @ ?ws)" .
    have start_of_next: "u32_sub (?addr + ?sec) 4 = ?addr + ?sec - 4"
      using arg_cong [OF w(4), of log_end_addr] by (simp add: w(3))
    have rest: "length (drop ?sec log) < length log" "0 < length (drop ?sec log)"
        "length (drop ?sec log) mod 4 = 0"
      using True sec less.prems(4) by (simp_all add: mod_eq_0_iff_dvd dvd_diff_nat)
    from less.hyps [OF rest(1) _ _ rest(2,3), of wrapped' k' "?addr + ?sec - 4" s1 "?addr + ?sec"] w(5)
    obtain s' wr k'' r where
      ih: "ef_write_sectors cfg chip (?addr + ?sec) (drop ?sec log) s1 = Inr (EF_NO_ERR, s')"
        "ef_layout cfg chip wr k'' r s'"
        "retained (ef_kept cfg) (ef_log_contents cfg chip s') (ef_log_contents cfg chip s1 @ drop ?sec log)"
      using start_of_next by (auto simp: w(4))
    have "retained (ef_kept cfg) (ef_log_contents cfg chip s1 @ drop ?sec log) (ef_log_contents cfg chip ?s @ log)"
      using retained_append [OF w(6), of "drop ?sec log"] by simp
    from retained_trans [OF ih(3) this]
    have "retained (ef_kept cfg) (ef_log_contents cfg chip s') (ef_log_contents cfg chip ?s @ log)" .
    moreover have "ef_write_sectors cfg chip write_addr log s = Inr (EF_NO_ERR, s')"
      using True ih(1) by (simp add: turn w(1,2) ef_try_def flip: w(3))
    ultimately show ?thesis
      using ih(2) by blast
  qed
qed

lemma used_size_empty:
  assumes "ef_cfg_ok cfg" and "ef_log_empty cfg chip s"
  shows "ef_log_get_used_size cfg s = Inr 0" and "ef_log_contents cfg chip s = []"
  using assms
  by (auto simp: ef_log_get_used_size_def ef_log_empty_def ef_cfg_ok_def ef_log_contents_def)

lemma used_size_layout:
  assumes cfg: "ef_cfg_ok cfg" and lay: "ef_layout cfg chip wrapped k r s"
  shows "ef_log_get_used_size cfg s = Inr (length (ef_log_contents cfg chip s))"
    and "ef_log_contents cfg chip s \<noteq> []"
proof -
  let ?a = "ef_area cfg" and ?sec = "EF_ERASE_MIN_SIZE cfg"
  note area = ef_cfg_area [OF cfg]
  have e: "log_end_addr s + 4 = ?a + k * ?sec + r"
    by (rule layout_contents(3) [OF cfg lay])
  have r: "0 < r" "r \<le> ?sec" "ef_init_ok s" "4 \<le> r"
    using lay by (auto simp: ef_layout_def Let_def)
  have start: "log_start_addr s = (if wrapped then ?a + (k + 1) * ?sec else ?a)"
    and k: "if wrapped then k + 1 < ef_sectors cfg else k < ef_sectors cfg"
    using lay by (auto simp: ef_layout_def Let_def split: if_splits)
  have "flash_slice chip (ef_flash s) ?a (?a + k * ?sec + r) \<noteq> []"
    using r(1) by (simp add: flash_slice_def)
  then show "ef_log_contents cfg chip s \<noteq> []"
    by (simp add: layout_contents(1) [OF cfg lay])
  have len: "length (ef_log_contents cfg chip s) =
      (if wrapped then LOG_AREA_SIZE cfg - (k + 1) * ?sec else 0) + (k * ?sec + r)"
    by (simp add: layout_contents(1) [OF cfg lay])
  show "ef_log_get_used_size cfg s = Inr (length (ef_log_contents cfg chip s))"
  proof (cases wrapped)
    case True
    have "(k + 1) * ?sec + ?sec \<le> LOG_AREA_SIZE cfg"
      using sector_end [of "k + 1" "ef_sectors cfg" ?sec] k True by (simp only: area(1) [symmetric])
    moreover have "LOG_AREA_SIZE cfg < 2 ^ 32"
      using area(5) [unfolded area(1) [symmetric]] by simp
    moreover have "log_start_addr s - log_end_addr s = ?sec - r + 4" "log_end_addr s < log_start_addr s"
        "0 < log_end_addr s"
      using True e r start area(3) by simp_all
    ultimately show ?thesis
      using True r len by (simp add: ef_log_get_used_size_def)
  next
    case False
    then show ?thesis
      using e r start len area(3) layout_contents(2) [OF cfg lay]
      by (auto simp: ef_log_get_used_size_def)
  qed
qed

text \<open>A write to a log that is not empty, from inside a sector and from its end.\<close>

lemma layout_write_addr:
  assumes cfg: "ef_cfg_ok cfg" and lay: "ef_layout cfg chip wrapped k r s"
  defines "w \<equiv> ef_area cfg + k * EF_ERASE_MIN_SIZE cfg + r"
  shows "w mod 4 = 0" and "w + EF_ERASE_MIN_SIZE cfg - r < 2 ^ 30"
    and "u32_sub w (log_area_start_addr s) mod EF_ERASE_MIN_SIZE cfg = r mod EF_ERASE_MIN_SIZE cfg"
    and "erased chip (ef_flash s) w (w + EF_ERASE_MIN_SIZE cfg - r)"
    and "j < EF_ERASE_MIN_SIZE cfg \<Longrightarrow>
      get_next_flash_sec_addr cfg s (ef_area cfg + k * EF_ERASE_MIN_SIZE cfg + j) =
      get_next_flash_sec_addr cfg s (ef_area cfg + k * EF_ERASE_MIN_SIZE cfg)"
proof -
  let ?a = "ef_area cfg" and ?sec = "EF_ERASE_MIN_SIZE cfg"
  note area = ef_cfg_area [OF cfg]
  have r: "0 < r" "r \<le> ?sec" "r mod 4 = 0" "log_area_start_addr s = ?a" and k: "k < ef_sectors cfg"
    using lay by (auto simp: ef_layout_def Let_def split: if_splits)
  have "k * ?sec mod 4 = 0"
    using cfg by (simp add: ef_cfg_ok_def mod_eq_0_iff_dvd)
  with area(4) r(3) show "w mod 4 = 0"
    by (simp add: w_def mod_eq_0_iff_dvd)
  have top: "k * ?sec + ?sec \<le> LOG_AREA_SIZE cfg"
    using sector_end [OF k, of ?sec] by (simp only: area(1) [symmetric])
  moreover have "?a + LOG_AREA_SIZE cfg < 2 ^ 30"
    using area(5) by (simp only: area(1) [symmetric])
  ultimately show bound: "w + ?sec - r < 2 ^ 30"
    by (simp add: w_def)
  have "u32_sub w ?a = k * ?sec + r"
    using bound r(2) by (simp add: w_def)
  then show "u32_sub w (log_area_start_addr s) mod ?sec = r mod ?sec"
    by (simp add: r(4))
  show "erased chip (ef_flash s) w (w + ?sec - r)"
    using lay top r(2) by (auto simp: ef_layout_def Let_def erased_def w_def split: if_splits)
  show "get_next_flash_sec_addr cfg s (?a + k * ?sec + j) =
      get_next_flash_sec_addr cfg s (?a + k * ?sec)" if "j < ?sec"
    using get_next_sector [OF cfg r(4) that k] get_next_sector [OF cfg r(4) _ k, of 0] area(2) by simp
qed

lemma layout_write_inside:
  assumes cfg: "ef_cfg_ok cfg" and chip: "flash_chip_ok cfg chip unlocked"
    and lay: "ef_layout cfg chip wrapped k r s" and r: "r < EF_ERASE_MIN_SIZE cfg"
    and ws: "length ws mod 4 = 0" "r + length ws \<le> EF_ERASE_MIN_SIZE cfg"
  obtains h' s' where
    "ef_port_write chip (ef_area cfg + k * EF_ERASE_MIN_SIZE cfg + r) ws (ef_flash s) = Inr (EF_NO_ERR, h')"
    and "s' = s\<lparr>log_end_addr := ef_area cfg + k * EF_ERASE_MIN_SIZE cfg + (r + length ws) - 4, ef_flash := h'\<rparr>"
    and "ef_layout cfg chip wrapped k (r + length ws) s'"
    and "ef_log_contents cfg chip s' = ef_log_contents cfg chip s @ ws"
proof -
  let ?w = "ef_area cfg + k * EF_ERASE_MIN_SIZE cfg + r"
  note at = layout_write_addr [OF cfg lay]
  have "erased chip (ef_flash s) ?w (?w + length ws)"
    using at(4) ws(2) by (auto simp: erased_def)
  from ef_port_write_ok [OF chip at(1) ws(1) this] obtain h' where
    h': "ef_port_write chip ?w ws (ef_flash s) = Inr (EF_NO_ERR, h')" "bytes_written chip (ef_flash s) ?w ws h'" .
  from h'(1) layout_within [OF cfg lay h'(2) ws] that show thesis
    by blast
qed

lemma ef_log_write_turn:
  assumes cfg: "ef_cfg_ok cfg" and lay: "ef_layout cfg chip wrapped k r s" and ws: "length ws mod 4 = 0"
  defines "w \<equiv> ef_area cfg + k * EF_ERASE_MIN_SIZE cfg + r"
  shows "ef_log_write cfg chip ws s =
    (if r < EF_ERASE_MIN_SIZE cfg
     then if length ws > EF_ERASE_MIN_SIZE cfg - r
       then ef_try (ef_port_write chip w (take (EF_ERASE_MIN_SIZE cfg - r) ws) (ef_flash s)) s (\<lambda>h.
         ef_write_sectors cfg chip w (drop (EF_ERASE_MIN_SIZE cfg - r) ws) (s\<lparr>ef_flash := h\<rparr>))
       else (case ef_port_write chip w ws (ef_flash s) of
         Inl e \<Rightarrow> Inl e
       | Inr (result, h) \<Rightarrow> Inr (result, s\<lparr>log_end_addr := u32_sub (w + length ws) 4, ef_flash := h\<rparr>))
     else ef_write_sectors cfg chip w ws s)"
proof -
  let ?sec = "EF_ERASE_MIN_SIZE cfg"
  have r: "0 < r" "r \<le> ?sec"
    using lay by (simp_all add: ef_layout_def Let_def)
  note facts = layout_contents(2) [OF cfg lay] layout_contents(3) [OF cfg lay, folded w_def]
    used_size_layout(1) [OF cfg lay] layout_write_addr(3) [OF cfg lay, folded w_def]
  show ?thesis
  proof (cases "r < ?sec")
    case True
    then have "?sec - r \<noteq> ?sec"
      using r(1) by simp
    with True show ?thesis
      using facts ws by (simp add: ef_log_write_def Let_def split: sum.split prod.split)
  next
    case False
    with r show ?thesis
      using facts ws by (simp add: ef_log_write_def Let_def)
  qed
qed

text \<open>The rest of the sector is written first; the loop then starts as after a full sector.\<close>

lemma write_rest_of_sector:
  assumes cfg: "ef_cfg_ok cfg" and chip: "flash_chip_ok cfg chip unlocked"
    and lay: "ef_layout cfg chip wrapped k r s" and r: "r < EF_ERASE_MIN_SIZE cfg"
    and ws: "length ws = EF_ERASE_MIN_SIZE cfg - r"
  defines "w \<equiv> ef_area cfg + k * EF_ERASE_MIN_SIZE cfg + r"
    and "e \<equiv> ef_area cfg + k * EF_ERASE_MIN_SIZE cfg + EF_ERASE_MIN_SIZE cfg - 4"
  obtains h where "ef_port_write chip w ws (ef_flash s) = Inr (EF_NO_ERR, h)"
    and "ef_layout cfg chip wrapped k (EF_ERASE_MIN_SIZE cfg) (s\<lparr>ef_flash := h, log_end_addr := e\<rparr>)"
    and "ef_log_contents cfg chip (s\<lparr>ef_flash := h, log_end_addr := e\<rparr>) = ef_log_contents cfg chip s @ ws"
    and "get_next_flash_sec_addr cfg (s\<lparr>ef_flash := h\<rparr>) (u32_sub w 4) =
      get_next_flash_sec_addr cfg (s\<lparr>ef_flash := h\<rparr>) e"
proof -
  let ?a = "ef_area cfg" and ?sec = "EF_ERASE_MIN_SIZE cfg"
  note at = layout_write_addr [OF cfg lay, folded w_def] and area = ef_cfg_area [OF cfg]
  have r': "4 \<le> r" "r mod 4 = 0"
    using lay by (auto simp: ef_layout_def Let_def)
  have size: "r + length ws = ?sec" and fits: "length ws mod 4 = 0" "r + length ws \<le> ?sec"
    using ws r r'(2) cfg by (simp_all add: ef_cfg_ok_def mod_eq_0_iff_dvd dvd_diff_nat)
  from layout_write_inside [OF cfg chip lay r fits, unfolded size, folded w_def e_def] obtain h s1 where
    w: "ef_port_write chip w ws (ef_flash s) = Inr (EF_NO_ERR, h)" "s1 = s\<lparr>log_end_addr := e, ef_flash := h\<rparr>"
      "ef_layout cfg chip wrapped k ?sec s1" "ef_log_contents cfg chip s1 = ef_log_contents cfg chip s @ ws" .
  have "u32_sub w 4 = ?a + k * ?sec + (r - 4)"
    using at(2) r r'(1) by (subst u32_sub_le) (simp_all add: w_def)
  moreover have "e = ?a + k * ?sec + (?sec - 4)"
    using area(2) by (simp add: e_def)
  moreover have "get_next_flash_sec_addr cfg (s\<lparr>ef_flash := h\<rparr>) = get_next_flash_sec_addr cfg s"
    by (intro ext) (simp add: get_next_flash_sec_addr_def Let_def)
  ultimately have same: "get_next_flash_sec_addr cfg (s\<lparr>ef_flash := h\<rparr>) (u32_sub w 4) =
      get_next_flash_sec_addr cfg (s\<lparr>ef_flash := h\<rparr>) e"
    using at(5) [of "r - 4"] at(5) [of "?sec - 4"] r area(2) by simp
  have "s\<lparr>ef_flash := h, log_end_addr := e\<rparr> = s1"
    by (cases s) (simp add: w(2))
  with w same that show thesis
    by simp
qed

lemma ef_log_write_layout:
  assumes cfg: "ef_cfg_ok cfg" and chip: "flash_chip_ok cfg chip unlocked"
    and lay: "ef_layout cfg chip wrapped k r s" and ws: "0 < length ws" "length ws mod 4 = 0"
  shows "\<exists>s' wrapped' k' r'. ef_log_write cfg chip ws s = Inr (EF_NO_ERR, s') \<and>
    ef_layout cfg chip wrapped' k' r' s' \<and>
    retained (ef_kept cfg) (ef_log_contents cfg chip s') (ef_log_contents cfg chip s @ ws)"
proof -
  let ?a = "ef_area cfg" and ?sec = "EF_ERASE_MIN_SIZE cfg"
  let ?w = "?a + k * ?sec + r" and ?room = "?sec - r" and ?e = "?a + k * ?sec + ?sec - 4"
  note at = layout_write_addr [OF cfg lay] and turn = ef_log_write_turn [OF cfg lay ws(2)]
  have r: "r \<le> ?sec" "r mod 4 = 0" "4 \<le> r"
    using lay by (auto simp: ef_layout_def Let_def)
  consider (boundary) "r = ?sec" | (inside) "r < ?sec" "length ws \<le> ?room" | (over) "r < ?sec" "?room < length ws"
    using r(1) by linarith
  then show ?thesis
  proof cases
    case boundary
    then have "ef_layout cfg chip wrapped k ?sec (s\<lparr>log_end_addr := log_end_addr s\<rparr>)"
      using lay by simp
    moreover have "u32_sub ?w 4 = log_end_addr s"
      using layout_contents(3) [OF cfg lay] at(2) boundary by (subst u32_sub_le) simp_all
    ultimately show ?thesis
      using ef_write_sectors_appends [OF cfg chip _ _ ws, of wrapped k "log_end_addr s" s ?w] boundary
      by (simp add: turn)
  next
    case inside
    then have "r + length ws \<le> ?sec"
      by simp
    from layout_write_inside [OF cfg chip lay inside(1) ws(2) this] obtain h' s' where
      w: "ef_port_write chip ?w ws (ef_flash s) = Inr (EF_NO_ERR, h')"
        "s' = s\<lparr>log_end_addr := ?a + k * ?sec + (r + length ws) - 4, ef_flash := h'\<rparr>"
        "ef_layout cfg chip wrapped k (r + length ws) s'"
        "ef_log_contents cfg chip s' = ef_log_contents cfg chip s @ ws" .
    have "u32_sub (?w + length ws) 4 = ?a + k * ?sec + (r + length ws) - 4"
      using at(2) r inside by (subst u32_sub_le) simp_all
    then have "ef_log_write cfg chip ws s = Inr (EF_NO_ERR, s')"
      using inside by (simp add: turn w(1,2))
    with w(3,4) show ?thesis
      by (metis retained_refl)
  next
    case over
    let ?rest = "drop ?room ws"
    have "length (take ?room ws) = ?room"
      using over by simp
    from write_rest_of_sector [OF cfg chip lay over(1) this] obtain h where
      w: "ef_port_write chip ?w (take ?room ws) (ef_flash s) = Inr (EF_NO_ERR, h)"
        "ef_layout cfg chip wrapped k ?sec (s\<lparr>ef_flash := h, log_end_addr := ?e\<rparr>)"
        "ef_log_contents cfg chip (s\<lparr>ef_flash := h, log_end_addr := ?e\<rparr>) =
          ef_log_contents cfg chip s @ take ?room ws"
        "get_next_flash_sec_addr cfg (s\<lparr>ef_flash := h\<rparr>) (u32_sub ?w 4) =
          get_next_flash_sec_addr cfg (s\<lparr>ef_flash := h\<rparr>) ?e" .
    have "0 < length ?rest" "length ?rest mod 4 = 0"
      using over ws(2) r(2) cfg by (simp_all add: ef_cfg_ok_def mod_eq_0_iff_dvd dvd_diff_nat)
    from ef_write_sectors_appends [OF cfg chip w(2,4) this] over show ?thesis
      by (simp add: turn w(1,3) ef_try_def)
  qed
qed

lemma ef_log_write_empty:
  assumes cfg: "ef_cfg_ok cfg" and chip: "flash_chip_ok cfg chip unlocked" and empty: "ef_log_empty cfg chip s"
    and ws: "length ws mod 4 = 0" "8 \<le> length ws" "length ws \<le> EF_ERASE_MIN_SIZE cfg"
  shows "\<exists>s' k r. ef_log_write cfg chip ws s = Inr (EF_NO_ERR, s') \<and> ef_layout cfg chip False k r s' \<and>
    ef_log_contents cfg chip s' = ef_log_contents cfg chip s @ ws"
proof -
  let ?a = "ef_area cfg" and ?sec = "EF_ERASE_MIN_SIZE cfg"
  note area = ef_cfg_area [OF cfg]
  have at: "log_start_addr s = ?a" "log_end_addr s = ?a" "log_area_start_addr s = ?a"
    and blank: "erased chip (ef_flash s) ?a (?a + LOG_AREA_SIZE cfg)"
    using empty by (simp_all add: ef_log_empty_def)
  have size: "?sec \<le> LOG_AREA_SIZE cfg" "?a + LOG_AREA_SIZE cfg < 2 ^ 30"
    using sector_le_area [OF cfg, of 0] cfg by (simp_all add: ef_cfg_ok_def)
  then have "erased chip (ef_flash s) ?a (?a + length ws)"
    using blank ws by (simp add: erased_def)
  from ef_port_write_ok [OF chip area(4) ws(1) this] obtain h' where
    h': "ef_port_write chip ?a ws (ef_flash s) = Inr (EF_NO_ERR, h')"
      "bytes_written chip (ef_flash s) ?a ws h'" .
  have "u32_sub (?a + length ws) 4 = ?a + length ws - 4"
    using size ws by (intro u32_sub_le) simp_all
  then have "ef_log_write cfg chip ws s =
      Inr (EF_NO_ERR, s\<lparr>log_end_addr := ?a + length ws - 4, ef_flash := h'\<rparr>)"
    using used_size_empty(1) [OF cfg empty] ws h'(1) at size by (simp add: ef_log_write_def Let_def)
  with empty_within [OF cfg empty h'(2) ws] show ?thesis
    by blast
qed

lemma ef_log_write_retains:
  assumes cfg: "ef_cfg_ok cfg" and chip: "flash_chip_ok cfg chip unlocked" and ok: "ef_log_ok cfg chip s"
    and ws: "0 < length ws" "length ws mod 4 = 0"
    and first: "ef_log_contents cfg chip s = [] \<Longrightarrow> 8 \<le> length ws \<and> length ws \<le> EF_ERASE_MIN_SIZE cfg"
  shows "\<exists>s'. ef_log_write cfg chip ws s = Inr (EF_NO_ERR, s') \<and> ef_log_ok cfg chip s' \<and>
    retained (ef_kept cfg) (ef_log_contents cfg chip s') (ef_log_contents cfg chip s @ ws)"
proof (cases "ef_log_empty cfg chip s")
  case True
  with first have "8 \<le> length ws" "length ws \<le> EF_ERASE_MIN_SIZE cfg"
    using used_size_empty(2) [OF cfg True] by simp_all
  from ef_log_write_empty [OF cfg chip True ws(2) this] show ?thesis
    unfolding ef_log_ok_def by (metis retained_refl)
next
  case False
  then obtain wrapped k r where "ef_layout cfg chip wrapped k r s"
    using ok by (auto simp: ef_log_ok_def)
  from ef_log_write_layout [OF cfg chip this ws] show ?thesis
    unfolding ef_log_ok_def by blast
qed

section \<open>Reading\<close>

lemma take_drop_slice:
  "a + i + n \<le> b \<Longrightarrow> take n (drop i (flash_slice chip h a b)) = flash_slice chip h (a + i) (a + i + n)"
  by (simp add: flash_slice_def drop_map take_map)

lemma read_into_whole:
  "n mod 4 = 0 \<Longrightarrow> length log = n \<Longrightarrow> read_into chip addr 0 n h log = Inr (flash_slice chip h addr (addr + n))"
  by (simp add: read_into_def ef_port_read_def mem_write_def overwrite_def flash_slice_def)

lemma read_into_part:
  assumes "n mod 4 = 0" and "pos + n \<le> length log"
  shows "\<exists>log'. read_into chip addr pos n h log = Inr log' \<and> length log' = length log"
  using assms by (simp add: read_into_def ef_port_read_def mem_write_def)

lemma read_into_outside:
  "n mod 4 = 0 \<Longrightarrow> length log < pos + n \<Longrightarrow> read_into chip addr pos n h log = Inl Memory_fault"
  by (simp add: read_into_def ef_port_read_def mem_write_def)

lemma read_linear:
  assumes cfg: "ef_cfg_ok cfg" and lay: "ef_layout cfg chip False k r s"
    and n: "n mod 4 = 0" "0 < n" "index + n \<le> length (ef_log_contents cfg chip s)" "length log = n"
  shows "ef_log_read cfg chip index log n s = Inr (take n (drop index (ef_log_contents cfg chip s)))"
proof -
  have "log_start_addr s = ef_area cfg" "log_area_start_addr s = ef_area cfg" "log_start_addr s < log_end_addr s"
    using lay layout_contents(3) [OF cfg lay] by (auto simp: ef_layout_def Let_def)
  with n show ?thesis
    using used_size_layout(1) [OF cfg lay]
    by (simp add: ef_log_read_def read_into_whole take_drop_slice layout_contents(1) [OF cfg lay] add.assoc)
qed

lemma wrapped_geometry:
  assumes cfg: "ef_cfg_ok cfg" and lay: "ef_layout cfg chip True k r s"
  defines "oldest \<equiv> ef_area cfg + LOG_AREA_SIZE cfg - log_start_addr s"
  shows "log_start_addr s + oldest = ef_area cfg + LOG_AREA_SIZE cfg" and "log_end_addr s < log_start_addr s"
    and "log_area_start_addr s = ef_area cfg" and "oldest mod 4 = 0"
    and "ef_log_contents cfg chip s =
      flash_slice chip (ef_flash s) (log_start_addr s) (log_start_addr s + oldest) @
      flash_slice chip (ef_flash s) (ef_area cfg) (ef_area cfg + (k * EF_ERASE_MIN_SIZE cfg + r))"
proof -
  let ?a = "ef_area cfg" and ?sec = "EF_ERASE_MIN_SIZE cfg"
  have s: "log_start_addr s = ?a + (k + 1) * ?sec" "log_area_start_addr s = ?a" "r \<le> ?sec"
      "k + 1 < ef_sectors cfg"
    using lay by (simp_all add: ef_layout_def Let_def)
  then show "log_area_start_addr s = ?a"
    by simp
  show start: "log_start_addr s + oldest = ?a + LOG_AREA_SIZE cfg"
    using s sector_le_area [OF cfg s(4)] by (simp add: oldest_def)
  show "log_end_addr s < log_start_addr s"
    using s layout_contents(3) [OF cfg lay] by simp
  have "4 dvd ?sec" "4 dvd ?a" "4 dvd LOG_AREA_SIZE cfg"
    using cfg ef_cfg_area(4) [OF cfg] by (auto simp: ef_cfg_ok_def mod_eq_0_iff_dvd intro: dvd_trans)
  then show "oldest mod 4 = 0"
    by (simp add: oldest_def s(1) mod_eq_0_iff_dvd dvd_diff_nat)
  show "ef_log_contents cfg chip s = flash_slice chip (ef_flash s) (log_start_addr s) (log_start_addr s + oldest) @
      flash_slice chip (ef_flash s) ?a (?a + (k * ?sec + r))"
    using layout_contents(1) [OF cfg lay] start by (simp add: s(1) add.assoc)
qed

lemma read_wrapped_turn:
  assumes cfg: "ef_cfg_ok cfg" and lay: "ef_layout cfg chip True k r s"
    and n: "n mod 4 = 0" "0 < n" "index + n \<le> length (ef_log_contents cfg chip s)"
  defines "oldest \<equiv> ef_area cfg + LOG_AREA_SIZE cfg - log_start_addr s"
  shows "ef_log_read cfg chip index log n s =
    (if index + n \<le> oldest then read_into chip (log_start_addr s + index) 0 n (ef_flash s) log
     else if index < oldest
     then (case read_into chip (log_start_addr s + index) 0 (oldest - index) (ef_flash s) log of
         Inl e \<Rightarrow> Inl e
       | Inr log' \<Rightarrow>
           read_into chip (ef_area cfg) (4 * (oldest - index)) (n - (oldest - index)) (ef_flash s) log')
     else read_into chip (ef_area cfg + (index - oldest)) 0 n (ef_flash s) log)"
proof -
  note g = wrapped_geometry [OF cfg lay, folded oldest_def]
  have "log_start_addr s + index + n \<le> ef_area cfg + LOG_AREA_SIZE cfg \<longleftrightarrow> index + n \<le> oldest"
      "log_start_addr s + index < ef_area cfg + LOG_AREA_SIZE cfg \<longleftrightarrow> index < oldest"
      "ef_area cfg + LOG_AREA_SIZE cfg - (log_start_addr s + index) = oldest - index"
    using g(1) by linarith+
  moreover have "log_start_addr s + index - LOG_AREA_SIZE cfg = ef_area cfg + (index - oldest)"
    if "\<not> index < oldest"
    using g(1) that by linarith
  ultimately show ?thesis
    using n g(2,3) used_size_layout(1) [OF cfg lay] by (simp add: ef_log_read_def Let_def split: sum.split)
qed

text \<open>The second part of a read over the end of the area does not fit into the buffer.\<close>

lemma read_over_the_end:
  assumes "(oldest - index) mod 4 = 0" and "n mod 4 = 0" and "index < oldest" and "oldest < index + n"
    and "length log = n"
  shows "(case read_into chip addr 0 (oldest - index) h log of
      Inl e \<Rightarrow> Inl e
    | Inr log' \<Rightarrow> read_into chip area (4 * (oldest - index)) (n - (oldest - index)) h log') = Inl Memory_fault"
proof -
  have "(n - (oldest - index)) mod 4 = 0"
    using assms(1,2) by (simp add: mod_eq_0_iff_dvd dvd_diff_nat)
  moreover have "0 + (oldest - index) \<le> length log"
    using assms(4,5) by simp
  then obtain log' where log': "read_into chip addr 0 (oldest - index) h log = Inr log'" "length log' = n"
    using read_into_part assms(1,5) by metis
  ultimately show ?thesis
    using assms(3,4) by (simp add: log' read_into_outside)
qed

lemma read_wrapped:
  assumes cfg: "ef_cfg_ok cfg" and lay: "ef_layout cfg chip True k r s"
    and n: "n mod 4 = 0" "0 < n" "index mod 4 = 0" "index + n \<le> length (ef_log_contents cfg chip s)"
      "length log = n"
  defines "oldest \<equiv> ef_area cfg + LOG_AREA_SIZE cfg - log_start_addr s"
  shows "ef_log_read cfg chip index log n s =
    (if index < oldest \<and> oldest < index + n then Inl Memory_fault
     else Inr (take n (drop index (ef_log_contents cfg chip s))))"
proof -
  note g = wrapped_geometry [OF cfg lay, folded oldest_def]
    and turn = read_wrapped_turn [OF cfg lay n(1,2,4), folded oldest_def]
  consider (front) "index + n \<le> oldest" | (crossing) "index < oldest" "oldest < index + n" | (behind) "oldest \<le> index"
    by linarith
  then show ?thesis
  proof cases
    case front
    then have "take n (drop index (ef_log_contents cfg chip s)) =
        flash_slice chip (ef_flash s) (log_start_addr s + index) (log_start_addr s + index + n)"
      by (simp add: g(5) take_drop_slice)
    with front n show ?thesis
      by (simp add: turn read_into_whole)
  next
    case crossing
    have "(oldest - index) mod 4 = 0"
      using g(4) n(3) by (simp add: mod_eq_0_iff_dvd dvd_diff_nat)
    from read_over_the_end [OF this n(1) crossing n(5)] crossing show ?thesis
      by (simp add: turn)
  next
    case behind
    then have "take n (drop index (ef_log_contents cfg chip s)) =
        flash_slice chip (ef_flash s) (ef_area cfg + (index - oldest)) (ef_area cfg + (index - oldest) + n)"
      using n(4) by (simp add: g(5) take_drop_slice)
    with behind n show ?thesis
      by (simp add: turn read_into_whole)
  qed
qed

end
