(* ===== verification/Easyflash_Scan.thy ===== *)
theory Easyflash_Scan
  imports Easyflash_Log
begin

text \<open>
  What \<open>ef_log_init\<close> finds after a reset: the status that \<open>ef_get_sector_status\<close> gives the sectors
  of a well-formed log, the turns of the scan in \<open>find_start_and_end_addr\<close>, and the addresses it
  arrives at.
\<close>

section \<open>Finding the log again after a reset\<close>

lemma foldl_count_ff:
  "foldl count_ff n (replicate m (CHR 0xFF)) = n + m"
  by (induction m arbitrary: n) (simp_all add: count_ff_def)

lemma foldl_count_ff_last:
  assumes "xs \<noteq> []" and "last xs \<noteq> CHR 0xFF"
  shows "foldl count_ff n (xs @ replicate m (CHR 0xFF)) = m"
proof -
  have "foldl count_ff n xs = 0"
    using assms by (cases xs rule: rev_cases) (simp_all add: count_ff_def)
  then show ?thesis
    by (simp add: foldl_count_ff)
qed

lemma count_trailing_ff_result:
  "(limit - start) mod 4 = 0 \<Longrightarrow>
   count_trailing_ff chip limit start n h = Inr (foldl count_ff n (flash_slice chip h start limit))"
proof (induction chip limit start n h rule: count_trailing_ff.induct)
  case (1 chip limit start n h)
  show ?case
  proof (cases "start < limit")
    case True
    define m where "m = (if start + 32 < limit then 32 else limit - start)"
    have m: "m mod 4 = 0" "start + m \<le> limit"
      using True 1(2) by (auto simp: m_def)
    then have m3: "(limit - (start + m)) mod 4 = 0"
      using 1(2) by (simp add: mod_eq_0_iff_dvd dvd_diff_nat flip: diff_diff_left)
    from m(1)
    have "ef_port_read chip start m h = Inr (flash_slice chip h start (start + m))"
      by (simp add: ef_port_read_def flash_slice_def)
    moreover from this have "count_trailing_ff chip limit (start + m)
          (foldl count_ff n (flash_slice chip h start (start + m))) h =
        Inr (foldl count_ff (foldl count_ff n (flash_slice chip h start (start + m)))
          (flash_slice chip h (start + m) limit))"
      using 1(1) [OF True m_def _ m3] by blast
    moreover have "flash_slice chip h start limit =
        flash_slice chip h start (start + m) @ flash_slice chip h (start + m) limit"
      using m(2) by (intro flash_slice_append) simp_all
    ultimately show ?thesis
      using True by (subst count_trailing_ff.simps) (simp add: m_def [symmetric] Let_def)
  qed (simp add: count_trailing_ff.simps)
qed

text \<open>
  The end that the scan finds in a sector of which \<open>r\<close> bytes are used, the last of them not
  \<open>0xFF\<close>, and the status it gives the sector.
\<close>

lemma find_end_of_sector:
  assumes cfg: "ef_cfg_ok cfg" and k: "k < ef_sectors cfg"
  defines "addr \<equiv> ef_area cfg + k * EF_ERASE_MIN_SIZE cfg"
  assumes r: "r \<le> EF_ERASE_MIN_SIZE cfg" "r mod 4 = 0"
    and free: "erased chip h (addr + r) (addr + EF_ERASE_MIN_SIZE cfg)"
    and used: "0 < r \<Longrightarrow> flash_byte chip h (addr + r - 1) \<noteq> CHR 0xFF"
  shows "ef_find_sec_using_end_addr chip addr (EF_ERASE_MIN_SIZE cfg) h = Inr (addr + r - 4)"
    and "ef_get_sector_status chip addr (EF_ERASE_MIN_SIZE cfg) h =
      Inr (if r = 0 then EF_SECTOR_EMPTY else if r = EF_ERASE_MIN_SIZE cfg then EF_SECTOR_FULL
        else EF_SECTOR_USING)"
proof -
  let ?sec = "EF_ERASE_MIN_SIZE cfg"
  note area = ef_cfg_area [OF cfg]
  have sec: "?sec mod 4 = 0"
    using cfg by (simp add: ef_cfg_ok_def)
  have addr: "4 \<le> addr" "addr + ?sec < 2 ^ 30"
    using area(3,5) sector_end [OF k, of ?sec] by (simp_all add: addr_def)
  have "flash_slice chip h addr (addr + ?sec) =
      flash_slice chip h addr (addr + r) @ replicate (?sec - r) (CHR 0xFF)"
    using flash_slice_append [of addr "addr + r" "addr + ?sec" chip h] erased_slice [OF free] r(1) by simp
  moreover have "flash_slice chip h addr (addr + r) \<noteq> []" "last (flash_slice chip h addr (addr + r)) \<noteq> CHR 0xFF"
    if "0 < r"
    using that used by (simp_all add: flash_slice_def last_map)
  ultimately have count: "count_trailing_ff chip (addr + ?sec) addr 0 h = Inr (?sec - r)"
    using sec foldl_count_ff_last [of "flash_slice chip h addr (addr + r)" 0 "?sec - r"] foldl_count_ff [of 0 ?sec]
    by (cases "r = 0") (simp_all add: count_trailing_ff_result)
  show find: "ef_find_sec_using_end_addr chip addr ?sec h = Inr (addr + r - 4)"
  proof -
    consider "r = 0" | "0 < r" "r = ?sec" | "0 < r" "4 \<le> ?sec - r"
      using r sec by (metis dvd_diff_nat dvd_imp_le mod_0_imp_dvd neq0_conv zero_less_diff le_neq_implies_less)
    then show ?thesis
    proof cases
      case 3
      then have "addr + ?sec - (?sec - r) = addr + r"
        using r(1) by simp
      moreover have "(addr + r) * 4 mod 2 ^ 32 = (addr + r) * 4" "addr + r < 2 ^ 32"
        using addr(2) r(1) by simp_all
      ultimately show ?thesis
        using 3 addr(1) by (simp add: ef_find_sec_using_end_addr_def count)
    qed (use addr area(2) in \<open>simp_all add: ef_find_sec_using_end_addr_def count\<close>)
  qed
  have "4 \<le> r" if "r \<noteq> 0"
    using that r(2) by (auto simp: mod_eq_0_iff_dvd dest: dvd_imp_le)
  then show "ef_get_sector_status chip addr ?sec h =
      Inr (if r = 0 then EF_SECTOR_EMPTY else if r = ?sec then EF_SECTOR_FULL else EF_SECTOR_USING)"
    using addr area(2) r(1) by (auto simp: ef_get_sector_status_def find)
qed

text \<open>How much of each sector a log uses.\<close>

definition sector_fill :: "ef_cfg \<Rightarrow> bool \<Rightarrow> nat \<Rightarrow> nat \<Rightarrow> nat \<Rightarrow> nat" where
  "sector_fill cfg wrapped k r i =
     (if i = k then r else if wrapped \<or> i < k then EF_ERASE_MIN_SIZE cfg else 0)"

definition fill_status :: "ef_cfg \<Rightarrow> nat \<Rightarrow> ef_sector_status" where
  "fill_status cfg n =
     (if n = 0 then EF_SECTOR_EMPTY else if n = EF_ERASE_MIN_SIZE cfg then EF_SECTOR_FULL
      else EF_SECTOR_USING)"

lemma last_used_byte:
  assumes cfg: "ef_cfg_ok cfg" and lay: "ef_layout cfg chip wrapped k r s" and i: "i < ef_sectors cfg"
    and used: "0 < sector_fill cfg wrapped k r i"
  shows "flash_byte chip (ef_flash s)
    (ef_area cfg + i * EF_ERASE_MIN_SIZE cfg + sector_fill cfg wrapped k r i - 1) \<in> set (ef_log_contents cfg chip s)"
proof -
  let ?a = "ef_area cfg" and ?sec = "EF_ERASE_MIN_SIZE cfg" and ?fill = "sector_fill cfg wrapped k r i"
  let ?addr = "?a + i * ?sec"
  let ?x = "?addr + ?fill - 1"
  have "?fill \<le> ?sec"
    using lay by (simp add: sector_fill_def ef_layout_def Let_def)
  then have x: "?a \<le> ?x" "?addr \<le> ?x" "?x < ?addr + ?sec"
    using used by simp_all
  have "?a \<le> ?x \<and> ?x < ?a + k * ?sec + r \<or>
      wrapped \<and> ?a + (k + 1) * ?sec \<le> ?x \<and> ?x < ?a + LOG_AREA_SIZE cfg"
  proof (cases i k rule: linorder_cases)
    case less
    with sector_end [OF less, of ?sec] x show ?thesis
      by linarith
  next
    case equal
    with used x(1) show ?thesis
      by (simp add: sector_fill_def)
  next
    case greater
    with used have wrapped
      by (simp add: sector_fill_def split: if_splits)
    moreover have "(k + 1) * ?sec = k * ?sec + ?sec"
      by simp
    ultimately show ?thesis
      using sector_end [OF greater, of ?sec] sector_le_area [OF cfg i] x(2,3) by linarith
  qed
  then show ?thesis
    by (auto simp: layout_contents(1) [OF cfg lay] flash_slice_def)
qed

lemma layout_sectors:
  assumes cfg: "ef_cfg_ok cfg" and lay: "ef_layout cfg chip wrapped k r s"
    and plain: "CHR 0xFF \<notin> set (ef_log_contents cfg chip s)" and i: "i < ef_sectors cfg"
  defines "addr \<equiv> ef_area cfg + i * EF_ERASE_MIN_SIZE cfg"
  shows "ef_find_sec_using_end_addr chip addr (EF_ERASE_MIN_SIZE cfg) (ef_flash s) =
      Inr (addr + sector_fill cfg wrapped k r i - 4)"
    and "ef_get_sector_status chip addr (EF_ERASE_MIN_SIZE cfg) (ef_flash s) =
      Inr (fill_status cfg (sector_fill cfg wrapped k r i))"
proof -
  let ?a = "ef_area cfg" and ?sec = "EF_ERASE_MIN_SIZE cfg" and ?fill = "sector_fill cfg wrapped k r i"
  have r: "0 < r" "r \<le> ?sec" "r mod 4 = 0"
    and free: "erased chip (ef_flash s) (?a + k * ?sec + r)
      (if wrapped then ?a + (k + 1) * ?sec else ?a + LOG_AREA_SIZE cfg)"
    using lay by (auto simp: ef_layout_def Let_def split: if_splits)
  have fill: "?fill \<le> ?sec" "?fill mod 4 = 0"
    using r cfg by (simp_all add: sector_fill_def ef_cfg_ok_def)
  have "k * ?sec + ?sec \<le> i * ?sec" if "k < i"
    using sector_end [OF that] .
  then have "erased chip (ef_flash s) (addr + ?fill) (addr + ?sec)"
    using free sector_le_area [OF cfg i] r(2) unfolding sector_fill_def addr_def erased_def
    by (cases "k < i"; cases wrapped) (auto simp: not_less)
  moreover have "flash_byte chip (ef_flash s) (addr + ?fill - 1) \<noteq> CHR 0xFF" if "0 < ?fill"
    using last_used_byte [OF cfg lay i that] plain unfolding addr_def by metis
  ultimately show "ef_find_sec_using_end_addr chip addr ?sec (ef_flash s) = Inr (addr + ?fill - 4)"
    and "ef_get_sector_status chip addr ?sec (ef_flash s) = Inr (fill_status cfg ?fill)"
    using find_end_of_sector [OF cfg i fill, of chip "ef_flash s"] unfolding addr_def fill_status_def by auto
qed

text \<open>The scan, from what each of its turns does.\<close>

definition scan_start :: sec_scan where
  "scan_start = \<lparr>empty_sec_counts = 0, using_sec_counts = 0, full_sector_counts = 0,
     cur_log_sec_state = 0, cur_using_sec_addr = 0\<rparr>"

lemma scan_sectors_turns:
  assumes status: "\<And>i. i < n \<Longrightarrow>
      ef_get_sector_status chip (area + i * EF_ERASE_MIN_SIZE cfg) (EF_ERASE_MIN_SIZE cfg) h = Inr (sts i)"
    and kept: "\<And>i. log_area_start_addr (snd (p i)) = area \<and> ef_flash (snd (p i)) = h"
    and turn: "\<And>i. 0 < i \<Longrightarrow> i < n \<Longrightarrow>
      scan_sector cfg (i * EF_ERASE_MIN_SIZE cfg) (sts (i - 1)) (sts i) (p i) = Some (p (i + 1))"
  shows "0 < i \<Longrightarrow> i \<le> n \<Longrightarrow>
    scan_sectors cfg chip (map (\<lambda>i. i * EF_ERASE_MIN_SIZE cfg) [i..<n]) (sts (i - 1)) (p i) =
      Inr (Some (sts (n - 1), p n))"
proof (induction "n - i" arbitrary: i)
  case 0
  then show ?case
    by simp
next
  case (Suc m)
  have i: "i < n" "m = n - (i + 1)" "0 < i + 1" "i + 1 \<le> n"
    using Suc by simp_all
  from Suc.hyps(1) [OF i(2-4)] show ?case
    using i(1) Suc.prems(1) status [OF i(1)] kept [of i] turn [of i] by (simp add: upt_conv_Cons)
qed

lemma find_start_and_end_scanned:
  assumes "log_area_start_addr s = area" and "0 < ef_sectors cfg" and "p 1 = (scan_start, s)"
    and status: "\<And>i. i < ef_sectors cfg \<Longrightarrow>
      ef_get_sector_status chip (area + i * EF_ERASE_MIN_SIZE cfg) (EF_ERASE_MIN_SIZE cfg) (ef_flash s) =
      Inr (sts i)"
    and kept: "\<And>i. log_area_start_addr (snd (p i)) = area \<and> ef_flash (snd (p i)) = ef_flash s"
    and turn: "\<And>i. 0 < i \<Longrightarrow> i < ef_sectors cfg \<Longrightarrow>
      scan_sector cfg (i * EF_ERASE_MIN_SIZE cfg) (sts (i - 1)) (sts i) (p i) = Some (p (i + 1))"
  defines "c \<equiv> count_last_sector (sts (ef_sectors cfg - 1)) (fst (p (ef_sectors cfg)))"
  defines "s' \<equiv> snd (p (ef_sectors cfg))"
  shows "find_start_and_end_addr cfg chip s =
    (if using_sec_counts c > 1 then clean_after_scan cfg chip s'
     else if empty_sec_counts c = ef_sectors cfg
     then Inr ((), s'\<lparr>log_start_addr := area, log_end_addr := area\<rparr>)
     else if full_sector_counts c = ef_sectors cfg then clean_after_scan cfg chip s'
     else if cur_log_sec_state c = 1 \<and> cur_using_sec_addr c \<noteq> 0 \<or> cur_log_sec_state c = 2
     then (case ef_find_sec_using_end_addr chip (cur_using_sec_addr c) (EF_ERASE_MIN_SIZE cfg) (ef_flash s) of
             Inl e \<Rightarrow> Inl e
           | Inr end_addr \<Rightarrow> Inr ((), s'\<lparr>log_end_addr := end_addr\<rparr>))
     else Inr ((), s'))"
proof -
  have "scan_sectors cfg chip (map (\<lambda>i. i * EF_ERASE_MIN_SIZE cfg) [1..<ef_sectors cfg]) (sts 0)
      (scan_start, s) = Inr (Some (sts (ef_sectors cfg - 1), p (ef_sectors cfg)))"
    using scan_sectors_turns [OF status kept turn, where i = 1] assms(2,3) by simp
  moreover have "ef_get_sector_status chip area (EF_ERASE_MIN_SIZE cfg) (ef_flash s) = Inr (sts 0)"
    using status [of 0] assms(2) by simp
  ultimately show ?thesis
    using kept [of "ef_sectors cfg"] unfolding find_start_and_end_addr_def assms(1) c_def s'_def
    by (cases "p (ef_sectors cfg)")
      (simp add: scan_start_def [symmetric] Let_def split: sum.split)
qed

text \<open>
  What the scan finds for a log of one lap that ends before the last sector, and for a log of
  several laps that ends inside a sector.
\<close>

definition linear_scan :: "ef_cfg \<Rightarrow> nat \<Rightarrow> nat \<Rightarrow> 'h ef_state \<Rightarrow> nat \<Rightarrow> sec_scan \<times> 'h ef_state" where
  "linear_scan cfg k r s i =
     (let sec = EF_ERASE_MIN_SIZE cfg; area = log_area_start_addr s; found = k + 1 < i; full = r = sec in
      (\<lparr>empty_sec_counts = i - 1 - (k + 1), using_sec_counts = (if found \<and> \<not> full then 1 else 0),
        full_sector_counts = (if full then min (i - 1) (k + 1) else min (i - 1) k),
        cur_log_sec_state = (if found then 1 else 0),
        cur_using_sec_addr = (if found then area + (k + 1) * sec - sec else 0)\<rparr>,
       if \<not> found then s
       else if full then s\<lparr>log_start_addr := area, log_end_addr := u32_sub (area + (k + 1) * sec) 4\<rparr>
       else s\<lparr>log_start_addr := area\<rparr>))"

definition wrapped_scan :: "ef_cfg \<Rightarrow> nat \<Rightarrow> 'h ef_state \<Rightarrow> nat \<Rightarrow> sec_scan \<times> 'h ef_state" where
  "wrapped_scan cfg k s i =
     (let sec = EF_ERASE_MIN_SIZE cfg; area = log_area_start_addr s; found = k + 1 < i in
      (\<lparr>empty_sec_counts = 0, using_sec_counts = (if found then 1 else 0),
        full_sector_counts = min (i - 1) k + (i - 1 - (k + 1)),
        cur_log_sec_state = (if found then 2 else 0),
        cur_using_sec_addr = (if found then area + (k + 1) * sec - sec else 0)\<rparr>,
       if found then s\<lparr>log_start_addr := area + (k + 1) * sec\<rparr> else s))"

lemma inner_sector:
  assumes "k + 1 < ef_sectors cfg" and "0 < EF_ERASE_MIN_SIZE cfg"
    and "LOG_AREA_SIZE cfg = ef_sectors cfg * EF_ERASE_MIN_SIZE cfg"
  shows "k * EF_ERASE_MIN_SIZE cfg + EF_ERASE_MIN_SIZE cfg < LOG_AREA_SIZE cfg"
proof -
  have "(k + 1) * EF_ERASE_MIN_SIZE cfg + EF_ERASE_MIN_SIZE cfg \<le> LOG_AREA_SIZE cfg"
    using sector_end [OF assms(1), of "EF_ERASE_MIN_SIZE cfg"] by (simp only: assms(3) [symmetric])
  with assms(2) show ?thesis
    by simp
qed

lemma linear_scan_turn:
  assumes "0 < i" and "i < ef_sectors cfg" and "k + 1 < ef_sectors cfg" and "0 < r" and "r \<le> EF_ERASE_MIN_SIZE cfg"
    and "LOG_AREA_SIZE cfg = ef_sectors cfg * EF_ERASE_MIN_SIZE cfg"
  shows "scan_sector cfg (i * EF_ERASE_MIN_SIZE cfg) (fill_status cfg (sector_fill cfg False k r (i - 1)))
      (fill_status cfg (sector_fill cfg False k r i)) (linear_scan cfg k r s i) =
    Some (linear_scan cfg k r s (i + 1))"
proof -
  let ?sec = "EF_ERASE_MIN_SIZE cfg"
  obtain j where j: "i = Suc j"
    using assms(1) gr0_implies_Suc by blast
  have sec: "0 < ?sec"
    using assms(4,5) by simp
  note inner = inner_sector [OF assms(3) _ assms(6)]
  consider "i < k" | "i = k" | "i = k + 1" | "k + 1 < i"
    by linarith
  then show ?thesis
  proof cases
    case 1
    then show ?thesis
      using sec by (simp add: j scan_sector_def linear_scan_def fill_status_def sector_fill_def Let_def)
  next
    case 2
    then show ?thesis
      using sec inner [OF sec] assms(1,3,4)
      by (cases "r = ?sec") (simp_all add: j scan_sector_def linear_scan_def fill_status_def sector_fill_def Let_def)
  next
    case 3
    then show ?thesis
      using sec assms(4)
      by (cases "r = ?sec") (simp_all add: j scan_sector_def linear_scan_def fill_status_def sector_fill_def Let_def)
  next
    case 4
    then have "j - k = Suc (j - Suc k)"
      using j by simp
    with 4 show ?thesis
      using sec assms(4)
      by (cases "r = ?sec") (simp_all add: j scan_sector_def linear_scan_def fill_status_def sector_fill_def Let_def)
  qed
qed

lemma wrapped_scan_turn:
  assumes "0 < i" and "i < ef_sectors cfg" and "k + 1 < ef_sectors cfg" and "0 < r" and "r < EF_ERASE_MIN_SIZE cfg"
    and "LOG_AREA_SIZE cfg = ef_sectors cfg * EF_ERASE_MIN_SIZE cfg"
  shows "scan_sector cfg (i * EF_ERASE_MIN_SIZE cfg) (fill_status cfg (sector_fill cfg True k r (i - 1)))
      (fill_status cfg (sector_fill cfg True k r i)) (wrapped_scan cfg k s i) =
    Some (wrapped_scan cfg k s (i + 1))"
proof -
  let ?sec = "EF_ERASE_MIN_SIZE cfg"
  obtain j where j: "i = Suc j"
    using assms(1) gr0_implies_Suc by blast
  note inner = inner_sector [OF assms(3) _ assms(6)]
  consider "i < k" | "i = k" | "i = k + 1" | "k + 1 < i"
    by linarith
  then show ?thesis
  proof cases
    case 2
    with inner assms(1,3-5) show ?thesis
      by (simp add: j scan_sector_def wrapped_scan_def fill_status_def sector_fill_def Let_def)
  next
    case 4
    then have "j - k = Suc (j - Suc k)"
      using j by simp
    with 4 assms(4,5) show ?thesis
      by (simp add: j scan_sector_def wrapped_scan_def fill_status_def sector_fill_def Let_def)
  qed (use assms(4,5) in \<open>simp_all add: j scan_sector_def wrapped_scan_def fill_status_def sector_fill_def Let_def\<close>)
qed

lemma ef_log_clean_ok:
  assumes cfg: "ef_cfg_ok cfg" and chip: "flash_chip_ok cfg chip unlocked"
    and "log_area_start_addr s = ef_area cfg"
  obtains h' where "ef_log_clean cfg chip s =
      Inr (EF_NO_ERR, s\<lparr>log_start_addr := ef_area cfg, log_end_addr := ef_area cfg, ef_flash := h'\<rparr>)"
    and "erased chip h' (ef_area cfg) (ef_area cfg + LOG_AREA_SIZE cfg)"
proof -
  have a: "ef_area cfg mod EF_ERASE_MIN_SIZE cfg = 0" "0 < EF_ERASE_MIN_SIZE cfg"
      "LOG_AREA_SIZE cfg mod EF_ERASE_MIN_SIZE cfg = 0" "ef_area cfg \<noteq> 0"
    using cfg by (simp_all add: ef_cfg_ok_def)
  obtain h' where "ef_port_erase cfg chip (ef_area cfg) (LOG_AREA_SIZE cfg) (ef_flash s) = Inr (EF_NO_ERR, h')"
      "bytes_erased chip (ef_flash s) (ef_area cfg) (ef_area cfg + LOG_AREA_SIZE cfg) h'"
    using ef_port_erase_ok [OF chip a(1-3)] .
  with assms(3) a(4) that show thesis
    by (simp add: ef_log_clean_def erased_def bytes_erased_def)
qed

lemma statics_eq:
  "log_area_start_addr s = area \<Longrightarrow> ef_init_ok s \<Longrightarrow>
   (ef_statics (ef_flash s))\<lparr>log_start_addr := log_start_addr s, log_end_addr := log_end_addr s,
     log_area_start_addr := area, ef_init_ok := True\<rparr> = s"
  by (cases s) (simp add: ef_statics_def)

lemma ef_log_init_finds:
  assumes cfg: "ef_cfg_ok cfg" and s: "log_area_start_addr s = ef_area cfg" "ef_init_ok s"
    and "find_start_and_end_addr cfg chip ((ef_statics (ef_flash s))\<lparr>log_area_start_addr := ef_area cfg\<rparr>) =
      Inr ((), (ef_statics (ef_flash s))\<lparr>log_area_start_addr := ef_area cfg,
        log_start_addr := start, log_end_addr := e\<rparr>)"
  shows "ef_log_init cfg chip (ef_statics (ef_flash s)) =
    Inr (EF_NO_ERR, s\<lparr>log_start_addr := start, log_end_addr := e\<rparr>)"
proof -
  have "LOG_AREA_SIZE cfg \<noteq> 0"
    using cfg by (auto simp: ef_cfg_ok_def)
  with assms show ?thesis
    by (cases s) (simp add: ef_log_init_def ef_cfg_ok_def ef_statics_def)
qed

lemma ef_log_init_cleans:
  assumes cfg: "ef_cfg_ok cfg" and chip: "flash_chip_ok cfg chip unlocked"
    and find: "find_start_and_end_addr cfg chip ((ef_statics h)\<lparr>log_area_start_addr := ef_area cfg\<rparr>) =
      clean_after_scan cfg chip ((ef_statics h)\<lparr>log_area_start_addr := ef_area cfg\<rparr>)"
  shows "\<exists>s'. ef_log_init cfg chip (ef_statics h) = Inr (EF_NO_ERR, s') \<and> ef_log_empty cfg chip s'"
proof -
  have "LOG_AREA_SIZE cfg \<noteq> 0"
    using cfg by (auto simp: ef_cfg_ok_def)
  moreover obtain h' where "ef_log_clean cfg chip ((ef_statics h)\<lparr>log_area_start_addr := ef_area cfg\<rparr>) =
      Inr (EF_NO_ERR, (ef_statics h)\<lparr>log_area_start_addr := ef_area cfg, log_start_addr := ef_area cfg,
        log_end_addr := ef_area cfg, ef_flash := h'\<rparr>)"
      "erased chip h' (ef_area cfg) (ef_area cfg + LOG_AREA_SIZE cfg)"
    using ef_log_clean_ok [OF cfg chip, of "(ef_statics h)\<lparr>log_area_start_addr := ef_area cfg\<rparr>"] by auto
  ultimately show ?thesis
    using cfg by (simp add: ef_log_init_def find clean_after_scan_def ef_cfg_ok_def ef_log_empty_def)
qed

lemma find_empty:
  assumes cfg: "ef_cfg_ok cfg" and empty: "ef_log_empty cfg chip s"
  shows "ef_log_init cfg chip (ef_statics (ef_flash s)) = Inr (EF_NO_ERR, s)"
proof -
  let ?s = "(ef_statics (ef_flash s))\<lparr>log_area_start_addr := ef_area cfg\<rparr>" and ?n = "ef_sectors cfg"
  let ?p = "\<lambda>i. (scan_start\<lparr>empty_sec_counts := i - 1\<rparr>, ?s)"
  have n: "0 < ?n" "2 \<le> ?n"
    using cfg by (simp_all add: ef_cfg_ok_def)
  have blank: "erased chip (ef_flash s) (ef_area cfg + i * EF_ERASE_MIN_SIZE cfg)
      (ef_area cfg + i * EF_ERASE_MIN_SIZE cfg + EF_ERASE_MIN_SIZE cfg)" if "i < ?n" for i
    using empty sector_end [OF that, of "EF_ERASE_MIN_SIZE cfg", unfolded ef_cfg_area(1) [OF cfg, symmetric]]
    by (simp add: ef_log_empty_def erased_def)
  have status: "ef_get_sector_status chip (ef_area cfg + i * EF_ERASE_MIN_SIZE cfg) (EF_ERASE_MIN_SIZE cfg)
      (ef_flash ?s) = Inr EF_SECTOR_EMPTY" if "i < ?n" for i
    using find_end_of_sector(2) [OF cfg that, of 0 chip "ef_flash s"] blank [OF that]
    by (simp add: ef_statics_def)
  have "find_start_and_end_addr cfg chip ?s =
      Inr ((), ?s\<lparr>log_start_addr := ef_area cfg, log_end_addr := ef_area cfg\<rparr>)"
    using n by (subst find_start_and_end_scanned [where p = ?p, OF _ n(1) _ status])
      (auto simp: scan_start_def scan_sector_def count_last_sector_def Let_def)
  from ef_log_init_finds [OF cfg _ _ this] empty show ?thesis
    by (cases s) (simp add: ef_log_empty_def)
qed

lemma layout_status:
  assumes "ef_cfg_ok cfg" and "ef_layout cfg chip wrapped k r s"
    and "CHR 0xFF \<notin> set (ef_log_contents cfg chip s)"
  defines "s0 \<equiv> (ef_statics (ef_flash s))\<lparr>log_area_start_addr := ef_area cfg\<rparr>"
  shows "i < ef_sectors cfg \<Longrightarrow>
      ef_get_sector_status chip (ef_area cfg + i * EF_ERASE_MIN_SIZE cfg) (EF_ERASE_MIN_SIZE cfg) (ef_flash s0) =
      Inr (fill_status cfg (sector_fill cfg wrapped k r i))"
    and "i < ef_sectors cfg \<Longrightarrow>
      ef_find_sec_using_end_addr chip (ef_area cfg + i * EF_ERASE_MIN_SIZE cfg) (EF_ERASE_MIN_SIZE cfg) (ef_flash s0) =
      Inr (ef_area cfg + i * EF_ERASE_MIN_SIZE cfg + sector_fill cfg wrapped k r i - 4)"
    and "log_area_start_addr s0 = ef_area cfg" and "0 < ef_sectors cfg"
  using layout_sectors [OF assms(1-3)] assms(1) by (simp_all add: s0_def ef_statics_def ef_cfg_ok_def)

lemma find_linear:
  assumes cfg: "ef_cfg_ok cfg" and lay: "ef_layout cfg chip False k r s"
    and plain: "CHR 0xFF \<notin> set (ef_log_contents cfg chip s)" and k: "k + 1 < ef_sectors cfg"
  shows "ef_log_init cfg chip (ef_statics (ef_flash s)) = Inr (EF_NO_ERR, s)"
proof -
  let ?sec = "EF_ERASE_MIN_SIZE cfg" and ?n = "ef_sectors cfg"
  let ?s = "(ef_statics (ef_flash s))\<lparr>log_area_start_addr := ef_area cfg\<rparr>"
  note st = layout_status [OF cfg lay plain]
  have r: "0 < r" "r \<le> ?sec"
    using lay by (simp_all add: ef_layout_def Let_def)
  have s: "log_start_addr s = ef_area cfg" "log_end_addr s = ef_area cfg + k * ?sec + r - 4"
      "log_area_start_addr s = ef_area cfg" "ef_init_ok s"
    using lay by (simp_all add: ef_layout_def Let_def)
  have last: "fill_status cfg (sector_fill cfg False k r (?n - 1)) = EF_SECTOR_EMPTY"
    using k by (auto simp: sector_fill_def fill_status_def)
  have p1: "linear_scan cfg k r ?s 1 = (scan_start, ?s)"
    by (simp add: linear_scan_def scan_start_def Let_def)
  have kept: "log_area_start_addr (snd (linear_scan cfg k r ?s i)) = ef_area cfg \<and>
      ef_flash (snd (linear_scan cfg k r ?s i)) = ef_flash ?s" for i
    by (simp add: linear_scan_def Let_def)
  let ?c = "count_last_sector EF_SECTOR_EMPTY (fst (linear_scan cfg k r ?s ?n))"
  have counts: "using_sec_counts ?c \<le> 1" "empty_sec_counts ?c = ?n - (k + 1)"
      "full_sector_counts ?c \<le> k + 1" "cur_log_sec_state ?c = 1"
    using k by (simp_all add: linear_scan_def count_last_sector_def Let_def)
  have using_addr: "cur_using_sec_addr ?c = ef_area cfg + k * ?sec"
    using k by (simp add: linear_scan_def count_last_sector_def Let_def)
  have nonzero: "ef_area cfg + k * ?sec \<noteq> 0"
    using ef_cfg_area(3) [OF cfg] by linarith
  have final: "(snd (linear_scan cfg k r ?s ?n))\<lparr>log_end_addr := e\<rparr> =
      ?s\<lparr>log_start_addr := ef_area cfg, log_end_addr := e\<rparr>" for e
    using k by (simp add: linear_scan_def Let_def)
  have found: "ef_find_sec_using_end_addr chip (ef_area cfg + k * ?sec) ?sec (ef_flash ?s) = Inr (log_end_addr s)"
    using st(2) [of k] k by (simp add: sector_fill_def s(2))
  have "find_start_and_end_addr cfg chip ?s =
      Inr ((), ?s\<lparr>log_start_addr := ef_area cfg, log_end_addr := log_end_addr s\<rparr>)"
    using find_start_and_end_scanned [where p = "linear_scan cfg k r ?s", OF st(3,4) p1 st(1) kept
        linear_scan_turn [OF _ _ k r ef_cfg_area(1) [OF cfg]]] counts nonzero k
    by (simp only: last found using_addr final) simp
  from ef_log_init_finds [OF cfg s(3,4) this] show ?thesis
    by (simp flip: s(1))
qed

lemma find_wrapped:
  assumes cfg: "ef_cfg_ok cfg" and lay: "ef_layout cfg chip True k r s"
    and plain: "CHR 0xFF \<notin> set (ef_log_contents cfg chip s)" and r: "r < EF_ERASE_MIN_SIZE cfg"
  shows "ef_log_init cfg chip (ef_statics (ef_flash s)) = Inr (EF_NO_ERR, s)"
proof -
  let ?sec = "EF_ERASE_MIN_SIZE cfg" and ?n = "ef_sectors cfg"
  let ?s = "(ef_statics (ef_flash s))\<lparr>log_area_start_addr := ef_area cfg\<rparr>"
  note st = layout_status [OF cfg lay plain]
  have "0 < r" and k: "k + 1 < ?n"
    using lay by (simp_all add: ef_layout_def Let_def)
  have s: "log_start_addr s = ef_area cfg + (k + 1) * ?sec" "log_end_addr s = ef_area cfg + k * ?sec + r - 4"
      "log_area_start_addr s = ef_area cfg" "ef_init_ok s"
    using lay by (simp_all add: ef_layout_def Let_def)
  have last: "fill_status cfg (sector_fill cfg True k r (?n - 1)) = EF_SECTOR_FULL"
    using k r by (auto simp: sector_fill_def fill_status_def)
  have p1: "wrapped_scan cfg k ?s 1 = (scan_start, ?s)"
    by (simp add: wrapped_scan_def scan_start_def Let_def)
  have kept: "log_area_start_addr (snd (wrapped_scan cfg k ?s i)) = ef_area cfg \<and>
      ef_flash (snd (wrapped_scan cfg k ?s i)) = ef_flash ?s" for i
    by (simp add: wrapped_scan_def Let_def)
  let ?c = "count_last_sector EF_SECTOR_FULL (fst (wrapped_scan cfg k ?s ?n))"
  have counts: "using_sec_counts ?c \<le> 1" "empty_sec_counts ?c \<noteq> ?n"
      "full_sector_counts ?c \<noteq> ?n" "cur_log_sec_state ?c = 2"
    using k by (simp_all add: wrapped_scan_def count_last_sector_def Let_def)
  have using_addr: "cur_using_sec_addr ?c = ef_area cfg + k * ?sec"
    using k by (simp add: wrapped_scan_def count_last_sector_def Let_def)
  have final: "(snd (wrapped_scan cfg k ?s ?n))\<lparr>log_end_addr := e\<rparr> =
      ?s\<lparr>log_start_addr := log_start_addr s, log_end_addr := e\<rparr>" for e
    using k by (simp add: wrapped_scan_def Let_def s(1))
  have found: "ef_find_sec_using_end_addr chip (ef_area cfg + k * ?sec) ?sec (ef_flash ?s) = Inr (log_end_addr s)"
    using st(2) [of k] k by (simp add: sector_fill_def s(2))
  have "find_start_and_end_addr cfg chip ?s =
      Inr ((), ?s\<lparr>log_start_addr := log_start_addr s, log_end_addr := log_end_addr s\<rparr>)"
    using find_start_and_end_scanned [where p = "wrapped_scan cfg k ?s", OF st(3,4) p1 st(1) kept
        wrapped_scan_turn [OF _ _ k \<open>0 < r\<close> r ef_cfg_area(1) [OF cfg]]] counts k
    by (simp only: last found using_addr final) simp
  from ef_log_init_finds [OF cfg s(3,4) this] show ?thesis
    by simp
qed

text \<open>A ring without a free word, and a log that ends in the last sector.\<close>

lemma find_full:
  assumes cfg: "ef_cfg_ok cfg" and chip: "flash_chip_ok cfg chip unlocked"
    and lay: "ef_layout cfg chip wrapped k (EF_ERASE_MIN_SIZE cfg) s"
    and plain: "CHR 0xFF \<notin> set (ef_log_contents cfg chip s)" and k: "wrapped \<or> k + 1 = ef_sectors cfg"
  shows "\<exists>s'. ef_log_init cfg chip (ef_statics (ef_flash s)) = Inr (EF_NO_ERR, s') \<and> ef_log_empty cfg chip s'"
proof -
  let ?n = "ef_sectors cfg"
  let ?s = "(ef_statics (ef_flash s))\<lparr>log_area_start_addr := ef_area cfg\<rparr>"
  let ?p = "\<lambda>i. (scan_start\<lparr>full_sector_counts := i - 1\<rparr>, ?s)"
  note st = layout_status [OF cfg lay plain]
  have full: "fill_status cfg (sector_fill cfg wrapped k (EF_ERASE_MIN_SIZE cfg) i) = EF_SECTOR_FULL"
    if "i < ?n" for i
    using that k cfg by (auto simp: sector_fill_def fill_status_def ef_cfg_ok_def)
  have "find_start_and_end_addr cfg chip ?s = clean_after_scan cfg chip ?s"
    using st(4) full
    by (subst find_start_and_end_scanned [where p = ?p, OF st(3,4) _ st(1)])
      (auto simp: scan_start_def scan_sector_def count_last_sector_def Let_def)
  then show ?thesis
    by (rule ef_log_init_cleans [OF cfg chip])
qed

definition last_scan :: "ef_cfg \<Rightarrow> nat \<Rightarrow> 'h ef_state \<Rightarrow> nat \<Rightarrow> sec_scan \<times> 'h ef_state" where
  "last_scan cfg k s i =
     (let sec = EF_ERASE_MIN_SIZE cfg; area = log_area_start_addr s in
      if i \<le> k then (scan_start\<lparr>full_sector_counts := i - 1\<rparr>, s)
      else if ef_sectors cfg \<le> 2
      then (scan_start\<lparr>full_sector_counts := k, cur_log_sec_state := 1,
          cur_using_sec_addr := area + k * sec\<rparr>, s\<lparr>log_start_addr := area\<rparr>)
      else (scan_start\<lparr>full_sector_counts := k, cur_log_sec_state := 2,
          cur_using_sec_addr := area + k * sec - sec\<rparr>, s\<lparr>log_start_addr := area + k * sec\<rparr>))"

lemma last_scan_turn:
  assumes "0 < i" and "i < ef_sectors cfg" and "k + 1 = ef_sectors cfg" and "0 < r" and "r < EF_ERASE_MIN_SIZE cfg"
    and "LOG_AREA_SIZE cfg = ef_sectors cfg * EF_ERASE_MIN_SIZE cfg"
  shows "scan_sector cfg (i * EF_ERASE_MIN_SIZE cfg) (fill_status cfg (sector_fill cfg False k r (i - 1)))
      (fill_status cfg (sector_fill cfg False k r i)) (last_scan cfg k s i) =
    Some (last_scan cfg k s (i + 1))"
proof -
  let ?sec = "EF_ERASE_MIN_SIZE cfg"
  obtain j where j: "i = Suc j"
    using assms(1) gr0_implies_Suc by blast
  have "(k + 1) * ?sec = LOG_AREA_SIZE cfg"
    by (simp only: assms(3) assms(6) [symmetric])
  moreover have "i < k \<or> i = k"
    using assms(2,3) by linarith
  ultimately show ?thesis
    using assms(3-5)
    by (elim disjE)
      (simp_all add: j scan_sector_def last_scan_def fill_status_def sector_fill_def scan_start_def Let_def)
qed

lemma find_last:
  assumes cfg: "ef_cfg_ok cfg" and lay: "ef_layout cfg chip False k r s"
    and plain: "CHR 0xFF \<notin> set (ef_log_contents cfg chip s)" and k: "k + 1 = ef_sectors cfg"
    and r: "r < EF_ERASE_MIN_SIZE cfg"
  defines "moved \<equiv> ef_area cfg + (ef_sectors cfg - 1) * EF_ERASE_MIN_SIZE cfg"
  shows "ef_log_init cfg chip (ef_statics (ef_flash s)) = Inr (EF_NO_ERR,
    if 2 < ef_sectors cfg then s\<lparr>log_start_addr := moved, log_end_addr := moved - 4\<rparr> else s)"
proof -
  let ?sec = "EF_ERASE_MIN_SIZE cfg" and ?n = "ef_sectors cfg"
  let ?s = "(ef_statics (ef_flash s))\<lparr>log_area_start_addr := ef_area cfg\<rparr>"
  note st = layout_status [OF cfg lay plain]
  have "0 < r"
    using lay by (simp add: ef_layout_def Let_def)
  have s: "log_start_addr s = ef_area cfg" "log_end_addr s = ef_area cfg + k * ?sec + r - 4"
      "log_area_start_addr s = ef_area cfg" "ef_init_ok s"
    using lay by (simp_all add: ef_layout_def Let_def)
  have moved: "moved = ef_area cfg + k * ?sec" "0 < k"
    using k cfg by (simp_all add: moved_def ef_cfg_ok_def flip: k)
  have last: "fill_status cfg (sector_fill cfg False k r (?n - 1)) = EF_SECTOR_USING"
    using k r \<open>0 < r\<close> by (simp add: sector_fill_def fill_status_def flip: k)
  have p1: "last_scan cfg k ?s 1 = (scan_start, ?s)"
    using moved(2) by (simp add: last_scan_def scan_start_def Let_def)
  have kept: "log_area_start_addr (snd (last_scan cfg k ?s i)) = ef_area cfg \<and>
      ef_flash (snd (last_scan cfg k ?s i)) = ef_flash ?s" for i
    by (simp add: last_scan_def Let_def)
  let ?c = "count_last_sector EF_SECTOR_USING (fst (last_scan cfg k ?s ?n))"
  have counts: "using_sec_counts ?c \<le> 1" "empty_sec_counts ?c \<noteq> ?n" "full_sector_counts ?c \<noteq> ?n"
      "cur_log_sec_state ?c = (if 2 < ?n then 2 else 1)"
    using moved(2) by (simp_all add: last_scan_def count_last_sector_def scan_start_def Let_def flip: k)
  have using_addr: "cur_using_sec_addr ?c = (if 2 < ?n then moved - ?sec else moved)"
    by (simp add: last_scan_def count_last_sector_def Let_def moved(1) flip: k)
  have final: "(snd (last_scan cfg k ?s ?n))\<lparr>log_end_addr := e\<rparr> =
      ?s\<lparr>log_start_addr := if 2 < ?n then moved else ef_area cfg, log_end_addr := e\<rparr>" for e
    by (simp add: last_scan_def Let_def moved(1) flip: k)
  have less: "k - 1 < ?n" "k < ?n" and "k \<noteq> k - 1" and prev: "moved - ?sec = ef_area cfg + (k - 1) * ?sec"
      "ef_area cfg + (k - 1) * ?sec + ?sec = moved"
  proof -
    have "k * ?sec = (k - 1) * ?sec + ?sec"
      using moved(2) by (cases k) simp_all
    with k moved show "k - 1 < ?n" "k < ?n" "k \<noteq> k - 1" "moved - ?sec = ef_area cfg + (k - 1) * ?sec"
        "ef_area cfg + (k - 1) * ?sec + ?sec = moved"
      by simp_all
  qed
  then have "sector_fill cfg False k r (k - 1) = ?sec" "sector_fill cfg False k r k = r"
    using moved(2) by (simp_all add: sector_fill_def)
  with st(2) [OF less(1)] st(2) [OF less(2)]
  have found: "ef_find_sec_using_end_addr chip (if 2 < ?n then moved - ?sec else moved) ?sec (ef_flash ?s) =
      Inr (if 2 < ?n then moved - 4 else log_end_addr s)"
    by (cases "2 < ?n") (simp_all only: prev [unfolded moved(1)] s(2) moved(1) if_True if_False)
  have nonzero: "moved \<noteq> 0"
    using ef_cfg_area(3) [OF cfg] moved(1) by linarith
  have "find_start_and_end_addr cfg chip ?s =
      Inr ((), ?s\<lparr>log_start_addr := if 2 < ?n then moved else ef_area cfg,
        log_end_addr := if 2 < ?n then moved - 4 else log_end_addr s\<rparr>)"
    using find_start_and_end_scanned [where p = "last_scan cfg k ?s", OF st(3,4) p1 st(1) kept
        last_scan_turn [OF _ _ k \<open>0 < r\<close> r ef_cfg_area(1) [OF cfg]]] counts nonzero
    by (simp only: last found using_addr final) simp
  from ef_log_init_finds [OF cfg s(3,4) this] show ?thesis
    by (cases "2 < ?n") (simp_all flip: s(1))
qed

end
