(* ===== verification/Easyflash_Store.thy ===== *)
theory Easyflash_Store
  imports Easyflash_Scan
begin

text \<open>
  The properties of the saved log, and the log as the store behind the flash plugin of EasyLogger.
\<close>

section \<open>Properties\<close>

text \<open>A log with a last sector in use, and the range of a read over the end of the area.\<close>

definition ends_in_last_sector :: "ef_cfg \<Rightarrow> 'h ef_state \<Rightarrow> bool" where
  "ends_in_last_sector cfg s \<longleftrightarrow>
     log_start_addr s < log_end_addr s \<and>
     ef_area cfg + (ef_sectors cfg - 1) * EF_ERASE_MIN_SIZE cfg < log_end_addr s + 4"

definition read_crosses_end :: "ef_cfg \<Rightarrow> nat \<Rightarrow> nat \<Rightarrow> 'h ef_state \<Rightarrow> bool" where
  "read_crosses_end cfg index n s \<longleftrightarrow>
     log_end_addr s < log_start_addr s \<and>
     (let oldest = ef_area cfg + LOG_AREA_SIZE cfg - log_start_addr s in index < oldest \<and> oldest < index + n)"

lemma ef_log_read_ok:
  assumes cfg: "ef_cfg_ok cfg" and ok: "ef_log_ok cfg chip s"
    and n: "index mod 4 = 0" "n mod 4 = 0" "0 < n" "index + n \<le> length (ef_log_contents cfg chip s)"
      "length log = n"
  shows "ef_log_read cfg chip index log n s =
    (if read_crosses_end cfg index n s then Inl Memory_fault
     else Inr (take n (drop index (ef_log_contents cfg chip s))))"
proof -
  have "\<not> ef_log_empty cfg chip s"
    using n(3,4) used_size_empty(2) [OF cfg] by fastforce
  then obtain wrapped k r where lay: "ef_layout cfg chip wrapped k r s"
    using ok by (auto simp: ef_log_ok_def)
  have "log_end_addr s < log_start_addr s \<longleftrightarrow> wrapped"
    using layout_contents(3) [OF cfg lay] lay by (auto simp: ef_layout_def Let_def split: if_splits)
  with lay show ?thesis
    using read_wrapped [OF cfg _ n(2,3,1,4,5)] read_linear [OF cfg _ n(2-5)]
    by (cases wrapped) (auto simp: read_crosses_end_def Let_def)
qed

lemma layout_length:
  assumes cfg: "ef_cfg_ok cfg" and lay: "ef_layout cfg chip wrapped k r s"
  shows "length (ef_log_contents cfg chip s) = LOG_AREA_SIZE cfg \<longleftrightarrow>
    r = EF_ERASE_MIN_SIZE cfg \<and> (wrapped \<or> k + 1 = ef_sectors cfg)"
proof -
  let ?sec = "EF_ERASE_MIN_SIZE cfg"
  have r: "r \<le> ?sec" "0 < ?sec" and k: "if wrapped then k + 1 < ef_sectors cfg else k < ef_sectors cfg"
    using lay cfg by (auto simp: ef_layout_def ef_cfg_ok_def Let_def split: if_splits)
  have len: "length (ef_log_contents cfg chip s) =
      (if wrapped then LOG_AREA_SIZE cfg - (k + 1) * ?sec else 0) + (k * ?sec + r)"
    by (simp add: layout_contents(1) [OF cfg lay])
  consider (wrapped) wrapped | (full) "\<not> wrapped" "k + 1 = ef_sectors cfg" | (inner) "\<not> wrapped" "k + 1 < ef_sectors cfg"
    using k by (cases wrapped) (simp_all, linarith)
  then show ?thesis
  proof cases
    case wrapped
    with len r k sector_le_area [OF cfg, of k] show ?thesis
      by auto
  next
    case full
    have "k * ?sec + ?sec = (k + 1) * ?sec"
      by simp
    also have "\<dots> = LOG_AREA_SIZE cfg"
      by (simp only: full(2) ef_cfg_area(1) [OF cfg, symmetric])
    finally show ?thesis
      using full len by auto
  next
    case inner
    with sector_le_area [OF cfg inner(2)] len r show ?thesis
      by auto
  qed
qed

lemma layout_in_last_sector:
  assumes cfg: "ef_cfg_ok cfg" and lay: "ef_layout cfg chip wrapped k r s"
  shows "ends_in_last_sector cfg s \<longleftrightarrow> \<not> wrapped \<and> k + 1 = ef_sectors cfg"
proof -
  let ?a = "ef_area cfg" and ?sec = "EF_ERASE_MIN_SIZE cfg" and ?n = "ef_sectors cfg"
  have e: "log_end_addr s + 4 = ?a + k * ?sec + r" and r: "0 < r" "r \<le> ?sec"
    and start: "log_start_addr s = (if wrapped then ?a + (k + 1) * ?sec else ?a)"
    and k: "if wrapped then k + 1 < ?n else k < ?n"
    using layout_contents(3) [OF cfg lay] lay by (auto simp: ef_layout_def Let_def split: if_splits)
  have last: "k * ?sec + ?sec \<le> (?n - 1) * ?sec" if "k + 1 < ?n"
    using that by (intro sector_end) simp
  have "\<not> ends_in_last_sector cfg s" if "wrapped"
    using e start r that by (simp add: ends_in_last_sector_def)
  moreover have "\<not> ends_in_last_sector cfg s" if "k + 1 < ?n"
    using last [OF that] e r by (simp add: ends_in_last_sector_def)
  moreover have "ends_in_last_sector cfg s" if "\<not> wrapped" "k + 1 = ?n"
  proof -
    have "?n - 1 = k" "?sec \<le> k * ?sec"
      using that(2) cfg by (simp_all add: ef_cfg_ok_def)
    then have "?a < log_end_addr s"
      using e r(1) ef_cfg_area(2) [OF cfg] by linarith
    with \<open>?n - 1 = k\<close> show ?thesis
      using e r(1) that(1) start by (simp add: ends_in_last_sector_def)
  qed
  moreover have "k + 1 < ?n \<or> k + 1 = ?n"
    using k by (cases wrapped) (simp_all, linarith)
  ultimately show ?thesis
    by blast
qed

lemma ef_log_init_after_reset:
  assumes cfg: "ef_cfg_ok cfg" and chip: "flash_chip_ok cfg chip unlocked" and ok: "ef_log_ok cfg chip s"
    and plain: "CHR 0xFF \<notin> set (ef_log_contents cfg chip s)"
  defines "behind \<equiv> ef_area cfg + (ef_sectors cfg - 1) * EF_ERASE_MIN_SIZE cfg"
  shows "\<exists>s'. ef_log_init cfg chip (ef_statics (ef_flash s)) = Inr (EF_NO_ERR, s') \<and>
    (if length (ef_log_contents cfg chip s) = LOG_AREA_SIZE cfg then ef_log_empty cfg chip s'
     else if ends_in_last_sector cfg s \<and> 2 < ef_sectors cfg
     then s' = s\<lparr>log_start_addr := behind, log_end_addr := behind - 4\<rparr>
     else s' = s)"
proof (cases "ef_log_empty cfg chip s")
  case True
  have "LOG_AREA_SIZE cfg \<noteq> 0"
    using cfg by (auto simp: ef_cfg_ok_def)
  then show ?thesis
    using find_empty [OF cfg True] used_size_empty(2) [OF cfg True] True
    by (simp add: ends_in_last_sector_def ef_log_empty_def)
next
  case False
  then obtain wrapped k r where lay: "ef_layout cfg chip wrapped k r s"
    using ok by (auto simp: ef_log_ok_def)
  note len = layout_length [OF cfg lay] and last = layout_in_last_sector [OF cfg lay]
  have r: "r \<le> EF_ERASE_MIN_SIZE cfg" and k: "k < ef_sectors cfg"
    using lay by (auto simp: ef_layout_def Let_def split: if_splits)
  consider (full) "r = EF_ERASE_MIN_SIZE cfg" "wrapped \<or> k + 1 = ef_sectors cfg"
    | (wrapped) wrapped "r < EF_ERASE_MIN_SIZE cfg"
    | (last) "\<not> wrapped" "k + 1 = ef_sectors cfg" "r < EF_ERASE_MIN_SIZE cfg"
    | (inner) "\<not> wrapped" "k + 1 < ef_sectors cfg"
    using r k by linarith
  then show ?thesis
  proof cases
    case full
    with find_full [OF cfg chip _ plain] lay len show ?thesis
      by auto
  next
    case wrapped
    with find_wrapped [OF cfg _ plain] lay len last show ?thesis
      by auto
  next
    case last
    with lay have "ef_layout cfg chip False k r s"
      by simp
    from find_last [OF cfg this plain last(2,3)] last len layout_in_last_sector [OF cfg lay] show ?thesis
      by (cases "2 < ef_sectors cfg") (auto simp: behind_def)
  next
    case inner
    with find_linear [OF cfg _ plain inner(2)] lay len last show ?thesis
      by auto
  qed
qed

text \<open>
  A first write of one word: the end address is then the start address, which means an empty log,
  so the word is not part of the log.
\<close>

lemma ef_log_write_single_word:
  assumes cfg: "ef_cfg_ok cfg" and chip: "flash_chip_ok cfg chip unlocked"
    and empty: "ef_log_empty cfg chip s" and ws: "length ws = 4"
  shows "\<exists>s'. ef_log_write cfg chip ws s = Inr (EF_NO_ERR, s') \<and> ef_log_contents cfg chip s' = []"
proof -
  note area = ef_cfg_area [OF cfg]
  have "EF_ERASE_MIN_SIZE cfg \<le> LOG_AREA_SIZE cfg"
    using sector_end [of 0 "ef_sectors cfg" "EF_ERASE_MIN_SIZE cfg"] cfg
    by (simp only: area(1) [symmetric]) (simp add: ef_cfg_ok_def)
  then have "erased chip (ef_flash s) (ef_area cfg) (ef_area cfg + length ws)"
    using empty ws area(2) by (simp add: ef_log_empty_def erased_def)
  from ef_port_write_ok [OF chip area(4) _ this] ws obtain h' where
    "ef_port_write chip (ef_area cfg) ws (ef_flash s) = Inr (EF_NO_ERR, h')"
    by auto
  then have "ef_log_write cfg chip ws s = Inr (EF_NO_ERR, s\<lparr>ef_flash := h'\<rparr>)"
    using used_size_empty(1) [OF cfg empty] empty ws area
    by (cases s) (simp add: ef_log_write_def ef_log_empty_def Let_def)
  with empty show ?thesis
    by (simp add: ef_log_empty_def ef_log_contents_def)
qed

text \<open>
  C37: The log of EasyFlash is a bounded append-only store.  On a flash controller that works as
  documented, a write of whole words to a well-formed log returns without an error and leaves it
  well formed: what it held, followed by the new words, except for an oldest part that it only
  drops when more than the area without one sector is kept.  Two first writes are excluded or
  lose data: a first write of one word is forgotten, and one of more than a sector is not covered.
\<close>

theorem ef_log_write_appends:
  assumes "ef_cfg_ok cfg" and "flash_chip_ok cfg chip unlocked" and "ef_log_ok cfg chip s"
    and "0 < length ws" and "length ws mod 4 = 0"
    and "ef_log_contents cfg chip s = [] \<Longrightarrow> length ws \<le> EF_ERASE_MIN_SIZE cfg"
  shows "\<exists>s'. ef_log_write cfg chip ws s = Inr (EF_NO_ERR, s') \<and>
    (if ef_log_contents cfg chip s = [] \<and> length ws = 4 then ef_log_contents cfg chip s' = []
     else ef_log_ok cfg chip s' \<and>
       retained (Some (LOG_AREA_SIZE cfg - EF_ERASE_MIN_SIZE cfg)) (ef_log_contents cfg chip s')
         (ef_log_contents cfg chip s @ ws))"
proof (cases "ef_log_contents cfg chip s = [] \<and> length ws = 4")
  case True
  then have "ef_log_empty cfg chip s"
    using assms(1,3) used_size_layout(2) unfolding ef_log_ok_def by blast
  from ef_log_write_single_word [OF assms(1,2) this] True show ?thesis
    by simp
next
  case False
  have "8 \<le> length ws \<and> length ws \<le> EF_ERASE_MIN_SIZE cfg" if "ef_log_contents cfg chip s = []"
  proof -
    have "length ws \<noteq> 4"
      using that False by blast
    with assms(4,5) have "8 \<le> length ws"
      by presburger
    with that assms(6) show ?thesis
      by blast
  qed
  from ef_log_write_retains [OF assms(1-5) this] False show ?thesis
    by auto
qed

text \<open>
  A flush of an empty buffer writes nothing; on an empty log this moves the end in front of the
  start, which means a full area.
\<close>

lemma ef_log_write_nothing:
  assumes cfg: "ef_cfg_ok cfg" and empty: "ef_log_empty cfg chip s" and "4 < ef_area cfg"
  shows "\<exists>s'. ef_log_write cfg chip [] s = Inr (EF_NO_ERR, s') \<and>
    ef_log_get_used_size cfg s' = Inr (LOG_AREA_SIZE cfg)"
proof -
  note area = ef_cfg_area [OF cfg]
  have size: "EF_ERASE_MIN_SIZE cfg \<le> LOG_AREA_SIZE cfg" "ef_area cfg + LOG_AREA_SIZE cfg < 2 ^ 30"
    using sector_end [of 0 "ef_sectors cfg" "EF_ERASE_MIN_SIZE cfg"] area(5) cfg
    by (simp_all only: area(1) [symmetric]) (simp add: ef_cfg_ok_def)
  then have "u32_sub (LOG_AREA_SIZE cfg) 4 + 4 = LOG_AREA_SIZE cfg"
    using area(2) by (subst u32_sub_le) simp_all
  moreover have "u32_sub (ef_area cfg) 4 = ef_area cfg - 4" "u32_sub (ef_area cfg) (ef_area cfg) = 0"
    using assms(3) size(2) by simp_all
  ultimately show ?thesis
    using used_size_empty(1) [OF cfg empty] empty assms(3) area(2)
    by (auto simp: ef_log_write_def ef_log_empty_def ef_port_write_def ef_log_get_used_size_def Let_def)
qed

text \<open>
  A first write of more than a sector: \<open>write_addr - 4\<close> lies in front of the area, so the next
  sector is the first one, which is erased again, and the log starts behind it with erased bytes.
\<close>

lemma first_write_over_a_sector:
  assumes cfg: "ef_cfg_ok cfg" and chip: "flash_chip_ok cfg chip unlocked" and empty: "ef_log_empty cfg chip s"
    and ws: "length ws mod 4 = 0" "EF_ERASE_MIN_SIZE cfg < length ws" "length ws \<le> 2 * EF_ERASE_MIN_SIZE cfg"
  shows "\<exists>s'. ef_log_write cfg chip ws s = Inr (EF_NO_ERR, s') \<and>
    ef_log_contents cfg chip s' =
      replicate (LOG_AREA_SIZE cfg - EF_ERASE_MIN_SIZE cfg) (CHR 0xFF) @ drop (EF_ERASE_MIN_SIZE cfg) ws"
proof -
  let ?a = "ef_area cfg" and ?sec = "EF_ERASE_MIN_SIZE cfg"
  let ?rest = "drop ?sec ws"
  note area = ef_cfg_area [OF cfg]
  have sec: "0 < ?sec" "?sec mod 4 = 0" "?a mod ?sec = 0" "2 \<le> ef_sectors cfg"
    using cfg by (simp_all add: ef_cfg_ok_def)
  have at: "log_start_addr s = ?a" "log_end_addr s = ?a" "log_area_start_addr s = ?a" "ef_init_ok s"
    and blank: "erased chip (ef_flash s) ?a (?a + LOG_AREA_SIZE cfg)"
    using empty by (simp_all add: ef_log_empty_def)
  have size: "2 * ?sec \<le> LOG_AREA_SIZE cfg" "?a + LOG_AREA_SIZE cfg < 2 ^ 30"
    using sector_end [of 1 "ef_sectors cfg" ?sec] area(5) sec(4)
    by (simp_all only: area(1) [symmetric]) simp
  have rest: "length (take ?sec ws) = ?sec" "0 < length ?rest" "length ?rest mod 4 = 0" "length ?rest \<le> ?sec"
    using ws sec by (simp_all add: mod_eq_0_iff_dvd dvd_diff_nat)
  have "erased chip (ef_flash s) ?a (?a + length (take ?sec ws))"
    using blank size(1) by (auto simp: erased_def)
  from ef_port_write_ok [OF chip area(4) _ this] rest(1) sec(2) obtain h1 where
    h1: "ef_port_write chip ?a (take ?sec ws) (ef_flash s) = Inr (EF_NO_ERR, h1)"
      "bytes_written chip (ef_flash s) ?a (take ?sec ws) h1"
    by auto
  obtain h2 where h2: "ef_port_erase cfg chip ?a ?sec h1 = Inr (EF_NO_ERR, h2)" "bytes_erased chip h1 ?a (?a + ?sec) h2"
    using ef_port_erase_ok [OF chip sec(3,1), of ?sec] by auto
  have "erased chip h2 ?a (?a + length ?rest)"
    using h2(2) rest(4) by (auto simp: erased_def bytes_erased_def)
  from ef_port_write_ok [OF chip area(4) rest(3) this] obtain h3 where
    h3: "ef_port_write chip ?a ?rest h2 = Inr (EF_NO_ERR, h3)" "bytes_written chip h2 ?a ?rest h3" .
  let ?s1 = "s\<lparr>log_start_addr := ?a + ?sec, ef_flash := h1\<rparr>"
  let ?s' = "?s1\<lparr>log_end_addr := ?a + length ?rest - 4, ef_flash := h3\<rparr>"
  have first: "get_next_flash_sec_addr cfg (s\<lparr>ef_flash := h1\<rparr>) (u32_sub ?a 4) = ?a"
  proof -
    have "u32_sub ?a 4 = ?a - 4"
      using area(3) size(2) by simp
    moreover have "u32_sub (?a - 4) ?a = 2 ^ 32 - 4"
      using area(3) size(2) by (simp add: u32_sub_def)
    moreover have "ef_sectors cfg \<le> (2 ^ 32 - 4) div ?sec"
      using area(5) sec(1) by (simp add: less_eq_div_iff_mult_less_eq)
    ultimately show ?thesis
      by (simp add: get_next_flash_sec_addr_def at(3))
  qed
  moreover have "start_after cfg ?a (s\<lparr>ef_flash := h1\<rparr>) = ?s1"
    using get_next_sector [OF cfg, of "s\<lparr>ef_flash := h1\<rparr>" 0 0] at sec by (simp add: start_after_def)
  moreover have "u32_sub (?a + length ?rest) 4 = ?a + length ?rest - 4"
    using size rest(4) area(3) by (intro u32_sub_le) simp_all
  ultimately have "ef_write_sectors cfg chip ?a ?rest (s\<lparr>ef_flash := h1\<rparr>) = Inr (EF_NO_ERR, ?s')"
    using sec(1) rest(4) h2(1) h3(1) by (subst ef_write_sectors.simps) (simp add: ef_try_def Let_def)
  then have "ef_log_write cfg chip ws s = Inr (EF_NO_ERR, ?s')"
    using used_size_empty(1) [OF cfg empty] ws(1,2) at h1(1) size(2) by (simp add: ef_log_write_def ef_try_def Let_def)
  moreover have "ef_log_contents cfg chip ?s' = replicate (LOG_AREA_SIZE cfg - ?sec) (CHR 0xFF) @ ?rest"
  proof -
    have "4 \<le> length ?rest"
      using rest(2,3) by (auto simp: mod_eq_0_iff_dvd dest: dvd_imp_le)
    then have "?a + length ?rest - 4 + 4 = ?a + length ?rest" "?a + length ?rest - 4 < ?a + ?sec"
      using rest(4) sec(1) by linarith+
    moreover have "erased chip h3 (?a + ?sec) (?a + LOG_AREA_SIZE cfg)"
      using blank h1(2) h2(2) h3(2) rest(1,4)
      by (auto simp: erased_def bytes_erased_def bytes_written_def)
    from erased_slice [OF this]
    have "flash_slice chip h3 (?a + ?sec) (?a + LOG_AREA_SIZE cfg) =
        replicate (LOG_AREA_SIZE cfg - ?sec) (CHR 0xFF)"
      by simp
    ultimately show ?thesis
      using flash_slice_written(1) [OF h3(2)] by (simp add: ef_log_contents_def)
  qed
  ultimately show ?thesis
    by blast
qed

section \<open>The store behind the flash plugin\<close>

text \<open>
  The four functions as the plugin calls them: it ignores the result of a write, and reads into
  a buffer of the size it asks for.
\<close>

definition easyflash_of :: "ef_cfg \<Rightarrow> 'h flash_chip \<Rightarrow> 'h ef_state easyflash" where
  "easyflash_of cfg chip =
     \<lparr>call_log_used_size = (\<lambda>s. case ef_log_get_used_size cfg s of Inl _ \<Rightarrow> 0 | Inr n \<Rightarrow> n),
      call_log_read = (\<lambda>s index n.
        case ef_log_read cfg chip index (replicate n NUL) n s of Inl _ \<Rightarrow> [] | Inr log \<Rightarrow> log),
      call_log_write = (\<lambda>log s.
        case ef_log_write cfg chip log s of Inl _ \<Rightarrow> (False, s) | Inr (e, s') \<Rightarrow> (e = EF_NO_ERR, s')),
      call_log_clean = (\<lambda>s.
        case ef_log_clean cfg chip s of Inl _ \<Rightarrow> (False, s) | Inr (e, s') \<Rightarrow> (e = EF_NO_ERR, s'))\<rparr>"

lemma easyflash_of_writes:
  assumes "ef_cfg_ok cfg" and "flash_chip_ok cfg chip unlocked"
  shows "easyflash_writes (Some (LOG_AREA_SIZE cfg - EF_ERASE_MIN_SIZE cfg)) 8 (EF_ERASE_MIN_SIZE cfg)
    (ef_log_ok cfg chip) (easyflash_of cfg chip) (ef_log_contents cfg chip)"
  unfolding easyflash_writes_def
proof (intro allI impI)
  fix s and ws :: "char list"
  assume a: "ef_log_ok cfg chip s \<and> length ws mod 4 = 0 \<and> 8 \<le> length ws \<and> length ws \<le> EF_ERASE_MIN_SIZE cfg"
  then have "0 < length ws"
    by linarith
  with a ef_log_write_retains [OF assms, of s ws] show "ef_log_ok cfg chip (snd (call_log_write (easyflash_of cfg chip) ws s)) \<and>
      retained (Some (LOG_AREA_SIZE cfg - EF_ERASE_MIN_SIZE cfg))
        (ef_log_contents cfg chip (snd (call_log_write (easyflash_of cfg chip) ws s)))
        (ef_log_contents cfg chip s @ ws)"
    by (auto simp: easyflash_of_def)
qed

text \<open>
  C36: The flash plugin on top of EasyFlash keeps the recent log.  Writing a record to an
  initialised plugin whose RAM buffer has between two words and one sector returns, keeps the
  buffer and the log in flash well formed, and loses nothing but an oldest part: flash and buffer
  together hold what they held, followed by the record, or a latest part of that of more than the
  log area without one sector.  While the plugin's lock is enabled, every access to the RAM buffer
  happens between a lock and the next unlock of the port, and the lock is free again at the end; while
  it is disabled, the port is not called at all.
\<close>

theorem flash_write_on_easyflash:
  assumes "ef_cfg_ok cfg" and "flash_chip_ok cfg chip unlocked"
    and "flash_ok s" and "ef_log_ok cfg chip (fl_dev s)"
    and "8 \<le> length (fl_log_buf s)" and "length (fl_log_buf s) \<le> EF_ERASE_MIN_SIZE cfg"
  shows "\<exists>evs s'. elog_flash_write (easyflash_of cfg chip) log s = Inr ((), evs, s') \<and>
    (if log_buf_lock_enabled (fl_lock s) then guarded False evs else set evs = {Buffer_access}) \<and>
    flash_ok s' \<and> ef_log_ok cfg chip (fl_dev s') \<and>
    retained (Some (LOG_AREA_SIZE cfg - EF_ERASE_MIN_SIZE cfg))
      (flash_stored (ef_log_contents cfg chip) s') (flash_stored (ef_log_contents cfg chip) s @ log)"
proof -
  from flash_write_stores [OF easyflash_of_writes [OF assms(1,2)] assms(3-6), of log] obtain k s' where
    "elog_flash_write (easyflash_of cfg chip) log s = Inr ((), write_trace (log_buf_lock_enabled (fl_lock s)) k, s')"
    "flash_ok s'" "ef_log_ok cfg chip (fl_dev s')"
    "retained (Some (LOG_AREA_SIZE cfg - EF_ERASE_MIN_SIZE cfg))
      (flash_stored (ef_log_contents cfg chip) s') (flash_stored (ef_log_contents cfg chip) s @ log)"
    by blast
  then show ?thesis
    using write_trace_guarded write_trace_unlocked by auto
qed

text \<open>
  C38: Finding the log again.  After a reset, which keeps the flash and nothing else, the scan of
  the sectors restores the start and the end of the log exactly, for every well-formed log of
  text (without bytes \<open>0xFF\<close>), except in two cases that the state of the sectors does not tell
  apart from others: a ring without a free word is erased, and of a first lap that has reached
  the last sector, that sector is taken for the oldest one.
\<close>

theorem ef_log_init_recovers:
  assumes "ef_cfg_ok cfg" and "flash_chip_ok cfg chip unlocked" and "ef_log_ok cfg chip s"
    and "CHR 0xFF \<notin> set (ef_log_contents cfg chip s)"
  shows "\<exists>s'. ef_log_init cfg chip (ef_statics (ef_flash s)) = Inr (EF_NO_ERR, s') \<and>
    (if length (ef_log_contents cfg chip s) = LOG_AREA_SIZE cfg then ef_log_empty cfg chip s'
     else if ends_in_last_sector cfg s \<and> 2 < ef_sectors cfg
     then s' = (let last = ef_area cfg + (ef_sectors cfg - 1) * EF_ERASE_MIN_SIZE cfg in
       s\<lparr>log_start_addr := last, log_end_addr := last - 4\<rparr>)
     else s' = s)"
  using ef_log_init_after_reset [OF assms] unfolding Let_def .

section \<open>A flash controller, and the properties at work\<close>

text \<open>Pages of NOR flash: erasing sets them to \<open>0xFF\<close>, an erased word can be programmed once.\<close>

definition nor_flash :: "ef_cfg \<Rightarrow> ((nat \<Rightarrow> char) \<times> bool) flash_chip" where
  "nor_flash cfg =
     \<lparr>flash_byte = fst, FLASH_Unlock = (\<lambda>(m, _). (m, True)), FLASH_ClearFlag = id,
      FLASH_Lock = (\<lambda>(m, _). (m, False)),
      FLASH_ErasePage = (\<lambda>page (m, unlocked).
        if unlocked
        then (True, \<lambda>x. if page \<le> x \<and> x < page + EF_ERASE_MIN_SIZE cfg then CHR 0xFF else m x, unlocked)
        else (False, m, unlocked)),
      FLASH_ProgramWord = (\<lambda>addr ws (m, unlocked).
        if unlocked \<and> map m [addr..<addr + 4] = replicate 4 (CHR 0xFF)
        then (\<lambda>x. if addr \<le> x \<and> x < addr + 4 then ws ! (x - addr) else m x, unlocked)
        else (m, unlocked))\<rparr>"

lemma nor_flash_ok: "flash_chip_ok cfg (nor_flash cfg) snd"
proof -
  have "map m [addr..<addr + 4] = replicate 4 (CHR 0xFF)"
    if "\<forall>x. addr \<le> x \<and> x < addr + 4 \<longrightarrow> m x = CHR 0xFF" for m :: "nat \<Rightarrow> char" and addr
    using that by (intro nth_equalityI) simp_all
  then show ?thesis
    by (auto simp: flash_chip_ok_def nor_flash_def)
qed

definition ef_cfg_small :: ef_cfg where
  "ef_cfg_small = \<lparr>EF_START_ADDR = 16, ENV_AREA_SIZE = 16, LOG_AREA_SIZE = 64, EF_ERASE_MIN_SIZE = 16\<rparr>"

lemma ef_cfg_small_ok: "ef_cfg_ok ef_cfg_small"
  by (simp add: ef_cfg_ok_def ef_cfg_small_def)

lemma ef_cfg_small_simps [simp]:
  "LOG_AREA_SIZE ef_cfg_small = 64" "EF_ERASE_MIN_SIZE ef_cfg_small = 16"
  by (simp_all add: ef_cfg_small_def)

lemma ef_cfg_demo_ok: "ef_cfg_ok ef_cfg_demo"
  by (simp add: ef_cfg_ok_def ef_cfg_demo_def PAGE_SIZE_def)

text \<open>The small area holding a text from its start on.\<close>

definition small_log :: "string \<Rightarrow> ((nat \<Rightarrow> char) \<times> bool) ef_state" where
  "small_log xs =
     \<lparr>log_start_addr = 32, log_end_addr = 32 + length xs - 4, log_area_start_addr = 32, ef_init_ok = True,
      ef_flash = (\<lambda>x. if 32 \<le> x \<and> x < 32 + length xs then xs ! (x - 32) else CHR 0xFF, False)\<rparr>"

lemma small_log_ok:
  assumes "4 < length xs" and "length xs \<le> 16" and "length xs mod 4 = 0"
  shows "ef_log_ok ef_cfg_small (nor_flash ef_cfg_small) (small_log xs)"
    and "ef_log_contents ef_cfg_small (nor_flash ef_cfg_small) (small_log xs) = xs"
proof -
  have lay: "ef_layout ef_cfg_small (nor_flash ef_cfg_small) False 0 (length xs) (small_log xs)"
    using assms by (auto simp: ef_layout_def small_log_def ef_cfg_small_def nor_flash_def erased_def)
  then show "ef_log_ok ef_cfg_small (nor_flash ef_cfg_small) (small_log xs)"
    by (auto simp: ef_log_ok_def)
  show "ef_log_contents ef_cfg_small (nor_flash ef_cfg_small) (small_log xs) = xs"
    unfolding layout_contents(1) [OF ef_cfg_small_ok lay]
    by (intro nth_equalityI) (simp_all add: flash_slice_def small_log_def nor_flash_def ef_cfg_small_def)
qed

theorem ef_log_write_appends_witness:
  "\<exists>s'. ef_log_write ef_cfg_small (nor_flash ef_cfg_small) ''motor on'' (small_log ''safe off'') = Inr (EF_NO_ERR, s') \<and>
    ef_log_ok ef_cfg_small (nor_flash ef_cfg_small) s' \<and>
    retained (Some 48) (ef_log_contents ef_cfg_small (nor_flash ef_cfg_small) s') ''safe offmotor on''"
  using ef_log_write_appends [OF ef_cfg_small_ok nor_flash_ok small_log_ok(1), of "''safe off''" "''motor on''"]
    small_log_ok(2) [of "''safe off''"]
  by auto

theorem flash_write_on_easyflash_witness:
  "\<exists>evs s'. elog_flash_write (easyflash_of ef_cfg_small (nor_flash ef_cfg_small)) ''hello, flash!''
        ((flash_initial 8 (small_log ''safe off''))\<lparr>fl_init_ok := True\<rparr>) = Inr ((), evs, s') \<and>
    guarded False evs \<and>
    retained (Some 48) (flash_stored (ef_log_contents ef_cfg_small (nor_flash ef_cfg_small)) s')
      ''safe offhello, flash!''"
  using flash_write_on_easyflash [OF ef_cfg_small_ok nor_flash_ok flash_initial_ok, of "small_log ''safe off''"
      "''hello, flash!''"] small_log_ok [of "''safe off''"]
  by (auto simp: flash_initial_def flash_lock_initial_def flash_stored_def)

theorem ef_log_init_recovers_witness:
  "ef_log_init ef_cfg_small (nor_flash ef_cfg_small) (ef_statics (ef_flash (small_log ''safe off''))) =
    Inr (EF_NO_ERR, small_log ''safe off'')"
  using ef_log_init_recovers [OF ef_cfg_small_ok nor_flash_ok small_log_ok(1), of "''safe off''"]
    small_log_ok(2) [of "''safe off''"]
  by (simp add: ends_in_last_sector_def ef_cfg_small_def small_log_def)

end
