(* ===== verification/Elog_File.thy ===== *)
theory Elog_File
  imports Elog_Core RC_Text
begin

text \<open>
  The file plugin, \<open>plugins/file/elog_file.c\<close>: records are appended to a log file, which is rotated when
  it has grown past its limit: \<open>log\<close> becomes \<open>log.0\<close>, \<open>log.0\<close> becomes \<open>log.1\<close>, and so on.  The file system is
  a map from names to files, so that a stream keeps its file when the name is moved; \<open>stdio\<close> keeps
  written characters back until it is flushed.  Whether \<open>fopen\<close> succeeds is an argument.  The lemmas
  show that rotation moves every file up by one, that a write loses nothing but the oldest file, that no
  file outgrows the limit by more than one record, and that the lock is released; the build
  without rotation keeps it.
\<close>

section \<open>Files and streams\<close>

record file_system =
  fs_names :: "string \<Rightarrow> nat option"
  fs_data :: "nat \<Rightarrow> string"
  fs_next :: nat

definition fs_append :: "nat \<Rightarrow> string \<Rightarrow> file_system \<Rightarrow> file_system" where
  "fs_append i s fs = fs\<lparr>fs_data := (fs_data fs)(i := fs_data fs i @ s)\<rparr>"

text \<open>\<open>fopen\<close> for appending, which creates a missing file.\<close>

definition fs_open :: "string \<Rightarrow> file_system \<Rightarrow> nat \<times> file_system" where
  "fs_open name fs =
     (case fs_names fs name of
        Some i \<Rightarrow> (i, fs)
      | None \<Rightarrow> (fs_next fs, fs\<lparr>fs_names := (fs_names fs)(name \<mapsto> fs_next fs),
          fs_data := (fs_data fs)(fs_next fs := []), fs_next := fs_next fs + 1\<rparr>))"

text \<open>\<open>rename\<close>, which fails without effect when there is no such file.\<close>

definition fs_rename :: "string \<Rightarrow> string \<Rightarrow> file_system \<Rightarrow> file_system" where
  "fs_rename old new fs =
     (case fs_names fs old of
        None \<Rightarrow> fs
      | Some i \<Rightarrow> fs\<lparr>fs_names := (fs_names fs)(old := None, new \<mapsto> i)\<rparr>)"

text \<open>\<open>fp\<close>: no stream, a stream of a file, or one that was closed.\<close>

datatype file_pointer = Null | Stream nat | Dangling

record file_cfg =
  fc_name :: string
  fc_max_size :: nat
  fc_max_rotate :: int

text \<open>
  The compile-time choices: the default configuration, whether every write is flushed
  (\<open>ELOG_FILE_FLUSH_CAHCE_ENABLE\<close>), and whether \<open>ELOG_FILE_MAX_ROTATE\<close> is positive.
\<close>

record file_build =
  fb_default :: file_cfg
  fb_flush :: bool
  fb_rotates :: bool

text \<open>The static state; \<open>fd\<close> is the descriptor of \<open>fp\<close>, and \<open>fi_pending\<close> what \<open>stdio\<close> keeps back.\<close>

record file_state =
  fi_init_ok :: bool
  fi_fp :: file_pointer
  fi_pending :: string
  fi_cfg :: file_cfg
  fi_hook :: bool
  fi_fs :: file_system

type_synonym 'a file_result = "elog_stop + 'a \<times> port_event list \<times> file_state"

definition file_assert_fails :: "bool \<Rightarrow> file_state \<Rightarrow> bool" where
  "file_assert_fails cond s \<longleftrightarrow> \<not> cond \<and> \<not> fi_hook s"

text \<open>\<open>fclose\<close> writes out what is kept back; closing a stream again is an error.\<close>

definition file_close :: "file_state \<Rightarrow> file_state option" where
  "file_close s =
     (case fi_fp s of
        Null \<Rightarrow> None
      | Dangling \<Rightarrow> None
      | Stream i \<Rightarrow> Some (s\<lparr>fi_fp := Dangling, fi_pending := [], fi_fs := fs_append i (fi_pending s) (fi_fs s)\<rparr>))"

section \<open>Operations\<close>

definition elog_file_config :: "file_cfg \<Rightarrow> bool \<Rightarrow> file_state \<Rightarrow> unit file_result" where
  "elog_file_config cfg opened s =
     (case (if fi_fp s = Null then Some s else file_close s) of
        None \<Rightarrow> Inl Memory_fault
      | Some s \<Rightarrow>
          let s = s\<lparr>fi_cfg := cfg\<rparr>;
              s = (if opened then let (i, fs) = fs_open (fc_name cfg) (fi_fs s) in s\<lparr>fi_fp := Stream i, fi_fs := fs\<rparr>
                   else s\<lparr>fi_fp := Null\<rparr>)
          in Inr ((), [Port_lock, Port_unlock], s))"

definition elog_file_init :: "file_build \<Rightarrow> bool \<Rightarrow> file_state \<Rightarrow> unit file_result" where
  "elog_file_init build opened s =
     (if fi_init_ok s then Inr ((), [], s)
      else case elog_file_config (fb_default build) opened s of
        Inl e \<Rightarrow> Inl e
      | Inr (u, evs, s) \<Rightarrow> Inr ((), evs, s\<lparr>fi_init_ok := True\<rparr>))"

definition elog_file_reopen :: "bool \<Rightarrow> file_state \<Rightarrow> (bool \<times> file_state) option" where
  "elog_file_reopen opened s =
     (if \<not> opened then Some (False, s)
      else let (i, fs) = fs_open (fc_name (fi_cfg s)) (fi_fs s); s = s\<lparr>fi_fs := fs\<rparr> in
        case (if fi_fp s = Null then Some s else file_close s) of
          None \<Rightarrow> None
        | Some s \<Rightarrow> Some (True, s\<lparr>fi_fp := Stream i\<rparr>))"

text \<open>
  The paths of a rotation; \<open>snprintf\<close> writes at most \<open>SUFFIX_LEN\<close> characters with the final NUL.  An
  access behind the 256 characters of a path is \<open>None\<close>.
\<close>

definition SUFFIX_LEN :: nat where "SUFFIX_LEN = 10"
definition PATH_LEN :: nat where "PATH_LEN = 256"

definition path_with :: "string \<Rightarrow> string \<Rightarrow> string option" where
  "path_with base ending =
     (let written = take (SUFFIX_LEN - 1) ending in
      if length base + length written + 1 \<le> PATH_LEN then Some (base @ written) else None)"

definition old_suffix :: "nat \<Rightarrow> string" where
  "old_suffix n = (if n \<noteq> 0 then ''.'' @ decimal (n - 1) else [])"

definition new_suffix :: "nat \<Rightarrow> string" where
  "new_suffix n = ''.'' @ decimal n"

text \<open>The loop, from \<open>n - 1\<close> down to 0.\<close>

fun rotate_loop :: "nat \<Rightarrow> string \<Rightarrow> file_system \<Rightarrow> file_system option" where
  "rotate_loop 0 name fs = Some fs"
| "rotate_loop (Suc n) name fs =
     (case path_with name (old_suffix n) of
        None \<Rightarrow> None
      | Some old \<Rightarrow>
          (case path_with name (new_suffix n) of
             None \<Rightarrow> None
           | Some new \<Rightarrow> rotate_loop n name (fs_rename old new fs)))"

definition elog_file_rotate :: "file_state \<Rightarrow> file_state option" where
  "elog_file_rotate s =
     (let name = fc_name (fi_cfg s) in
      if length name > PATH_LEN then None
      else map_option (\<lambda>fs. s\<lparr>fi_fs := fs\<rparr>) (rotate_loop (nat (fc_max_rotate (fi_cfg s))) name (fi_fs s)))"

definition elog_file_retate_check :: "file_state \<Rightarrow> bool" where
  "elog_file_retate_check s \<longleftrightarrow>
     (case fs_names (fi_fs s) (fc_name (fi_cfg s)) of
        None \<Rightarrow> False
      | Some i \<Rightarrow> length (fs_data (fi_fs s) i) > fc_max_size (fi_cfg s))"

text \<open>\<open>fstat\<close> of the open file; the size stays 0 when there is none.\<close>

definition file_size :: "file_state \<Rightarrow> nat" where
  "file_size s = (case fi_fp s of Stream i \<Rightarrow> length (fs_data (fi_fs s) i) | _ \<Rightarrow> 0)"

text \<open>\<open>fwrite\<close>, and the flush or what \<open>stdio\<close> writes out on its own: the first \<open>out\<close> characters.\<close>

definition file_put :: "file_build \<Rightarrow> nat \<Rightarrow> string \<Rightarrow> file_state \<Rightarrow> file_state option" where
  "file_put build out log s =
     (case fi_fp s of
        Stream i \<Rightarrow>
          let all = fi_pending s @ log; n = (if fb_flush build then length all else out) in
          Some (s\<lparr>fi_pending := drop n all, fi_fs := fs_append i (take n all) (fi_fs s)\<rparr>)
      | _ \<Rightarrow> None)"

text \<open>The rotation step of a write: the state to write in, or None inside when the record is dropped.\<close>

definition file_roll :: "bool \<Rightarrow> file_state \<Rightarrow> (bool \<times> file_state) option" where
  "file_roll opened s =
     (case (if elog_file_retate_check s then elog_file_rotate s else Some s) of
        None \<Rightarrow> None
      | Some s \<Rightarrow> elog_file_reopen opened s)"

definition elog_file_write :: "file_build \<Rightarrow> bool \<Rightarrow> nat \<Rightarrow> string \<Rightarrow> file_state \<Rightarrow> unit file_result" where
  "elog_file_write build opened out log s =
     (if file_assert_fails (fi_init_ok s) s then Inl Assert_hang
      else if fi_fp s = Dangling then Inl Memory_fault
      else if file_size s > fc_max_size (fi_cfg s)
      then if \<not> fb_rotates build then Inr ((), [Port_lock], s)
           else (case file_roll opened s of
             None \<Rightarrow> Inl Memory_fault
           | Some (False, s) \<Rightarrow> Inr ((), [Port_lock, Port_unlock], s)
           | Some (True, s) \<Rightarrow>
               (case file_put build out log s of
                  None \<Rightarrow> Inl Memory_fault
                | Some s \<Rightarrow> Inr ((), [Port_lock, Port_unlock], s)))
      else case file_put build out log s of
             None \<Rightarrow> Inl Memory_fault
           | Some s \<Rightarrow> Inr ((), [Port_lock, Port_unlock], s))"

definition elog_file_deinit :: "file_state \<Rightarrow> unit file_result" where
  "elog_file_deinit s =
     (if file_assert_fails (fi_init_ok s) s then Inl Assert_hang
      else case file_close s of None \<Rightarrow> Inl Memory_fault | Some s \<Rightarrow> Inr ((), [], s))"

section \<open>Rotation\<close>

text \<open>The numbered files, and the file that moves into slot \<open>n\<close>.\<close>

definition slot :: "string \<Rightarrow> nat \<Rightarrow> string" where
  "slot name n = name @ ''.'' @ decimal n"

definition previous :: "string \<Rightarrow> nat \<Rightarrow> string" where
  "previous name n = (if n = 0 then name else slot name (n - 1))"

lemma decimal_inject [simp]: "decimal m = decimal n \<longleftrightarrow> m = n"
  using value_digits_rev [of 10] by (auto simp: decimal_def dest: arg_cong [of _ _ "value_rev 10"])

lemma slot_inject [simp]: "slot name m = slot name n \<longleftrightarrow> m = n"
  by (simp add: slot_def)

lemma slot_not_name [simp]: "slot name n \<noteq> name" "name \<noteq> slot name n"
  by (simp_all add: slot_def)

lemma decimal_short: "n < 10 ^ 8 \<Longrightarrow> length (decimal n) \<le> 8"
  using length_digits_rev [of 10 n 8] by (simp add: decimal_def)

definition rotation_fits :: "string \<Rightarrow> nat \<Rightarrow> bool" where
  "rotation_fits name n \<longleftrightarrow> length name + 10 \<le> PATH_LEN \<and> n \<le> 10 ^ 8"

lemma path_with_fits:
  assumes "rotation_fits name (Suc n)"
  shows "path_with name (old_suffix n) = Some (previous name n)"
    and "path_with name (new_suffix n) = Some (slot name n)"
proof -
  from assms have "n < 10 ^ 8" "n - 1 < 10 ^ 8" "length name + 10 \<le> PATH_LEN"
    by (auto simp: rotation_fits_def)
  from this(1,2) [THEN decimal_short] this(3)
  have "length (decimal n) \<le> 8" "length (decimal (n - 1)) \<le> 8" "length name + 10 \<le> PATH_LEN" .
  then show "path_with name (old_suffix n) = Some (previous name n)"
    and "path_with name (new_suffix n) = Some (slot name n)"
    by (auto simp: path_with_def old_suffix_def new_suffix_def previous_def slot_def SUFFIX_LEN_def Let_def)
qed

lemma fs_rename_simps [simp]:
  "fs_data (fs_rename old new fs) = fs_data fs" "fs_next (fs_rename old new fs) = fs_next fs"
  "fs_names (fs_rename old new fs) =
     (if fs_names fs old = None then fs_names fs
      else (fs_names fs)(old := None, new := fs_names fs old))"
  by (auto simp: fs_rename_def split: option.split)

text \<open>The names after a rotation of \<open>n\<close> files.\<close>

definition rotated :: "nat \<Rightarrow> string \<Rightarrow> (string \<Rightarrow> nat option) \<Rightarrow> (string \<Rightarrow> nat option) \<Rightarrow> bool" where
  "rotated n name names names' \<longleftrightarrow>
     (\<forall>j<n. names' (slot name j) =
        (if names (previous name j) = None \<and> j + 1 = n then names (slot name j) else names (previous name j))) \<and>
     (0 < n \<longrightarrow> names' name = None) \<and>
     (\<forall>x. (\<forall>j<n. x \<noteq> slot name j) \<and> (0 < n \<longrightarrow> x \<noteq> name) \<longrightarrow> names' x = names x)"

lemma previous_simps [simp]: "previous name 0 = name" "previous name (Suc n) = slot name n"
  by (simp_all add: previous_def)

lemma previous_inject [simp]: "previous name m = previous name n \<longleftrightarrow> m = n"
  by (cases m; cases n) simp_all

lemma previous_not_slot [simp]: "j \<le> n \<Longrightarrow> previous name j \<noteq> slot name n"
  by (cases j) simp_all

lemma rotated_step:
  assumes "names1 = (if names (previous name n) = None then names
      else names(previous name n := None, slot name n := names (previous name n)))"
    and "rotated n name names1 names'"
  shows "rotated (Suc n) name names names'"
proof -
  have here: "names1 (previous name n) = None"
    "names1 (slot name n) = (if names (previous name n) = None then names (slot name n) else names (previous name n))"
    "x \<noteq> previous name n \<Longrightarrow> x \<noteq> slot name n \<Longrightarrow> names1 x = names x" for x
    by (simp_all add: assms(1))
  have below: "names' (slot name j) = names (previous name j)" if "j < n" for j
  proof -
    have "names1 (previous name j) = names (previous name j)"
      using that by (intro here(3)) simp_all
    moreover have "j + 1 = n \<longrightarrow> names1 (slot name j) = None"
      using here(1) by auto
    ultimately show ?thesis
      using assms(2) that by (simp add: rotated_def)
  qed
  have outside: "names' x = names1 x" if "\<forall>j<n. x \<noteq> slot name j" "0 < n \<longrightarrow> x \<noteq> name" for x
    using assms(2) that by (simp add: rotated_def)
  have "names' (slot name n) = names1 (slot name n)"
    by (rule outside) auto
  moreover have "names' name = None"
  proof (cases n)
    case 0
    then show ?thesis
      using outside [of name] here(1) by simp
  next
    case (Suc m)
    then show ?thesis
      using assms(2) by (simp add: rotated_def)
  qed
  moreover have "names' x = names x" if "\<forall>j<Suc n. x \<noteq> slot name j" "x \<noteq> name" for x
    using that outside [of x] here(3) [of x] by (cases n) auto
  ultimately show ?thesis
    using below here(2) by (auto simp: rotated_def less_Suc_eq)
qed

lemma rotate_loop_rotated:
  "rotation_fits name n \<Longrightarrow>
   \<exists>fs'. rotate_loop n name fs = Some fs' \<and> fs_data fs' = fs_data fs \<and> fs_next fs' = fs_next fs \<and>
     rotated n name (fs_names fs) (fs_names fs')"
proof (induction n arbitrary: fs)
  case 0
  show ?case
    by (simp add: rotated_def)
next
  case (Suc n)
  let ?fs = "fs_rename (previous name n) (slot name n) fs"
  from Suc.prems have "rotation_fits name n"
    by (simp add: rotation_fits_def)
  from Suc.IH [OF this, of ?fs] obtain fs' where
    fs': "rotate_loop n name ?fs = Some fs'" "fs_data fs' = fs_data fs" "fs_next fs' = fs_next fs"
      "rotated n name (fs_names ?fs) (fs_names fs')"
    by auto
  have "rotated (Suc n) name (fs_names fs) (fs_names fs')"
    by (rule rotated_step [OF _ fs'(4)]) simp
  with fs' Suc.prems show ?case
    by (simp add: path_with_fits)
qed

section \<open>The log as a whole\<close>

text \<open>The text of all files of the log, oldest first.\<close>

definition file_text :: "file_system \<Rightarrow> string \<Rightarrow> string" where
  "file_text fs x = (case fs_names fs x of None \<Rightarrow> [] | Some i \<Rightarrow> fs_data fs i)"

definition log_text :: "nat \<Rightarrow> string \<Rightarrow> file_system \<Rightarrow> string" where
  "log_text n name fs = concat (map (\<lambda>j. file_text fs (slot name j)) (rev [0..<n])) @ file_text fs name"

text \<open>No two names share a file, and the next file is new.\<close>

definition fs_ok :: "file_system \<Rightarrow> bool" where
  "fs_ok fs \<longleftrightarrow>
     (\<forall>x i. fs_names fs x = Some i \<longrightarrow> i < fs_next fs) \<and>
     (\<forall>x y i. fs_names fs x = Some i \<longrightarrow> fs_names fs y = Some i \<longrightarrow> x = y)"

lemma fs_rename_ok: "fs_ok fs \<Longrightarrow> fs_ok (fs_rename old new fs)"
  unfolding fs_ok_def fs_rename_simps by (auto split: if_splits)

lemma rotate_loop_ok: "rotate_loop n name fs = Some fs' \<Longrightarrow> fs_ok fs \<Longrightarrow> fs_ok fs'"
  by (induction n arbitrary: fs) (auto simp: fs_rename_ok split: option.splits)

lemma shifted_texts:
  "concat (map (\<lambda>j. t (slot name j)) (rev [0..<m])) @ t name =
   t (previous name m) @ concat (map (\<lambda>j. t (previous name j)) (rev [0..<m]))"
  by (induction m) simp_all

text \<open>A rotation drops the oldest file when another one takes its place, and nothing else.\<close>

lemma rotated_text:
  assumes "rotated (Suc m) name (fs_names fs) (fs_names fs')" and "fs_data fs' = fs_data fs"
  shows "log_text (Suc m) name fs =
    (if fs_names fs (previous name m) = None then [] else file_text fs (slot name m)) @ log_text (Suc m) name fs'"
proof -
  have moved: "file_text fs' (slot name j) = file_text fs (previous name j)" if "j < m" for j
    using assms that by (simp add: rotated_def file_text_def split: option.split)
  have oldest: "file_text fs' (slot name m) =
      (if fs_names fs (previous name m) = None then file_text fs (slot name m) else file_text fs (previous name m))"
    using assms by (simp add: rotated_def file_text_def split: option.split)
  have "file_text fs' name = []"
    using assms(1) by (simp add: rotated_def file_text_def)
  moreover have "concat (map (\<lambda>j. file_text fs' (slot name j)) (rev [0..<m])) =
      concat (map (\<lambda>j. file_text fs (previous name j)) (rev [0..<m]))"
    using moved by (intro arg_cong [where f = concat] map_cong) simp_all
  ultimately show ?thesis
    using oldest shifted_texts [of "file_text fs" name m]
    by (simp add: log_text_def file_text_def [of fs "previous name m"])
qed

text \<open>
  The plugin between two calls, with every write flushed: the stream is the file of the log's name, or
  that file was just moved to the first slot and could not be replaced.
\<close>

definition file_ok :: "file_state \<Rightarrow> bool" where
  "file_ok s \<longleftrightarrow>
     (let name = fc_name (fi_cfg s); names = fs_names (fi_fs s) in
      fi_init_ok s \<and> fi_pending s = [] \<and> fs_ok (fi_fs s) \<and> 0 < fc_max_rotate (fi_cfg s) \<and>
      rotation_fits name (nat (fc_max_rotate (fi_cfg s))) \<and>
      (\<exists>i. fi_fp s = Stream i \<and>
         (names name = Some i \<or>
          names name = None \<and> names (slot name 0) = Some i \<and> fc_max_size (fi_cfg s) < length (fs_data (fi_fs s) i))))"

definition whole_log :: "file_state \<Rightarrow> string" where
  "whole_log s = log_text (nat (fc_max_rotate (fi_cfg s))) (fc_name (fi_cfg s)) (fi_fs s)"

text \<open>The file with the highest number, which a rotation may replace.\<close>

definition oldest_file :: "file_state \<Rightarrow> string" where
  "oldest_file s = file_text (fi_fs s) (slot (fc_name (fi_cfg s)) (nat (fc_max_rotate (fi_cfg s)) - 1))"

lemma file_text_append:
  assumes "fs_ok fs" and "fs_names fs name = Some i"
  shows "file_text (fs_append i s fs) x = (if x = name then file_text fs name @ s else file_text fs x)"
  using assms by (auto simp: file_text_def fs_append_def fs_ok_def split: option.split)

lemma log_text_append:
  assumes "fs_ok fs" and "fs_names fs name = Some i"
  shows "log_text n name (fs_append i s fs) = log_text n name fs @ s"
  by (simp add: log_text_def file_text_append [OF assms])

lemma fs_append_ok [simp]: "fs_ok (fs_append i s fs) = fs_ok fs" "fs_names (fs_append i s fs) = fs_names fs"
  by (simp_all add: fs_ok_def fs_append_def)

text \<open>Opening the log when its name is free.\<close>

lemma fs_open_new:
  assumes "fs_ok fs" and "fs_names fs name = None" and "fs_open name fs = (i, fs')"
  shows "fs_ok fs'" and "fs_names fs' = (fs_names fs)(name \<mapsto> i)" and "fs_data fs' i = []"
    and "log_text n name fs' = log_text n name fs"
proof -
  have i: "i = fs_next fs" "fs' = fs\<lparr>fs_names := (fs_names fs)(name \<mapsto> i), fs_data := (fs_data fs)(i := []),
      fs_next := i + 1\<rparr>"
    using assms(2,3) by (auto simp: fs_open_def)
  from i show "fs_names fs' = (fs_names fs)(name \<mapsto> i)" "fs_data fs' i = []"
    by simp_all
  have fresh: "fs_names fs x \<noteq> Some i" for x
    using assms(1) i(1) by (auto simp: fs_ok_def)
  have less: "fs_names fs x = Some j \<Longrightarrow> j < i + 1" for x j
    using assms(1) i(1) by (auto simp: fs_ok_def intro: less_SucI)
  show "fs_ok fs'"
    using assms(1) fresh less by (auto simp: fs_ok_def i(2))
  have "file_text fs' x = file_text fs x" for x
    using assms(2) fresh [of x] by (auto simp: file_text_def i(2) split: option.split)
  then show "log_text n name fs' = log_text n name fs"
    by (simp add: log_text_def)
qed

text \<open>Rolling over to a new file; without one, the stream stays with the file that was moved.\<close>

lemma file_roll_ok:
  assumes ok: "file_ok s" and size_limit: "fc_max_size (fi_cfg s) < file_size s"
  obtains s' where "file_roll opened s = Some (opened, s')" "file_ok s'" "fi_cfg s' = fi_cfg s" "fi_hook s' = fi_hook s"
    "\<exists>dropped. dropped \<in> {[], oldest_file s} \<and> whole_log s = dropped @ whole_log s'"
    "opened \<longrightarrow> file_size s' = 0 \<and> fs_names (fi_fs s') (fc_name (fi_cfg s)) \<noteq> None"
proof -
  let ?name = "fc_name (fi_cfg s)" and ?n = "nat (fc_max_rotate (fi_cfg s))"
  obtain m where m: "?n = Suc m"
    using ok by (cases ?n) (auto simp: file_ok_def Let_def)
  obtain i where i: "fi_fp s = Stream i" "fc_max_size (fi_cfg s) < length (fs_data (fi_fs s) i)"
      "fs_names (fi_fs s) ?name = Some i \<or> fs_names (fi_fs s) ?name = None \<and> fs_names (fi_fs s) (slot ?name 0) = Some i"
    using ok size_limit by (auto simp: file_ok_def file_size_def Let_def)
  have fits: "rotation_fits ?name ?n" "fs_ok (fi_fs s)" "fi_pending s = []" "fi_init_ok s"
    using ok by (simp_all add: file_ok_def Let_def)
  text \<open>After the rotation, if there was one.\<close>
  obtain fs where fs: "(if elog_file_retate_check s then elog_file_rotate s else Some s) = Some (s\<lparr>fi_fs := fs\<rparr>)"
      "fs_ok fs" "fs_data fs = fs_data (fi_fs s)" "fs_names fs ?name = None" "fs_names fs (slot ?name 0) = Some i"
      "\<exists>dropped. dropped \<in> {[], oldest_file s} \<and> whole_log s = dropped @ log_text ?n ?name fs"
  proof (cases "fs_names (fi_fs s) ?name")
    case None
    then show thesis
      using i fits by (intro that [of "fi_fs s"]) (simp_all add: elog_file_retate_check_def whole_log_def)
  next
    case (Some i')
    with i(3) have named: "fs_names (fi_fs s) ?name = Some i"
      by auto
    from rotate_loop_rotated [OF fits(1), of "fi_fs s"] obtain fs where
      fs: "rotate_loop ?n ?name (fi_fs s) = Some fs" "fs_data fs = fs_data (fi_fs s)"
        "rotated ?n ?name (fs_names (fi_fs s)) (fs_names fs)"
      by blast
    have "length ?name \<le> PATH_LEN"
      using fits(1) by (simp add: rotation_fits_def)
    with fs(1) named i(2) have "(if elog_file_retate_check s then elog_file_rotate s else Some s) = Some (s\<lparr>fi_fs := fs\<rparr>)"
      by (simp add: elog_file_retate_check_def elog_file_rotate_def Let_def)
    moreover have "fs_names fs ?name = None" "fs_names fs (slot ?name 0) = Some i"
      using fs(3) named unfolding m by (simp_all add: rotated_def)
    moreover have "\<exists>dropped. dropped \<in> {[], oldest_file s} \<and> whole_log s = dropped @ log_text ?n ?name fs"
      using rotated_text [OF fs(3) [unfolded m] fs(2)] unfolding whole_log_def oldest_file_def m by auto
    ultimately show thesis
      using that fs(2) rotate_loop_ok [OF fs(1) fits(2)] by blast
  qed
  show thesis
  proof (cases opened)
    case False
    with fs ok i(1,2) fits show thesis
      by (intro that [of "s\<lparr>fi_fs := fs\<rparr>"])
        (auto simp: file_roll_def elog_file_reopen_def file_ok_def Let_def whole_log_def)
  next
    case True
    obtain j fs' where j: "fs_open ?name fs = (j, fs')"
      by fastforce
    note opened = fs_open_new [OF fs(2,4) j]
    let ?s = "s\<lparr>fi_fp := Stream j, fi_pending := [], fi_fs := fs_append i [] fs'\<rparr>"
    have same: "fs_append i [] fs' = fs'"
      by (simp add: fs_append_def)
    have "file_roll opened s = Some (True, ?s)"
      using True fs(1) j i(1) fits(3)
      by (simp add: file_roll_def elog_file_reopen_def file_close_def Let_def)
    moreover have "file_ok ?s"
      using ok opened(1,2) fits by (simp add: file_ok_def Let_def)
    moreover have "whole_log ?s = log_text ?n ?name fs"
      using opened(4) by (simp add: whole_log_def same)
    moreover have "file_size ?s = 0"
      using opened(3) by (simp add: file_size_def same)
    ultimately show thesis
      using True fs(6) opened(2) by (intro that [of ?s]) (simp_all add: same)
  qed
qed

text \<open>Putting a record into the current file.\<close>

lemma file_put_ok:
  assumes "file_ok s" and "fb_flush build" and "fs_names (fi_fs s) (fc_name (fi_cfg s)) \<noteq> None"
  obtains s' where "file_put build out log s = Some s'" "file_ok s'" "whole_log s' = whole_log s @ log"
    "fi_cfg s' = fi_cfg s" "file_size s' = file_size s + length log"
proof -
  let ?name = "fc_name (fi_cfg s)"
  obtain i where i: "fi_fp s = Stream i" "fs_names (fi_fs s) ?name = Some i"
    using assms(1,3) by (auto simp: file_ok_def Let_def)
  let ?s = "s\<lparr>fi_pending := [], fi_fs := fs_append i log (fi_fs s)\<rparr>"
  have fits: "fs_ok (fi_fs s)" "fi_pending s = []"
    using assms(1) by (simp_all add: file_ok_def Let_def)
  show thesis
  proof (rule that)
    show "file_put build out log s = Some ?s"
      using i fits(2) assms(2) by (simp add: file_put_def Let_def)
    show "file_ok ?s"
      using assms(1) i by (simp add: file_ok_def Let_def)
    show "whole_log ?s = whole_log s @ log"
      using log_text_append [OF fits(1) i(2)] by (simp add: whole_log_def)
    show "file_size ?s = file_size s + length log"
      using i(1) by (simp add: file_size_def fs_append_def)
  qed simp
qed

text \<open>
  C29: With rotation and flushed writes, a write always returns and releases the lock; it drops at most
  the oldest file from the front of the log, and only when the current file has outgrown the
  limit; the record is appended at the end of the log (it is dropped only when a new file
  was due and could not be opened); and the file it is written to exceeds the limit by
  no more than this record.
\<close>

theorem file_write_keeps_recent_log:
  assumes "file_ok s" and "fb_flush build" and "fb_rotates build"
  shows "\<exists>s'. elog_file_write build opened out log s = Inr ((), [Port_lock, Port_unlock], s') \<and> file_ok s' \<and>
    (\<exists>dropped recent. whole_log s = dropped @ recent \<and> dropped \<in> {[], oldest_file s} \<and>
       (dropped \<noteq> [] \<longrightarrow> fc_max_size (fi_cfg s) < file_size s) \<and>
       (if opened \<or> file_size s \<le> fc_max_size (fi_cfg s)
        then whole_log s' = recent @ log \<and> file_size s' \<le> fc_max_size (fi_cfg s) + length log
        else whole_log s' = recent))"
proof (cases "fc_max_size (fi_cfg s) < file_size s")
  case True
  obtain s1 where s1: "file_roll opened s = Some (opened, s1)" "file_ok s1" "fi_cfg s1 = fi_cfg s"
      "\<exists>dropped. dropped \<in> {[], oldest_file s} \<and> whole_log s = dropped @ whole_log s1"
      "opened \<longrightarrow> file_size s1 = 0 \<and> fs_names (fi_fs s1) (fc_name (fi_cfg s)) \<noteq> None"
    by (rule file_roll_ok [OF assms(1) True, of opened])
  from assms(1) have start: "fi_init_ok s" "fi_fp s \<noteq> Dangling"
    by (auto simp: file_ok_def Let_def)
  show ?thesis
  proof (cases opened)
    case False
    with True s1 start assms(3) show ?thesis
      by (auto simp: elog_file_write_def file_assert_fails_def)
  next
    case opened: True
    have "fs_names (fi_fs s1) (fc_name (fi_cfg s1)) \<noteq> None"
      using s1(3,5) opened by simp
    from file_put_ok [OF s1(2) assms(2) this] obtain s' where
      "file_put build out log s1 = Some s'" "file_ok s'" "whole_log s' = whole_log s1 @ log"
      "file_size s' = file_size s1 + length log"
      by blast
    with True opened s1 start assms(3) show ?thesis
      by (auto simp: elog_file_write_def file_assert_fails_def)
  qed
next
  case False
  from assms(1) have start: "fi_init_ok s" "fi_fp s \<noteq> Dangling" "fs_names (fi_fs s) (fc_name (fi_cfg s)) \<noteq> None"
    using False by (auto simp: file_ok_def file_size_def Let_def)
  from file_put_ok [OF assms(1,2) start(3)] obtain s' where
    "file_put build out log s = Some s'" "file_ok s'" "whole_log s' = whole_log s @ log"
    "file_size s' = file_size s + length log"
    by blast
  with False start show ?thesis
    by (intro exI [of _ s']) (auto simp: elog_file_write_def file_assert_fails_def)
qed

section \<open>Initialisation and errors\<close>

text \<open>Static storage, on a given file system.\<close>

definition file_initial :: "file_system \<Rightarrow> file_state" where
  "file_initial fs =
     \<lparr>fi_init_ok = False, fi_fp = Null, fi_pending = [], fi_cfg = \<lparr>fc_name = [], fc_max_size = 0, fc_max_rotate = 0\<rparr>,
      fi_hook = False, fi_fs = fs\<rparr>"

lemma fs_open_ok:
  assumes "fs_ok fs" and "fs_open name fs = (i, fs')"
  shows "fs_ok fs'" and "fs_names fs' name = Some i"
proof -
  have "fs_ok fs' \<and> fs_names fs' name = Some i"
  proof (cases "fs_names fs name")
    case None
    with fs_open_new(1,2) [OF assms(1) None assms(2)] show ?thesis
      by simp
  next
    case (Some j)
    with assms show ?thesis
      by (simp add: fs_open_def)
  qed
  then show "fs_ok fs'" and "fs_names fs' name = Some i"
    by simp_all
qed

lemma file_init_ok:
  assumes "fs_ok fs" and "0 < fc_max_rotate (fb_default build)"
    and "rotation_fits (fc_name (fb_default build)) (nat (fc_max_rotate (fb_default build)))"
  shows "\<exists>s. elog_file_init build True (file_initial fs) = Inr ((), [Port_lock, Port_unlock], s) \<and> file_ok s \<and>
    fi_cfg s = fb_default build \<and> elog_file_init build opened s = Inr ((), [], s)"
proof -
  obtain i fs' where o: "fs_open (fc_name (fb_default build)) fs = (i, fs')"
    by fastforce
  show ?thesis
    using fs_open_ok [OF assms(1) o] assms(2,3) o
    by (simp add: elog_file_init_def elog_file_config_def file_initial_def file_ok_def Let_def)
qed

text \<open>When the log cannot be opened, the first write goes through a null stream.\<close>

lemma unopened_write_faults:
  "\<exists>s. elog_file_init build False (file_initial fs) = Inr ((), [Port_lock, Port_unlock], s) \<and>
     elog_file_write build opened out log s = Inl Memory_fault"
  by (simp add: elog_file_init_def elog_file_config_def file_initial_def elog_file_write_def file_assert_fails_def
      file_size_def file_put_def)

text \<open>After \<open>elog_file_deinit\<close> the plugin still counts as initialised, and uses its closed stream.\<close>

lemma use_after_deinit:
  assumes "elog_file_deinit s = Inr ((), evs, s')" and "fi_init_ok s"
  shows "elog_file_init build opened s' = Inr ((), [], s') \<and>
    elog_file_write build opened out log s' = Inl Memory_fault \<and>
    elog_file_config cfg opened s' = Inl Memory_fault \<and> elog_file_deinit s' = Inl Memory_fault"
proof -
  from assms have "fi_fp s' = Dangling" "fi_init_ok s'"
    by (auto simp: elog_file_deinit_def file_close_def split: if_splits option.splits file_pointer.splits)
  then show ?thesis
    by (simp add: elog_file_init_def elog_file_write_def elog_file_config_def elog_file_deinit_def
        file_assert_fails_def file_close_def)
qed

text \<open>
  Without rotation, a write to a full log returns with the port's lock held, and the next call locks it
  again and never returns.
\<close>

lemma no_rotation_keeps_lock:
  assumes "fi_init_ok s" and "fi_fp s = Stream i" and "fc_max_size (fi_cfg s) < file_size s"
    and "\<not> fb_rotates build"
  shows "elog_file_write build opened out log s = Inr ((), [Port_lock], s) \<and>
    mutex_run False ([Port_lock] @ [Port_lock]) = None"
  using assms by (simp add: elog_file_write_def file_assert_fails_def)

text \<open>Without the flush of every write, the size that is checked leaves out what \<open>stdio\<close> keeps back.\<close>

lemma unflushed_writes_unnoticed:
  assumes "fi_init_ok s" and "fi_fp s = Stream i" and "file_size s \<le> fc_max_size (fi_cfg s)" and "\<not> fb_flush build"
  shows "\<exists>s'. elog_file_write build opened 0 log s = Inr ((), [Port_lock, Port_unlock], s') \<and>
    file_size s' = file_size s \<and> fi_pending s' = fi_pending s @ log"
  using assms by (simp add: elog_file_write_def file_assert_fails_def file_put_def file_size_def fs_append_def Let_def)

section \<open>An example\<close>

definition example_build :: file_build where
  "example_build =
     \<lparr>fb_default = \<lparr>fc_name = ''log'', fc_max_size = 3, fc_max_rotate = 2\<rparr>, fb_flush = True, fb_rotates = True\<rparr>"

definition example_files :: file_state where
  "example_files =
     \<lparr>fi_init_ok = True, fi_fp = Stream 1, fi_pending = [], fi_cfg = fb_default example_build, fi_hook = False,
      fi_fs = \<lparr>fs_names = [''log'' \<mapsto> 1, ''log.0'' \<mapsto> 0], fs_data = (\<lambda>i. if i = 0 then ''old'' else ''full''), fs_next = 2\<rparr>\<rparr>"

lemma example_files_ok: "file_ok example_files"
  by (auto simp: file_ok_def example_files_def example_build_def fs_ok_def rotation_fits_def PATH_LEN_def
      split: if_splits)

theorem file_write_keeps_recent_log_witness:
  "\<exists>s' dropped recent. elog_file_write example_build True 0 ''new'' example_files =
      Inr ((), [Port_lock, Port_unlock], s') \<and>
    whole_log example_files = dropped @ recent \<and> whole_log s' = recent @ ''new''"
proof -
  have "fb_flush example_build" "fb_rotates example_build"
    by (simp_all add: example_build_def)
  from file_write_keeps_recent_log [OF example_files_ok this, of True 0 "''new''"] show ?thesis
    by auto
qed

end
