(* ===== verification/Tools_Text.thy ===== *)
theory Tools_Text
  imports RC_Text Platform_Error
begin

text \<open>
  What the command line tools under \<open>src/tools\<close> use of \<open>std::string_view\<close>, of \<open>std::from_chars\<close> for
  unsigned numbers and of the stream manipulators, and the lines they print.  The lemmas show that a
  number that was printed is read back, and that nothing else but its digits is accepted.
\<close>

section \<open>Lines on the two streams\<close>

datatype console_line = Out string | Err string

definition endl :: char where "endl = CHR 0x0A"
definition dquote :: char where "dquote = CHR 0x22"

definition ERANGE :: int where "ERANGE = 34"

section \<open>Views of strings\<close>

definition starts_with :: "string \<Rightarrow> string \<Rightarrow> bool" where
  "starts_with s p \<longleftrightarrow> take (length p) s = p"

text \<open>\<open>find\<close> from a position on; \<open>None\<close> is \<open>npos\<close>.\<close>

definition view_find :: "char \<Rightarrow> nat \<Rightarrow> string \<Rightarrow> nat option" where
  "view_find c pos s =
     (let before = takeWhile (\<lambda>x. x \<noteq> c) (drop pos s)
      in if pos + length before < length s then Some (pos + length before) else None)"

section \<open>Numbers\<close>

definition digit_value :: "nat \<Rightarrow> char \<Rightarrow> nat option" where
  "digit_value base c =
     (let n = of_char c;
          v = (if 48 \<le> n \<and> n \<le> 57 then n - 48 else if 65 \<le> n \<and> n \<le> 90 then n - 55
               else if 97 \<le> n \<and> n \<le> 122 then n - 87 else base)
      in if v < base then Some v else None)"

definition is_digit :: "nat \<Rightarrow> char \<Rightarrow> bool" where
  "is_digit base c \<longleftrightarrow> digit_value base c \<noteq> None"

fun digits_value :: "nat \<Rightarrow> nat \<Rightarrow> string \<Rightarrow> nat" where
  "digits_value base n [] = n"
| "digits_value base n (c # cs) = digits_value base (base * n + the (digit_value base c)) cs"

text \<open>
  \<open>std::from_chars\<close>: the longest prefix of digits is read; without a digit, or when the number does
  not fit, nothing is stored.  A value comes with the text that follows it.
\<close>

datatype chars_result = Chars_invalid | Chars_out_of_range | Chars_value nat string

definition from_chars :: "nat \<Rightarrow> nat \<Rightarrow> string \<Rightarrow> chars_result" where
  "from_chars base largest s =
     (let ds = takeWhile (is_digit base) s; n = digits_value base 0 ds
      in if ds = [] then Chars_invalid
         else if n > largest then Chars_out_of_range
         else Chars_value n (drop (length ds) s))"

text \<open>Output with \<open>std::hex\<close>, and with a width filled with zeros.\<close>

definition hex_digit :: "nat \<Rightarrow> char" where
  "hex_digit d = (if d < 10 then char_of (48 + d) else char_of (87 + d))"

fun std_hex :: "nat \<Rightarrow> string" where
  "std_hex n = (if n < 16 then [hex_digit n] else std_hex (n div 16) @ [hex_digit (n mod 16)])"

declare std_hex.simps [simp del]

definition zero_filled :: "nat \<Rightarrow> string \<Rightarrow> string" where
  "zero_filled width s = replicate (width - length s) (CHR ''0'') @ s"

section \<open>Reading what was printed\<close>

lemma digits_value_append [simp]:
  "digits_value base n (xs @ ys) = digits_value base (digits_value base n xs) ys"
  by (induction xs arbitrary: n) simp_all

lemma digit_value_hex_digit: "d < 16 \<Longrightarrow> digit_value 16 (hex_digit d) = Some d"
  by (simp add: digit_value_def hex_digit_def Let_def)

lemma digit_value_digit_char: "d < 10 \<Longrightarrow> digit_value 10 (digit_char d) = Some d"
  by (simp add: digit_value_def digit_char_def Let_def)

lemma printed_digits:
  "d < 16 \<Longrightarrow> is_digit 16 (hex_digit d)" "d < 10 \<Longrightarrow> is_digit 10 (digit_char d)"
  by (simp_all add: is_digit_def digit_value_hex_digit digit_value_digit_char)

lemma std_hex_digits:
  "std_hex n \<noteq> [] \<and> list_all (is_digit 16) (std_hex n) \<and> digits_value 16 0 (std_hex n) = n"
proof (induction n rule: std_hex.induct)
  case (1 n)
  have "n mod 16 < 16" by simp
  with 1 show ?case
    by (subst (1 2 3) std_hex.simps) (simp_all add: printed_digits digit_value_hex_digit)
qed

lemma decimal_step:
  "decimal n = (if n < 10 then [digit_char n] else decimal (n div 10) @ [digit_char (n mod 10)])"
  unfolding decimal_def by (subst digits_rev.simps) simp

lemma decimal_digits:
  "decimal n \<noteq> [] \<and> list_all (is_digit 10) (decimal n) \<and> digits_value 10 0 (decimal n) = n"
proof (induction n rule: less_induct)
  case (less n)
  have "n mod 10 < 10" by simp
  with less [of "n div 10"] show ?case
    by (cases "n < 10"; subst (1 2 3) decimal_step) (simp_all add: printed_digits digit_value_digit_char)
qed

lemma from_chars_digits:
  assumes "ds \<noteq> []" and "list_all (is_digit base) ds" and "rest = [] \<or> \<not> is_digit base (hd rest)"
  shows "from_chars base largest (ds @ rest) =
    (if digits_value base 0 ds > largest then Chars_out_of_range else Chars_value (digits_value base 0 ds) rest)"
proof -
  from assms(3) have "takeWhile (is_digit base) rest = []"
    by (cases rest) simp_all
  with assms(2) have "takeWhile (is_digit base) (ds @ rest) = ds"
    by (simp add: takeWhile_append list_all_iff)
  with assms(1) show ?thesis
    by (simp add: from_chars_def Let_def)
qed

lemma from_chars_decimal:
  "from_chars 10 largest (decimal n) = (if n > largest then Chars_out_of_range else Chars_value n [])"
  using from_chars_digits [of "decimal n" 10 "[]" largest] decimal_digits [of n] by simp

lemma from_chars_hex:
  "from_chars 16 largest (std_hex n) = (if n > largest then Chars_out_of_range else Chars_value n [])"
  using from_chars_digits [of "std_hex n" 16 "[]" largest] std_hex_digits [of n] by simp

text \<open>A text is read as a whole exactly when it consists of digits and its value fits.\<close>

lemma from_chars_whole:
  "from_chars base largest s = Chars_value n [] \<longleftrightarrow>
   s \<noteq> [] \<and> list_all (is_digit base) s \<and> n = digits_value base 0 s \<and> n \<le> largest"
proof
  let ?ds = "takeWhile (is_digit base) s"
  assume r: "from_chars base largest s = Chars_value n []"
  then have "?ds \<noteq> []" "drop (length ?ds) s = []" "n = digits_value base 0 ?ds" "n \<le> largest"
    by (auto simp: from_chars_def Let_def split: if_splits)
  moreover from this(2) have "?ds = s"
    by (metis append_Nil2 dropWhile_eq_drop takeWhile_dropWhile_id)
  ultimately show "s \<noteq> [] \<and> list_all (is_digit base) s \<and> n = digits_value base 0 s \<and> n \<le> largest"
    by (metis list_all_iff set_takeWhileD)
next
  assume "s \<noteq> [] \<and> list_all (is_digit base) s \<and> n = digits_value base 0 s \<and> n \<le> largest"
  then show "from_chars base largest s = Chars_value n []"
    using from_chars_digits [of s base "[]" largest] by simp
qed

lemma largest_values:
  "unat (- 1 :: u8) = 255" "unat (- 1 :: u16) = 65535" "unat (- 1 :: u32) = 4294967295"
  by (simp_all add: unsigned_minus_1_eq_mask mask_eq_exp_minus_1)

lemma digits_free: "list_all (is_digit base) s \<Longrightarrow> \<not> is_digit base c \<Longrightarrow> c \<notin> set s"
  by (auto simp: list_all_iff)

lemma separators_not_digits [simp]:
  "\<not> is_digit 10 (CHR '','')" "\<not> is_digit 16 (CHR '':'')" "\<not> is_digit 10 (CHR ''-'')"
  by (simp_all add: is_digit_def digit_value_def)

lemma starts_with_digits: "list_all (is_digit 10) s \<Longrightarrow> \<not> starts_with s ''--''"
  by (cases s) (auto simp: starts_with_def)

lemma view_find_here: "c \<notin> set xs \<Longrightarrow> view_find c (length pre) (pre @ xs @ c # ys) = Some (length pre + length xs)"
proof -
  assume "c \<notin> set xs"
  then have "takeWhile (\<lambda>x. x \<noteq> c) (xs @ c # ys) = xs"
    by (induction xs) auto
  then show ?thesis
    by (simp add: view_find_def)
qed

lemma view_find_absent: "c \<notin> set xs \<Longrightarrow> view_find c (length pre) (pre @ xs) = None"
proof -
  assume "c \<notin> set xs"
  then have "takeWhile (\<lambda>x. x \<noteq> c) xs = xs"
    by (induction xs) auto
  then show ?thesis
    by (simp add: view_find_def Let_def del: takeWhile_eq_all_conv)
qed

end
