(* ===== verification/Tools_Observer.thy ===== *)
theory Tools_Observer
  imports Tools_Text Platform_Serial Canopen_Lifecycle "HOL-Library.Sublist"
begin

text \<open>
  \<open>src/tools/canopen_observer/main.cpp\<close> and \<open>observer_log.c\<close>: the program that watches the remote node.  It reads its
  configuration from the command line, owns the CAN connection until a deadline or a signal, and
  prints every snapshot whose version differs from the last one it printed.  The lemmas show that
  the options are read back in whatever order they are given, that nothing is opened with an
  invalid configuration, that a run prints each version once, and why it ends.
\<close>

section \<open>Options\<close>

record observer_options =
  op_stack :: stack_config
  op_duration :: int

definition default_observer_options :: observer_options where
  "default_observer_options = \<lparr>op_stack = default_stack_config, op_duration = 1000\<rparr>"

definition maximum_duration_ms :: int where "maximum_duration_ms = 60000"
definition observation_step :: time_ns where "observation_step = 10000000"

definition argument_error :: "string \<Rightarrow> status" where
  "argument_error context = from_errno ''parse_arguments'' context EINVAL"

text \<open>The template, at the type of the field that the value is for.\<close>

definition parse_unsigned :: "string \<Rightarrow> 'a::len word option" where
  "parse_unsigned s =
     (case from_chars 10 (2 ^ 64 - 1) s of
        Chars_value n rest \<Rightarrow>
          if s = [] \<or> rest \<noteq> [] \<or> n > unat (- 1 :: 'a word) then None else Some (word_of_nat n)
      | _ \<Rightarrow> None)"

text \<open>The values that are left to read, from a position on, and the position after them.\<close>

fun dlc_values :: "nat \<Rightarrow> nat \<Rightarrow> string \<Rightarrow> (u8 list \<times> nat) option" where
  "dlc_values 0 pos s = Some ([], pos)"
| "dlc_values (Suc n) pos s =
     (let comma = view_find (CHR '','') pos s in
      if n > 0 \<and> comma = None \<or> n = 0 \<and> comma \<noteq> None then None
      else let token = (case comma of None \<Rightarrow> drop pos s | Some e \<Rightarrow> take (e - pos) (drop pos s)) in
        (case parse_unsigned token of
           None \<Rightarrow> None
         | Some v \<Rightarrow>
             if v > 8 then None
             else map_option (\<lambda>(vs, p). (v # vs, p))
               (dlc_values n (case comma of None \<Rightarrow> length s | Some e \<Rightarrow> e + 1) s)))"

definition parse_tpdo_dlc :: "string \<Rightarrow> u8 list option" where
  "parse_tpdo_dlc s =
     (case dlc_values 4 0 s of
        None \<Rightarrow> None
      | Some (values, pos) \<Rightarrow> if pos = length s then Some values else None)"

text \<open>
  One option with its value: None when it is unknown; otherwise its slot, and the new options
  unless the value is invalid.
\<close>

definition observer_option ::
  "string \<Rightarrow> string \<Rightarrow> observer_options \<Rightarrow> (nat \<times> observer_options option) option" where
  "observer_option argument v opts =
     (let c = op_stack opts;
          stack = (\<lambda>slot c. Some (slot, map_option (\<lambda>c. opts\<lparr>op_stack := c\<rparr>) c));
          ms = map_option uint (parse_unsigned v :: u16 option)
      in if argument = ''--interface'' then stack 0 (Some (c\<lparr>interface_name := v\<rparr>))
      else if argument = ''--controller-node''
      then stack 1 (map_option (\<lambda>n. c\<lparr>controller_node_id := n\<rparr>) (parse_unsigned v))
      else if argument = ''--remote-node''
      then stack 2 (map_option (\<lambda>n. c\<lparr>remote_node_id := n\<rparr>) (parse_unsigned v))
      else if argument = ''--bitrate-kbit''
      then stack 3 (map_option (\<lambda>n. c\<lparr>bit_rate_kbit_s := n\<rparr>) (parse_unsigned v))
      else if argument = ''--heartbeat-timeout-ms'' then stack 4 (map_option (\<lambda>t. c\<lparr>heartbeat_timeout := t\<rparr>) ms)
      else if argument = ''--sdo-timeout-ms'' then stack 5 (map_option (\<lambda>t. c\<lparr>sdo_timeout := t\<rparr>) ms)
      else if argument = ''--tpdo-timeout-ms'' then stack 6 (map_option (\<lambda>t. c\<lparr>tpdo_timeout := t\<rparr>) ms)
      else if argument = ''--tpdo-dlc''
      then stack 7 (map_option (\<lambda>d. c\<lparr>tpdo_expected_dlc := d\<rparr>) (parse_tpdo_dlc v))
      else if argument = ''--duration-ms''
      then Some (8, case (parse_unsigned v :: u32 option) of
             None \<Rightarrow> None
           | Some n \<Rightarrow> if n > 0 \<and> uint n \<le> maximum_duration_ms then Some (opts\<lparr>op_duration := uint n\<rparr>) else None)
      else None)"

text \<open>The loop over the arguments, with the slots that were seen.\<close>

fun observer_arguments ::
  "string list \<Rightarrow> observer_options \<Rightarrow> bool list \<Rightarrow> status + observer_options \<times> bool list" where
  "observer_arguments [] opts seen = Inr (opts, seen)"
| "observer_arguments [a] opts seen = Inl (argument_error (''missing value argument='' @ a))"
| "observer_arguments (a # v # rest) opts seen =
     (if starts_with v ''--'' then Inl (argument_error (''missing value argument='' @ a))
      else case observer_option a v opts of
        None \<Rightarrow> Inl (argument_error (''unknown argument='' @ a))
      | Some (slot, None) \<Rightarrow> Inl (argument_error (''invalid value argument='' @ a))
      | Some (slot, Some opts') \<Rightarrow>
          if seen ! slot then Inl (argument_error (''duplicate argument='' @ a))
          else observer_arguments rest opts' (seen[slot := True]))"

definition observer_parse_options :: "string list \<Rightarrow> observer_options outcome" where
  "observer_parse_options args =
     (case observer_arguments args default_observer_options (replicate 9 False) of
        Inl st \<Rightarrow> outcome_failure st
      | Inr (opts, seen) \<Rightarrow>
          if list_ex Not (take 8 seen)
          then outcome_failure (argument_error ''missing required observer configuration'')
          else let st = validate_stack_config (op_stack opts)
            in if status_ok st then outcome_success opts else outcome_failure st)"

section \<open>Lines\<close>

definition observer_usage :: console_line where
  "observer_usage = Out (
     ''Usage: robot-control-canopen-observer --interface IFACE --controller-node N --remote-node N'' @ [endl] @
     ''       --bitrate-kbit N --heartbeat-timeout-ms N --sdo-timeout-ms N'' @ [endl] @
     ''       --tpdo-timeout-ms N --tpdo-dlc D1,D2,D3,D4 [--duration-ms N]'' @ [endl])"

definition payload_hex :: "raw_canopen_frame \<Rightarrow> string" where
  "payload_hex raw = concat (map (\<lambda>v. zero_filled 2 (std_hex (unat v))) (rf_payload raw))"

definition observed_frame_line :: "string \<Rightarrow> frame_observation \<Rightarrow> console_line list" where
  "observed_frame_line service ob =
     (if \<not> fo_present ob then []
      else let raw = fo_raw ob in
        [Out (''event=observation service='' @ service @ '' current='' @ (if fo_current ob then ''1'' else ''0'') @
           '' raw_can_id=0x'' @ zero_filled 8 (std_hex (unat (rf_identifier raw))) @
           '' dlc='' @ decimal (unat (rf_dlc raw)) @ '' payload='' @ payload_hex raw @
           '' timestamp_ns='' @ decimal_int (rf_received_at raw) @
           '' transport='' @ decimal (unat (og_transport (rf_generation raw))) @
           '' boot='' @ decimal (unat (og_boot (rf_generation raw))) @ [endl])])"

definition snapshot_header :: "observation_snapshot \<Rightarrow> console_line" where
  "snapshot_header v =
     Out (''event=snapshot version='' @ decimal (unat (ob_version v)) @
       '' transport='' @ decimal (unat (og_transport (ob_generation v))) @
       '' boot='' @ decimal (unat (og_boot (ob_generation v))) @
       '' malformed_count='' @ decimal (unat (ob_malformed_count v)) @
       '' replay_count='' @ decimal (unat (ob_replay_count v)) @
       '' sdo_rejection_count='' @ decimal (unat (ob_sdo_rejection_count v)) @ [endl])"

definition snapshot_lines :: "observation_snapshot \<Rightarrow> console_line list" where
  "snapshot_lines v =
     snapshot_header v #
     observed_frame_line ''boot'' (ob_boot v) @
     observed_frame_line ''nmt''
       \<lparr>fo_present = nmt_present (ob_nmt v), fo_current = nmt_current (ob_nmt v), fo_raw = nmt_raw (ob_nmt v)\<rparr> @
     observed_frame_line ''heartbeat'' (hb_frame (ob_heartbeat v)) @
     observed_frame_line ''emcy'' (em_frame (ob_emergency v)) @
     observed_frame_line ''sdo'' (sdo_frame (ob_sdo_result v)) @
     observed_frame_line ''sdo_rejected'' (ob_sdo_rejected v) @
     concat (map (\<lambda>i. observed_frame_line (''tpdo'' @ decimal (i + 1)) (ob_tpdo v ! i)) [0..<length (ob_tpdo v)]) @
     observed_frame_line ''malformed'' (ob_malformed v) @
     observed_frame_line ''can_error'' (ob_can_error v)"

text \<open>The message of an error number comes from the C library.\<close>

definition observer_error :: "(int \<Rightarrow> string) \<Rightarrow> status \<Rightarrow> console_line" where
  "observer_error message st =
     Err (''event=error operation='' @ operation st @ '' context='' @ [dquote] @ status_context st @ [dquote] @
       '' errno='' @ decimal_int (error_code st) @ '' message='' @ [dquote] @ message (error_code st) @ [dquote] @
       [endl])"

definition observer_start :: "observer_options \<Rightarrow> console_line" where
  "observer_start opts =
     Out (''event=start observer_version=1 interface='' @ interface_name (op_stack opts) @
       '' controller='' @ decimal (unat (controller_node_id (op_stack opts))) @
       '' remote='' @ decimal (unat (remote_node_id (op_stack opts))) @
       '' duration_ms='' @ decimal_int (op_duration opts) @ [endl])"

definition observer_summary :: "string \<Rightarrow> u64 \<Rightarrow> console_line" where
  "observer_summary reason version =
     Out (''event=summary reason='' @ reason @ '' version='' @ decimal (unat version) @ [endl])"

text \<open>\<open>log_printf\<close> of \<open>observer_log.c\<close>: what CANopenNode reports is not printed.\<close>

definition observer_log_printf :: "int \<Rightarrow> string \<Rightarrow> console_line list" where
  "observer_log_printf priority formatted = []"

section \<open>Running\<close>

text \<open>One turn: the clock, the turns of the owner's loop, the clock of the snapshot and the clock after it.\<close>

record observer_turn =
  ot_now :: time_ns
  ot_turns :: "turn_answers list"
  ot_snapshot :: time_ns
  ot_end :: time_ns

text \<open>The exit code, or None while the run goes on; the lines; and the owner.\<close>

fun observer_loop ::
  "(int \<Rightarrow> string) \<Rightarrow> time_ns \<Rightarrow> observer_turn list \<Rightarrow> u64 \<Rightarrow> lifecycle \<Rightarrow>
     int option \<times> console_line list \<times> lifecycle" where
  "observer_loop message deadline [] printed s = (None, [], s)"
| "observer_loop message deadline (t # ts) printed s =
     (let (r, calls, s) = run_until (min deadline (ot_now t + observation_step)) (ot_turns t) s in
      case r of
        None \<Rightarrow> (None, [], s)
      | Some r \<Rightarrow>
          (case outcome_value r of
             None \<Rightarrow> (Some 1, [observer_error message (outcome_status r)], s)
           | Some e \<Rightarrow>
               let v = observation_snapshot_of (ot_snapshot t) s;
                   out = (if ob_version v \<noteq> printed then snapshot_lines v else []);
                   printed = (if ob_version v \<noteq> printed then ob_version v else printed)
               in if e = Exit_deadline \<and> ot_end t \<ge> deadline
                  then (Some 0, out @ [observer_summary ''deadline'' printed], s)
                  else if e = Exit_sigint \<or> e = Exit_sigterm
                  then let signal = (if e = Exit_sigint then Canopen_Lifecycle.SIGINT else Canopen_Lifecycle.SIGTERM)
                    in (Some (128 + signal),
                        out @ [observer_summary (''signal signal='' @ decimal_int signal) printed], s)
                  else if e \<noteq> Exit_deadline then (Some 1, out @ [observer_summary ''owner-exit'' printed], s)
                  else let (code, rest, s) = observer_loop message deadline ts printed s
                    in (code, out @ rest, s)))"

record observer_answers =
  ova_termination :: termination_answers
  ova_create :: create_answers
  ova_start :: time_ns
  ova_turns :: "observer_turn list"

text \<open>At its end the program destroys the owner.  The inherited signal mask plays no part.\<close>

definition run_observer ::
  "(int \<Rightarrow> string) \<Rightarrow> observer_answers \<Rightarrow> observer_options \<Rightarrow> od_process \<Rightarrow>
     int option \<times> console_line list \<times> od_process" where
  "run_observer message a opts p =
     (let termination = fst (termination_create (ova_termination a) {}) in
      case outcome_value termination of
        None \<Rightarrow> (Some 1, [observer_error message (outcome_status termination)], p)
      | Some fd \<Rightarrow>
          let (owner, calls, p) = lifecycle_create (ova_create a) (op_stack opts) fd p in
          (case outcome_value owner of
             None \<Rightarrow> (Some 1, [observer_error message (outcome_status owner)], p)
           | Some s \<Rightarrow>
               let (code, out, s) = observer_loop message (ova_start a + op_duration opts * nanoseconds_per_millisecond)
                     (ova_turns a) 0 s
               in (code, observer_start opts # out, if code = None then lc_process s else snd (lifecycle_destroy s))))"

definition observer_main ::
  "(int \<Rightarrow> string) \<Rightarrow> observer_answers \<Rightarrow> string list \<Rightarrow> od_process \<Rightarrow>
     int option \<times> console_line list \<times> od_process" where
  "observer_main message a args p =
     (if args = [''--help''] then (Some 0, [observer_usage], p)
      else let parsed = observer_parse_options args in
        case outcome_value parsed of
          None \<Rightarrow> (Some 2, [observer_error message (outcome_status parsed), observer_usage], p)
        | Some opts \<Rightarrow> run_observer message a opts p)"

section \<open>The options are read back\<close>

text \<open>The command line that gives some options, in any order.\<close>

definition observer_option_names :: "string list" where
  "observer_option_names =
     [''--interface'', ''--controller-node'', ''--remote-node'', ''--bitrate-kbit'', ''--heartbeat-timeout-ms'',
      ''--sdo-timeout-ms'', ''--tpdo-timeout-ms'', ''--tpdo-dlc'', ''--duration-ms'']"

fun comma_separated :: "u8 list \<Rightarrow> string" where
  "comma_separated [] = []"
| "comma_separated [w] = decimal (unat w)"
| "comma_separated (w # ws) = decimal (unat w) @ CHR '','' # comma_separated ws"

definition option_text :: "observer_options \<Rightarrow> string \<Rightarrow> string" where
  "option_text opts name =
     (let c = op_stack opts in
      if name = ''--interface'' then interface_name c
      else if name = ''--controller-node'' then decimal (unat (controller_node_id c))
      else if name = ''--remote-node'' then decimal (unat (remote_node_id c))
      else if name = ''--bitrate-kbit'' then decimal (unat (bit_rate_kbit_s c))
      else if name = ''--heartbeat-timeout-ms'' then decimal (nat (heartbeat_timeout c))
      else if name = ''--sdo-timeout-ms'' then decimal (nat (sdo_timeout c))
      else if name = ''--tpdo-timeout-ms'' then decimal (nat (tpdo_timeout c))
      else if name = ''--tpdo-dlc'' then comma_separated (tpdo_expected_dlc c)
      else decimal (nat (op_duration opts)))"

definition observer_command_line :: "observer_options \<Rightarrow> string list \<Rightarrow> string list" where
  "observer_command_line opts names = concat (map (\<lambda>n. [n, option_text opts n]) names)"

text \<open>The effect that one of the options should have.\<close>

definition copy_option :: "observer_options \<Rightarrow> string \<Rightarrow> observer_options \<Rightarrow> observer_options" where
  "copy_option opts name d =
     (let c = op_stack opts; e = op_stack d in
      if name = ''--interface'' then d\<lparr>op_stack := e\<lparr>interface_name := interface_name c\<rparr>\<rparr>
      else if name = ''--controller-node'' then d\<lparr>op_stack := e\<lparr>controller_node_id := controller_node_id c\<rparr>\<rparr>
      else if name = ''--remote-node'' then d\<lparr>op_stack := e\<lparr>remote_node_id := remote_node_id c\<rparr>\<rparr>
      else if name = ''--bitrate-kbit'' then d\<lparr>op_stack := e\<lparr>bit_rate_kbit_s := bit_rate_kbit_s c\<rparr>\<rparr>
      else if name = ''--heartbeat-timeout-ms'' then d\<lparr>op_stack := e\<lparr>heartbeat_timeout := heartbeat_timeout c\<rparr>\<rparr>
      else if name = ''--sdo-timeout-ms'' then d\<lparr>op_stack := e\<lparr>sdo_timeout := sdo_timeout c\<rparr>\<rparr>
      else if name = ''--tpdo-timeout-ms'' then d\<lparr>op_stack := e\<lparr>tpdo_timeout := tpdo_timeout c\<rparr>\<rparr>
      else if name = ''--tpdo-dlc'' then d\<lparr>op_stack := e\<lparr>tpdo_expected_dlc := tpdo_expected_dlc c\<rparr>\<rparr>
      else d\<lparr>op_duration := op_duration opts\<rparr>)"

definition option_slot :: "string \<Rightarrow> nat" where
  "option_slot name = length (takeWhile (\<lambda>n. n \<noteq> name) observer_option_names)"

definition observer_options_ok :: "observer_options \<Rightarrow> bool" where
  "observer_options_ok opts \<longleftrightarrow>
     stack_config_ok (op_stack opts) \<and> length (tpdo_expected_dlc (op_stack opts)) = 4 \<and>
     \<not> starts_with (interface_name (op_stack opts)) ''--'' \<and> op_duration opts \<in> {1..60000}"

lemma parse_unsigned_decimal:
  assumes "n \<le> unat (- 1 :: 'a::len word)" and "LENGTH('a) \<le> 64"
  shows "parse_unsigned (decimal n) = Some (word_of_nat n :: 'a word)"
proof -
  have "n < 2 ^ LENGTH('a)"
    using assms(1) by (rule le_less_trans) (rule unsigned_less)
  also have "(2 :: nat) ^ LENGTH('a) \<le> 2 ^ 64"
    by (rule power_increasing) (use assms(2) in simp_all)
  finally have "n \<le> 2 ^ 64 - 1"
    by simp
  then show ?thesis
    using assms(1) decimal_digits [of n] by (simp add: parse_unsigned_def from_chars_decimal)
qed

lemma parse_unsigned_unat:
  assumes "LENGTH('a) \<le> 64"
  shows "parse_unsigned (decimal (unat w)) = Some (w :: 'a::len word)"
  using parse_unsigned_decimal [OF _ assms, of "unat w"] by (simp add: word_le_nat_alt [symmetric])

lemma dlc_values_read:
  assumes "ws \<noteq> []" and "list_all (\<lambda>w. w \<le> 8) ws"
  shows "dlc_values (length ws) (length pre) (pre @ comma_separated ws) = Some (ws, length (pre @ comma_separated ws))"
  using assms
proof (induction ws arbitrary: pre rule: comma_separated.induct)
  case (2 w)
  have "CHR '','' \<notin> set (decimal (unat w))"
    using decimal_digits digits_free by (metis separators_not_digits(1))
  then show ?case
    using 2 by (simp add: view_find_absent parse_unsigned_unat)
next
  case (3 w v ws)
  have "CHR '','' \<notin> set (decimal (unat w))"
    using decimal_digits digits_free by (metis separators_not_digits(1))
  note comma = view_find_here [OF this, of pre]
  let ?pre = "pre @ decimal (unat w) @ [CHR '','']" and ?s = "pre @ comma_separated (w # v # ws)"
  have step: "dlc_values (Suc n) (length pre) ?s =
      map_option (\<lambda>(vs, p). (w # vs, p)) (dlc_values n (length ?pre) ?s)" if "n > 0" for n
    using that 3(3) comma by (auto simp: parse_unsigned_unat not_less [symmetric])
  have "dlc_values (length (v # ws)) (length ?pre) ?s = Some (v # ws, length ?s)"
    using 3(1) [of ?pre] 3(3) by (simp del: dlc_values.simps)
  with step [of "length (v # ws)"] show ?case
    by (simp del: dlc_values.simps)
qed simp

lemma parse_tpdo_dlc_read:
  "length ws = 4 \<Longrightarrow> list_all (\<lambda>w. w \<le> 8) ws \<Longrightarrow> parse_tpdo_dlc (comma_separated ws) = Some ws"
  using dlc_values_read [of ws "[]"] by (cases ws) (simp_all add: parse_tpdo_dlc_def)

text \<open>One option, and the list of them.\<close>

lemma option_slot_simps [simp]:
  "option_slot ''--interface'' = 0" "option_slot ''--controller-node'' = 1" "option_slot ''--remote-node'' = 2"
  "option_slot ''--bitrate-kbit'' = 3" "option_slot ''--heartbeat-timeout-ms'' = 4"
  "option_slot ''--sdo-timeout-ms'' = 5" "option_slot ''--tpdo-timeout-ms'' = 6" "option_slot ''--tpdo-dlc'' = 7"
  "option_slot ''--duration-ms'' = 8"
  by (simp_all add: option_slot_def observer_option_names_def)

lemma option_slot_inj: "inj_on option_slot (set observer_option_names)"
  by (simp add: observer_option_names_def inj_on_def)

lemma option_slot_less: "n \<in> set observer_option_names \<Longrightarrow> option_slot n < 9"
  by (auto simp: observer_option_names_def)

lemma timeout_read:
  assumes "t \<in> {1..65535}"
  shows "map_option uint (parse_unsigned (decimal (nat t)) :: u16 option) = Some t"
proof -
  have "parse_unsigned (decimal (nat t)) = Some (word_of_nat (nat t) :: u16)"
    using assms by (intro parse_unsigned_decimal) (auto simp: largest_values)
  with assms show ?thesis
    by (simp add: unsigned_of_int take_bit_int_eq_self)
qed

lemma duration_read:
  assumes "d \<in> {1..60000}"
  shows "\<exists>w :: u32. parse_unsigned (decimal (nat d)) = Some w \<and> w > 0 \<and> uint w = d"
proof -
  have "parse_unsigned (decimal (nat d)) = Some (word_of_nat (nat d) :: u32)"
    using assms by (intro parse_unsigned_decimal) (auto simp: largest_values)
  moreover have "uint (word_of_nat (nat d) :: u32) = d"
    using assms by (simp add: unsigned_of_int take_bit_int_eq_self)
  ultimately show ?thesis
    using assms by (auto simp: word_less_def)
qed

lemma option_read:
  assumes "observer_options_ok opts" and "name \<in> set observer_option_names"
  shows "observer_option name (option_text opts name) d = Some (option_slot name, Some (copy_option opts name d))"
proof -
  let ?c = "op_stack opts"
  have "length (tpdo_expected_dlc ?c) = 4" "list_all (\<lambda>w. w \<le> 8) (tpdo_expected_dlc ?c)"
    using assms(1) by (auto simp: observer_options_ok_def stack_config_ok_def list_all_iff word_le_nat_alt)
  note dlc = parse_tpdo_dlc_read [OF this]
  have timeouts: "heartbeat_timeout ?c \<in> {1..65535}" "sdo_timeout ?c \<in> {1..65535}" "tpdo_timeout ?c \<in> {1..65535}"
      and duration: "op_duration opts \<in> {1..60000}"
    using assms(1) by (auto simp: observer_options_ok_def stack_config_ok_def)
  from duration_read [OF duration] obtain w :: u32 where
    w: "parse_unsigned (decimal (nat (op_duration opts))) = Some w" "w > 0" "uint w = op_duration opts"
    by blast
  from assms(2) have "name \<in> {''--interface'', ''--controller-node'', ''--remote-node'', ''--bitrate-kbit'',
      ''--heartbeat-timeout-ms'', ''--sdo-timeout-ms'', ''--tpdo-timeout-ms'', ''--tpdo-dlc'', ''--duration-ms''}"
    by (simp add: observer_option_names_def)
  then show ?thesis
    by (elim insertE emptyE; simp only:)
      (use duration in \<open>simp_all add: observer_option_def option_text_def copy_option_def Let_def parse_unsigned_unat dlc w
        timeout_read [OF timeouts(1)] timeout_read [OF timeouts(2)] timeout_read [OF timeouts(3)]
        maximum_duration_ms_def\<close>)
qed

lemma option_text_no_option:
  assumes "observer_options_ok opts"
  shows "\<not> starts_with (option_text opts name) ''--''"
proof -
  have number: "\<not> starts_with (decimal n) ''--''" for n
    using decimal_digits starts_with_digits by blast
  have first: "comma_separated ws \<noteq> [] \<Longrightarrow> hd (comma_separated ws) \<noteq> CHR ''-''" for ws
  proof (induction ws rule: comma_separated.induct)
    case (2 w)
    have "list_all (is_digit 10) (decimal (unat w))"
      using decimal_digits by blast
    with 2 show ?case
      by (cases "decimal (unat w)") auto
  next
    case (3 w v ws)
    have "decimal (unat w) \<noteq> []" "list_all (is_digit 10) (decimal (unat w))"
      using decimal_digits by blast+
    then show ?case
      by (cases "decimal (unat w)") auto
  qed simp
  have "\<not> starts_with (comma_separated ws) ''--''" for ws
    using first [of ws] by (cases "comma_separated ws") (auto simp: starts_with_def)
  with number assms show ?thesis
    by (simp add: option_text_def Let_def observer_options_ok_def)
qed

lemma arguments_read:
  assumes "observer_options_ok opts" and "distinct names" and "set names \<subseteq> set observer_option_names"
    and "length seen = 9" and "list_all (\<lambda>n. \<not> seen ! option_slot n) names"
  shows "observer_arguments (observer_command_line opts names) d seen =
    Inr (fold (copy_option opts) names d, fold (\<lambda>n seen. seen[option_slot n := True]) names seen)"
  using assms(2-)
proof (induction names arbitrary: d seen)
  case Nil
  then show ?case
    by (simp add: observer_command_line_def)
next
  case (Cons n ns)
  have known: "n \<in> set observer_option_names" "option_slot n < 9"
    using Cons.prems option_slot_less by auto
  have "option_slot n \<noteq> option_slot m" if "m \<in> set ns" for m
    using that Cons.prems inj_onD [OF option_slot_inj, of n m] by auto
  then have "list_all (\<lambda>m. \<not> seen[option_slot n := True] ! option_slot m) ns"
    using Cons.prems by (auto simp: list_all_iff)
  with Cons known show ?case
    by (simp add: observer_command_line_def option_text_no_option [OF assms(1)] option_read [OF assms(1)])
qed

lemma slots_marked:
  "list_all (\<lambda>n. option_slot n < length seen) names \<Longrightarrow> i < length seen \<Longrightarrow>
   fold (\<lambda>n seen. seen[option_slot n := True]) names seen ! i \<longleftrightarrow> seen ! i \<or> i \<in> option_slot ` set names"
  by (induction names arbitrary: seen) (auto simp: nth_list_update)

lemma slots_length [simp]: "length (fold (\<lambda>n seen. seen[option_slot n := True]) names seen) = length seen"
  by (induction names arbitrary: seen) simp_all

lemma fold_copy_fields:
  "interface_name (op_stack (fold (copy_option opts) names d)) =
     (if ''--interface'' \<in> set names then interface_name (op_stack opts) else interface_name (op_stack d))"
  "controller_node_id (op_stack (fold (copy_option opts) names d)) =
     (if ''--controller-node'' \<in> set names then controller_node_id (op_stack opts) else controller_node_id (op_stack d))"
  "remote_node_id (op_stack (fold (copy_option opts) names d)) =
     (if ''--remote-node'' \<in> set names then remote_node_id (op_stack opts) else remote_node_id (op_stack d))"
  "bit_rate_kbit_s (op_stack (fold (copy_option opts) names d)) =
     (if ''--bitrate-kbit'' \<in> set names then bit_rate_kbit_s (op_stack opts) else bit_rate_kbit_s (op_stack d))"
  "heartbeat_timeout (op_stack (fold (copy_option opts) names d)) =
     (if ''--heartbeat-timeout-ms'' \<in> set names then heartbeat_timeout (op_stack opts) else heartbeat_timeout (op_stack d))"
  "sdo_timeout (op_stack (fold (copy_option opts) names d)) =
     (if ''--sdo-timeout-ms'' \<in> set names then sdo_timeout (op_stack opts) else sdo_timeout (op_stack d))"
  "tpdo_timeout (op_stack (fold (copy_option opts) names d)) =
     (if ''--tpdo-timeout-ms'' \<in> set names then tpdo_timeout (op_stack opts) else tpdo_timeout (op_stack d))"
  "tpdo_expected_dlc (op_stack (fold (copy_option opts) names d)) =
     (if ''--tpdo-dlc'' \<in> set names then tpdo_expected_dlc (op_stack opts) else tpdo_expected_dlc (op_stack d))"
  by (induction names arbitrary: d; simp add: copy_option_def Let_def)+

lemma fold_copy_duration:
  "set names \<subseteq> set observer_option_names \<Longrightarrow>
   op_duration (fold (copy_option opts) names d) =
     (if ''--duration-ms'' \<in> set names then op_duration opts else op_duration d)"
proof (induction names arbitrary: d)
  case (Cons n ns)
  then have "n \<in> set observer_option_names" and "set ns \<subseteq> set observer_option_names"
    by simp_all
  then have "op_duration (copy_option opts n d) = (if n = ''--duration-ms'' then op_duration opts else op_duration d)"
    by (auto simp: copy_option_def observer_option_names_def Let_def)
  with Cons.IH [OF \<open>set ns \<subseteq> _\<close>] show ?case
    by auto
qed simp

text \<open>
  C26: The observer reads back every valid configuration from the command line that gives it,
  whatever the order of the options; only the duration may be left out, for its default.
\<close>

theorem observer_options_roundtrip:
  assumes "observer_options_ok opts" and "distinct names" and "set names \<subseteq> set observer_option_names"
    and "set (butlast observer_option_names) \<subseteq> set names"
    and "''--duration-ms'' \<in> set names \<or> op_duration opts = 1000"
  shows "observer_parse_options (observer_command_line opts names) = outcome_success opts"
proof -
  let ?read = "fold (copy_option opts) names default_observer_options"
  let ?seen = "fold (\<lambda>n seen. seen[option_slot n := True]) names (replicate 9 False)"
  have slots: "list_all (\<lambda>n. option_slot n < 9) names"
    using assms(3) option_slot_less by (auto simp: list_all_iff)
  then have "list_all (\<lambda>n. \<not> replicate 9 False ! option_slot n) names"
    by (simp add: list_all_iff)
  note parsed = arguments_read [OF assms(1-3) length_replicate this, of default_observer_options]
  have given: "''--interface'' \<in> set names" "''--controller-node'' \<in> set names" "''--remote-node'' \<in> set names"
      "''--bitrate-kbit'' \<in> set names" "''--heartbeat-timeout-ms'' \<in> set names" "''--sdo-timeout-ms'' \<in> set names"
      "''--tpdo-timeout-ms'' \<in> set names" "''--tpdo-dlc'' \<in> set names"
    using assms(4) by (simp_all add: observer_option_names_def)
  have "op_stack ?read = op_stack opts"
    by (rule stack_config.equality) (simp_all add: fold_copy_fields given)
  moreover have "op_duration ?read = op_duration opts"
    using assms(5) by (auto simp: fold_copy_duration [OF assms(3)] default_observer_options_def)
  ultimately have read: "?read = opts"
    by (rule observer_options.equality) simp
  have "?seen ! i" if "i < 8" for i
  proof -
    have "i \<in> option_slot ` set (butlast observer_option_names)"
      using that by (auto simp: observer_option_names_def)
    with that assms(4) slots show ?thesis
      by (subst slots_marked) auto
  qed
  then have "\<not> list_ex Not (take 8 ?seen)"
    by (auto simp: list_ex_iff in_set_conv_nth)
  with parsed read assms(1) show ?thesis
    by (simp add: observer_parse_options_def validate_status observer_options_ok_def)
qed

section \<open>What a run prints, and why it ends\<close>

text \<open>The snapshots of the turns up to the end of the run.\<close>

fun observer_snapshots :: "time_ns \<Rightarrow> observer_turn list \<Rightarrow> lifecycle \<Rightarrow> observation_snapshot list" where
  "observer_snapshots deadline [] s = []"
| "observer_snapshots deadline (t # ts) s =
     (let (r, calls, s) = run_until (min deadline (ot_now t + observation_step)) (ot_turns t) s in
      case Option.bind r outcome_value of
        None \<Rightarrow> []
      | Some e \<Rightarrow> observation_snapshot_of (ot_snapshot t) s #
          (if e = Exit_deadline \<and> ot_end t < deadline then observer_snapshots deadline ts s else []))"

definition signal_arrived :: "int \<Rightarrow> observer_turn list \<Rightarrow> bool" where
  "signal_arrived signal ts \<longleftrightarrow>
     (\<exists>t \<in> set ts. \<exists>u \<in> set (ot_turns t). outcome_value (ta_signal u) = Some signal)"

definition observer_exit :: "time_ns \<Rightarrow> observer_turn list \<Rightarrow> int \<Rightarrow> bool" where
  "observer_exit deadline ts code \<longleftrightarrow>
     code = 0 \<and> (\<exists>t \<in> set ts. ot_end t \<ge> deadline) \<or> code = 130 \<and> signal_arrived 2 ts \<or>
     code = 143 \<and> signal_arrived 15 ts \<or> code = 1"

lemma observer_exit_later: "observer_exit deadline ts code \<Longrightarrow> observer_exit deadline (t # ts) code"
  by (auto simp: observer_exit_def signal_arrived_def)

lemma signal_reason:
  "fst (run_until deadline turns s) = Some r \<Longrightarrow> outcome_value r = Some e \<Longrightarrow>
   (e = Exit_sigint \<longrightarrow> (\<exists>u \<in> set turns. outcome_value (ta_signal u) = Some 2)) \<and>
   (e = Exit_sigterm \<longrightarrow> (\<exists>u \<in> set turns. outcome_value (ta_signal u) = Some 15))"
  using run_until_reasons [of deadline turns s]
  by (fastforce simp: ended_by_def signalled_def Canopen_Lifecycle.SIGINT_def Canopen_Lifecycle.SIGTERM_def)

text \<open>What one turn adds.\<close>

definition printed_run :: "u64 \<Rightarrow> observation_snapshot list \<Rightarrow> console_line list \<Rightarrow> bool" where
  "printed_run printed taken out \<longleftrightarrow>
     (\<exists>vs final. out = concat (map snapshot_lines vs) @ [final] \<and> subseq vs taken \<and>
        distinct_adj (printed # map ob_version vs))"

lemma printed_end:
  "printed_run printed [v] ((if ob_version v \<noteq> printed then snapshot_lines v else []) @ [final])"
proof (cases "ob_version v = printed")
  case True
  then show ?thesis
    unfolding printed_run_def by (intro exI [of _ "[]"] exI [of _ final]) simp
next
  case False
  then show ?thesis
    unfolding printed_run_def by (intro exI [of _ "[v]"] exI [of _ final]) auto
qed

lemma printed_more:
  assumes "printed_run (if ob_version v \<noteq> printed then ob_version v else printed) taken out"
  shows "printed_run printed (v # taken) ((if ob_version v \<noteq> printed then snapshot_lines v else []) @ out)"
proof -
  from assms obtain vs final where vs: "out = concat (map snapshot_lines vs) @ [final]" "subseq vs taken"
      "distinct_adj ((if ob_version v \<noteq> printed then ob_version v else printed) # map ob_version vs)"
    unfolding printed_run_def by blast
  show ?thesis
  proof (cases "ob_version v = printed")
    case True
    with vs show ?thesis
      unfolding printed_run_def by (intro exI [of _ vs] exI [of _ final]) auto
  next
    case False
    with vs show ?thesis
      unfolding printed_run_def by (intro exI [of _ "v # vs"] exI [of _ final]) auto
  qed
qed

lemma observer_loop_reports:
  "observer_loop message deadline ts printed s = (Some code, out, s') \<Longrightarrow>
   printed_run printed (observer_snapshots deadline ts s) out \<and> observer_exit deadline ts code"
proof (induction ts arbitrary: printed s out)
  case (Cons t ts)
  let ?u = "run_until (min deadline (ot_now t + observation_step)) (ot_turns t) s"
  let ?s = "snd (snd ?u)"
  let ?v = "observation_snapshot_of (ot_snapshot t) ?s"
  from Cons.prems obtain r where r: "fst ?u = Some r"
    by (cases "fst ?u") (simp_all add: case_prod_beta Let_def)
  show ?case
  proof (cases "outcome_value r")
    case None
    have "printed_run printed [] [x]" for x
      unfolding printed_run_def by (intro exI [of _ "[]"] exI [of _ x]) simp
    with None r Cons.prems show ?thesis
      by (auto simp: case_prod_beta Let_def observer_exit_def)
  next
    case (Some e)
    show ?thesis
    proof (cases "e = Exit_deadline \<and> ot_end t < deadline")
      case False
      then show ?thesis
        using Cons.prems r Some signal_reason [OF r Some] printed_end [of printed ?v]
        by (auto simp: case_prod_beta Let_def observer_exit_def signal_arrived_def Canopen_Lifecycle.SIGINT_def
            Canopen_Lifecycle.SIGTERM_def split: if_splits)
    next
      case True
      let ?p = "if ob_version ?v \<noteq> printed then ob_version ?v else printed"
      let ?l = "observer_loop message deadline ts ?p ?s"
      have rest: "?l = (Some code, fst (snd ?l), s')"
          "out = (if ob_version ?v \<noteq> printed then snapshot_lines ?v else []) @ fst (snd ?l)"
        using Cons.prems r Some True by (auto simp: case_prod_beta Let_def prod_eq_iff)
      from Cons.IH [OF rest(1)] printed_more [of ?v printed] show ?thesis
        using r Some True rest(2) by (simp add: case_prod_beta Let_def observer_exit_later)
    qed
  qed
qed simp

lemma observer_loop_returns:
  assumes "list_all (\<lambda>t. list_ex (\<lambda>u. min deadline (ot_now t + observation_step) \<le> ta_start u) (ot_turns t)) ts"
    and "list_ex (\<lambda>t. deadline \<le> ot_end t) ts"
  shows "fst (observer_loop message deadline ts printed s) \<noteq> None"
  using assms
proof (induction ts arbitrary: printed s)
  case (Cons t ts)
  let ?u = "run_until (min deadline (ot_now t + observation_step)) (ot_turns t) s"
  from Cons.prems run_until_reasons [of "min deadline (ot_now t + observation_step)" "ot_turns t" s]
  obtain r where r: "fst ?u = Some r"
    by auto
  show ?case
  proof (cases "\<exists>e. outcome_value r = Some e \<and> e = Exit_deadline \<and> ot_end t < deadline")
    case True
    with Cons.prems have "list_ex (\<lambda>t. deadline \<le> ot_end t) ts"
      by auto
    with Cons r True show ?thesis
      by (auto simp: case_prod_beta Let_def)
  next
    case False
    with r show ?thesis
      by (auto simp: case_prod_beta Let_def split: option.split)
  qed
qed simp

text \<open>
  A run of the observer ends once its turns end and the clock passes the deadline.  When it
  ends, it has printed snapshots that it took, in order, none of them twice in a row, and one last
  line; and it exits with 0 only after the deadline, with 128 and a signal only if that signal
  arrived, otherwise with 1.
\<close>

theorem observer_run_reports:
  "(list_all (\<lambda>t. list_ex (\<lambda>u. min deadline (ot_now t + observation_step) \<le> ta_start u) (ot_turns t)) ts \<and>
    list_ex (\<lambda>t. deadline \<le> ot_end t) ts \<longrightarrow>
      fst (observer_loop message deadline ts printed s) \<noteq> None) \<and>
   (\<forall>code out s'. observer_loop message deadline ts printed s = (Some code, out, s') \<longrightarrow>
      printed_run printed (observer_snapshots deadline ts s) out \<and> observer_exit deadline ts code)"
  using observer_loop_returns observer_loop_reports by blast

section \<open>What is refused\<close>

lemma dlc_values_length: "dlc_values n pos s = Some (vs, p) \<Longrightarrow> length vs = n"
  by (induction n arbitrary: pos vs p) (auto simp: Let_def split: if_splits option.splits)

definition options_in_range :: "observer_options \<Rightarrow> bool" where
  "options_in_range opts \<longleftrightarrow> length (tpdo_expected_dlc (op_stack opts)) = 4 \<and> op_duration opts \<in> {1..60000}"

lemma observer_option_range:
  "options_in_range opts \<Longrightarrow> observer_option a v opts = Some (slot, Some opts') \<Longrightarrow> options_in_range opts'"
  by (auto simp: observer_option_def options_in_range_def parse_tpdo_dlc_def maximum_duration_ms_def Let_def
      word_less_def split: if_splits option.splits dest: dlc_values_length)

lemma observer_arguments_range:
  "options_in_range opts \<Longrightarrow> observer_arguments args opts seen = Inr (opts', seen') \<Longrightarrow> options_in_range opts'"
proof (induction args opts seen rule: observer_arguments.induct)
  case (3 a v rest opts seen)
  then obtain slot x where x: "observer_option a v opts = Some (slot, Some x)" "\<not> starts_with v ''--''"
      "\<not> seen ! slot" "observer_arguments rest x (seen[slot := True]) = Inr (opts', seen')"
    by (auto split: if_splits option.splits)
  from 3(1) [OF x(2) x(1) refl refl x(3) _ x(4)] observer_option_range [OF 3(2) x(1)] show ?case
    by blast
qed simp_all

text \<open>Whatever the command line, the options that are accepted are valid.\<close>

theorem observer_accepts_valid_options:
  assumes "outcome_value (observer_parse_options args) = Some opts"
  shows "stack_config_ok (op_stack opts) \<and> length (tpdo_expected_dlc (op_stack opts)) = 4 \<and> op_duration opts \<in> {1..60000}"
proof -
  obtain seen where "observer_arguments args default_observer_options (replicate 9 False) = Inr (opts, seen)"
      "status_ok (validate_stack_config (op_stack opts))"
    using assms by (auto simp: observer_parse_options_def Let_def split: sum.splits if_splits)
  moreover have "options_in_range default_observer_options"
    by (simp add: options_in_range_def default_observer_options_def default_stack_config_def)
  ultimately show ?thesis
    using observer_arguments_range [of default_observer_options args "replicate 9 False" opts seen]
    by (simp add: options_in_range_def validate_status)
qed

text \<open>The status of a refused command line is an error of its own.\<close>

theorem observer_refuses_without_opening:
  "\<not> outcome_ok (observer_parse_options args) \<Longrightarrow> args \<noteq> [''--help''] \<Longrightarrow>
   fst (observer_main message a args p) = Some 2 \<and> snd (snd (observer_main message a args p)) = p"
  by (simp add: observer_main_def Let_def outcome_ok_def)

section \<open>An example\<close>

definition example_options :: observer_options where
  "example_options = \<lparr>op_stack = example_config\<lparr>tpdo_expected_dlc := [8, 6, 0, 0]\<rparr>, op_duration = 2500\<rparr>"

definition example_command_line :: "string list" where
  "example_command_line = observer_command_line example_options (rev observer_option_names)"

theorem observer_options_roundtrip_witness:
  "outcome_value (observer_parse_options example_command_line) = Some example_options \<and>
   take 4 example_command_line = [''--duration-ms'', ''2500'', ''--tpdo-dlc'', ''8,6,0,0'']"
proof -
  have "observer_options_ok example_options"
    using example_config_ok
    by (simp add: observer_options_ok_def example_options_def stack_config_ok_def example_config_def starts_with_def
        default_stack_config_def)
  moreover have "distinct (rev observer_option_names)"
    by (simp add: observer_option_names_def)
  moreover have "set (butlast observer_option_names) \<subseteq> set (rev observer_option_names)"
    using in_set_butlastD by fastforce
  moreover have "''--duration-ms'' \<in> set (rev observer_option_names)"
    by (simp add: observer_option_names_def)
  ultimately have "observer_parse_options example_command_line = outcome_success example_options"
    unfolding example_command_line_def by (intro observer_options_roundtrip) simp_all
  moreover have "take 4 example_command_line = [''--duration-ms'', ''2500'', ''--tpdo-dlc'', ''8,6,0,0'']"
  proof -
    have "decimal 2500 = ''2500''" "decimal 8 = ''8''" "decimal 6 = ''6''" "decimal 0 = ''0''"
      by (simp_all add: decimal_def digits_rev.simps digit_char_def char_of_def bit_0)
    then show ?thesis
      by (simp add: example_command_line_def observer_command_line_def observer_option_names_def
          example_options_def option_text_def)
  qed
  ultimately show ?thesis
    by simp
qed

theorem observer_run_reports_witness:
  "\<exists>code. observer_exit 1500 [\<lparr>ot_now = 0, ot_turns = example_turns, ot_snapshot = 2000, ot_end = 2000\<rparr>] code"
proof -
  let ?t = "\<lparr>ot_now = 0, ot_turns = example_turns, ot_snapshot = 2000, ot_end = 2000\<rparr>"
  let ?r = "observer_loop (\<lambda>n. []) 1500 [?t] 0 example_lifecycle"
  have "list_all (\<lambda>t. list_ex (\<lambda>u. min 1500 (ot_now t + observation_step) \<le> ta_start u) (ot_turns t)) [?t]"
      "list_ex (\<lambda>t. 1500 \<le> ot_end t) [?t]"
    by (simp_all add: observation_step_def example_turns_def example_turn_def)
  with observer_run_reports [of 1500 "[?t]" "\<lambda>n. []" 0 example_lifecycle]
  have "fst ?r \<noteq> None" "\<forall>code out s'. ?r = (Some code, out, s') \<longrightarrow> observer_exit 1500 [?t] code"
    by blast+
  then show ?thesis
    by (cases ?r) (auto simp del: observer_loop.simps)
qed

end
