(* ===== verification/Tools_Commission.thy ===== *)
theory Tools_Commission
  imports Tools_Text Platform_Serial Canopen_Commissioning
begin

text \<open>
  \<open>src/tools/canopen_commission/main.cpp\<close> and \<open>commissioning_log.c\<close>: the program that performs one
  reviewed commissioning operation.  It reads the operation from the command line, creates the owner
  of the CAN connection, waits for a current heartbeat of the remote node, runs the session and
  prints the result.  The lemmas compose the parts: whatever CANopenNode does and whatever the
  command line says, the frames that leave the program are the requests of the one operation that
  was asked for, and a program that exits with 0 after an upload printed what the remote node
  answered.
\<close>

section \<open>Arguments\<close>

record commission_arguments =
  cg_interface :: string
  cg_nmt :: "commissioning_nmt option"
  cg_upload :: "(u16 \<times> u8) option"
  cg_retry_once :: bool

definition no_arguments :: commission_arguments where
  "no_arguments = \<lparr>cg_interface = [], cg_nmt = None, cg_upload = None, cg_retry_once = False\<rparr>"

definition parse_hex :: "string \<Rightarrow> 'a::len word option" where
  "parse_hex s =
     (case from_chars 16 (unat (- 1 :: 'a word)) s of
        Chars_value n rest \<Rightarrow> if s \<noteq> [] \<and> rest = [] then Some (word_of_nat n) else None
      | _ \<Rightarrow> None)"

definition parse_nmt :: "string \<Rightarrow> commissioning_nmt option" where
  "parse_nmt v =
     (if v = ''stopped'' then Some Nmt_stopped
      else if v = ''pre-operational'' then Some Nmt_pre_operational else None)"

definition parse_object :: "string \<Rightarrow> (u16 \<times> u8) option" where
  "parse_object v =
     (case view_find (CHR '':'') 0 v of
        None \<Rightarrow> None
      | Some separator \<Rightarrow>
          (case parse_hex (take separator v) of
             None \<Rightarrow> None
           | Some index \<Rightarrow>
               (case parse_hex (drop (separator + 1) v) of
                  None \<Rightarrow> None
                | Some subindex \<Rightarrow>
                    if sdo_upload_size (sdo_object.make index subindex) = 0 then None
                    else Some (index, subindex))))"

text \<open>The loop over the arguments; a value is taken only where the option is allowed.\<close>

fun commission_options :: "string list \<Rightarrow> commission_arguments \<Rightarrow> commission_arguments option" where
  "commission_options [] g = Some g"
| "commission_options (a # rest) g =
     (if a = ''--interface'' \<and> rest \<noteq> [] \<and> cg_interface g = []
      then commission_options (tl rest) (g\<lparr>cg_interface := hd rest\<rparr>)
      else if a = ''--nmt'' \<and> rest \<noteq> [] \<and> cg_nmt g = None \<and> cg_upload g = None
      then (case parse_nmt (hd rest) of
              None \<Rightarrow> None
            | Some command \<Rightarrow> commission_options (tl rest) (g\<lparr>cg_nmt := Some command\<rparr>))
      else if a = ''--upload'' \<and> rest \<noteq> [] \<and> cg_nmt g = None \<and> cg_upload g = None
      then (case parse_object (hd rest) of
              None \<Rightarrow> None
            | Some ob \<Rightarrow> commission_options (tl rest) (g\<lparr>cg_upload := Some ob\<rparr>))
      else if a = ''--retry-once'' \<and> \<not> cg_retry_once g
      then commission_options rest (g\<lparr>cg_retry_once := True\<rparr>)
      else None)"

definition parse_arguments :: "string list \<Rightarrow> commission_arguments option" where
  "parse_arguments args =
     (case commission_options args no_arguments of
        None \<Rightarrow> None
      | Some g \<Rightarrow>
          if cg_interface g = [] \<or> (cg_nmt g \<noteq> None \<longleftrightarrow> cg_upload g \<noteq> None) \<or>
             cg_retry_once g \<and> cg_upload g = None
          then None else Some g)"

section \<open>Lines\<close>

definition commission_usage :: console_line where
  "commission_usage =
     Err (''Usage: robot-control-canopen-commission --interface IFACE '' @
       ''(--nmt stopped|pre-operational | --upload INDEX:SUBINDEX [--retry-once])'' @ [endl])"

definition commission_report :: "(int \<Rightarrow> string) \<Rightarrow> status \<Rightarrow> console_line" where
  "commission_report message st =
     Err (operation st @ '': '' @ status_context st @ '': '' @ message (error_code st) @ [endl])"

definition nmt_line :: "commissioning_nmt \<Rightarrow> console_line" where
  "nmt_line command = Out (''nmt_sent node=1 command=0x'' @ std_hex (unat (nmt_command_value command)) @ [endl])"

definition sdo_head :: "sdo_observation \<Rightarrow> string" where
  "sdo_head v =
     ''sdo node=1 index=0x'' @ zero_filled 4 (std_hex (unat (sdo_observation.sdo_index v))) @
     '' sub=0x'' @ zero_filled 2 (std_hex (unat (sdo_observation.sdo_subindex v)))"

definition sdo_abort_line :: "sdo_observation \<Rightarrow> console_line" where
  "sdo_abort_line v = Out (sdo_head v @ '' abort=0x'' @ zero_filled 8 (std_hex (unat (sdo_abort_code v))) @ [endl])"

definition sdo_data_line :: "sdo_observation \<Rightarrow> console_line" where
  "sdo_data_line v =
     Out (sdo_head v @ '' data='' @
       concat (map (\<lambda>b. zero_filled 2 (std_hex (unat b))) (take (unat (sdo_data_length v)) (sdo_data v))) @ [endl])"

text \<open>\<open>log_printf\<close>, which CANopenNode calls: the text of \<open>vfprintf\<close> and an end of line.\<close>

definition log_printf :: "int \<Rightarrow> string \<Rightarrow> console_line" where
  "log_printf priority formatted = Err (formatted @ [endl])"

definition commission_config :: "string \<Rightarrow> stack_config" where
  "commission_config name =
     \<lparr>interface_name = name, controller_node_id = 127, remote_node_id = 1, bit_rate_kbit_s = 500,
      heartbeat_timeout = 1000, sdo_timeout = 500, tpdo_timeout = 100, tpdo_expected_dlc = [8, 0, 0, 0]\<rparr>"

section \<open>Running\<close>

text \<open>
  One turn of the wait for the remote node: the clocks of the loop condition, the snapshot and the
  next deadline, the turns of the owner, and what CANopenNode hands to the gate meanwhile.
\<close>

record ready_turn =
  rt_condition :: time_ns
  rt_snapshot :: time_ns
  rt_base :: time_ns
  rt_turns :: "turn_answers list"
  rt_gate :: "gate_call list"

text \<open>The end of the wait: still waiting, the lines of a failure, or done.\<close>

datatype ready_end = Ready_pending | Ready_failed "console_line list" | Ready_done

fun ready_loop ::
  "(int \<Rightarrow> string) \<Rightarrow> time_ns \<Rightarrow> ready_turn list \<Rightarrow> session \<Rightarrow> ready_end \<times> session" where
  "ready_loop message deadline [] s = (Ready_pending, s)"
| "ready_loop message deadline (t # ts) s =
     (if rt_condition t \<ge> deadline then (Ready_done, s)
      else let v = observation_snapshot_of (rt_snapshot t) (se_lifecycle s) in
        if ob_boot_observed v \<and> fo_current (hb_frame (ob_heartbeat v)) then (Ready_done, s)
        else let (r, calls, l) = run_until (min deadline (rt_base t + 10000000)) (rt_turns t) (se_lifecycle s);
                 s = through_gate (rt_gate t) (s\<lparr>se_lifecycle := l\<rparr>)
          in case r of
               None \<Rightarrow> (Ready_pending, s)
             | Some r \<Rightarrow>
                 (case outcome_value r of
                    None \<Rightarrow> (Ready_failed [commission_report message (outcome_status r)], s)
                  | Some e \<Rightarrow>
                      if e \<noteq> Exit_deadline then (Ready_failed [], s) else ready_loop message deadline ts s))"

record commission_answers =
  cm_termination :: termination_answers
  cm_create :: create_answers
  cm_start :: time_ns
  cm_ready :: "ready_turn list"
  cm_nmt_now :: time_ns
  cm_nmt_gate :: "gate_call list"
  cm_nmt_sent :: bool
  cm_first :: upload_attempt
  cm_second :: upload_attempt

text \<open>
  The session that is constructed on the owner has no generations yet, and no authorization was
  given in this thread; so it may stand for the owner during the wait, too.
\<close>

definition new_session :: "lifecycle \<Rightarrow> session" where
  "new_session l =
     \<lparr>se_lifecycle = l, se_request_generation = 0, se_attempt_generation = 0,
      se_authorization = clear_authorization, se_sent = [], se_calls = []\<rparr>"

text \<open>The operation: the exit code, or None while it goes on; the lines; and the session.\<close>

definition perform ::
  "(int \<Rightarrow> string) \<Rightarrow> commission_answers \<Rightarrow> commission_arguments \<Rightarrow> session \<Rightarrow>
     int option \<times> console_line list \<times> session" where
  "perform message a g s =
     (case cg_nmt g of
        Some command \<Rightarrow>
          let (st, s) = send_nmt command (cm_nmt_now a) (cm_nmt_gate a) (cm_nmt_sent a) s
          in if \<not> status_ok st then (Some 1, [commission_report message st], s)
             else (Some 0, [nmt_line command], s)
      | None \<Rightarrow>
          let (index, subindex) = the (cg_upload g);
              (r, s) = upload (cm_first a) (cm_second a) index subindex (cg_retry_once g) s
          in case r of
               None \<Rightarrow> (None, [], s)
             | Some r \<Rightarrow>
                 (case outcome_value r of
                    None \<Rightarrow> (Some 1, [commission_report message (outcome_status r)], s)
                  | Some v \<Rightarrow>
                      if sdo_outcome v = Sdo_abort then (Some 1, [sdo_abort_line v], s)
                      else (Some 0, [sdo_data_line v], s)))"

definition wait_and_perform ::
  "(int \<Rightarrow> string) \<Rightarrow> commission_answers \<Rightarrow> commission_arguments \<Rightarrow> lifecycle \<Rightarrow>
     int option \<times> console_line list \<times> session" where
  "wait_and_perform message a g l =
     (let (ready, s) = ready_loop message (cm_start a + 1000000000) (cm_ready a) (new_session l) in
      case ready of
        Ready_pending \<Rightarrow> (None, [], s)
      | Ready_failed out \<Rightarrow> (Some 1, out, s)
      | Ready_done \<Rightarrow> perform message a g s)"

text \<open>
  The program: the exit code, the lines, what the gate answered, and the process after the owner was
  destroyed.  The inherited signal mask plays no part.
\<close>

definition commission_main ::
  "(int \<Rightarrow> string) \<Rightarrow> commission_answers \<Rightarrow> string list \<Rightarrow> od_process \<Rightarrow>
     int option \<times> console_line list \<times> transmit_response list \<times> od_process" where
  "commission_main message a args p =
     (case parse_arguments args of
        None \<Rightarrow> (Some 2, [commission_usage], [], p)
      | Some g \<Rightarrow>
          let termination = fst (termination_create (cm_termination a) {}) in
          (case outcome_value termination of
             None \<Rightarrow> (Some 1, [commission_report message (outcome_status termination)], [], p)
           | Some fd \<Rightarrow>
               let (owner, calls, p) = lifecycle_create (cm_create a) (commission_config (cg_interface g)) fd p in
               (case outcome_value owner of
                  None \<Rightarrow> (Some 1, [commission_report message (outcome_status owner)], [], p)
                | Some l \<Rightarrow>
                    let (code, out, s) = wait_and_perform message a g l
                    in (code, out, se_sent s,
                        if code = None then lc_process (se_lifecycle s)
                        else snd (lifecycle_destroy (se_lifecycle s))))))"

section \<open>What is accepted\<close>

lemma parse_object_listed: "parse_object v = Some (i, si) \<Longrightarrow> sdo_upload_size (sdo_object.make i si) \<noteq> 0"
  by (auto simp: parse_object_def split: option.splits if_splits)

definition objects_listed :: "commission_arguments \<Rightarrow> bool" where
  "objects_listed g \<longleftrightarrow>
     (case cg_upload g of None \<Rightarrow> True | Some (i, si) \<Rightarrow> sdo_upload_size (sdo_object.make i si) \<noteq> 0)"

lemma commission_options_listed:
  "objects_listed g \<Longrightarrow> commission_options args g = Some g' \<Longrightarrow> objects_listed g'"
  by (induction args g rule: commission_options.induct)
    (auto simp: objects_listed_def parse_object_listed split: if_splits option.splits)

section \<open>What leaves the program\<close>

text \<open>The request of the operation that the arguments ask for.\<close>

definition requested :: "commission_arguments \<Rightarrow> Canopen_Gate.can_frame \<Rightarrow> bool" where
  "requested g f \<longleftrightarrow>
     (case cg_nmt g of
        Some command \<Rightarrow> nmt_request command f
      | None \<Rightarrow> (case cg_upload g of
                    Some (index, subindex) \<Rightarrow>
                      sdo_upload_size (sdo_object.make index subindex) \<noteq> 0 \<and> upload_request index subindex f
                  | None \<Rightarrow> False))"

definition allowed_sends :: "commission_arguments \<Rightarrow> nat" where
  "allowed_sends g = (if cg_retry_once g then 2 else 1)"

lemma parse_arguments_listed: "parse_arguments args = Some g \<Longrightarrow> objects_listed g"
  by (auto simp: parse_arguments_def no_arguments_def objects_listed_def split: option.splits if_splits
      dest!: commission_options_listed [rotated])

lemma parse_arguments_one_operation:
  "parse_arguments args = Some g \<Longrightarrow> cg_nmt g = None \<longleftrightarrow> cg_upload g \<noteq> None"
  by (auto simp: parse_arguments_def split: option.splits if_splits)

lemma sends_only_mono: "sends_only P n s s' \<Longrightarrow> n \<le> m \<Longrightarrow> sends_only P m s s'"
  by (auto simp: sends_only_def)

lemma ready_loop_sends:
  "\<not> auth_active (se_authorization s) \<Longrightarrow>
   sends_only P 0 s (snd (ready_loop message deadline ts s)) \<and>
   \<not> auth_active (se_authorization (snd (ready_loop message deadline ts s)))"
proof (induction ts arbitrary: s)
  case Nil
  then show ?case
    by (simp add: sends_only_same inactive_lets_only)
next
  case (Cons t ts)
  let ?u = "run_until (min deadline (rt_base t + 10000000)) (rt_turns t) (se_lifecycle s)"
  let ?s = "through_gate (rt_gate t) (s\<lparr>se_lifecycle := snd (snd ?u)\<rparr>)"
  have one: "sends_only P 0 s ?s" "\<not> auth_active (se_authorization ?s)"
    using through_gate_sends [OF inactive_lets_only, of "s\<lparr>se_lifecycle := snd (snd ?u)\<rparr>" P "rt_gate t"]
      through_gate_inactive [of "s\<lparr>se_lifecycle := snd (snd ?u)\<rparr>"] Cons.prems
      sends_only_source [of "s\<lparr>se_lifecycle := snd (snd ?u)\<rparr>" s P 0 ?s]
    by simp_all
  have same: "sends_only P 0 s s"
    using Cons.prems by (simp add: sends_only_same inactive_lets_only)
  show ?case
    using Cons.prems one same Cons.IH [OF one(2)] sends_only_trans0 [OF one(1)]
    by (simp add: case_prod_beta Let_def split: option.split)
qed

lemma perform_sends:
  assumes "\<not> auth_active (se_authorization s)" and "parse_arguments args = Some g"
  shows "sends_only (requested g) (allowed_sends g) s (snd (snd (perform message a g s)))"
proof (cases "cg_nmt g")
  case (Some command)
  then have "requested g = nmt_request command"
    by (simp add: fun_eq_iff requested_def)
  moreover have "sends_only (nmt_request command) 1 s
      (snd (send_nmt command (cm_nmt_now a) (cm_nmt_gate a) (cm_nmt_sent a) s))"
    using send_nmt_sends [OF assms(1) surjective_pairing] by blast
  ultimately show ?thesis
    using Some sends_only_mono [of "nmt_request command" 1 s _ 2]
    by (simp add: perform_def allowed_sends_def case_prod_beta Let_def)
next
  case None
  with parse_arguments_one_operation [OF assms(2)] obtain index subindex where
    ob: "cg_upload g = Some (index, subindex)"
    by (cases "cg_upload g") auto
  moreover have "requested g = upload_request index subindex"
    using None ob parse_arguments_listed [OF assms(2)] by (simp add: fun_eq_iff requested_def objects_listed_def)
  moreover have "sends_only (upload_request index subindex) (allowed_sends g) s
      (snd (upload (cm_first a) (cm_second a) index subindex (cg_retry_once g) s))"
    using upload_sends [OF assms(1) surjective_pairing] unfolding allowed_sends_def by blast
  ultimately show ?thesis
    using None by (simp add: perform_def case_prod_beta Let_def split: option.split)
qed

lemma wait_and_perform_sends:
  assumes "parse_arguments args = Some g"
  shows "sends_only (requested g) (allowed_sends g) (new_session l)
    (snd (snd (wait_and_perform message a g l)))"
proof -
  let ?r = "ready_loop message (cm_start a + 1000000000) (cm_ready a) (new_session l)"
  have "\<not> auth_active (se_authorization (new_session l))"
    by (simp add: new_session_def clear_authorization_def)
  from ready_loop_sends [OF this]
  have ready: "sends_only (requested g) 0 (new_session l) (snd ?r)" "\<not> auth_active (se_authorization (snd ?r))"
    by blast+
  have "sends_only (requested g) (allowed_sends g) (new_session l) (snd ?r)"
    by (rule sends_only_mono [OF ready(1)]) simp
  moreover have "sends_only (requested g) (allowed_sends g) (new_session l) (snd (snd (perform message a g (snd ?r))))"
    using sends_only_trans [OF ready(1) perform_sends [OF ready(2) assms]] by simp
  ultimately show ?thesis
    by (simp add: wait_and_perform_def case_prod_beta Let_def split: ready_end.split)
qed

text \<open>
  C13: Whatever the command line, CANopenNode and the bus do, every frame that the commissioning
  program sends is the request of the one operation that was asked for, an NMT command that
  stops node 1 or the upload of a listed object; at most one send succeeds, or two where a
  retry was asked for; and a command line that is not accepted opens and sends nothing.
\<close>

theorem commission_sends_only_the_requested_operation:
  "case commission_main message a args p of (code, out, sent, p') \<Rightarrow>
     (case parse_arguments args of
        None \<Rightarrow> code = Some 2 \<and> sent = [] \<and> p' = p
      | Some g \<Rightarrow>
          list_all (\<lambda>response. case tx_sent response of None \<Rightarrow> True | Some f \<Rightarrow> requested g f) sent \<and>
          length (filter sent_successfully sent) \<le> allowed_sends g)"
proof (cases "parse_arguments args")
  case None
  then show ?thesis
    by (simp add: commission_main_def)
next
  case (Some g)
  have start: "se_sent (new_session l) = []" "\<not> auth_active (se_authorization (new_session l))" for l
    by (simp_all add: new_session_def clear_authorization_def)
  have "list_all (\<lambda>response. case tx_sent response of None \<Rightarrow> True | Some f \<Rightarrow> requested g f)
        (se_sent (snd (snd (wait_and_perform message a g l)))) \<and>
      length (filter sent_successfully (se_sent (snd (snd (wait_and_perform message a g l))))) \<le> allowed_sends g" for l
    using sends_only_new [OF wait_and_perform_sends [OF Some] start(2)] start(1) by fastforce
  with Some show ?thesis
    by (simp add: commission_main_def case_prod_beta Let_def split: option.split)
qed

section \<open>Whose answer the program prints\<close>

lemma storage_create_config:
  "outcome_value (fst (storage_create allocated co_new c p)) = Some owner \<Longrightarrow> owner_config owner = c"
  by (auto simp: storage_create_def Let_def case_prod_beta split: if_splits option.splits)

lemma new_owner_listens:
  assumes "outcome_value (fst (lifecycle_create a c termination p)) = Some l"
  shows "listens (remote_node_id c) (new_session l)"
proof -
  have begun: "st_remote_node_id (begin_transport (observation_store_create c)) = remote_node_id c"
    using store_config [of c "[Begin_transport]"] by (simp add: store_setup_def)
  let ?r = "storage_create (ca_storage_allocated a) (ca_co_new a) c p"
  obtain owner where owner: "outcome_value (fst ?r) = Some owner"
    using assms by (auto simp: lifecycle_create_def Let_def case_prod_beta discard_def split: option.splits if_splits)
  from storage_create_config [OF owner] have config: "owner_config owner = c" .
  have "lc_storage l = owner \<and> lc_observations l = begin_transport (observation_store_create c)"
    using assms owner config
    by (auto simp: lifecycle_create_def Let_def case_prod_beta discard_def new_lifecycle_def
        split: option.splits if_splits)
  with begun config show ?thesis
    by (simp add: listens_def new_session_def se_config_def lc_config_def)
qed

lemma ready_loop_listens: "listens node s \<Longrightarrow> listens node (snd (ready_loop message deadline ts s))"
proof (induction ts arbitrary: s)
  case (Cons t ts)
  note run = run_until_listens [OF Cons.prems, of "min deadline (rt_base t + 10000000)" "rt_turns t"]
  with Cons show ?case
    by (simp add: case_prod_beta Let_def split: option.split)
qed simp

text \<open>
  C14: When the program exits with 0 after an upload, the one line it printed shows the data of a
  response of node 1 that names the object asked for and was received while the upload ran.
\<close>

theorem commission_prints_the_answer:
  assumes "commission_main message a args p = (Some 0, out, sent, p')"
    and "parse_arguments args = Some g" and "cg_upload g = Some (index, subindex)"
  shows "\<exists>v. out = [sdo_data_line v] \<and> sdo_outcome v \<noteq> Sdo_abort \<and>
    (\<exists>t \<in> step_turns (ua_steps (cm_first a) @ ua_steps (cm_second a)).
       answers_request t 1 index subindex (sdo_upload_size (sdo_object.make index subindex)) v)"
proof -
  obtain fd l where l: "outcome_value (fst (lifecycle_create (cm_create a) (commission_config (cg_interface g)) fd p)) = Some l"
      "fst (wait_and_perform message a g l) = Some 0" "out = fst (snd (wait_and_perform message a g l))"
    using assms(1,2) by (auto simp: commission_main_def case_prod_beta Let_def split: option.splits)
  let ?s = "snd (ready_loop message (cm_start a + 1000000000) (cm_ready a) (new_session l))"
  have "listens 1 (new_session l)"
    using new_owner_listens [OF l(1)] by (simp add: commission_config_def)
  then have listens: "listens 1 ?s"
    by (rule ready_loop_listens)
  have "fst (perform message a g ?s) = Some 0" "out = fst (snd (perform message a g ?s))"
    using l(2,3) by (auto simp: wait_and_perform_def case_prod_beta Let_def split: ready_end.splits)
  moreover have "cg_nmt g = None"
    using parse_arguments_one_operation [OF assms(2)] assms(3) by simp
  ultimately obtain r v where up: "fst (upload (cm_first a) (cm_second a) index subindex (cg_retry_once g) ?s) = Some r"
      "outcome_value r = Some v" "sdo_outcome v \<noteq> Sdo_abort" "out = [sdo_data_line v]"
    using assms(3) by (auto simp: perform_def case_prod_beta Let_def split: option.splits if_splits)
  have "upload (cm_first a) (cm_second a) index subindex (cg_retry_once g) ?s =
      (Some r, snd (upload (cm_first a) (cm_second a) index subindex (cg_retry_once g) ?s))"
    using up(1) by (simp add: prod_eq_iff)
  from upload_answered [OF listens this up(2)] up(3,4) show ?thesis
    by blast
qed

section \<open>An upload of the status word from the command line\<close>

lemma run_until_append:
  "run_until deadline (ts @ us) s =
     (case run_until deadline ts s of (r, calls, s') \<Rightarrow>
        if r \<noteq> None then (r, calls, s')
        else (case run_until deadline us s' of (r', calls', s'') \<Rightarrow> (r', calls @ calls', s'')))"
  by (induction ts arbitrary: s) (auto simp: Let_def case_prod_beta)

lemma example_turns_pending: "fst (run_until 3000 example_turns example_lifecycle) = None"
proof -
  let ?boot = "\<lparr>can_id = 0x701, can_len = 1, can_len8_dlc = 0, can_data = replicate 8 0\<rparr>"
  let ?s1 = "snd (snd (run_turn 3000 (example_turn 1000 ?boot) example_lifecycle))"
  have "fst (run_turn 3000 (example_turn 1000 ?boot) example_lifecycle) = None"
      "lc_next_check ?s1 = 10000000" "lc_termination_fd ?s1 = 9"
    using example_turn_runs [of 1000 3000 example_lifecycle ?boot] by (simp_all add: example_lifecycle_simps)
  then show ?thesis
    using example_turn_runs [of 2000 3000 ?s1] by (simp add: example_turns_def case_prod_beta Let_def)
qed

definition example_waiting_turns :: "turn_answers list" where
  "example_waiting_turns = example_turns @ [example_turn 3000 example_upload_answer]"

lemma example_waiting:
  "fst (run_until 3000 example_waiting_turns example_lifecycle) = Some (outcome_success Exit_deadline)"
  "snd (snd (run_until 3000 example_waiting_turns example_lifecycle)) = run_all [(3000, example_turns)] example_lifecycle"
proof -
  have "run_turn 3000 (example_turn 3000 f) s = (Some (outcome_success Exit_deadline), [], s)" for f s
    by (simp add: run_turn_def finish_def example_turn_def)
  then show "fst (run_until 3000 example_waiting_turns example_lifecycle) = Some (outcome_success Exit_deadline)"
    "snd (snd (run_until 3000 example_waiting_turns example_lifecycle)) = run_all [(3000, example_turns)] example_lifecycle"
    using example_turns_pending by (simp_all add: example_waiting_turns_def run_until_append case_prod_beta Let_def)
qed

text \<open>The clock starts at an arbitrary time.\<close>

definition example_commission :: commission_answers where
  "example_commission =
     \<lparr>cm_termination = \<lparr>te_set = None, te_block = None, te_signalfd = 9, te_signalfd_errno = 0, te_restore = None\<rparr>,
      cm_create = example_creation, cm_start = -10000000,
      cm_ready =
        [\<lparr>rt_condition = -9999000, rt_snapshot = -9998000, rt_base = -9997000, rt_turns = example_waiting_turns, rt_gate = []\<rparr>,
         \<lparr>rt_condition = 4000, rt_snapshot = 5000, rt_base = 5000, rt_turns = [], rt_gate = []\<rparr>],
      cm_nmt_now = 0, cm_nmt_gate = [], cm_nmt_sent = False, cm_first = example_attempt, cm_second = example_attempt\<rparr>"

definition example_arguments :: commission_arguments where
  "example_arguments =
     \<lparr>cg_interface = ''can0'', cg_nmt = None, cg_upload = Some (0x6041, 0), cg_retry_once = False\<rparr>"

lemma example_object: "parse_object ''6041:0'' = Some (0x6041, 0)"
  by (simp add: parse_object_def view_find_def parse_hex_def from_chars_def is_digit_def digit_value_def
      largest_values sdo_upload_size_def sdo_object.make_def)

lemma example_parsed:
  "parse_arguments [''--upload'', ''6041:0'', ''--interface'', ''can0''] = Some example_arguments"
  by (simp add: parse_arguments_def no_arguments_def example_object example_arguments_def)

lemma example_commission_config: "commission_config ''can0'' = example_config"
  by (simp add: commission_config_def example_config_def default_stack_config_def)

lemma example_ready:
  "ready_loop message 990000000 (cm_ready example_commission) (new_session example_lifecycle) =
     (Ready_done, example_session)"
proof -
  have unseen: "\<not> ob_boot_observed (observation_snapshot_of (- 9998000) example_lifecycle)"
    by (simp add: observation_snapshot_of_def example_lifecycle_simps) code_simp
  let ?s = "new_session (run_all [(3000, example_turns)] example_lifecycle)"
  have seen: "ob_boot_observed (observation_snapshot_of 5000 (run_all [(3000, example_turns)] example_lifecycle))"
      "fo_current (hb_frame (ob_heartbeat (observation_snapshot_of 5000 (run_all [(3000, example_turns)] example_lifecycle))))"
    using example_store_current example_run(1) example_store_ready(1) by (simp_all add: observation_snapshot_of_def)
  have "through_gate [] ((new_session example_lifecycle)\<lparr>se_lifecycle := run_all [(3000, example_turns)] example_lifecycle\<rparr>) =
      example_session" "se_lifecycle example_session = run_all [(3000, example_turns)] example_lifecycle"
    by (simp_all add: through_gate_def new_session_def example_session_def del: run_all.simps)
  then show ?thesis
    using unseen seen example_waiting
    by (simp add: example_commission_def new_session_def case_prod_beta Let_def del: run_all.simps)
qed

lemma example_result: "sdo_outcome example_value \<noteq> Sdo_abort"
  unfolding example_value_def example_upload_store_def by code_simp

lemma example_commission_runs:
  "\<exists>sent p'. commission_main message example_commission [''--upload'', ''6041:0'', ''--interface'', ''can0''] process_start =
     (Some 0, [sdo_data_line example_value], sent, p')"
proof -
  have event: "outcome_value (fst (termination_create (cm_termination example_commission) {})) = Some 9"
    by (simp add: termination_create_def example_commission_def)
  from example_lifecycle_created obtain calls where
    created: "lifecycle_create example_creation example_config 9 process_start =
      (outcome_success example_lifecycle, calls, lc_process example_lifecycle)"
    by blast
  from example_uploaded obtain s' where
    up: "upload example_attempt example_attempt 0x6041 0 False example_session = (Some (outcome_success example_value), s')"
    by blast
  then have "perform message example_commission example_arguments example_session =
      (Some 0, [sdo_data_line example_value], s')"
    using example_result by (simp add: perform_def example_arguments_def example_commission_def)
  then have "wait_and_perform message example_commission example_arguments example_lifecycle =
      (Some 0, [sdo_data_line example_value], s')"
    using example_ready [of message] by (simp add: wait_and_perform_def) (simp add: example_commission_def)
  moreover have "cm_create example_commission = example_creation" "cg_interface example_arguments = ''can0''"
    by (simp_all add: example_commission_def example_arguments_def)
  ultimately show ?thesis
    using event created by (simp add: commission_main_def example_parsed example_commission_config)
qed

theorem commission_prints_the_answer_witness:
  "\<exists>v t. t \<in> set example_upload_turns \<and> answers_request t 1 0x6041 0 4 v"
proof -
  from example_commission_runs obtain sent p' where
    run: "commission_main (\<lambda>n. []) example_commission [''--upload'', ''6041:0'', ''--interface'', ''can0''] process_start =
      (Some 0, [sdo_data_line example_value], sent, p')"
    by blast
  have "cg_upload example_arguments = Some (0x6041, 0)"
    by (simp add: example_arguments_def)
  from commission_prints_the_answer [OF run example_parsed this] show ?thesis
    by (auto simp: example_commission_def step_turns_def example_attempt_def example_step_def sdo_upload_size_def
        sdo_object.make_def)
qed

end
