(* ===== verification/Tools_Probe.thy ===== *)
theory Tools_Probe
  imports Tools_Text Platform_Socket Platform_Serial
begin

text \<open>
  \<open>src/tools/can_probe/main.cpp\<close>: the program that prints every frame it receives from a CAN
  interface, until a deadline or a signal.  The lemmas show which command lines it accepts, that
  it prints each frame it received exactly once and in order, numbered from one, and that a run
  ends at its deadline.
\<close>

section \<open>Options\<close>

record probe_options =
  pr_interface :: string
  pr_duration :: int

definition default_probe_options :: probe_options where
  "default_probe_options = \<lparr>pr_interface = [], pr_duration = 1000\<rparr>"

definition maximum_probe_duration :: int where "maximum_probe_duration = 60000"

definition probe_argument_error :: "string \<Rightarrow> int \<Rightarrow> probe_options outcome" where
  "probe_argument_error context error_number =
     outcome_failure (from_errno ''parse_arguments'' context error_number)"

text \<open>The value of \<open>--duration-ms\<close>: a number of milliseconds or the error.\<close>

definition probe_duration :: "string \<Rightarrow> (string \<times> int) + int" where
  "probe_duration v =
     (case from_chars 10 (2 ^ 64 - 1) v of
        Chars_out_of_range \<Rightarrow> Inl (''duration-ms overflow value='' @ v, ERANGE)
      | Chars_invalid \<Rightarrow> Inl (''invalid duration-ms value='' @ v, EINVAL)
      | Chars_value n rest \<Rightarrow>
          if rest \<noteq> [] then Inl (''invalid duration-ms value='' @ v, EINVAL)
          else if n = 0 \<or> int n > maximum_probe_duration
          then Inl (''duration-ms out of range value='' @ v, ERANGE)
          else Inr (int n))"

text \<open>The loop over the arguments, with what it has seen.\<close>

fun probe_arguments :: "string list \<Rightarrow> probe_options \<Rightarrow> bool \<Rightarrow> bool \<Rightarrow> probe_options outcome" where
  "probe_arguments [] opts interface_seen duration_seen =
     (if \<not> interface_seen then probe_argument_error ''missing required argument=--interface'' EINVAL
      else outcome_success opts)"
| "probe_arguments (a # rest) opts interface_seen duration_seen =
     (if a = ''--interface''
      then (if interface_seen then probe_argument_error ''duplicate argument=--interface'' EINVAL
            else if rest = [] \<or> starts_with (hd rest) ''--''
            then probe_argument_error ''missing value for --interface'' EINVAL
            else if hd rest = [] then probe_argument_error ''empty value for --interface'' EINVAL
            else probe_arguments (tl rest) (opts\<lparr>pr_interface := hd rest\<rparr>) True duration_seen)
      else if a = ''--duration-ms''
      then (if duration_seen then probe_argument_error ''duplicate argument=--duration-ms'' EINVAL
            else if rest = [] \<or> starts_with (hd rest) ''--''
            then probe_argument_error ''missing value for --duration-ms'' EINVAL
            else case probe_duration (hd rest) of
                Inl (context, error_number) \<Rightarrow> probe_argument_error context error_number
              | Inr ms \<Rightarrow> probe_arguments (tl rest) (opts\<lparr>pr_duration := ms\<rparr>) interface_seen True)
      else probe_argument_error (''unknown argument='' @ a) EINVAL)"

definition probe_parse_options :: "string list \<Rightarrow> probe_options outcome" where
  "probe_parse_options args = probe_arguments args default_probe_options False False"

section \<open>Lines\<close>

definition probe_usage :: console_line where
  "probe_usage =
     Out (''Usage: robot-control-can-probe --interface <ifname> [--duration-ms <milliseconds>]'' @ [endl] @
       ''       robot-control-can-probe --help'' @ [endl] @
       ''duration-ms must be in the range 1..'' @ decimal_int maximum_probe_duration @ ''.'' @ [endl])"

definition escaped :: "char \<Rightarrow> string" where
  "escaped c =
     (if c = CHR 0x5C then [CHR 0x5C, CHR 0x5C]
      else if c = dquote then [CHR 0x5C, dquote]
      else if c = endl then [CHR 0x5C, CHR ''n'']
      else if c = CHR 0x0D then [CHR 0x5C, CHR ''r'']
      else if c = CHR 0x09 then [CHR 0x5C, CHR ''t'']
      else [c])"

definition quoted :: "string \<Rightarrow> string" where
  "quoted s = dquote # concat (map escaped s) @ [dquote]"

definition probe_error :: "(int \<Rightarrow> string) \<Rightarrow> status \<Rightarrow> console_line" where
  "probe_error message st =
     Err (''event=error operation='' @ quoted (operation st) @ '' context='' @ quoted (status_context st) @
       '' errno='' @ decimal_int (error_code st) @ '' message='' @ quoted (message (error_code st)) @ [endl])"

definition format_can_id :: "u32 \<Rightarrow> string" where
  "format_can_id raw = ''0x'' @ zero_filled 8 (std_hex (unat raw))"

definition format_payload :: "classic_can_frame \<Rightarrow> string" where
  "format_payload f =
     concat (map (\<lambda>b. zero_filled 2 (std_hex (unat b))) (take (unat (payload_length f)) (frame_data f)))"

definition probe_frame_line :: "u64 \<Rightarrow> can_receive_observation \<Rightarrow> console_line" where
  "probe_frame_line sequence ob =
     (let f = ro_frame ob in
      Out (''event=frame sequence='' @ decimal (unat sequence) @ '' raw_can_id='' @ format_can_id (raw_can_id f) @
        '' payload_length='' @ decimal (unat (payload_length f)) @ '' len8_dlc='' @ decimal (unat (len8_dlc f)) @
        '' data='' @ format_payload f @
        (case ro_kernel_timestamp ob of
           Some t \<Rightarrow> '' kernel_timestamp_sec='' @ decimal_int (tv_sec t) @
                     '' kernel_timestamp_nsec='' @ decimal_int (tv_nsec t)
         | None \<Rightarrow> '' kernel_timestamp_sec=none kernel_timestamp_nsec=none'') @
        (case ro_rx_queue_overflow ob of
           Some n \<Rightarrow> '' rx_queue_overflow='' @ decimal (unat n)
         | None \<Rightarrow> '' rx_queue_overflow=none'') @ [endl]))"

definition probe_summary :: "string \<Rightarrow> u64 \<Rightarrow> int option \<Rightarrow> console_line" where
  "probe_summary reason frames signal =
     Out (''event=summary reason='' @ reason @
       (case signal of Some n \<Rightarrow> '' signal='' @ decimal_int n | None \<Rightarrow> []) @
       '' frames='' @ decimal (unat frames) @ [endl])"

definition probe_start :: "probe_options \<Rightarrow> can_socket \<Rightarrow> console_line" where
  "probe_start opts s =
     Out (''event=start probe_version=1 interface='' @ quoted (cs_interface_name s) @
       '' interface_index='' @ decimal (unat (cs_interface_index s)) @
       '' duration_ms='' @ decimal_int (pr_duration opts) @ [endl])"

section \<open>Running\<close>

text \<open>One turn: the clock, the clock and the turns of the receive call, and the read of the signal.\<close>

record probe_turn =
  pt_now :: time_ns
  pt_receive_now :: time_ns
  pt_receive :: "receive_turn list"
  pt_reads :: "(int \<times> int) list"
  pt_signo :: u32

text \<open>The exit code, or None while the run goes on, and the lines.\<close>

fun probe_loop ::
  "(int \<Rightarrow> string) \<Rightarrow> time_ns \<Rightarrow> int \<Rightarrow> can_socket \<Rightarrow> probe_turn list \<Rightarrow> u64 \<Rightarrow>
     int option \<times> console_line list" where
  "probe_loop message deadline fd s [] frames = (None, [])"
| "probe_loop message deadline fd s (t # ts) frames =
     (if pt_now t \<ge> deadline then (Some 0, [probe_summary ''deadline'' frames None])
      else case can_socket_receive (ceil_ms (deadline - pt_now t)) fd (pt_receive_now t) (pt_receive t) s of
        None \<Rightarrow> (None, [])
      | Some r \<Rightarrow>
          (case outcome_value r of
             None \<Rightarrow>
               if error_code (outcome_status r) \<noteq> ECANCELED then (Some 1, [probe_error message (outcome_status r)])
               else (case termination_consume (pt_reads t) (pt_signo t) of
                  None \<Rightarrow> (None, [])
                | Some c \<Rightarrow>
                    (case outcome_value c of
                       None \<Rightarrow> (Some 1, [probe_error message (outcome_status c)])
                     | Some signal \<Rightarrow>
                         if signal = 0 then probe_loop message deadline fd s ts frames
                         else (Some (128 + signal), [probe_summary ''signal'' frames (Some signal)])))
           | Some None \<Rightarrow> (Some 0, [probe_summary ''deadline'' frames None])
           | Some (Some ob) \<Rightarrow>
               let (code, rest) = probe_loop message deadline fd s ts (frames + 1)
               in (code, probe_frame_line (frames + 1) ob # rest)))"

definition CAN_ERR_MASK :: u32 where "CAN_ERR_MASK = 0x1FFFFFFF"

definition probe_socket_config :: can_socket_config where
  "probe_socket_config =
     default_socket_config\<lparr>cc_error_mask := CAN_ERR_MASK, cc_receive_timestamp := True,
       cc_receive_queue_overflow := True\<rparr>"

record probe_answers =
  pba_start :: time_ns
  pba_termination :: termination_answers
  pba_open :: open_answers
  pba_turns :: "probe_turn list"

text \<open>The exit code, the lines, and the calls that opened the socket.\<close>

definition run_probe ::
  "(int \<Rightarrow> string) \<Rightarrow> probe_answers \<Rightarrow> probe_options \<Rightarrow> int option \<times> console_line list \<times> socket_call list" where
  "run_probe message a opts =
     (let deadline = pba_start a + pr_duration opts * nanoseconds_per_millisecond;
          termination = fst (termination_create (pba_termination a) {}) in
      case outcome_value termination of
        None \<Rightarrow> (Some 1, [probe_error message (outcome_status termination)], [])
      | Some fd \<Rightarrow>
          let (opened, calls) = can_socket_open (pr_interface opts) probe_socket_config (pba_open a) in
          (case outcome_value opened of
             None \<Rightarrow> (Some 1, [probe_error message (outcome_status opened)], calls)
           | Some s \<Rightarrow>
               let (code, out) = probe_loop message deadline fd s (pba_turns a) 0
               in (code, probe_start opts s # out, calls)))"

definition probe_main ::
  "(int \<Rightarrow> string) \<Rightarrow> probe_answers \<Rightarrow> string list \<Rightarrow> int option \<times> console_line list \<times> socket_call list" where
  "probe_main message a args =
     (if args = [''--help''] then (Some 0, [probe_usage], [])
      else let parsed = probe_parse_options args in
        case outcome_value parsed of
          None \<Rightarrow> (Some 2, [probe_error message (outcome_status parsed), probe_usage], [])
        | Some opts \<Rightarrow> run_probe message a opts)"

section \<open>Which command lines are accepted\<close>

definition probe_options_ok :: "probe_options \<Rightarrow> bool" where
  "probe_options_ok opts \<longleftrightarrow>
     pr_interface opts \<noteq> [] \<and> \<not> starts_with (pr_interface opts) ''--'' \<and> pr_duration opts \<in> {1..60000}"

lemma probe_duration_range: "probe_duration v = Inr ms \<Longrightarrow> ms \<in> {1..60000}"
  by (auto simp: probe_duration_def maximum_probe_duration_def split: chars_result.splits if_splits)

lemma probe_duration_read:
  assumes "ms \<in> {1..60000}"
  shows "probe_duration (decimal (nat ms)) = Inr ms"
proof -
  from assms have "nat ms \<le> 2 ^ 64 - 1"
    by (simp add: nat_le_iff)
  with assms show ?thesis
    by (auto simp: probe_duration_def from_chars_decimal maximum_probe_duration_def)
qed

lemma probe_arguments_sound:
  "outcome_value (probe_arguments args opts i d) = Some opts' \<Longrightarrow> pr_duration opts \<in> {1..60000} \<Longrightarrow>
   (i \<Longrightarrow> probe_options_ok opts) \<Longrightarrow> probe_options_ok opts'"
proof (induction args opts i d rule: probe_arguments.induct)
  case (2 a rest opts i d)
  consider (interface) "a = ''--interface''" | (duration) "a \<noteq> ''--interface''" "a = ''--duration-ms''"
    | (unknown) "a \<noteq> ''--interface''" "a \<noteq> ''--duration-ms''"
    by blast
  then show ?case
  proof cases
    case interface
    with 2 show ?thesis
      by (auto simp: probe_argument_error_def probe_options_ok_def split: if_splits)
  next
    case duration
    from duration 2(3) obtain ms where ms: "\<not> d" "\<not> (rest = [] \<or> starts_with (hd rest) ''--'')"
        "probe_duration (hd rest) = Inr ms"
        "outcome_value (probe_arguments (tl rest) (opts\<lparr>pr_duration := ms\<rparr>) i True) = Some opts'"
      by (auto simp: probe_argument_error_def split: if_splits sum.splits)
    have "i \<Longrightarrow> probe_options_ok (opts\<lparr>pr_duration := ms\<rparr>)"
      using 2(5) probe_duration_range [OF ms(3)] by (simp add: probe_options_ok_def)
    with 2(2) [OF duration(1,2) ms(1-4)] probe_duration_range [OF ms(3)] show ?thesis
      by simp
  next
    case unknown
    with 2(3) show ?thesis
      by (simp add: probe_argument_error_def)
  qed
qed (auto simp: probe_argument_error_def split: if_splits)

text \<open>Options are accepted only when they are valid, and the valid ones are read back in either order.\<close>

theorem probe_options_roundtrip:
  "(\<forall>opts. outcome_value (probe_parse_options args) = Some opts \<longrightarrow> probe_options_ok opts) \<and>
   (probe_options_ok wanted \<longrightarrow>
      probe_parse_options [''--interface'', pr_interface wanted, ''--duration-ms'', decimal (nat (pr_duration wanted))] =
        outcome_success wanted \<and>
      probe_parse_options [''--duration-ms'', decimal (nat (pr_duration wanted)), ''--interface'', pr_interface wanted] =
        outcome_success wanted)"
proof -
  have "\<not> starts_with (decimal n) ''--''" for n
    using decimal_digits starts_with_digits by blast
  then show ?thesis
    using probe_arguments_sound [of args default_probe_options False False]
    by (auto simp: probe_parse_options_def probe_options_ok_def default_probe_options_def probe_duration_read)
qed

section \<open>What a run prints\<close>

text \<open>What one turn receives, and whether it goes on without a frame.\<close>

definition turn_receives :: "time_ns \<Rightarrow> int \<Rightarrow> can_socket \<Rightarrow> probe_turn \<Rightarrow> can_receive_observation option" where
  "turn_receives deadline fd s t =
     (if pt_now t \<ge> deadline then None
      else case can_socket_receive (ceil_ms (deadline - pt_now t)) fd (pt_receive_now t) (pt_receive t) s of
        None \<Rightarrow> None
      | Some r \<Rightarrow> (case outcome_value r of Some (Some ob) \<Rightarrow> Some ob | _ \<Rightarrow> None))"

fun numbered :: "u64 \<Rightarrow> can_receive_observation list \<Rightarrow> console_line list" where
  "numbered n [] = []"
| "numbered n (ob # obs) = probe_frame_line (n + 1) ob # numbered (n + 1) obs"

lemma numbered_nth: "i < length obs \<Longrightarrow> numbered n obs ! i = probe_frame_line (n + 1 + of_nat i) (obs ! i)"
  by (induction obs arbitrary: n i) (auto simp: nth_Cons' algebra_simps of_nat_diff)

text \<open>The last line and the exit code, after so many frames.\<close>

definition probe_end :: "(int \<Rightarrow> string) \<Rightarrow> u64 \<Rightarrow> int \<Rightarrow> console_line \<Rightarrow> bool" where
  "probe_end message frames code final \<longleftrightarrow>
     code = 0 \<and> final = probe_summary ''deadline'' frames None \<or>
     code = 1 \<and> (\<exists>st. final = probe_error message st) \<or>
     (\<exists>signal. signal \<noteq> 0 \<and> code = 128 + signal \<and> final = probe_summary ''signal'' frames (Some signal))"

text \<open>What a run over some turns prints that numbers its frames after the first ones.\<close>

definition probe_reports ::
  "(int \<Rightarrow> string) \<Rightarrow> (probe_turn \<Rightarrow> can_receive_observation option) \<Rightarrow> probe_turn list \<Rightarrow> u64 \<Rightarrow> int \<Rightarrow>
     console_line list \<Rightarrow> bool" where
  "probe_reports message rx ts frames code out \<longleftrightarrow>
     (\<exists>before t after final. ts = before @ t # after \<and> rx t = None \<and>
        out = numbered frames (List.map_filter rx before) @ [final] \<and>
        probe_end message (frames + of_nat (length (List.map_filter rx before))) code final)"

lemma probe_reports_end:
  "rx t = None \<Longrightarrow> probe_end message frames code final \<Longrightarrow> probe_reports message rx (t # ts) frames code [final]"
  unfolding probe_reports_def
  by (intro exI [of _ "[]"] exI [of _ t] exI [of _ ts] exI [of _ final]) (simp add: map_filter_simps)

lemma probe_reports_quiet:
  assumes "rx t = None" and "probe_reports message rx ts frames code out"
  shows "probe_reports message rx (t # ts) frames code out"
proof -
  from assms(2) obtain before t' after final where "ts = before @ t' # after" "rx t' = None"
      "out = numbered frames (List.map_filter rx before) @ [final]"
      "probe_end message (frames + of_nat (length (List.map_filter rx before))) code final"
    unfolding probe_reports_def by blast
  with assms(1) show ?thesis
    unfolding probe_reports_def
    by (intro exI [of _ "t # before"] exI [of _ t'] exI [of _ after] exI [of _ final]) (simp add: map_filter_simps)
qed

lemma probe_reports_frame:
  assumes "rx t = Some ob" and "probe_reports message rx ts (frames + 1) code out"
  shows "probe_reports message rx (t # ts) frames code (probe_frame_line (frames + 1) ob # out)"
proof -
  from assms(2) obtain before t' after final where "ts = before @ t' # after" "rx t' = None"
      "out = numbered (frames + 1) (List.map_filter rx before) @ [final]"
      "probe_end message (frames + 1 + of_nat (length (List.map_filter rx before))) code final"
    unfolding probe_reports_def by blast
  with assms(1) show ?thesis
    unfolding probe_reports_def
    by (intro exI [of _ "t # before"] exI [of _ t'] exI [of _ after] exI [of _ final])
      (simp add: map_filter_simps algebra_simps)
qed

lemma probe_deadline_end: "probe_end message frames 0 (probe_summary ''deadline'' frames None)"
  by (simp add: probe_end_def)

text \<open>A turn without a frame: the run ends with one line, or a signal was not there after all.\<close>

lemma probe_failed_turn:
  assumes "probe_loop message deadline fd s (t # ts) frames = (Some code, out)" and "pt_now t < deadline"
    and "can_socket_receive (ceil_ms (deadline - pt_now t)) fd (pt_receive_now t) (pt_receive t) s = Some r"
    and "outcome_value r = None"
  shows "(\<exists>final. out = [final] \<and> probe_end message frames code final) \<or>
    probe_loop message deadline fd s ts frames = (Some code, out)"
  using assms by (auto simp: probe_end_def split: if_splits option.splits)

lemma probe_loop_prints:
  "probe_loop message deadline fd s ts frames = (Some code, out) \<Longrightarrow>
   probe_reports message (turn_receives deadline fd s) ts frames code out"
proof (induction ts arbitrary: frames out)
  case (Cons t ts)
  let ?rx = "turn_receives deadline fd s"
  let ?r = "can_socket_receive (ceil_ms (deadline - pt_now t)) fd (pt_receive_now t) (pt_receive t) s"
  consider (late) "pt_now t \<ge> deadline" | (failed) r where "pt_now t < deadline" "?r = Some r" "outcome_value r = None"
    | (quiet) r where "pt_now t < deadline" "?r = Some r" "outcome_value r = Some None"
    | (frame) r ob where "pt_now t < deadline" "?r = Some r" "outcome_value r = Some (Some ob)"
    using Cons.prems by (cases ?r; cases "outcome_value (the ?r)"; cases "the (outcome_value (the ?r))") force+
  then show ?case
  proof cases
    case late
    then have "?rx t = None"
      by (simp add: turn_receives_def)
    from probe_reports_end [where rx = ?rx, OF this probe_deadline_end, of message ts frames] show ?thesis
      using Cons.prems late by simp
  next
    case failed
    then have "?rx t = None"
      by (simp add: turn_receives_def)
    with probe_failed_turn [OF Cons.prems failed] Cons.IH show ?thesis
      using probe_reports_end probe_reports_quiet by blast
  next
    case quiet
    then have "?rx t = None"
      by (simp add: turn_receives_def)
    from probe_reports_end [where rx = ?rx, OF this probe_deadline_end, of message ts frames] show ?thesis
      using Cons.prems quiet by simp
  next
    case frame
    obtain c rest where rest: "probe_loop message deadline fd s ts (frames + 1) = (c, rest)"
      by (cases "probe_loop message deadline fd s ts (frames + 1)")
    with Cons.prems frame have "c = Some code" "out = probe_frame_line (frames + 1) ob # rest"
      by simp_all
    moreover have "?rx t = Some ob"
      using frame by (simp add: turn_receives_def)
    ultimately show ?thesis
      using Cons.IH rest probe_reports_frame by blast
  qed
qed simp

lemma probe_loop_returns:
  assumes "list_all (\<lambda>t. can_socket_receive (ceil_ms (deadline - pt_now t)) fd (pt_receive_now t) (pt_receive t) s \<noteq> None \<and>
      termination_consume (pt_reads t) (pt_signo t) \<noteq> None) ts"
    and "list_ex (\<lambda>t. deadline \<le> pt_now t) ts"
  shows "fst (probe_loop message deadline fd s ts frames) \<noteq> None"
  using assms
proof (induction ts arbitrary: frames)
  case (Cons t ts)
  then show ?case
    by (auto simp: case_prod_beta Let_def split: option.split)
qed simp

text \<open>
  C27: A run of the CAN probe ends when the clock passes its deadline, provided that its system calls
  return.  When it ends, it has printed every frame it received, once and in order, numbered from
  one, and then one last line; its exit code is 0 with the summary for the deadline, 128 and
  the signal with the summary for the signal, or 1 with an error, and the summary counts the frames.
\<close>

theorem probe_reports_every_frame:
  "(list_all (\<lambda>t. can_socket_receive (ceil_ms (deadline - pt_now t)) fd (pt_receive_now t) (pt_receive t) s \<noteq> None \<and>
        termination_consume (pt_reads t) (pt_signo t) \<noteq> None) ts \<and>
    list_ex (\<lambda>t. deadline \<le> pt_now t) ts \<longrightarrow>
      fst (probe_loop message deadline fd s ts 0) \<noteq> None) \<and>
   (\<forall>code out. probe_loop message deadline fd s ts 0 = (Some code, out) \<longrightarrow>
      (\<exists>before t after obs final. ts = before @ t # after \<and> turn_receives deadline fd s t = None \<and>
         obs = List.map_filter (turn_receives deadline fd s) before \<and>
         out = numbered 0 obs @ [final] \<and> probe_end message (of_nat (length obs)) code final))"
  using probe_loop_returns probe_loop_prints [of message deadline fd s ts 0] unfolding probe_reports_def by fastforce

section \<open>An example\<close>

text \<open>A frame is received, then the clock reaches the deadline.\<close>

definition example_probe_turns :: "probe_turn list" where
  "example_probe_turns =
     map (\<lambda>now. \<lparr>pt_now = now, pt_receive_now = now, pt_receive = example_receive_turns,
       pt_reads = [(128, 0)], pt_signo = 2\<rparr>) [0, 20000000]"

lemma example_probe_answers:
  "list_all (\<lambda>t. can_socket_receive (ceil_ms (10000000 - pt_now t)) 9 (pt_receive_now t) (pt_receive t) example_socket \<noteq> None \<and>
     termination_consume (pt_reads t) (pt_signo t) \<noteq> None) example_probe_turns"
  "map (turn_receives 10000000 9 example_socket) example_probe_turns =
     [Some \<lparr>ro_frame = example_sent, ro_kernel_timestamp = None, ro_rx_queue_overflow = Some 7\<rparr>, None]"
  by code_simp+

theorem probe_reports_every_frame_witness:
  "\<exists>code before t after obs final.
     probe_loop (\<lambda>n. []) 10000000 9 example_socket example_probe_turns 0 = (Some code, numbered 0 obs @ [final]) \<and>
     example_probe_turns = before @ t # after \<and>
     obs = List.map_filter (turn_receives 10000000 9 example_socket) before \<and>
     probe_end (\<lambda>n. []) (of_nat (length obs)) code final"
proof -
  let ?r = "probe_loop (\<lambda>n. []) 10000000 9 example_socket example_probe_turns 0"
  have "list_ex (\<lambda>t. 10000000 \<le> pt_now t) example_probe_turns"
    by (simp add: example_probe_turns_def)
  with probe_reports_every_frame [of 10000000 9 example_socket example_probe_turns "\<lambda>n. []"] example_probe_answers(1)
  have "fst ?r \<noteq> None" and reports: "\<forall>code out. ?r = (Some code, out) \<longrightarrow>
      (\<exists>before t after obs final. example_probe_turns = before @ t # after \<and> turn_receives 10000000 9 example_socket t = None \<and>
         obs = List.map_filter (turn_receives 10000000 9 example_socket) before \<and>
         out = numbered 0 obs @ [final] \<and> probe_end (\<lambda>n. []) (of_nat (length obs)) code final)"
    by blast+
  then obtain code where "?r = (Some code, snd ?r)"
    by (metis prod.collapse option.exhaust)
  with reports show ?thesis
    by metis
qed

end
