(* ===== verification/Tools_Platform.thy ===== *)
theory Tools_Platform
  imports Tools_Text Platform_Timer Platform_Serial Service_Logger
begin

text \<open>
  \<open>src/tools/platform_probe/main.cpp\<close>: the smoke test of the target.  It reports the kernel and the
  clock, or runs one operation of each part of the platform layer and logs a line; its exit code
  names the part that failed.  The lemmas give the exit code of the smoke test exactly, and show that
  the test that passes has logged its line.
\<close>

section \<open>The smoke test\<close>

definition platform_usage :: console_line where
  "platform_usage = Out (''Usage: robot-control-platform-probe [--help|--phase3-smoke]'' @ [endl])"

record smoke_answers =
  ph_clock :: clock_answer
  ph_sleeps :: "int list"
  ph_termination :: termination_answers
  ph_serial :: serial_answers
  ph_seconds :: int

definition missing_device :: string where
  "missing_device = ''/definitely/missing/robot-control-phase3-probe''"

definition smoke_line :: "int \<Rightarrow> line_content" where
  "smoke_line seconds =
     \<lparr>lc_severity = Sev_info, lc_module = ''platform_probe'', lc_event = ''phase3_smoke'',
      lc_context = ''result=pass'', lc_seconds = seconds\<rparr>"

text \<open>The part before the logger: None while the sleep goes on, otherwise the code of a failure.\<close>

definition smoke_check :: "smoke_answers \<Rightarrow> int option option" where
  "smoke_check a =
     (case outcome_value (clock_now (ph_clock a)) of
        None \<Rightarrow> Some (Some 3)
      | Some now \<Rightarrow>
          (case fst (sleep_until now (ph_sleeps a)) of
             None \<Rightarrow> None
           | Some st \<Rightarrow>
               Some (if \<not> status_ok st then Some 3
                     else if \<not> outcome_ok (fst (termination_create (ph_termination a) {})) then Some 4
                     else if outcome_ok (fst (serial_open missing_device default_serial_config (ph_serial a)))
                     then Some 5 else None)))"

text \<open>The logger is the first one of the process, so its constructor initialises EasyLogger.\<close>

definition phase3_smoke ::
  "elog_cfg \<Rightarrow> output_env \<Rightarrow> string \<Rightarrow> string \<Rightarrow> smoke_answers \<Rightarrow> elog_state \<Rightarrow>
     (elog_stop + int \<times> port_event list) option" where
  "phase3_smoke cfg env elog_file src_file a s =
     (case smoke_check a of
        None \<Rightarrow> None
      | Some (Some code) \<Rightarrow> Some (Inr (code, []))
      | Some None \<Rightarrow>
          Some (case initialize_easylogger cfg env elog_file s of
              Inl stop_ \<Rightarrow> Inl stop_
            | Inr (u, evs, s) \<Rightarrow>
                (case log_step cfg env src_file (Log (smoke_line (ph_seconds a))) [] s of
                   Inl stop_ \<Rightarrow> Inl stop_
                 | Inr (evs', ths, s) \<Rightarrow> Inr (0, evs @ evs'))))"

section \<open>The report\<close>

record utsname =
  un_sysname :: string
  un_release :: string
  un_machine :: string

record report_answers =
  rp_uname :: "int + utsname"
  rp_now :: time_ns
  rp_pid :: int

definition report_platform :: "(int \<Rightarrow> string) \<Rightarrow> report_answers \<Rightarrow> int \<times> console_line list" where
  "report_platform message a =
     (case rp_uname a of
        Inl errno \<Rightarrow>
          (2, [Err (''operation=uname errno='' @ decimal_int errno @ '' message='' @ [dquote] @ message errno @
             [dquote, endl])])
      | Inr identity \<Rightarrow>
          (0, [Out (''probe_version=1'' @ [endl] @ ''sysname='' @ un_sysname identity @ [endl] @
             ''release='' @ un_release identity @ [endl] @ ''machine='' @ un_machine identity @ [endl] @
             ''pid='' @ decimal_int (rp_pid a) @ [endl] @ ''monotonic_ns='' @ decimal_int (rp_now a) @ [endl])]))"

datatype platform_action = Show_usage int | Run_smoke | Run_report

definition platform_main :: "string list \<Rightarrow> platform_action" where
  "platform_main args =
     (if args = [''--help''] then Show_usage 0
      else if args = [''--phase3-smoke''] then Run_smoke
      else if args \<noteq> [] then Show_usage 1
      else Run_report)"

section \<open>What the exit code says\<close>

text \<open>
  The smoke test passes exactly when the clock answers a time that can be slept until, the
  termination event can be created, and the missing device is not opened; then it logs its one
  line after the start record of EasyLogger.
\<close>

definition smoke_passes :: "smoke_answers \<Rightarrow> bool" where
  "smoke_passes a \<longleftrightarrow> smoke_check a = Some None"

lemma smoke_passes_iff:
  "smoke_passes a \<longleftrightarrow>
     (\<exists>t st. ph_clock a = Inr t \<and> fst (sleep_until (timespec_ns t) (ph_sleeps a)) = Some st \<and> status_ok st) \<and>
     outcome_ok (fst (termination_create (ph_termination a) {})) \<and>
     \<not> outcome_ok (fst (serial_open missing_device default_serial_config (ph_serial a)))"
  by (auto simp: smoke_passes_def smoke_check_def clock_now_def split: sum.splits option.splits if_splits)

lemma smoke_check_cases:
  "smoke_check a = None \<or> smoke_check a = Some None \<or>
   (\<exists>code. smoke_check a = Some (Some code) \<and> code \<in> {3, 4, 5})"
  by (simp add: smoke_check_def split: option.split)

theorem smoke_exit_code:
  assumes "cfg_ok cfg" and "OUTPUT_MODE cfg = Output_direct"
    and "phase3_smoke cfg env elog_file src_file a (elog_initial cfg) = Some r"
  shows "\<exists>code events. r = Inr (code, events) \<and> (code = 0 \<longleftrightarrow> smoke_passes a) \<and> code \<in> {0, 3, 4, 5} \<and>
    port_outputs events =
      (if code = 0 then [start_record cfg, line_record cfg (smoke_line (ph_seconds a), 0)] else [])"
proof (cases "smoke_passes a")
  case True
  from initialize_ready [OF assms(1,2)] obtain evs s where
    s: "initialize_easylogger cfg env elog_file (elog_initial cfg) = Inr ((), evs, s)" "logger_ready cfg s"
      "serialized evs" "port_outputs evs = [start_record cfg]"
    by blast
  from log_run_prints [OF assms(1,2) s(2), of env src_file "[Log (smoke_line (ph_seconds a))]" "[]"]
  obtain evs' ths s' where
    "log_run cfg env src_file [Log (smoke_line (ph_seconds a))] [] s = Inr (evs', ths, s')"
    "port_outputs evs' = map (line_record cfg) (admitted_lines [Log (smoke_line (ph_seconds a))] [])"
    by blast
  then show ?thesis
    using True assms(3) s
    by (auto simp: phase3_smoke_def smoke_passes_def split: sum.splits)
next
  case False
  with assms(3) smoke_check_cases [of a] obtain code where
    code: "smoke_check a = Some (Some code)" "code \<in> {3, 4, 5}"
    by (auto simp: phase3_smoke_def smoke_passes_def)
  then have "r = Inr (code, [])" "code \<noteq> 0"
    using assms(3) by (auto simp: phase3_smoke_def)
  with False code show ?thesis
    by auto
qed

end
