(* ===== verification/Spec2Isabelle.thy ===== *)
theory Spec2Isabelle
  imports Domain_Safety Canopen_Gate Canopen_Commissioning Platform_Timer Platform_Socket Platform_Serial Service_Logger Elog_Scan Elog_Port Easyflash_Store Elog_File Tools_Observer Tools_Commission Tools_Probe Tools_Platform
begin

text \<open>
  Verification library of robot_control: the Linux program that drives a two-axis servo over
  CANopen.  Its own logic is under \<open>src/domain\<close> (commands, arbitration, drive states, safety),
  \<open>src/communication/canopen\<close> (owner of the CAN connection, observations of the remote node,
  commissioning), \<open>src/platform/linux\<close>, \<open>src/service/logging\<close> and the programs under
  \<open>src/tools\<close>; it carries the logging library
  EasyLogger under \<open>src/components/EasyLogger\<close> and links CANopenNode, a submodule whose code is not
  in the repository.

  \<^bold>\<open>How the parts interact.\<close>  In each control cycle the arbiter chooses between the samples of the
  remote control and of the external controller; the safety manager takes the command the arbiter
  bounded, the freshness of communication and the decoded drive states, and either approves the
  command or inhibits.  On the CANopen side the lifecycle owns the socket: it claims the generated
  object dictionary, opens the stack, and on every turn copies each frame that arrives into the
  observation store before CANopenNode processes it.  Readers take snapshots of the store.  The
  commissioning session runs the lifecycle while CANopenNode transfers an object; every frame that
  CANopenNode wants to send passes the transmit gate, which compares it with a single authorized
  frame.  Everything logs through EasyLogger, whose output ends in the port of the program.

  \<^bold>\<open>Shared theories.\<close>
  RC_Prelude: machine integers as words of their width, runs of step functions, the locale
  \<open>stamped_machine\<close> (a step function whose selected outputs carry strictly increasing stamps).
  RC_Text: decimal and fixed-width hexadecimal output of numbers.
  Platform_Error: \<open>Status\<close> and \<open>Result\<close> of \<open>platform/linux/error.hpp\<close>; a status is a record, a result
  an \<open>outcome\<close> that holds a value or a status.

  \<^bold>\<open>Control.\<close>
  Domain_Command: \<open>is_fresh\<close> and \<open>CommandSample\<close>.
  Domain_Arbiter: \<open>ControlArbiter\<close>; the record \<open>arbiter\<close> has its private members,
  \<open>arbiter_evaluate\<close> its method.  The lemmas show which source is selected and when
  (\<open>arbiter_selects_by_authority\<close>), that a handover needs an observed continuous zero dwell, that no
  authorization generation is used twice and that a revoked one stays revoked.
  Domain_Cia402: \<open>cia402.cpp\<close>; decoding has a partial inverse.
  Domain_Safety: \<open>SafetyManager\<close> and the cycle \<open>safety_evaluate\<close> after \<open>arbiter_evaluate\<close>.  The lemmas
  show exactly when motion is approved, that approved motion has an authority and is within the
  limits, that every other decision fails closed, and that rearming and fault resets are never
  replayed (both by interpretation of \<open>stamped_machine\<close>).

  \<^bold>\<open>Linux platform.\<close>  What the kernel answers to each call is an argument; the calls that change
  something outside are part of the result.
  Platform_Wait: \<open>poll_wait.cpp\<close>: waiting for readiness or cancellation with one deadline.
  Platform_Timer: \<open>monotonic_timer.cpp\<close>: absolute sleeps and the periodic timer, whose deadlines keep
  their phase whatever the delay (\<open>periodic_deadlines_keep_phase\<close>).
  Platform_Can: \<open>classic_frame.cpp\<close>, with the kernel's frame and constants.
  Platform_Socket: \<open>CanSocket\<close> and \<open>UniqueFd\<close>: opening sets the filters and options before it binds and
  leaks no descriptor on any failure, a send hands over one whole frame or reports an error, and a
  frame sent is the frame received.
  Platform_Serial: \<open>SerialPort\<close> and \<open>TerminationEvent\<close>.

  \<^bold>\<open>CANopen.\<close>
  Canopen_Gate: \<open>transmit_gate.c\<close> and \<open>commissioning_gate.c\<close>.  Both are instances of the locale
  \<open>transmit_gate\<close>, whose laws give the safety of any sequence of calls: only the reviewed frames are
  sent, and at most one per authorization.
  Canopen_Config: \<open>validate_stack_config\<close>.
  Canopen_OD: the generated \<open>od/OD.c\<close>: storage groups, object descriptors with their pointers, the
  list of entries and the shortcut macros of \<open>OD.h\<close>, with lemmas on their consistency.
  Canopen_Storage: \<open>StackStorage\<close>: the process-wide claim, the reset of the generated dictionary, its
  receive configuration, creation and destruction.  \<open>CO_new\<close> is an argument.
  Canopen_Observation: \<open>ObservationStore\<close>; every operation is atomic under its mutex, so a history of
  the store is a list of events, newest first (\<open>store_after\<close>).  By an invariant of the histories, what
  a snapshot calls current is a frame of the remote node, of the present transport and boot
  generation, received within the time limits; an SDO result answers the newest request; and
  \<open>advance_time\<close> is invisible to readers.
  Canopen_Provenance: the frames in the store are frames that were ingested.
  Canopen_Lifecycle: \<open>Lifecycle\<close>.  The state has the private members; what the kernel and CANopenNode
  answer in one turn of \<open>run_until\<close> is a record \<open>turn_answers\<close>, and the calls that are made are
  results.  The lemmas show that creating and reopening are all or nothing, with the dictionary
  programmed for the configuration, that a run waits and processes at most once for each turn
  before its deadline and returns, with an exit whose reason occurred, and that a current record of
  a snapshot was taken from the socket in one of the turns: every guard of the receive held for it
  (\<open>frame_taken\<close>).
  Canopen_Commissioning: \<open>CommissioningSession\<close>.  The lemmas compose the gate, the lifecycle and the
  store: an NMT command or an upload sends its own request only, no authorization survives it, and
  the returned value is taken from a response that this upload received.

  \<^bold>\<open>Logging.\<close>
  Elog_Config: both \<open>elog_cfg.h\<close> as values of a configuration record.
  Elog_Utils: \<open>elog_utils.c\<close> and the string functions of the C library.
  Elog_Lock: the switchable lock of \<open>elog.c\<close> and of the flash plugin, both instances of \<open>section_lock\<close>.
  Elog_Async: the ring buffer, its readers (instances of \<open>log_queue\<close>) and the output thread.  The
  labelled relation \<open>async_step\<close> interleaves producers and the thread in any order; what has to be
  printed is a function of the labels.  As long as no empty record is put (a defect,
  \<open>empty_record_corrupts_ring\<close>) nothing is lost, altered or reordered.
  Elog_Buf: the buffered mode.
  Elog_Core, Elog_Tags, Elog_Output, Elog_Scan: \<open>elog.c\<close>: settings, the table of levels per tag (a map
  from tags to levels), formatting of records, raw output, hex dump, and the functions that find
  level and tag of a printed record.
  Elog_Flash: the buffered flash plugin.  EasyFlash is an argument; the contract it has to keep is a
  bounded append-only store.  The trace of a write has the lock calls and every access to the
  buffer, so that an access outside the critical section shows.
  Easyflash_Port, Easyflash_Log, Easyflash_Scan, Easyflash_Store: the saved log of EasyFlash as the
  RT-Thread demo of EasyLogger ships it (\<open>ef_log.c\<close>, \<open>ef_utils.c\<close>, \<open>ef_port.c\<close>): reading and
  programming the flash, the status of a sector, writing, reading and cleaning the ring of sectors,
  and the scan that finds the log again after a reset.  The log has three shapes (empty, in its
  first lap, wrapped; \<open>ef_log_ok\<close>), every write goes from one to another, and \<open>ef_log_contents\<close>
  reads it as a sequence of bytes.  \<open>flash_write_on_easyflash\<close> puts this store behind the plugin.
  Elog_Port: \<open>easylogger_port.c\<close>: bounded non-blocking output and its health counters.
  Elog_File: the file plugin: rotation of the log files and the write that rotates before it appends.
  \<open>file_write_keeps_recent_log\<close> shows that the files read oldest first are the log, and that a write
  drops nothing from it or exactly the oldest file.
  Service_Logger: \<open>logger.cpp\<close>: severities, the health levels, and the throttle of repeated events.  The
  throttle is equivalent to a rule on the history of its events, and every event it is given is
  printed or counted in the next line that is.

  \<^bold>\<open>Command line tools.\<close>  Each program under \<open>src/tools\<close> is a function of its arguments and of the
  answers of the outside; its result has the exit code and the lines it prints, in order.
  Tools_Text: \<open>std::string_view\<close>, \<open>std::from_chars\<close> and stream output; printed numbers are read back.
  Tools_Observer: \<open>canopen_observer\<close>; every valid configuration is read back from any order of its
  options, and a run prints each version of the snapshot once (\<open>observer_run_reports\<close>).
  Tools_Commission: \<open>canopen_commission\<close>, the composition of the lifecycle, the session and the gate:
  only the operation asked for leaves the program, and what it prints is what node 1 answered.
  Tools_Probe: \<open>can_probe\<close>; every frame received is printed once, in order, with its number.
  Tools_Platform: \<open>platform_probe\<close>; what the exit code of the smoke test says.

  \<^bold>\<open>Conventions.\<close>  Operations take the state and return it updated; a call of code that is not in the
  repository is an argument with its answer, and the calls made are part of the result where their
  order matters.  An operation of EasyLogger ends in a stop (\<open>Inl\<close>: a failed assertion without a
  hook, or an access outside a buffer) or in a result, so that theorems about it show that no access
  leaves a buffer.  Memory is a list of characters of the declared length.  Times are integers
  (nanoseconds), because \<open>std::chrono\<close> values stay far from the ends of their range.

  \<^bold>\<open>Bounds.\<close>  \<open>run_until\<close>, the loop of \<open>upload\<close>, the waits of the platform layer and the polling thread
  consume lists of answers of the outside; when the list ends before the operation does, the result
  says so (\<open>None\<close>), and \<open>run_until_returns\<close> and \<open>output_thread_drains\<close> show that enough answers end it.
  \<open>elog_hexdump\<close> is the one operation on fuel, because its loop may not end: \<open>None\<close> says that the fuel is
  used up.  \<open>hexdump_terminates\<close> shows that more fuel than bytes is enough when the width is positive
  and the end of the last line is below 2^16, and \<open>hexdump_diverges\<close> gives inputs for which no
  fuel is enough.  The write loop of the port repeats an interrupted write at most eight times, as the
  code does.  Flash addresses are naturals: the configured area ends below 2^30, so that only
  differences can wrap, and these are written with the wrap-around of \<open>uint32_t\<close>.

  \<^bold>\<open>Not modelled.\<close>  CANopenNode, whose code is not here; of EasyFlash the environment
  variables, the in-application programming and the debug output, which logging does not use; the
  compile-time switches of \<open>CO_driver_custom.h\<close>, which hold no code; the other demo projects, port templates
  and vendored drivers of EasyLogger, which the program does not build; tests, scripts and build files.
  Three kinds of detail are left out of modelled code: the wording of \<open>printf\<close> formats that belongs to
  the C library (the formatted text is an argument), the memory order of the atomic counters of
  the port, and the extent of the two small local arrays of \<open>elog_output\<close> (\<open>tag_sapce\<close>, \<open>line_num\<close>):
  they are strings of the length that the code writes, so only accesses to the line buffer and to
  the fields of the logger are shown to be in bounds.
\<close>

end
